(* ===== verification/AWG_Base.thy ===== *)
theory AWG_Base
  imports Main "HOL-Library.Word" "HOL-Library.Monad_Syntax"
begin

text \<open>
  Shared vocabulary of the development: the machine types of the C code, byte lists as
  memory, checked reads and writes (\<open>None\<close> is an access outside the buffer, undefined
  behaviour in C), the little-endian view of integers that \<open>memcpy\<close> gives on the
  little-endian targets, and the list lemmas the components share.
\<close>

unbundle bit_operations_syntax

section \<open>Machine types\<close>

type_synonym u8 = "8 word"
type_synonym u16 = "16 word"
type_synonym u32 = "32 word"
type_synonym u64 = "64 word"
type_synonym bytes = "u8 list"

named_theorems mem_simps \<open>sizes and slices of memory after checked accesses\<close>

section \<open>Integers as bytes\<close>

text \<open>\<open>le_bytes k n\<close> is what \<open>memcpy\<close> of a \<open>k\<close>-byte unsigned integer of value
  \<open>n\<close> stores; \<open>le_val\<close> reads it back.\<close>

primrec le_bytes :: "nat \<Rightarrow> nat \<Rightarrow> bytes" where
  "le_bytes 0 n = []"
| "le_bytes (Suc k) n = word_of_nat (n mod 256) # le_bytes k (n div 256)"

primrec le_val :: "bytes \<Rightarrow> nat" where
  "le_val [] = 0"
| "le_val (b # bs) = unat b + 256 * le_val bs"

lemma length_le_bytes [simp]: "length (le_bytes k n) = k"
  by (induction k arbitrary: n) auto

lemma unat_u8_of_nat: "unat (word_of_nat n :: u8) = n mod 256"
  by (simp add: unat_of_nat)

lemma u8_less [simp]: "unat (b :: u8) < 256"
  using unsigned_less [of b] by simp

lemma le_val_le_bytes: "le_val (le_bytes k n) = n mod 256 ^ k"
proof (induction k arbitrary: n)
  case 0
  then show ?case by simp
next
  case (Suc k)
  have "n mod 256 + 256 * (n div 256 mod 256 ^ k) = n mod (256 * 256 ^ k)"
    by (simp add: mod_mult2_eq)
  with Suc show ?case by (simp add: unat_u8_of_nat)
qed

lemma le_bytes_le_val: "length bs = k \<Longrightarrow> le_bytes k (le_val bs) = bs"
proof (induction bs arbitrary: k)
  case Nil
  then show ?case by simp
next
  case (Cons b bs)
  from Cons.prems obtain j where j: "k = Suc j" "length bs = j" by (cases k) auto
  have "(unat b + 256 * le_val bs) mod 256 = unat b"
    and "(unat b + 256 * le_val bs) div 256 = le_val bs"
    using u8_less [of b] by auto
  with Cons.IH [OF j(2)] j(1) show ?case by simp
qed

lemma le_val_less: "le_val bs < 256 ^ length bs"
proof (induction bs)
  case Nil
  then show ?case by simp
next
  case (Cons b bs)
  have "unat b + 256 * le_val bs \<le> 255 + 256 * le_val bs"
    using u8_less [of b] by linarith
  also have "\<dots> < 256 * 256 ^ length bs"
    using Cons by simp
  finally show ?case by simp
qed

text \<open>A widening cast keeps the value; a narrowing cast reduces it.\<close>

lemma unat_ucast_up:
  fixes w :: "'b::len word"
  assumes "LENGTH('b) \<le> LENGTH('c)"
  shows "unat (ucast w :: 'c::len word) = unat w"
proof -
  have "unat w < 2 ^ LENGTH('b)" by (rule unsigned_less)
  also have "(2 :: nat) ^ LENGTH('b) \<le> 2 ^ LENGTH('c)" using assms by simp
  finally show ?thesis by (simp add: unsigned_ucast_eq take_bit_nat_eq_self)
qed

lemma unat_ucast_mod:
  "unat (ucast w :: 'c::len word) = unat w mod 2 ^ LENGTH('c)"
  by (simp add: unsigned_ucast_eq take_bit_eq_mod)

text \<open>The 32-bit loads and stores of the code.\<close>

definition le32_of :: "bytes \<Rightarrow> u32" where
  "le32_of bs = word_of_nat (le_val (take 4 bs))"

definition le32_bytes :: "u32 \<Rightarrow> bytes" where
  "le32_bytes v = le_bytes 4 (unat v)"

lemma length_le32_bytes [simp]: "length (le32_bytes v) = 4"
  by (simp add: le32_bytes_def)

lemma le32_of_le32_bytes [simp]: "le32_of (le32_bytes v @ bs) = v"
proof -
  have "unat v < 4294967296" using unsigned_less [of v] by simp
  then show ?thesis by (simp add: le32_of_def le32_bytes_def le_val_le_bytes)
qed

lemma le32_of_le32_bytes' [simp]: "le32_of (le32_bytes v) = v"
  using le32_of_le32_bytes [of v "[]"] by simp

lemma le32_bytes_le32_of: "4 \<le> length bs \<Longrightarrow> le32_bytes (le32_of bs) = take 4 bs"
proof -
  assume "4 \<le> length bs"
  then have len: "length (take 4 bs) = 4" by simp
  have "le_val (take 4 bs) < 4294967296" using le_val_less [of "take 4 bs"] len by simp
  then have "unat (le32_of bs) = le_val (take 4 bs)" by (simp add: le32_of_def unat_of_nat)
  then show ?thesis by (simp add: le32_bytes_def le_bytes_le_val [OF len])
qed

lemma le32_of_append [simp]: "4 \<le> length xs \<Longrightarrow> le32_of (xs @ ys) = le32_of xs"
  by (simp add: le32_of_def)

lemma le32_of_take: "4 \<le> n \<Longrightarrow> le32_of (take n bs) = le32_of bs"
  by (simp add: le32_of_def min_def)

text \<open>\<open>be16_write\<close> and \<open>be16_read\<close> (obfs.c), and the big-endian store of cps.c.\<close>

definition be16_bytes :: "u16 \<Rightarrow> bytes" where
  "be16_bytes v = [ucast (drop_bit 8 v), ucast (v AND 0xff)]"

definition be16_of :: "u8 \<Rightarrow> u8 \<Rightarrow> u16" where
  "be16_of a b = push_bit 8 (ucast a) OR ucast b"

lemma length_be16_bytes [simp]: "length (be16_bytes v) = 2"
  by (simp add: be16_bytes_def)

lemma be16_of_be16_bytes [simp]:
  "be16_of (ucast (drop_bit 8 v)) (ucast (v AND 0xff)) = v"
proof (rule bit_word_eqI)
  fix n assume "n < LENGTH(16)"
  then have "n < 16" by simp
  moreover have mask8: "(0xff :: u16) = mask 8" by (simp add: mask_eq_exp_minus_1)
  ultimately show "bit (be16_of (ucast (drop_bit 8 v)) (ucast (v AND 0xff))) n = bit v n"
    unfolding mask8 by (cases "n < 8") (auto simp: be16_of_def bit_simps)
qed

text \<open>Equality of bytes bit by bit, as eight ground goals.\<close>

lemma u8_bitwise_eqI:
  fixes a b :: u8
  assumes "bit a 0 = bit b 0" "bit a 1 = bit b 1" "bit a 2 = bit b 2" "bit a 3 = bit b 3"
    "bit a 4 = bit b 4" "bit a 5 = bit b 5" "bit a 6 = bit b 6" "bit a 7 = bit b 7"
  shows "a = b"
proof (rule bit_word_eqI)
  fix n assume "n < LENGTH(8)"
  then consider "n = 0" | "n = 1" | "n = 2" | "n = 3" | "n = 4" | "n = 5" | "n = 6" | "n = 7"
    by fastforce
  then show "bit a n = bit b n" using assms by cases simp_all
qed

lemma u8_bit_ge: "8 \<le> n \<Longrightarrow> \<not> bit (a :: u8) n"
  using bit_imp_le_length [of a n] by auto

section \<open>Memory as a byte list\<close>

text \<open>\<open>splice m off bs\<close> overwrites \<open>length bs\<close> bytes at \<open>off\<close>; the checked
  forms return \<open>None\<close> when the access is not inside the buffer.\<close>

definition splice :: "bytes \<Rightarrow> nat \<Rightarrow> bytes \<Rightarrow> bytes" where
  "splice m off bs = take off m @ bs @ drop (off + length bs) m"

definition slice :: "bytes \<Rightarrow> nat \<Rightarrow> nat \<Rightarrow> bytes" where
  "slice m off n = take n (drop off m)"

definition rd :: "bytes \<Rightarrow> nat \<Rightarrow> nat \<Rightarrow> bytes option" where
  "rd m off n = (if off + n \<le> length m then Some (slice m off n) else None)"

definition rd8 :: "bytes \<Rightarrow> nat \<Rightarrow> u8 option" where
  "rd8 m i = (if i < length m then Some (m ! i) else None)"

definition rd32 :: "bytes \<Rightarrow> nat \<Rightarrow> u32 option" where
  "rd32 m off = (if off + 4 \<le> length m then Some (le32_of (slice m off 4)) else None)"

definition wr :: "bytes \<Rightarrow> nat \<Rightarrow> bytes \<Rightarrow> bytes option" where
  "wr m off bs = (if off + length bs \<le> length m then Some (splice m off bs) else None)"

definition wr32 :: "bytes \<Rightarrow> nat \<Rightarrow> u32 \<Rightarrow> bytes option" where
  "wr32 m off v = wr m off (le32_bytes v)"

lemma length_splice [simp, mem_simps]:
  "off + length bs \<le> length m \<Longrightarrow> length (splice m off bs) = length m"
  by (simp add: splice_def)

lemma length_slice [simp, mem_simps]:
  "off + n \<le> length m \<Longrightarrow> length (slice m off n) = n"
  by (simp add: slice_def)

lemma slice_splice_same [simp, mem_simps]:
  "off + length bs \<le> length m \<Longrightarrow> slice (splice m off bs) off (length bs) = bs"
  by (simp add: slice_def splice_def)

lemma take_splice:
  "n \<le> off \<Longrightarrow> off \<le> length m \<Longrightarrow> take n (splice m off bs) = take n m"
  by (auto simp: splice_def min_def)

lemma drop_splice:
  "off + length bs \<le> n \<Longrightarrow> off \<le> length m \<Longrightarrow> drop n (splice m off bs) = drop n m"
  by (simp add: splice_def add.commute)

lemma splice_append_left:
  "off + length bs \<le> length xs \<Longrightarrow> splice (xs @ ys) off bs = splice xs off bs @ ys"
  by (simp add: splice_def)

lemma splice_append_right:
  "splice (xs @ ys) (length xs + off) bs = xs @ splice ys off bs"
  by (simp add: splice_def add.assoc)

lemma rd32_SomeI: "off + 4 \<le> length m \<Longrightarrow> rd32 m off = Some (le32_of (slice m off 4))"
  by (simp add: rd32_def)

lemma wr_SomeI: "off + length bs \<le> length m \<Longrightarrow> wr m off bs = Some (splice m off bs)"
  by (simp add: wr_def)

lemma length_wr: "wr m off bs = Some m' \<Longrightarrow> length m' = length m"
  by (auto simp: wr_def split: if_splits)

text \<open>A packet inside a buffer: \<open>xs @ p @ zs\<close>.  Accesses inside \<open>p\<close> are accesses of
  \<open>p\<close>; every buffer is of this form around any range inside it.\<close>

lemma buffer_split:
  "off + n \<le> length m \<Longrightarrow> m = take off m @ slice m off n @ drop (off + n) m"
  by (metis append_take_drop_id drop_drop slice_def add.commute)

lemma slice_mid [simp, mem_simps]:
  "n \<le> length p \<Longrightarrow> slice (xs @ p @ zs) (length xs) n = take n p"
  by (simp add: slice_def)

lemma rd_mid [simp, mem_simps]:
  "n \<le> length p \<Longrightarrow> rd (xs @ p @ zs) (length xs) n = Some (take n p)"
  by (simp add: rd_def)

lemma rd32_mid [simp, mem_simps]:
  "4 \<le> length p \<Longrightarrow> rd32 (xs @ p @ zs) (length xs) = Some (le32_of p)"
  by (simp add: rd32_def le32_of_take)

lemma wr_mid [simp, mem_simps]:
  "i + length cs \<le> length p \<Longrightarrow>
    wr (xs @ p @ zs) (length xs + i) cs = Some (xs @ splice p i cs @ zs)"
  by (simp add: wr_def splice_append_right splice_append_left)

lemma wr_mid_0 [simp, mem_simps]:
  "length cs \<le> length p \<Longrightarrow>
    wr (xs @ p @ zs) (length xs) cs = Some (xs @ (cs @ drop (length cs) p) @ zs)"
  using wr_mid [of 0 cs p xs zs] by (simp add: splice_def)

lemma wr32_mid [simp, mem_simps]:
  "4 \<le> length p \<Longrightarrow>
    wr32 (xs @ p @ zs) (length xs) v = Some (xs @ (le32_bytes v @ drop 4 p) @ zs)"
  by (simp add: wr32_def)

lemmas mem_front = slice_mid [of _ _ "[]", simplified] rd_mid [of _ _ "[]", simplified]
  rd32_mid [of _ "[]", simplified] wr_mid_0 [of _ _ "[]", simplified]
  wr32_mid [of _ "[]", simplified]

section \<open>C strings\<close>

text \<open>A C string is the characters before its terminating NUL: \<open>c_str\<close> of a buffer's
  characters.  The C library's character classes work on byte values.\<close>

definition c_str :: "string \<Rightarrow> string" where
  "c_str s = takeWhile (\<lambda>c. c \<noteq> CHR 0x00) s"

definition is_digit_c :: "char \<Rightarrow> bool" where
  "is_digit_c c \<longleftrightarrow> 48 \<le> (of_char c :: nat) \<and> (of_char c :: nat) \<le> 57"

definition digit_val :: "char \<Rightarrow> nat" where
  "digit_val c = of_char c - 48"

text \<open>The lower-casing that \<open>streqi\<close> and \<open>keq\<close> write inline: \<open>A-Z\<close> only.\<close>

definition lower_c :: "char \<Rightarrow> char" where
  "lower_c c = (let n = (of_char c :: nat) in
     if 65 \<le> n \<and> n \<le> 90 then char_of (n + 32) else c)"

lemma digit_val_less: "is_digit_c c \<Longrightarrow> digit_val c < 10"
  by (auto simp: is_digit_c_def digit_val_def)

end
