(* ===== verification/Fastrand.thy ===== *)
theory Fastrand
  imports AWG_Base
begin

text \<open>
  \<open>src/fastrand.c\<close>: the xorshift64 generator behind padding, junk sizes and header
  values.  The state is one \<open>u64\<close>; \<open>fastrand_init\<close> never leaves it zero, and no step
  does, so the generator never gets stuck on the all-zero state.
\<close>

record fastrand_t =
  fr_s :: u64

definition fastrand_init :: "u64 \<Rightarrow> fastrand_t" where
  "fastrand_init seed = \<lparr>fr_s = (if seed \<noteq> 0 then seed else 1)\<rparr>"

definition fastrand_u64 :: "fastrand_t \<Rightarrow> u64 \<times> fastrand_t" where
  "fastrand_u64 r =
     (let s1 = fr_s r XOR push_bit 13 (fr_s r);
          s2 = s1 XOR drop_bit 7 s1;
          s3 = s2 XOR push_bit 17 s2
      in (s3, r\<lparr>fr_s := s3\<rparr>))"

text \<open>\<open>fastrand_intn\<close>: the code casts \<open>n\<close> to \<open>uint64_t\<close>; every caller passes a
  positive \<open>n\<close>.\<close>

definition fastrand_intn :: "fastrand_t \<Rightarrow> nat \<Rightarrow> nat \<times> fastrand_t" where
  "fastrand_intn r n = (let (v, r') = fastrand_u64 r in (unat v mod n, r'))"

text \<open>The fill loop: whole 8-byte words first, then the head of one more word.\<close>

fun fastrand_fill :: "fastrand_t \<Rightarrow> nat \<Rightarrow> bytes \<times> fastrand_t" where
  "fastrand_fill r len =
     (if 8 \<le> len then
        let (v, r1) = fastrand_u64 r; (bs, r2) = fastrand_fill r1 (len - 8)
        in (le_bytes 8 (unat v) @ bs, r2)
      else if 0 < len then
        let (v, r1) = fastrand_u64 r in (take len (le_bytes 8 (unat v)), r1)
      else ([], r))"

declare fastrand_fill.simps [simp del]

lemma length_fastrand_fill [simp]: "length (fst (fastrand_fill r len)) = len"
proof (induction r len rule: fastrand_fill.induct)
  case (1 r len)
  show ?case
    using 1 (1) [OF _ refl prod.collapse]
    by (subst fastrand_fill.simps) (simp add: split_beta Let_def)
qed

lemma fastrand_intn_bound: "0 < n \<Longrightarrow> fst (fastrand_intn r n) < n"
  by (simp add: fastrand_intn_def split_beta)

section \<open>The state never becomes zero\<close>

lemma xor_push_bit_zero:
  fixes x :: "'a::len word"
  assumes "x XOR push_bit n x = 0" and "0 < n"
  shows "x = 0"
proof (rule bit_word_eqI)
  fix k assume "k < LENGTH('a)"
  then show "bit x k = bit 0 k"
  proof (induction k rule: less_induct)
    case (less k)
    from assms(1) have "bit (x XOR push_bit n x) k = False" by simp
    then have "bit x k = bit (push_bit n x) k" by (auto simp: bit_xor_iff)
    moreover have "bit (push_bit n x) k \<longleftrightarrow> n \<le> k \<and> bit x (k - n)"
      using less.prems by (auto simp: bit_simps)
    moreover have "\<not> (n \<le> k \<and> bit x (k - n))"
      using less.IH [of "k - n"] less.prems assms(2) by auto
    ultimately show ?case by simp
  qed
qed

lemma xor_drop_bit_zero:
  fixes x :: "'a::len word"
  assumes "x XOR drop_bit n x = 0" and "0 < n"
  shows "x = 0"
proof (rule bit_word_eqI)
  fix k assume "k < LENGTH('a)"
  then show "bit x k = bit 0 k"
  proof (induction "LENGTH('a) - k" arbitrary: k rule: less_induct)
    case less
    from assms(1) have "bit (x XOR drop_bit n x) k = False" by simp
    then have "bit x k = bit x (n + k)" by (simp add: bit_simps)
    also have "\<dots> = False"
    proof (cases "n + k < LENGTH('a)")
      case True
      with less.hyps [of "n + k"] assms(2) show ?thesis by simp
    next
      case False
      then show ?thesis using bit_imp_le_length [of x "n + k"] by auto
    qed
    finally show ?case by simp
  qed
qed

lemma fastrand_init_nonzero: "fr_s (fastrand_init seed) \<noteq> 0"
  by (simp add: fastrand_init_def)

lemma fastrand_u64_nonzero:
  fixes r :: fastrand_t
  assumes "fr_s r \<noteq> 0"
  shows "fst (fastrand_u64 r) \<noteq> 0" and "fr_s (snd (fastrand_u64 r)) \<noteq> 0"
proof -
  define s1 where "s1 = fr_s r XOR push_bit 13 (fr_s r)"
  define s2 where "s2 = s1 XOR drop_bit 7 s1"
  have "s1 \<noteq> 0" using assms xor_push_bit_zero [of "fr_s r" 13] by (auto simp: s1_def)
  then have "s2 \<noteq> 0" using xor_drop_bit_zero [of s1 7] by (auto simp: s2_def)
  then have "s2 XOR push_bit 17 s2 \<noteq> 0" using xor_push_bit_zero [of s2 17] by auto
  then show "fst (fastrand_u64 r) \<noteq> 0" "fr_s (snd (fastrand_u64 r)) \<noteq> 0"
    by (simp_all add: fastrand_u64_def Let_def s1_def s2_def)
qed

end
