(* ===== verification/Base64.thy ===== *)
theory Base64
  imports AWG_Base
begin

text \<open>
  \<open>src/base64.c\<close>: the decoder every key of the configuration goes through.  The result
  \<open>None\<close> is the C function's \<open>-1\<close>; \<open>Some bs\<close> is the bytes written to \<open>out\<close>,
  whose number is the returned length.  A reference encoder (RFC 4648) states the round
  trip.
\<close>

section \<open>The decoder\<close>

definition b64_val :: "char \<Rightarrow> int" where
  "b64_val c = (let n = of_char c in
     if 65 \<le> n \<and> n \<le> 90 then n - 65
     else if 97 \<le> n \<and> n \<le> 122 then n - 97 + 26
     else if 48 \<le> n \<and> n \<le> 57 then n - 48 + 52
     else if n = 43 then 62
     else if n = 47 then 63
     else -1)"

text \<open>The loop over whole groups of four and the two- and three-character remainders.  The
  remainder of one character was refused before the loop.\<close>

definition b64_join :: "int \<Rightarrow> int \<Rightarrow> int \<Rightarrow> int \<Rightarrow> u32" where
  "b64_join a b c d = push_bit 18 (word_of_int a) OR push_bit 12 (word_of_int b)
     OR push_bit 6 (word_of_int c) OR word_of_int d"

fun b64_loop :: "string \<Rightarrow> bytes option" where
  "b64_loop (i0 # i1 # i2 # i3 # rest) =
     (let a = b64_val i0; b = b64_val i1; c = b64_val i2; d = b64_val i3 in
      if a < 0 \<or> b < 0 \<or> c < 0 \<or> d < 0 then None
      else let v = b64_join a b c d in
        map_option (\<lambda>bs. [ucast (drop_bit 16 v), ucast (drop_bit 8 v), ucast v] @ bs)
          (b64_loop rest))"
| "b64_loop [i0, i1] =
     (let a = b64_val i0; b = b64_val i1 in
      if a < 0 \<or> b < 0 then None
      else Some [ucast (drop_bit 16 (b64_join a b 0 0))])"
| "b64_loop [i0, i1, i2] =
     (let a = b64_val i0; b = b64_val i1; c = b64_val i2 in
      if a < 0 \<or> b < 0 \<or> c < 0 then None
      else let v = b64_join a b c 0 in Some [ucast (drop_bit 16 v), ucast (drop_bit 8 v)])"
| "b64_loop _ = Some []"

definition strip_padding :: "string \<Rightarrow> string" where
  "strip_padding s = rev (dropWhile (\<lambda>c. c = CHR ''='') (rev s))"

definition base64_decode :: "string \<Rightarrow> nat \<Rightarrow> bytes option" where
  "base64_decode s outmax =
     (let t = strip_padding s in
      if length t mod 4 = 1 then None
      else if length t * 3 div 4 > outmax then None
      else b64_loop t)"

section \<open>What a successful decode means\<close>

lemma b64_loop_length:
  "b64_loop t = Some bs \<Longrightarrow> length t mod 4 \<noteq> 1 \<Longrightarrow> length bs = length t * 3 div 4"
proof (induction t arbitrary: bs rule: b64_loop.induct)
  case (1 i0 i1 i2 i3 rest)
  from 1(2) obtain bs' where "b64_loop rest = Some bs'" "length bs = 3 + length bs'"
    by (auto simp: Let_def split: if_splits)
  moreover have "length rest mod 4 \<noteq> 1" using 1(3) by simp
  ultimately show ?case using 1(1) [OF refl refl refl refl _ refl, of bs'] 1(2)
    by (auto simp: Let_def split: if_splits)
qed (auto simp: Let_def split: if_splits)

lemma b64_loop_alphabet:
  "b64_loop t = Some bs \<Longrightarrow> length t mod 4 \<noteq> 1 \<Longrightarrow> c \<in> set t \<Longrightarrow> 0 \<le> b64_val c"
proof (induction t arbitrary: bs rule: b64_loop.induct)
  case (1 i0 i1 i2 i3 rest)
  from 1(2) obtain bs' where "b64_loop rest = Some bs'"
    by (auto simp: Let_def split: if_splits)
  then have "c \<in> set rest \<Longrightarrow> 0 \<le> b64_val c"
    using 1(1) [OF refl refl refl refl _ refl, of bs'] 1(2,3)
    by (auto simp: Let_def split: if_splits)
  with 1(2,4) show ?case by (auto simp: Let_def not_less split: if_splits)
qed (auto simp: Let_def not_less split: if_splits)

lemma base64_decode_SomeD:
  assumes "base64_decode s m = Some bs"
  shows "length bs = length (strip_padding s) * 3 div 4" and "length bs \<le> m"
    and "c \<in> set (strip_padding s) \<Longrightarrow> 0 \<le> b64_val c"
  using assms b64_loop_length [of "strip_padding s" bs] b64_loop_alphabet [of "strip_padding s" bs c]
  by (auto simp: base64_decode_def Let_def split: if_splits)

section \<open>Reference encoder and the round trip\<close>

definition b64_alphabet :: string where
  "b64_alphabet = ''ABCDEFGHIJKLMNOPQRSTUVWXYZabcdefghijklmnopqrstuvwxyz0123456789+/''"

definition b64_char :: "u8 \<Rightarrow> char" where
  "b64_char w = b64_alphabet ! unat w"

text \<open>The four six-bit groups of three bytes; a short last group pads with zero bits.\<close>

definition sx0 :: "u8 \<Rightarrow> u8" where
  "sx0 x = drop_bit 2 x"

definition sx1 :: "u8 \<Rightarrow> u8 \<Rightarrow> u8" where
  "sx1 x y = push_bit 4 (x AND 3) OR drop_bit 4 y"

definition sx2 :: "u8 \<Rightarrow> u8 \<Rightarrow> u8" where
  "sx2 y z = push_bit 2 (y AND 15) OR drop_bit 6 z"

definition sx3 :: "u8 \<Rightarrow> u8" where
  "sx3 z = z AND 63"

fun b64_encode :: "bytes \<Rightarrow> string" where
  "b64_encode (x # y # z # rest) =
     b64_char (sx0 x) # b64_char (sx1 x y) # b64_char (sx2 y z) # b64_char (sx3 z)
     # b64_encode rest"
| "b64_encode [x, y] = [b64_char (sx0 x), b64_char (sx1 x y), b64_char (sx2 y 0), CHR ''='']"
| "b64_encode [x] = [b64_char (sx0 x), b64_char (sx1 x 0), CHR ''='', CHR ''='']"
| "b64_encode [] = []"

lemma b64_val_alphabet: "list_all (\<lambda>n. b64_val (b64_alphabet ! n) = int n) [0..<64]"
  by code_simp

lemma b64_val_char:
  assumes "w AND 63 = w"
  shows "b64_val (b64_char w) = uint w"
proof -
  have "unat (w AND 63) \<le> unat (63 :: u8)"
    by (rule word_and_le1 [THEN word_le_nat_alt [THEN iffD1]])
  then have "unat w < 64" using assms by simp
  then have "b64_val (b64_alphabet ! unat w) = int (unat w)"
    using b64_val_alphabet by (auto simp: list_all_iff)
  then show ?thesis by (simp add: b64_char_def)
qed

lemma mask_numerals_u8:
  "(3 :: u8) = mask 2" "(15 :: u8) = mask 4" "(63 :: u8) = mask 6"
  by (simp_all add: mask_eq_exp_minus_1)

lemmas sextet_defs = sx0_def sx1_def sx2_def sx3_def mask_numerals_u8

lemma sextet_small:
  "sx0 x AND 63 = sx0 x" "sx1 x y AND 63 = sx1 x y" "sx2 y z AND 63 = sx2 y z"
  "sx3 z AND 63 = sx3 z"
  unfolding sextet_defs by (auto intro!: u8_bitwise_eqI simp: bit_simps u8_bit_ge)

lemmas b64_val_sextet = sextet_small [THEN b64_val_char]

text \<open>Joining the groups gives the three bytes back; the short groups are the cases with
  zero bytes.\<close>

definition sx_join :: "u8 \<Rightarrow> u8 \<Rightarrow> u8 \<Rightarrow> u32" where
  "sx_join x y z = b64_join (uint (sx0 x)) (uint (sx1 x y)) (uint (sx2 y z)) (uint (sx3 z))"

lemma sx_join_0: "ucast (drop_bit 16 (sx_join x y z)) = x"
  unfolding sx_join_def b64_join_def sextet_defs word_of_int_uint
  by (rule u8_bitwise_eqI) (simp_all add: bit_simps u8_bit_ge)

lemma sx_join_1: "ucast (drop_bit 8 (sx_join x y z)) = y"
  unfolding sx_join_def b64_join_def sextet_defs word_of_int_uint
  by (rule u8_bitwise_eqI) (simp_all add: bit_simps u8_bit_ge)

lemma sx_join_2: "ucast (sx_join x y z) = z"
  unfolding sx_join_def b64_join_def sextet_defs word_of_int_uint
  by (rule u8_bitwise_eqI) (simp_all add: bit_simps u8_bit_ge)

lemma sx_join_tail:
  "b64_join (uint (sx0 x)) (uint (sx1 x 0)) 0 0 = sx_join x 0 0"
  "b64_join (uint (sx0 x)) (uint (sx1 x y)) (uint (sx2 y 0)) 0 = sx_join x y 0"
  by (simp_all add: sx_join_def sx2_def sx3_def)

lemmas sx_join_simps = sx_join_def [symmetric] sx_join_tail sx_join_0 sx_join_1 sx_join_2

text \<open>The encoder's output without its padding, which is what the decoder's loop sees.\<close>

fun b64_body :: "bytes \<Rightarrow> string" where
  "b64_body (x # y # z # rest) =
     b64_char (sx0 x) # b64_char (sx1 x y) # b64_char (sx2 y z) # b64_char (sx3 z)
     # b64_body rest"
| "b64_body [x, y] = [b64_char (sx0 x), b64_char (sx1 x y), b64_char (sx2 y 0)]"
| "b64_body [x] = [b64_char (sx0 x), b64_char (sx1 x 0)]"
| "b64_body [] = []"

lemma b64_char_not_pad:
  assumes "w AND 63 = w"
  shows "CHR ''='' \<noteq> b64_char w"
proof
  assume "CHR ''='' = b64_char w"
  then have "b64_val (b64_char w) = b64_val CHR ''=''" by simp
  also have "\<dots> = -1" by (simp add: b64_val_def)
  finally show False using b64_val_char [OF assms] uint_ge_0 [of w] by linarith
qed

lemma b64_body_no_pad: "CHR ''='' \<notin> set (b64_body bs)"
  by (induction bs rule: b64_body.induct) (simp_all add: sextet_small [THEN b64_char_not_pad])

lemma b64_encode_body:
  "\<exists>k. b64_encode bs = b64_body bs @ replicate k CHR ''=''"
proof (induction bs rule: b64_encode.induct)
  case (2 x y)
  show ?case by (rule exI [of _ 1]) simp
next
  case (3 x)
  show ?case by (rule exI [of _ 2]) (simp add: numeral_2_eq_2)
qed auto

lemma strip_padding_replicate:
  assumes "CHR ''='' \<notin> set t"
  shows "strip_padding (t @ replicate k CHR ''='') = t"
proof -
  have "dropWhile (\<lambda>c. c = CHR ''='') (replicate k CHR ''='' @ rev t) = rev t"
  proof (induction k)
    case 0
    have "c \<in> set (rev t) \<Longrightarrow> c \<noteq> CHR ''=''" for c using assms by auto
    then show ?case by (cases "rev t") auto
  qed simp
  then show ?thesis by (simp add: strip_padding_def)
qed

lemma b64_body_length: "length (b64_body bs) * 3 div 4 = length bs"
  by (induction bs rule: b64_body.induct) auto

lemma b64_body_mod: "length (b64_body bs) mod 4 \<noteq> 1"
  by (induction bs rule: b64_body.induct) auto

lemma b64_loop_body: "b64_loop (b64_body bs) = Some bs"
  by (induction bs rule: b64_body.induct)
    (simp_all add: b64_val_sextet Let_def not_less sx_join_simps)

text \<open>Every byte string of at most \<open>outmax\<close> bytes survives encoding and decoding.\<close>

lemma base64_decode_encode: "length bs \<le> m \<Longrightarrow> base64_decode (b64_encode bs) m = Some bs"
proof -
  assume m: "length bs \<le> m"
  obtain k where "b64_encode bs = b64_body bs @ replicate k CHR ''=''"
    using b64_encode_body by blast
  then have "strip_padding (b64_encode bs) = b64_body bs"
    by (simp add: strip_padding_replicate [OF b64_body_no_pad])
  then show ?thesis
    using m b64_body_mod [of bs]
    by (simp add: base64_decode_def b64_body_length b64_loop_body Let_def)
qed

end
