(* ===== verification/Blake2s.thy ===== *)
theory Blake2s
  imports AWG_Base
begin

text \<open>
  \<open>src/blake2s.c\<close>: the streaming BLAKE2s of the program (\<open>blake2s_init\<close>,
  \<open>blake2s_update\<close>, \<open>blake2s_final\<close>) and the MAC1 helpers on top of it.  The state
  record is the C struct; \<open>blake2s_update\<close> is its buffering loop.  A reference
  definition in the style of RFC 7693 (the whole message cut into 64-byte blocks, a 64-bit
  byte offset) is given beside it, with the proof that the streaming code computes it.
  The C code casts \<open>len\<close> to \<open>int\<close>; the model compares the lengths themselves, which
  is the same for every length below \<open>2^31\<close> (the callers pass at most 116 bytes).
\<close>

section \<open>The compression function\<close>

definition blake2s_iv :: "u32 list" where
  "blake2s_iv = [0x6A09E667, 0xBB67AE85, 0x3C6EF372, 0xA54FF53A,
                 0x510E527F, 0x9B05688C, 0x1F83D9AB, 0x5BE0CD19]"

definition blake2s_sigma :: "nat list list" where
  "blake2s_sigma =
    [[0, 1, 2, 3, 4, 5, 6, 7, 8, 9, 10, 11, 12, 13, 14, 15],
     [14, 10, 4, 8, 9, 15, 13, 6, 1, 12, 0, 2, 11, 7, 5, 3],
     [11, 8, 12, 0, 5, 2, 15, 13, 10, 14, 3, 6, 7, 1, 9, 4],
     [7, 9, 3, 1, 13, 12, 11, 14, 2, 6, 5, 10, 4, 0, 15, 8],
     [9, 0, 5, 7, 2, 4, 10, 15, 14, 1, 11, 12, 6, 8, 3, 13],
     [2, 12, 6, 10, 0, 11, 8, 3, 4, 13, 7, 5, 15, 14, 1, 9],
     [12, 5, 1, 15, 14, 13, 4, 10, 0, 7, 6, 3, 9, 2, 8, 11],
     [13, 11, 7, 14, 12, 1, 3, 9, 5, 0, 15, 4, 8, 6, 2, 10],
     [6, 15, 14, 9, 11, 3, 0, 8, 12, 2, 13, 7, 1, 4, 10, 5],
     [10, 2, 8, 4, 7, 6, 1, 5, 15, 11, 9, 14, 3, 12, 13, 0]]"

definition rotr32 :: "u32 \<Rightarrow> nat \<Rightarrow> u32" where
  "rotr32 x n = drop_bit n x OR push_bit (32 - n) x"

text \<open>The macro \<open>G\<close>: eight assignments to the working vector, in order.\<close>

definition G_mix :: "u32 list \<Rightarrow> nat \<Rightarrow> nat \<Rightarrow> nat \<Rightarrow> nat \<Rightarrow> u32 \<Rightarrow> u32 \<Rightarrow> u32 list" where
  "G_mix v a b c d x y =
     (let v = v[a := v ! a + (v ! b + x)];
          v = v[d := rotr32 (v ! d XOR v ! a) 16];
          v = v[c := v ! c + v ! d];
          v = v[b := rotr32 (v ! b XOR v ! c) 12];
          v = v[a := v ! a + (v ! b + y)];
          v = v[d := rotr32 (v ! d XOR v ! a) 8];
          v = v[c := v ! c + v ! d];
          v = v[b := rotr32 (v ! b XOR v ! c) 7]
      in v)"

text \<open>One round: the four columns, then the four diagonals, under one row of sigma.\<close>

definition blake2s_round :: "u32 list \<Rightarrow> nat list \<Rightarrow> u32 list \<Rightarrow> u32 list" where
  "blake2s_round m s v =
     (let v = G_mix v 0 4 8 12 (m ! (s ! 0)) (m ! (s ! 1));
          v = G_mix v 1 5 9 13 (m ! (s ! 2)) (m ! (s ! 3));
          v = G_mix v 2 6 10 14 (m ! (s ! 4)) (m ! (s ! 5));
          v = G_mix v 3 7 11 15 (m ! (s ! 6)) (m ! (s ! 7));
          v = G_mix v 0 5 10 15 (m ! (s ! 8)) (m ! (s ! 9));
          v = G_mix v 1 6 11 12 (m ! (s ! 10)) (m ! (s ! 11));
          v = G_mix v 2 7 8 13 (m ! (s ! 12)) (m ! (s ! 13));
          v = G_mix v 3 4 9 14 (m ! (s ! 14)) (m ! (s ! 15))
      in v)"

definition load_block :: "bytes \<Rightarrow> u32 list" where
  "load_block block = map (\<lambda>i. le32_of (drop (i * 4) block)) [0..<16]"

definition blake2s_compress :: "u32 list \<Rightarrow> bytes \<Rightarrow> u32 \<Rightarrow> u32 \<Rightarrow> bool \<Rightarrow> u32 list" where
  "blake2s_compress h block t0 t1 last_block =
     (let m = load_block block;
          v = h @ [blake2s_iv ! 0, blake2s_iv ! 1, blake2s_iv ! 2, blake2s_iv ! 3,
                   t0 XOR blake2s_iv ! 4, t1 XOR blake2s_iv ! 5,
                   blake2s_iv ! 6, blake2s_iv ! 7];
          v = (if last_block then v[14 := v ! 14 XOR 0xFFFFFFFF] else v);
          v = foldl (\<lambda>v s. blake2s_round m s v) v blake2s_sigma
      in map (\<lambda>i. h ! i XOR (v ! i XOR v ! (i + 8))) [0..<8])"

section \<open>The streaming state\<close>

record blake2s_state =
  b2_h :: "u32 list"
  b2_t0 :: u32
  b2_t1 :: u32
  b2_buf :: bytes
  b2_buflen :: nat
  b2_nn :: nat

definition blake2s_init :: "nat \<Rightarrow> bytes \<Rightarrow> blake2s_state" where
  "blake2s_init nn key =
     (let kk = length key;
          h = blake2s_iv[0 := blake2s_iv ! 0 XOR
                (0x01010000 OR push_bit 8 (word_of_nat kk) OR word_of_nat nn)]
      in \<lparr>b2_h = h, b2_t0 = 0, b2_t1 = 0,
          b2_buf = (if 0 < kk then key @ replicate (64 - kk) 0 else replicate 64 0),
          b2_buflen = (if 0 < kk then 64 else 0), b2_nn = nn\<rparr>)"

text \<open>\<open>st->t0 += k; if (st->t0 < k) st->t1++\<close>\<close>

definition bump_counter :: "u32 \<Rightarrow> blake2s_state \<Rightarrow> blake2s_state" where
  "bump_counter k st =
     (let st = st\<lparr>b2_t0 := b2_t0 st + k\<rparr>
      in if b2_t0 st < k then st\<lparr>b2_t1 := b2_t1 st + 1\<rparr> else st)"

definition compress_into :: "blake2s_state \<Rightarrow> bytes \<Rightarrow> bool \<Rightarrow> blake2s_state" where
  "compress_into st block last_block =
     st\<lparr>b2_h := blake2s_compress (b2_h st) block (b2_t0 st) (b2_t1 st) last_block\<rparr>"

text \<open>\<open>while (len > 64)\<close>: whole blocks straight from the input.\<close>

fun update_blocks :: "blake2s_state \<Rightarrow> bytes \<Rightarrow> blake2s_state \<times> bytes" where
  "update_blocks st p =
     (if 64 < length p then
        update_blocks (compress_into (bump_counter 64 st) (take 64 p) False) (drop 64 p)
      else (st, p))"

declare update_blocks.simps [simp del]

definition blake2s_update :: "blake2s_state \<Rightarrow> bytes \<Rightarrow> blake2s_state" where
  "blake2s_update st p =
     (if p = [] then st
      else
        let left = b2_buflen st; fill = 64 - left;
            (st, p) =
              (if fill < length p then
                 let st = st\<lparr>b2_buf := splice (b2_buf st) left (take fill p)\<rparr>;
                     st = compress_into (bump_counter 64 st) (b2_buf st) False;
                     st = st\<lparr>b2_buflen := 0\<rparr>
                 in update_blocks st (drop fill p)
               else (st, p))
        in st\<lparr>b2_buf := splice (b2_buf st) (b2_buflen st) p,
              b2_buflen := b2_buflen st + length p\<rparr>)"

definition blake2s_final :: "blake2s_state \<Rightarrow> bytes" where
  "blake2s_final st =
     (let n = b2_buflen st;
          st = bump_counter (word_of_nat n) st;
          st = st\<lparr>b2_buf := splice (b2_buf st) n (replicate (64 - n) 0)\<rparr>;
          st = compress_into st (b2_buf st) True
      in concat (map le32_bytes (b2_h st)))"

definition blake2s_256 :: "bytes \<Rightarrow> bytes" where
  "blake2s_256 data = blake2s_final (blake2s_update (blake2s_init 32 []) data)"

definition blake2s_128mac :: "bytes \<Rightarrow> bytes \<Rightarrow> bytes" where
  "blake2s_128mac key data =
     take 16 (blake2s_final (blake2s_update (blake2s_init 16 key) data))"

section \<open>MAC1\<close>

text \<open>\<open>"mac1----"\<close> as bytes.\<close>

definition mac1_label :: bytes where
  "mac1_label = [0x6D, 0x61, 0x63, 0x31, 0x2D, 0x2D, 0x2D, 0x2D]"

definition compute_mac1_key :: "bytes \<Rightarrow> bytes" where
  "compute_mac1_key pubkey = blake2s_256 (mac1_label @ take 32 pubkey)"

text \<open>The MAC1 of an initiation is at \<open>[116,132)\<close> over \<open>[0,116)\<close>, of a response at
  \<open>[60,76)\<close> over \<open>[0,60)\<close>, counted from the packet's start \<open>off\<close> in the buffer.\<close>

definition recompute_mac1 :: "bytes \<Rightarrow> nat \<Rightarrow> bytes \<Rightarrow> bytes option" where
  "recompute_mac1 buf off mac1key = do {
     msg \<leftarrow> rd buf off 116;
     wr buf (off + 116) (blake2s_128mac mac1key msg)
   }"

definition recompute_mac1_response :: "bytes \<Rightarrow> nat \<Rightarrow> bytes \<Rightarrow> bytes option" where
  "recompute_mac1_response buf off mac1key = do {
     msg \<leftarrow> rd buf off 60;
     wr buf (off + 60) (blake2s_128mac mac1key msg)
   }"

section \<open>Reference: the message as a sequence of blocks\<close>

text \<open>RFC 7693, section 3.2 and 3.3: \<open>F\<close> takes a 64-bit byte offset, here a number, and
  the final-block flag; the data blocks are the key block (if there is a key) and the
  message, the last one padded with zeros.\<close>

definition rfc_F :: "u32 list \<Rightarrow> bytes \<Rightarrow> nat \<Rightarrow> bool \<Rightarrow> u32 list" where
  "rfc_F h block t f =
     (let m = load_block block;
          v = h @ blake2s_iv;
          v = v[12 := v ! 12 XOR word_of_nat t];
          v = v[13 := v ! 13 XOR word_of_nat (t div 2 ^ 32)];
          v = (if f then v[14 := v ! 14 XOR 0xFFFFFFFF] else v);
          v = foldl (\<lambda>v s. blake2s_round m s v) v blake2s_sigma
      in map (\<lambda>i. h ! i XOR (v ! i XOR v ! (i + 8))) [0..<8])"

fun rfc_absorb :: "u32 list \<Rightarrow> nat \<Rightarrow> bytes \<Rightarrow> u32 list \<times> nat \<times> bytes" where
  "rfc_absorb h n msg =
     (if 64 < length msg then rfc_absorb (rfc_F h (take 64 msg) (n + 64) False) (n + 64) (drop 64 msg)
      else (h, n, msg))"

declare rfc_absorb.simps [simp del]

definition rfc_h0 :: "nat \<Rightarrow> nat \<Rightarrow> u32 list" where
  "rfc_h0 nn kk = blake2s_iv[0 := blake2s_iv ! 0 XOR
     (0x01010000 OR push_bit 8 (word_of_nat kk) OR word_of_nat nn)]"

definition rfc_message :: "bytes \<Rightarrow> bytes \<Rightarrow> bytes" where
  "rfc_message key data = (if key = [] then [] else key @ replicate (64 - length key) 0) @ data"

definition rfc_digest :: "u32 list \<Rightarrow> bytes \<Rightarrow> bytes" where
  "rfc_digest h0 msg =
     (case rfc_absorb h0 0 msg of (h, n, tail) \<Rightarrow>
        concat (map le32_bytes
          (rfc_F h (tail @ replicate (64 - length tail) 0) (n + length tail) True)))"

definition rfc_blake2s :: "nat \<Rightarrow> bytes \<Rightarrow> bytes \<Rightarrow> bytes" where
  "rfc_blake2s nn key data = take nn (rfc_digest (rfc_h0 nn (length key)) (rfc_message key data))"

section \<open>The streaming code computes the reference\<close>

lemma length_rfc_F [simp]: "length (rfc_F h b t f) = 8"
  by (simp add: rfc_F_def Let_def)

lemma compress_rfc_F:
  "length h = 8 \<Longrightarrow>
    blake2s_compress h b (word_of_nat n) (word_of_nat (n div 2 ^ 32)) f = rfc_F h b n f"
  by (simp add: blake2s_compress_def rfc_F_def Let_def blake2s_iv_def list_update_append
      nth_append xor.commute xor.left_commute)

text \<open>The two-word counter is the number of bytes absorbed; its carry test is exact for
  increments up to one block.\<close>

lemma counter_step:
  fixes n k :: nat
  assumes "k \<le> 64"
  shows "(if (word_of_nat (n + k) :: u32) < word_of_nat k then word_of_nat (n div 2 ^ 32) + 1
          else word_of_nat (n div 2 ^ 32) :: u32) = word_of_nat ((n + k) div 2 ^ 32)"
proof -
  define q where "q = n div 2 ^ 32"
  define r where "r = n mod 2 ^ 32"
  have n: "n = q * 2 ^ 32 + r" and r: "r < 2 ^ 32" by (simp_all add: q_def r_def)
  have div: "(n + k) div 2 ^ 32 = q + (r + k) div 2 ^ 32" by (simp add: n)
  have lt: "(word_of_nat (n + k) :: u32) < word_of_nat k \<longleftrightarrow> (r + k) mod 2 ^ 32 < k"
    using assms by (simp add: word_less_nat_alt unat_of_nat r_def mod_add_left_eq del: of_nat_add)
  show ?thesis
  proof (cases "r + k < 2 ^ 32")
    case True
    then show ?thesis using lt div by (simp add: q_def del: of_nat_add)
  next
    case False
    then have "(r + k) div 2 ^ 32 = 1" "(r + k) mod 2 ^ 32 = r + k - 2 ^ 32"
      using r assms by (simp_all add: div_nat_eqI mod_if)
    then show ?thesis using lt div r False by (simp add: q_def del: of_nat_add)
  qed
qed

text \<open>\<open>counts st n\<close>: the counter of \<open>st\<close> reads \<open>n\<close>.\<close>

definition counts :: "blake2s_state \<Rightarrow> nat \<Rightarrow> bool" where
  "counts st n \<longleftrightarrow> b2_t0 st = word_of_nat n \<and> b2_t1 st = word_of_nat (n div 2 ^ 32)"

lemma counts_bump:
  assumes "counts st n" and "k \<le> 64"
  shows "counts (bump_counter (word_of_nat k) st) (n + k)"
  using assms counter_step [of k n]
  by (auto simp: counts_def bump_counter_def Let_def split: if_splits)

lemma bump_counter_frame [simp]:
  "b2_h (bump_counter k st) = b2_h st" "b2_buf (bump_counter k st) = b2_buf st"
  "b2_buflen (bump_counter k st) = b2_buflen st"
  by (simp_all add: bump_counter_def Let_def)

lemma compress_into_frame [simp]:
  "b2_buf (compress_into st b f) = b2_buf st" "b2_buflen (compress_into st b f) = b2_buflen st"
  "counts (compress_into st b f) n = counts st n"
  by (simp_all add: compress_into_def counts_def)

lemma compress_into_h:
  assumes "counts st n" and "length (b2_h st) = 8"
  shows "b2_h (compress_into st b f) = rfc_F (b2_h st) b n f"
  using assms compress_rfc_F [of "b2_h st" b n f] by (simp add: compress_into_def counts_def)

text \<open>One whole block, compressed from the buffer or from the input.\<close>

lemma compress_block:
  assumes "counts st n" and "length (b2_h st) = 8"
  shows "b2_h (compress_into (bump_counter 64 st) b f) = rfc_F (b2_h st) b (n + 64) f"
    and "counts (compress_into (bump_counter 64 st) b f) (n + 64)"
  using compress_into_h [OF counts_bump [OF assms(1), of 64], of b f]
    counts_bump [OF assms(1), of 64] assms(2) by simp_all

lemma rfc_absorb_step:
  "64 < length msg \<Longrightarrow>
    rfc_absorb h n msg = rfc_absorb (rfc_F h (take 64 msg) (n + 64) False) (n + 64) (drop 64 msg)"
  by (subst rfc_absorb.simps) simp

lemma rfc_absorb_stop: "length msg \<le> 64 \<Longrightarrow> rfc_absorb h n msg = (h, n, msg)"
  by (subst rfc_absorb.simps) simp

lemma rfc_absorb_append:
  "rfc_absorb h n msg = (h', n', tail) \<Longrightarrow>
    rfc_absorb h n (msg @ data) = rfc_absorb h' n' (tail @ data)"
proof (induction h n msg rule: rfc_absorb.induct)
  case (1 h n msg)
  show ?case
  proof (cases "64 < length msg")
    case True
    then show ?thesis
      using 1 rfc_absorb_step [of msg h n] rfc_absorb_step [of "msg @ data" h n] by simp
  next
    case False
    then show ?thesis using 1(2) by (simp add: rfc_absorb_stop)
  qed
qed

lemma rfc_absorb_tail:
  "rfc_absorb h n msg = (h', n', tail) \<Longrightarrow> length h = 8 \<Longrightarrow> length tail \<le> 64 \<and> length h' = 8"
proof (induction h n msg rule: rfc_absorb.induct)
  case (1 h n msg)
  show ?case
  proof (cases "64 < length msg")
    case True
    show ?thesis
      using 1(1) [OF True] 1(2) unfolding rfc_absorb_step [OF True, of h n] by simp
  next
    case False
    then show ?thesis using 1(2,3) rfc_absorb_stop [of msg h n] by simp
  qed
qed

text \<open>\<open>absorbed st h0 msg\<close>: \<open>st\<close> stands for having been fed exactly \<open>msg\<close>.\<close>

definition absorbed :: "blake2s_state \<Rightarrow> u32 list \<Rightarrow> bytes \<Rightarrow> bool" where
  "absorbed st h0 msg \<longleftrightarrow>
     (case rfc_absorb h0 0 msg of (h, n, tail) \<Rightarrow>
        b2_h st = h \<and> counts st n \<and> b2_buflen st = length tail \<and>
        length (b2_buf st) = 64 \<and> take (length tail) (b2_buf st) = tail)"

lemma update_blocks_absorb:
  "counts st n \<Longrightarrow> length (b2_h st) = 8 \<Longrightarrow>
    (case update_blocks st p of (st', p') \<Rightarrow>
       (\<exists>n'. rfc_absorb (b2_h st) n p = (b2_h st', n', p') \<and> counts st' n') \<and>
       b2_buf st' = b2_buf st \<and> b2_buflen st' = b2_buflen st)"
proof (induction st p arbitrary: n rule: update_blocks.induct)
  case (1 st p)
  show ?case
  proof (cases "64 < length p")
    case True
    let ?st = "compress_into (bump_counter 64 st) (take 64 p) False"
    have "length (b2_h ?st) = 8" using compress_block(1) [OF 1(2,3)] by simp
    from 1(1) [OF True compress_block(2) [OF 1(2,3)] this]
    show ?thesis
      using compress_block(1) [OF 1(2,3), of "take 64 p" False] True
      unfolding rfc_absorb_step [OF True, of "b2_h st" n] update_blocks.simps [of st p] by simp
  next
    case False
    with 1(2) show ?thesis by (simp add: update_blocks.simps [of st p] rfc_absorb_stop)
  qed
qed

lemma absorbed_update:
  assumes abs: "absorbed st h0 msg" and h0: "length h0 = 8"
  shows "absorbed (blake2s_update st p) h0 (msg @ p)"
proof (cases "p = []")
  case True
  then show ?thesis using abs by (simp add: blake2s_update_def)
next
  case False
  obtain h n tail where a: "rfc_absorb h0 0 msg = (h, n, tail)" by (metis prod_cases3)
  with abs have st: "b2_h st = h" "counts st n" "b2_buflen st = length tail"
    "length (b2_buf st) = 64" "take (length tail) (b2_buf st) = tail"
    by (simp_all add: absorbed_def)
  from rfc_absorb_tail [OF a h0] have tl: "length tail \<le> 64" and lh: "length h = 8" by auto
  have app: "rfc_absorb h0 0 (msg @ p) = rfc_absorb h n (tail @ p)"
    by (rule rfc_absorb_append [OF a])
  show ?thesis
  proof (cases "64 - length tail < length p")
    case True
    define f where "f = 64 - length tail"
    define b where "b = splice (b2_buf st) (length tail) (take f p)"
    have b: "b = tail @ take f p"
      using True st(4,5) tl by (simp add: b_def splice_def f_def)
    have lb: "length b = 64" using True tl by (simp add: b f_def)
    define st1 where "st1 = compress_into (bump_counter 64 (st\<lparr>b2_buf := b\<rparr>)) b False
      \<lparr>b2_buflen := 0\<rparr>"
    have c: "counts (st\<lparr>b2_buf := b\<rparr>) n" "length (b2_h (st\<lparr>b2_buf := b\<rparr>)) = 8"
      using st(1,2) lh by (simp_all add: counts_def)
    have st1: "counts st1 (n + 64)" "b2_h st1 = rfc_F h b (n + 64) False"
      "b2_buf st1 = b" "b2_buflen st1 = 0" "length (b2_h st1) = 8"
      using compress_block [OF c, of b False] st(1) by (simp_all add: st1_def counts_def)
    obtain st2 q where u: "update_blocks st1 (drop f p) = (st2, q)" by fastforce
    from update_blocks_absorb [OF st1(1,5), of "drop f p"] u obtain n' where
      u2: "rfc_absorb (b2_h st1) (n + 64) (drop f p) = (b2_h st2, n', q)" "counts st2 n'"
        "b2_buf st2 = b" "b2_buflen st2 = 0"
      using st1(3,4) by auto
    have "rfc_absorb h n (tail @ p) = (b2_h st2, n', q)"
      using u2(1) st1(2) True tl b
      by (subst rfc_absorb_step) (simp_all add: f_def)
    moreover have "length q \<le> 64" using rfc_absorb_tail [OF u2(1) st1(5)] by simp
    moreover have "blake2s_update st p =
        st2\<lparr>b2_buf := splice b 0 q, b2_buflen := length q\<rparr>"
      using False True u u2(3,4) st(3)
      by (simp add: blake2s_update_def Let_def f_def [symmetric] b_def [symmetric]
          st1_def [symmetric])
    ultimately show ?thesis
      using u2(2) lb app by (simp add: absorbed_def counts_def splice_def)
  next
    case nf: False
    then have le: "length (tail @ p) \<le> 64" using tl by simp
    have "blake2s_update st p = st\<lparr>b2_buf := splice (b2_buf st) (length tail) p,
        b2_buflen := length tail + length p\<rparr>"
      using False nf st(3) by (simp add: blake2s_update_def Let_def)
    then show ?thesis
      using app rfc_absorb_stop [OF le, of h n] st le
      by (simp add: absorbed_def counts_def splice_def)
  qed
qed

lemma absorbed_final:
  assumes "absorbed st h0 msg" and h0: "length h0 = 8"
  shows "blake2s_final st = rfc_digest h0 msg"
proof -
  obtain h n tail where a: "rfc_absorb h0 0 msg = (h, n, tail)" by (metis prod_cases3)
  with assms(1) have st: "b2_h st = h" "counts st n" "b2_buflen st = length tail"
    "length (b2_buf st) = 64" "take (length tail) (b2_buf st) = tail"
    by (simp_all add: absorbed_def)
  from rfc_absorb_tail [OF a h0] have tl: "length tail \<le> 64" and lh: "length h = 8" by auto
  let ?pad = "replicate (64 - length tail) (0 :: u8)"
  define st1 where "st1 = (bump_counter (word_of_nat (length tail)) st)
    \<lparr>b2_buf := splice (b2_buf st) (length tail) ?pad\<rparr>"
  have "counts st1 (n + length tail)" "length (b2_h st1) = 8" "b2_h st1 = h"
    using counts_bump [OF st(2) tl] st(1) lh by (simp_all add: st1_def counts_def)
  moreover have "b2_buf st1 = tail @ ?pad"
    using st(4,5) tl by (simp add: st1_def splice_def)
  ultimately show ?thesis
    using compress_into_h [of st1 "n + length tail" "tail @ ?pad" True] a st(3)
    by (simp add: blake2s_final_def Let_def rfc_digest_def st1_def)
qed

lemma absorbed_init:
  assumes "length key \<le> 64"
  shows "absorbed (blake2s_init nn key) (rfc_h0 nn (length key)) (rfc_message key [])"
  using assms
  by (simp add: absorbed_def blake2s_init_def rfc_h0_def rfc_message_def rfc_absorb_stop
      counts_def Let_def)

lemma length_rfc_h0 [simp]: "length (rfc_h0 nn kk) = 8"
  by (simp add: rfc_h0_def blake2s_iv_def)

lemma rfc_message_append: "rfc_message key [] @ data = rfc_message key data"
  by (simp add: rfc_message_def)

lemma blake2s_stream_eq:
  assumes "length key \<le> 64"
  shows "blake2s_final (blake2s_update (blake2s_init nn key) data)
    = rfc_digest (rfc_h0 nn (length key)) (rfc_message key data)"
  using absorbed_final [OF absorbed_update [OF absorbed_init [OF assms]]]
  by (simp add: rfc_message_append)

lemma length_concat_le32 [simp]: "length (concat (map le32_bytes ws)) = 4 * length ws"
  by (induction ws) auto

lemma length_rfc_digest: "length h0 = 8 \<Longrightarrow> length (rfc_digest h0 msg) = 32"
  by (auto simp: rfc_digest_def split: prod.splits)

lemma length_blake2s_128mac: "length key \<le> 64 \<Longrightarrow> length (blake2s_128mac key data) = 16"
  by (simp add: blake2s_128mac_def blake2s_stream_eq length_rfc_digest)

lemma length_blake2s_256 [simp]: "length (blake2s_256 data) = 32"
  by (simp add: blake2s_256_def blake2s_stream_eq length_rfc_digest)

end
