(* ===== verification/Log.thy ===== *)
theory Log
  imports AWG_Base
begin

text \<open>
  \<open>src/log.c\<close> and \<open>src/log.h\<close>: the log levels with their order, the fixed 512-byte line
  buffer every message is built in, and \<open>u32_to_str\<close>.  The \<open>write\<close> system call's
  results are a parameter of the writing loop.
\<close>

section \<open>Levels\<close>

datatype log_level = LOG_NONE | LOG_ERROR | LOG_INFO | LOG_DEBUG

primrec level_num :: "log_level \<Rightarrow> nat" where
  "level_num LOG_NONE = 0"
| "level_num LOG_ERROR = 1"
| "level_num LOG_INFO = 2"
| "level_num LOG_DEBUG = 3"

text \<open>The macros compare levels as the enum's numbers.\<close>

instantiation log_level :: linorder
begin

definition less_eq_log_level :: "log_level \<Rightarrow> log_level \<Rightarrow> bool" where
  "less_eq_log_level a b \<longleftrightarrow> level_num a \<le> level_num b"

definition less_log_level :: "log_level \<Rightarrow> log_level \<Rightarrow> bool" where
  "less_log_level a b \<longleftrightarrow> level_num a < level_num b"

instance
proof
  fix a b c :: log_level
  show "a < b \<longleftrightarrow> a \<le> b \<and> \<not> b \<le> a"
    by (auto simp: less_eq_log_level_def less_log_level_def)
  show "a \<le> a" by (simp add: less_eq_log_level_def)
  show "a \<le> b \<Longrightarrow> b \<le> c \<Longrightarrow> a \<le> c" by (simp add: less_eq_log_level_def)
  show "a \<le> b \<Longrightarrow> b \<le> a \<Longrightarrow> a = b"
    by (cases a; cases b) (simp_all add: less_eq_log_level_def)
  show "a \<le> b \<or> b \<le> a" by (auto simp: less_eq_log_level_def)
qed

end

text \<open>\<open>g_log_level >= LOG_x\<close>, the guard of the macros.\<close>

definition log_enabled :: "log_level \<Rightarrow> log_level \<Rightarrow> bool" where
  "log_enabled g_log_level l \<longleftrightarrow> l \<le> g_log_level"

section \<open>Building a line\<close>

text \<open>One append of the C code: at most \<open>lim - n\<close> characters of \<open>s\<close> after the \<open>n\<close>
  already there (\<open>if (n + l > lim) l = lim - n;\<close>).\<close>

definition append_clipped :: "nat \<Rightarrow> string \<Rightarrow> string \<Rightarrow> string" where
  "append_clipped lim buf s =
     (let l = length s; l = (if length buf + l > lim then lim - length buf else l)
      in buf @ take l s)"

definition log_msg :: "string \<Rightarrow> string \<Rightarrow> string" where
  "log_msg prefix msg =
     (let buf = take 256 prefix;
          buf = append_clipped 510 buf msg
      in buf @ [CHR 0x0A])"

definition log_msg2 :: "string \<Rightarrow> string \<Rightarrow> string \<Rightarrow> string" where
  "log_msg2 prefix a b =
     (let buf = take 256 prefix;
          buf = append_clipped 500 buf a;
          buf = append_clipped 510 buf b
      in buf @ [CHR 0x0A])"

definition log_msg3 :: "string \<Rightarrow> string \<Rightarrow> string \<Rightarrow> string \<Rightarrow> string" where
  "log_msg3 prefix a b c =
     (let buf = take 200 prefix;
          buf = append_clipped 400 buf a;
          buf = append_clipped 480 buf b;
          buf = append_clipped 510 buf c
      in buf @ [CHR 0x0A])"

text \<open>\<open>log_msgn\<close> stops as soon as the buffer holds 510 characters.\<close>

fun log_parts :: "string \<Rightarrow> string list \<Rightarrow> string" where
  "log_parts buf [] = buf"
| "log_parts buf (p # ps) =
     (if length buf < 510 then log_parts (append_clipped 510 buf p) ps else buf)"

definition log_msgn :: "string \<Rightarrow> string list \<Rightarrow> string" where
  "log_msgn prefix parts = log_parts (take 200 prefix) parts @ [CHR 0x0A]"

lemma length_append_clipped:
  "length buf \<le> lim \<Longrightarrow> length (append_clipped lim buf s) \<le> lim"
  by (simp add: append_clipped_def Let_def)

lemma length_log_parts: "length buf \<le> 510 \<Longrightarrow> length (log_parts buf ps) \<le> 510"
  by (induction ps arbitrary: buf) (simp_all add: length_append_clipped)

text \<open>Every line, newline included, fits the 512-byte buffer of the C functions.\<close>

lemma length_append_clipped_le:
  "length buf \<le> l \<Longrightarrow> l \<le> lim \<Longrightarrow> length (append_clipped lim buf s) \<le> lim"
  by (simp add: length_append_clipped)

lemmas clip_bounds = length_append_clipped length_append_clipped_le

lemma log_msg_fits: "length (log_msg p m) \<le> 511"
  using clip_bounds(1) [of "take 256 p" 510 m] by (simp add: log_msg_def Let_def)

lemma log_msg2_fits: "length (log_msg2 p a b) \<le> 511"
proof -
  have "length (append_clipped 500 (take 256 p) a) \<le> 500" by (rule clip_bounds(1)) simp
  from clip_bounds(2) [OF this, of 510 b] show ?thesis by (simp add: log_msg2_def Let_def)
qed

lemma log_msg3_fits: "length (log_msg3 p a b c) \<le> 511"
proof -
  have "length (append_clipped 400 (take 200 p) a) \<le> 400" by (rule clip_bounds(1)) simp
  from clip_bounds(2) [OF this, of 480 b]
  have "length (append_clipped 480 (append_clipped 400 (take 200 p) a) b) \<le> 480" by simp
  from clip_bounds(2) [OF this, of 510 c] show ?thesis by (simp add: log_msg3_def Let_def)
qed

lemma log_msgn_fits: "length (log_msgn p ps) \<le> 511"
  using length_log_parts [of "take 200 p" ps] by (simp add: log_msgn_def)

section \<open>Writing it out\<close>

text \<open>\<open>log_write_all\<close>: each entry of \<open>results\<close> is what one \<open>write\<close> returned, \<open>Inr k\<close>
  for \<open>k\<close> bytes written (never more than asked for) and \<open>Inl eintr\<close> for a failure; an
  exhausted list is a call that never returns.  The result is the bytes that reached the
  descriptor.\<close>

fun log_write_all :: "(bool + nat) list \<Rightarrow> string \<Rightarrow> string" where
  "log_write_all results [] = []"
| "log_write_all [] buf = []"
| "log_write_all (Inl eintr # rs) buf = (if eintr then log_write_all rs buf else [])"
| "log_write_all (Inr k # rs) buf =
     (if 0 < k then take k buf @ log_write_all rs (drop k buf) else [])"

lemma log_write_all_prefix: "\<exists>rest. buf = log_write_all rs buf @ rest"
proof (induction rs buf rule: log_write_all.induct)
  case (4 k rs b bs)
  show ?case
  proof (cases "0 < k")
    case True
    with 4 obtain rest where "drop k (b # bs) = log_write_all rs (drop k (b # bs)) @ rest" by blast
    then have "b # bs = take k (b # bs) @ log_write_all rs (drop k (b # bs)) @ rest"
      by (metis append_take_drop_id)
    then show ?thesis using True by auto
  qed simp
qed auto

section \<open>Decimal numbers\<close>

text \<open>\<open>u32_to_str\<close> writes digits backwards from the end of a 12-byte buffer; the value
  is the resulting string.\<close>

fun u32_digits :: "nat \<Rightarrow> string \<Rightarrow> string" where
  "u32_digits v acc =
     (if 0 < v then u32_digits (v div 10) (char_of (48 + v mod 10) # acc) else acc)"

declare u32_digits.simps [simp del]

definition u32_to_str :: "u32 \<Rightarrow> string" where
  "u32_to_str v = (if v = 0 then ''0'' else u32_digits (unat v) [])"

text \<open>The value of a digit string, most significant digit first.\<close>

definition dec_val :: "string \<Rightarrow> nat" where
  "dec_val s = foldl (\<lambda>a c. 10 * a + digit_val c) 0 s"

lemma digit_char [simp]:
  "is_digit_c (char_of (48 + v mod 10))" "digit_val (char_of (48 + v mod 10)) = v mod 10"
proof -
  have "48 + v mod 10 < 256" using mod_less_divisor [of 10 v] by linarith
  then have "of_char (char_of (48 + v mod 10)) = (48 + v mod 10 :: nat)" by simp
  moreover have "v mod 10 < 10" by simp
  ultimately show "is_digit_c (char_of (48 + v mod 10))"
    "digit_val (char_of (48 + v mod 10)) = v mod 10"
    unfolding is_digit_c_def digit_val_def by linarith+
qed

lemma dec_val_foldl:
  "foldl (\<lambda>a c. 10 * a + digit_val c) n s = n * 10 ^ length s + dec_val s"
proof (induction s arbitrary: n)
  case (Cons c s)
  from Cons [of "10 * n + digit_val c"] Cons [of "digit_val c"] show ?case
    by (simp add: dec_val_def algebra_simps)
qed (simp add: dec_val_def)

lemma u32_digits_spec:
  "dec_val (u32_digits v acc) = v * 10 ^ length acc + dec_val acc \<and>
   (list_all is_digit_c acc \<longrightarrow> list_all is_digit_c (u32_digits v acc)) \<and>
   (v < 10 ^ k \<longrightarrow> length (u32_digits v acc) \<le> k + length acc)"
proof (induction v acc arbitrary: k rule: u32_digits.induct)
  case (1 v acc)
  show ?case
  proof (cases "0 < v")
    case True
    let ?d = "char_of (48 + v mod 10) :: char"
    have d: "dec_val (?d # acc) = v mod 10 * 10 ^ length acc + dec_val acc"
      using dec_val_foldl [of "v mod 10" acc] by (simp add: dec_val_def)
    have "v * 10 ^ length acc = (10 * (v div 10) + v mod 10) * 10 ^ length acc" by simp
    also have "\<dots> = v mod 10 * 10 ^ length acc + 10 * (v div 10 * 10 ^ length acc)"
      by (simp only: distrib_right mult.assoc add.commute)
    finally have "v * 10 ^ length acc = \<dots>" .
    then have "dec_val (u32_digits v acc) = v * 10 ^ length acc + dec_val acc"
      using True 1 [OF True] d by (simp add: u32_digits.simps [of v acc])
    moreover have "v < 10 ^ k \<longrightarrow> length (u32_digits v acc) \<le> k + length acc"
    proof
      assume v: "v < 10 ^ k"
      with True obtain j where j: "k = Suc j" by (cases k) auto
      then have "v div 10 < 10 ^ j" using v by (simp add: less_mult_imp_div_less)
      then show "length (u32_digits v acc) \<le> k + length acc"
        using 1 [OF True, of j] True j by (simp add: u32_digits.simps [of v acc])
    qed
    ultimately show ?thesis
      using 1 [OF True] True by (simp add: u32_digits.simps [of v acc])
  next
    case False
    then show ?thesis by (simp add: u32_digits.simps [of 0 acc])
  qed
qed

lemma u32_to_str_correct:
  "dec_val (u32_to_str v) = unat v \<and> list_all is_digit_c (u32_to_str v)
    \<and> 0 < length (u32_to_str v) \<and> length (u32_to_str v) \<le> 10"
proof (cases "v = 0")
  case True
  then show ?thesis by (simp add: u32_to_str_def dec_val_def is_digit_c_def digit_val_def)
next
  case False
  have "unat v < 4294967296" using unsigned_less [of v] by simp
  then have lt: "unat v < 10 ^ 10" by simp
  have "u32_digits (unat v) [] \<noteq> []"
  proof
    assume "u32_digits (unat v) [] = []"
    then have "dec_val (u32_digits (unat v) []) = 0" by (simp add: dec_val_def)
    then show False using u32_digits_spec [of "unat v" "[]"] False
      by (simp add: dec_val_def unat_eq_zero)
  qed
  then show ?thesis
    using u32_digits_spec [of "unat v" "[]" 10] lt False
    by (simp add: u32_to_str_def dec_val_def)
qed

end
