(* ===== verification/Awg_Config.thy ===== *)
theory Awg_Config
  imports Log Blake2s
begin

text \<open>
  The types of \<open>src/transform.h\<close> and \<open>src/obfs.h\<close> and the two functions that check and
  complete a configuration, \<open>config_validate\<close> and \<open>config_compute\<close>
  (\<open>src/transform.c\<close>).  C \<open>int\<close> fields are \<open>int\<close>; \<open>uint32_t\<close> fields are 32-bit
  words; a nullable key pointer is a \<open>bytes option\<close>; the first \<open>server_peer_count\<close>
  entries of the peer arrays are a list.
\<close>

section \<open>Packet and configuration types\<close>

abbreviation (input) WG_HANDSHAKE_INIT :: u32 where "WG_HANDSHAKE_INIT \<equiv> 1"
abbreviation (input) WG_HANDSHAKE_RESPONSE :: u32 where "WG_HANDSHAKE_RESPONSE \<equiv> 2"
abbreviation (input) WG_COOKIE_REPLY :: u32 where "WG_COOKIE_REPLY \<equiv> 3"
abbreviation (input) WG_TRANSPORT_DATA :: u32 where "WG_TRANSPORT_DATA \<equiv> 4"

abbreviation (input) "WG_INIT_SIZE \<equiv> 148"
abbreviation (input) "WG_RESP_SIZE \<equiv> 92"
abbreviation (input) "WG_COOKIE_SIZE \<equiv> 64"
abbreviation (input) "WG_TRANSPORT_MIN \<equiv> 32"
abbreviation (input) "AWG_PACKET_BUF_SIZE \<equiv> 1500"
abbreviation (input) "AWG_PACKET_HEADROOM \<equiv> 1500"
abbreviation (input) "AWG_MAX_SERVER_PEERS \<equiv> 256"

record hrange_t =
  hr_min :: u32
  hr_max :: u32

definition hrange_pick :: "hrange_t \<Rightarrow> u64 \<Rightarrow> u32" where
  "hrange_pick r rand_val =
     (if hr_min r = hr_max r then hr_min r
      else let span = (ucast (hr_max r) - ucast (hr_min r) + 1 :: u64)
           in hr_min r + ucast (rand_val mod span))"

definition hrange_contains :: "hrange_t \<Rightarrow> u32 \<Rightarrow> bool" where
  "hrange_contains r v \<longleftrightarrow> hr_min r \<le> v \<and> v \<le> hr_max r"

definition hrange_overlaps :: "hrange_t \<Rightarrow> hrange_t \<Rightarrow> bool" where
  "hrange_overlaps a b \<longleftrightarrow> hr_min a \<le> hr_max b \<and> hr_min b \<le> hr_max a"

datatype cps_kind = CPS_STATIC | CPS_RANDOM | CPS_TIMESTAMP | CPS_COUNTER
  | CPS_RANDOM_CHARS | CPS_RANDOM_DIGITS

record cps_segment_t =
  sg_kind :: cps_kind
  sg_size :: u16
  sg_data_off :: u16
  sg_data_len :: u16

text \<open>\<open>nseg\<close> and \<open>static_used\<close> are the lengths of the two lists.\<close>

record cps_template_t =
  tm_segs :: "cps_segment_t list"
  tm_static :: bytes

datatype awg_obfs_profile_t = AWG_OBFS_OFF | AWG_OBFS_STUN_ICE | AWG_OBFS_DTLS_RECORD
  | AWG_OBFS_RTP_MEDIA | AWG_OBFS_SOURCE_QUERY | AWG_OBFS_RAKNET | AWG_OBFS_QUIC_SHORT
  | AWG_OBFS_GAME_ENET | AWG_OBFS_GAME_KCP | AWG_OBFS_DNS_LIKE

datatype awg_mode = AWG_MODE_CLIENT | AWG_MODE_GATEWAY | AWG_MODE_SERVER

record awg_config_t =
  cf_jc :: int
  cf_jmin :: int
  cf_jmax :: int
  cf_s1 :: int
  cf_s2 :: int
  cf_s3 :: int
  cf_s4 :: int
  cf_h1 :: hrange_t
  cf_h2 :: hrange_t
  cf_h3 :: hrange_t
  cf_h4 :: hrange_t
  cf_cps :: "cps_template_t option list"
  cf_server_pub :: bytes
  cf_client_pub :: bytes
  cf_server_peer_pubs :: "bytes list"
  cf_mac1key_server :: bytes
  cf_mac1key_client :: bytes
  cf_server_peer_mac1keys :: "bytes list"
  cf_h4_fixed :: u32
  cf_h4_noop :: bool
  cf_init_total :: int
  cf_resp_total :: int
  cf_cookie_total :: int
  cf_has_server_pub :: bool
  cf_has_client_pub :: bool
  cf_mac1key_out :: "bytes option"
  cf_mac1key_in :: "bytes option"
  cf_transport_size_ambiguous :: bool
  cf_timeout :: int
  cf_remote_silent_timeout :: int
  cf_remote_silent_exit_timeout :: int
  cf_connect_retries :: int
  cf_dns_resolve_failure_timeout :: int
  cf_log_level :: log_level
  cf_socket_buf :: int
  cf_src_port :: int
  cf_src_port_drift :: int
  cf_cpu_c2s :: int
  cf_cpu_s2c :: int
  cf_busy_poll :: int
  cf_no_gro :: int
  cf_mode :: awg_mode
  cf_obfs_profile :: awg_obfs_profile_t

text \<open>\<open>memset(cfg, 0, sizeof *cfg)\<close>.\<close>

definition config_zero :: awg_config_t where
  "config_zero = \<lparr>
     cf_jc = 0, cf_jmin = 0, cf_jmax = 0, cf_s1 = 0, cf_s2 = 0, cf_s3 = 0, cf_s4 = 0,
     cf_h1 = \<lparr>hr_min = 0, hr_max = 0\<rparr>, cf_h2 = \<lparr>hr_min = 0, hr_max = 0\<rparr>,
     cf_h3 = \<lparr>hr_min = 0, hr_max = 0\<rparr>, cf_h4 = \<lparr>hr_min = 0, hr_max = 0\<rparr>,
     cf_cps = replicate 5 None,
     cf_server_pub = replicate 32 0, cf_client_pub = replicate 32 0,
     cf_server_peer_pubs = [],
     cf_mac1key_server = replicate 32 0, cf_mac1key_client = replicate 32 0,
     cf_server_peer_mac1keys = [],
     cf_h4_fixed = 0, cf_h4_noop = False,
     cf_init_total = 0, cf_resp_total = 0, cf_cookie_total = 0,
     cf_has_server_pub = False, cf_has_client_pub = False,
     cf_mac1key_out = None, cf_mac1key_in = None, cf_transport_size_ambiguous = False,
     cf_timeout = 0, cf_remote_silent_timeout = 0, cf_remote_silent_exit_timeout = 0,
     cf_connect_retries = 0, cf_dns_resolve_failure_timeout = 0, cf_log_level = LOG_NONE,
     cf_socket_buf = 0, cf_src_port = 0, cf_src_port_drift = 0,
     cf_cpu_c2s = 0, cf_cpu_s2c = 0, cf_busy_poll = 0, cf_no_gro = 0,
     cf_mode = AWG_MODE_CLIENT, cf_obfs_profile = AWG_OBFS_OFF\<rparr>"

section \<open>\<open>config_validate\<close> and \<open>config_compute\<close>\<close>

text \<open>The result is \<open>*err_msg\<close>: \<open>None\<close> for a valid configuration (the C function
  returns 0), \<open>Some msg\<close> otherwise (it returns -1).\<close>

definition config_validate :: "awg_config_t \<Rightarrow> string option" where
  "config_validate cfg =
    (if cf_jc cfg < 0 then Some ''AWG_JC: must be non-negative''
     else if cf_jmin cfg < 0 \<or> cf_jmax cfg < 0 then Some ''AWG_JMIN/AWG_JMAX: must be non-negative''
     else if cf_jmax cfg \<ge> 65535 then Some ''AWG_JMAX: must be smaller than 65535''
     else if cf_jmax cfg > 0 \<and> cf_jmax cfg < cf_jmin cfg
       then Some ''AWG_JMAX: must be greater than or equal to AWG_JMIN''
     else if cf_s1 cfg < 0 \<or> cf_s1 cfg > AWG_PACKET_BUF_SIZE - WG_INIT_SIZE
       then Some ''AWG_S1: must be between 0 and 1352''
     else if cf_s2 cfg < 0 \<or> cf_s2 cfg > AWG_PACKET_BUF_SIZE - WG_RESP_SIZE
       then Some ''AWG_S2: must be between 0 and 1408''
     else if cf_s3 cfg < 0 \<or> cf_s3 cfg > AWG_PACKET_BUF_SIZE - WG_COOKIE_SIZE
       then Some ''AWG_S3: must be between 0 and 1436''
     else if cf_s4 cfg < 0 \<or> cf_s4 cfg > AWG_PACKET_HEADROOM
       then Some ''AWG_S4: must be between 0 and 1500''
     else if hrange_overlaps (cf_h1 cfg) (cf_h2 cfg) \<or> hrange_overlaps (cf_h1 cfg) (cf_h3 cfg)
        \<or> hrange_overlaps (cf_h1 cfg) (cf_h4 cfg) \<or> hrange_overlaps (cf_h2 cfg) (cf_h3 cfg)
        \<or> hrange_overlaps (cf_h2 cfg) (cf_h4 cfg) \<or> hrange_overlaps (cf_h3 cfg) (cf_h4 cfg)
       then Some ''AWG_H1..AWG_H4: ranges must not overlap''
     else None)"

definition config_compute :: "awg_config_t \<Rightarrow> awg_config_t" where
  "config_compute cfg =
    (let z = replicate 32 (0 :: u8);
         has_server_pub = cf_server_pub cfg \<noteq> z;
         has_client_pub = cf_client_pub cfg \<noteq> z;
         mac1key_server = compute_mac1_key (cf_server_pub cfg);
         mac1key_client = compute_mac1_key (cf_client_pub cfg);
         init_total = cf_s1 cfg + WG_INIT_SIZE;
         resp_total = cf_s2 cfg + WG_RESP_SIZE;
         cookie_total = cf_s3 cfg + WG_COOKIE_SIZE;
         tmin = cf_s4 cfg + WG_TRANSPORT_MIN;
         server_key = (if has_server_pub then Some mac1key_server else None);
         client_key = (if has_client_pub then Some mac1key_client else None)
     in cfg\<lparr>cf_has_server_pub := has_server_pub,
            cf_has_client_pub := has_client_pub,
            cf_mac1key_server := mac1key_server,
            cf_mac1key_client := mac1key_client,
            cf_server_peer_mac1keys := map compute_mac1_key (cf_server_peer_pubs cfg),
            cf_h4_fixed := hr_min (cf_h4 cfg),
            cf_h4_noop := hr_min (cf_h4 cfg) = WG_TRANSPORT_DATA
              \<and> hr_max (cf_h4 cfg) = WG_TRANSPORT_DATA \<and> cf_s4 cfg = 0,
            cf_init_total := init_total,
            cf_resp_total := resp_total,
            cf_cookie_total := cookie_total,
            cf_transport_size_ambiguous :=
              init_total \<ge> tmin \<or> resp_total \<ge> tmin \<or> cookie_total \<ge> tmin,
            cf_mac1key_out :=
              (if cf_mode cfg = AWG_MODE_CLIENT then server_key else client_key),
            cf_mac1key_in :=
              (if cf_mode cfg = AWG_MODE_CLIENT then client_key else server_key)\<rparr>)"

text \<open>A validated configuration, and a configuration ready for the data path.\<close>

definition config_ok :: "awg_config_t \<Rightarrow> bool" where
  "config_ok cfg \<longleftrightarrow>
     0 \<le> cf_jc cfg \<and> 0 \<le> cf_jmin cfg \<and> 0 \<le> cf_jmax cfg \<and> cf_jmax cfg < 65535
     \<and> (0 < cf_jmax cfg \<longrightarrow> cf_jmin cfg \<le> cf_jmax cfg)
     \<and> 0 \<le> cf_s1 cfg \<and> cf_s1 cfg \<le> 1352 \<and> 0 \<le> cf_s2 cfg \<and> cf_s2 cfg \<le> 1408
     \<and> 0 \<le> cf_s3 cfg \<and> cf_s3 cfg \<le> 1436 \<and> 0 \<le> cf_s4 cfg \<and> cf_s4 cfg \<le> 1500
     \<and> \<not> hrange_overlaps (cf_h1 cfg) (cf_h2 cfg) \<and> \<not> hrange_overlaps (cf_h1 cfg) (cf_h3 cfg)
     \<and> \<not> hrange_overlaps (cf_h1 cfg) (cf_h4 cfg) \<and> \<not> hrange_overlaps (cf_h2 cfg) (cf_h3 cfg)
     \<and> \<not> hrange_overlaps (cf_h2 cfg) (cf_h4 cfg) \<and> \<not> hrange_overlaps (cf_h3 cfg) (cf_h4 cfg)"

lemma config_validate_ok: "config_validate cfg = None \<longleftrightarrow> config_ok cfg"
  unfolding config_validate_def config_ok_def by auto

definition hranges_ordered :: "awg_config_t \<Rightarrow> bool" where
  "hranges_ordered cfg \<longleftrightarrow> hr_min (cf_h1 cfg) \<le> hr_max (cf_h1 cfg) \<and>
     hr_min (cf_h2 cfg) \<le> hr_max (cf_h2 cfg) \<and> hr_min (cf_h3 cfg) \<le> hr_max (cf_h3 cfg) \<and>
     hr_min (cf_h4 cfg) \<le> hr_max (cf_h4 cfg)"

text \<open>A nullable pointer to a 32-byte key.\<close>

fun key32 :: "bytes option \<Rightarrow> bool" where
  "key32 None = True"
| "key32 (Some k) = (length k = 32)"

text \<open>What \<open>config_compute\<close> establishes, and all the data path relies on.\<close>

definition config_ready :: "awg_config_t \<Rightarrow> bool" where
  "config_ready cfg \<longleftrightarrow> config_ok cfg \<and> hranges_ordered cfg
     \<and> cf_init_total cfg = cf_s1 cfg + 148 \<and> cf_resp_total cfg = cf_s2 cfg + 92
     \<and> cf_cookie_total cfg = cf_s3 cfg + 64 \<and> cf_h4_fixed cfg = hr_min (cf_h4 cfg)
     \<and> (cf_h4_noop cfg \<longleftrightarrow> hr_min (cf_h4 cfg) = 4 \<and> hr_max (cf_h4 cfg) = 4 \<and> cf_s4 cfg = 0)
     \<and> (cf_transport_size_ambiguous cfg \<longleftrightarrow> cf_init_total cfg \<ge> cf_s4 cfg + 32
          \<or> cf_resp_total cfg \<ge> cf_s4 cfg + 32 \<or> cf_cookie_total cfg \<ge> cf_s4 cfg + 32)
     \<and> key32 (cf_mac1key_out cfg) \<and> key32 (cf_mac1key_in cfg)
     \<and> cf_server_peer_mac1keys cfg = map compute_mac1_key (cf_server_peer_pubs cfg)"

lemma length_compute_mac1_key [simp]: "length (compute_mac1_key k) = 32"
  by (simp add: compute_mac1_key_def)

lemma config_ready_compute:
  "config_ok cfg \<Longrightarrow> hranges_ordered cfg \<Longrightarrow> config_ready (config_compute cfg)"
  by (simp add: config_ready_def config_ok_def hranges_ordered_def config_compute_def Let_def)

text \<open>The keys each side uses: a client authenticates to the server's key outbound, and a
  gateway or server checks against the same key inbound.\<close>

lemma config_compute_keys:
  "cf_mac1key_out (config_compute cfg) =
     (if cf_mode cfg = AWG_MODE_CLIENT
      then (if cf_server_pub cfg = replicate 32 0 then None
            else Some (compute_mac1_key (cf_server_pub cfg)))
      else (if cf_client_pub cfg = replicate 32 0 then None
            else Some (compute_mac1_key (cf_client_pub cfg))))"
  "cf_mac1key_in (config_compute cfg) =
     (if cf_mode cfg = AWG_MODE_CLIENT
      then (if cf_client_pub cfg = replicate 32 0 then None
            else Some (compute_mac1_key (cf_client_pub cfg)))
      else (if cf_server_pub cfg = replicate 32 0 then None
            else Some (compute_mac1_key (cf_server_pub cfg))))"
  unfolding config_compute_def Let_def by simp_all

section \<open>Header ranges\<close>

text \<open>The span is computed in 64 bits, so the full 32-bit range does not overflow and the
  pick is always inside the range.\<close>

lemma hrange_pick_contains:
  assumes "hr_min r \<le> hr_max r"
  shows "hrange_contains r (hrange_pick r v)"
proof (cases "hr_min r = hr_max r")
  case True
  then show ?thesis by (simp add: hrange_pick_def hrange_contains_def)
next
  case False
  define lo where "lo = unat (hr_min r)"
  define hi where "hi = unat (hr_max r)"
  have lh: "lo \<le> hi" using assms by (simp add: lo_def hi_def word_le_nat_alt)
  have hi32: "hi < 2 ^ 32" using unsigned_less [of "hr_max r"] by (simp add: hi_def)
  have u: "unat (ucast (hr_max r) :: u64) = hi" "unat (ucast (hr_min r) :: u64) = lo"
    by (simp_all add: unat_ucast_up hi_def lo_def)
  have "unat (ucast (hr_max r) - ucast (hr_min r) :: u64) = hi - lo"
    using u lh by (simp add: unat_sub word_le_nat_alt)
  then have span: "unat (ucast (hr_max r) - ucast (hr_min r) + 1 :: u64) = hi - lo + 1"
    using hi32 by (simp add: unat_word_ariths)
  define k where "k = unat v mod Suc (hi - lo)"
  have k: "k \<le> hi - lo" unfolding k_def using mod_less_divisor [of "Suc (hi - lo)" "unat v"] by linarith
  have "unat (ucast (v mod (ucast (hr_max r) - ucast (hr_min r) + 1)) :: u32) = k"
    using k hi32 by (simp add: unat_ucast_mod unat_mod span k_def [symmetric])
  then have "unat (hrange_pick r v) = lo + k"
    using False k hi32 lh by (simp add: hrange_pick_def Let_def unat_word_ariths lo_def)
  then show ?thesis
    using k lh by (simp add: hrange_contains_def word_le_nat_alt lo_def hi_def)
qed

lemma hrange_disjoint:
  "\<not> hrange_overlaps a b \<Longrightarrow> hrange_contains a v \<Longrightarrow> \<not> hrange_contains b v"
  by (auto simp: hrange_overlaps_def hrange_contains_def)

end
