(* ===== verification/Transform_Correct.thy ===== *)
theory Transform_Correct
  imports Packet_Transform
begin

text \<open>
  What \<open>transform_outbound\<close> and \<open>transform_inbound\<close> compute, as functions on packets
  (\<open>out_spec\<close>, \<open>in_spec\<close>); that the buffer code refines them without ever leaving its
  buffers; and that a peer's inbound translation undoes the outbound one.
\<close>

section \<open>Sealed handshake messages\<close>

text \<open>Both authenticated messages are covered bytes, MAC1, MAC2: \<open>seal\<close> recomputes MAC1
  over the first \<open>cov\<close> bytes and zeroes MAC2; \<open>retype\<close> replaces the type word.\<close>

definition seal :: "(bytes \<Rightarrow> bytes \<Rightarrow> bytes) \<Rightarrow> nat \<Rightarrow> bytes \<Rightarrow> bytes \<Rightarrow> bytes" where
  "seal mac cov k p = take cov p @ mac k (take cov p) @ replicate 16 0"

definition retype :: "u32 \<Rightarrow> bytes \<Rightarrow> bytes" where
  "retype h p = le32_bytes h @ drop 4 p"

lemma length_retype [simp]: "4 \<le> length p \<Longrightarrow> length (retype h p) = length p"
  by (simp add: retype_def)

lemma le32_of_retype [simp]: "le32_of (retype h p) = h"
  by (simp add: retype_def)

lemma retype_retype [simp]: "retype a (retype b p) = retype a p"
  by (simp add: retype_def)

lemma retype_same: "4 \<le> length p \<Longrightarrow> retype (le32_of p) p = p"
  by (simp add: retype_def le32_bytes_le32_of)

lemma drop4_retype [simp]: "drop 4 (retype h p) = drop 4 p"
  by (simp add: retype_def)

text \<open>The contract of the MAC the transform relies on: sixteen bytes from a 32-byte key.\<close>

locale mac1_codec =
  fixes mac :: "bytes \<Rightarrow> bytes \<Rightarrow> bytes" and cov :: nat
  assumes mac_len: "length k = 32 \<Longrightarrow> length (mac k m) = 16"
    and cov_type: "4 \<le> cov"
begin

lemma length_seal:
  "length k = 32 \<Longrightarrow> cov \<le> length p \<Longrightarrow> length (seal mac cov k p) = cov + 32"
  by (simp add: seal_def mac_len)

lemma take_seal: "cov \<le> length p \<Longrightarrow> take cov (seal mac cov k p) = take cov p"
  by (simp add: seal_def)

lemma le32_of_seal: "cov \<le> length p \<Longrightarrow> le32_of (seal mac cov k p) = le32_of p"
  using cov_type by (simp add: seal_def le32_of_take)

lemma seal_seal: "cov \<le> length p \<Longrightarrow> seal mac cov k' (seal mac cov k p) = seal mac cov k' p"
  by (simp add: seal_def)

lemma take_retype: "take cov (retype h p) = retype h (take cov p)"
  using cov_type by (simp add: retype_def take_drop min_def)

lemma seal_retype_seal:
  assumes "cov \<le> length p"
  shows "seal mac cov k' (retype h (seal mac cov k p)) = seal mac cov k' (retype h p)"
  using assms cov_type by (simp add: seal_def take_retype)

text \<open>Sealing under the key the peer checks, and back: a message sealed under \<open>k\<close> comes
  out as it went in.\<close>

lemma seal_roundtrip:
  assumes "cov \<le> length p" and "seal mac cov k p = p" and "le32_of p = t"
  shows "seal mac cov k (retype t (seal mac cov k (retype h p))) = p"
proof -
  have "4 \<le> length p" using assms(1) cov_type by simp
  then have "seal mac cov k (retype t (seal mac cov k (retype h p)))
      = seal mac cov k (retype t (retype h p))"
    using assms(1) by (simp add: seal_retype_seal)
  also have "\<dots> = seal mac cov k p"
    using assms(3) \<open>4 \<le> length p\<close> by (simp add: retype_same flip: assms(3))
  finally show ?thesis using assms(2) by simp
qed

end

interpretation init_mac: mac1_codec blake2s_128mac 116
  by unfold_locales (simp_all add: length_blake2s_128mac)

interpretation resp_mac: mac1_codec blake2s_128mac 60
  by unfold_locales (simp_all add: length_blake2s_128mac)

text \<open>The restamping code is \<open>seal\<close> on the packet inside the buffer.\<close>

definition seal_opt :: "nat \<Rightarrow> bytes option \<Rightarrow> bytes \<Rightarrow> bytes" where
  "seal_opt cov key p = (case key of None \<Rightarrow> p | Some k \<Rightarrow> seal blake2s_128mac cov k p)"

lemma splice_tail_pair:
  assumes "length p = cov + 32" and "length a = 16" and "length b = 16"
  shows "splice (splice p cov a) (cov + 16) b = take cov p @ a @ b"
  using assms by (simp add: splice_def)

lemma restamp_init_mid:
  assumes "length p = 148" and "key32 key"
  shows "restamp_init (xs @ p @ zs) (length xs) key = Some (xs @ seal_opt 116 key p @ zs)"
proof (cases key)
  case None
  then show ?thesis by (simp add: restamp_init_def seal_opt_def)
next
  case (Some k)
  with assms(2) have "length (blake2s_128mac k (take 116 p)) = 16"
    by (simp add: length_blake2s_128mac)
  with Some assms(1) splice_tail_pair [of p 116 "blake2s_128mac k (take 116 p)" "replicate 16 0"]
  show ?thesis
    by (simp add: restamp_init_def recompute_mac1_def clear_mac2_init_def seal_opt_def seal_def)
qed

lemma restamp_response_mid:
  assumes "length p = 92" and "key32 key"
  shows "restamp_response (xs @ p @ zs) (length xs) key = Some (xs @ seal_opt 60 key p @ zs)"
proof (cases key)
  case None
  then show ?thesis by (simp add: restamp_response_def seal_opt_def)
next
  case (Some k)
  with assms(2) have "length (blake2s_128mac k (take 60 p)) = 16"
    by (simp add: length_blake2s_128mac)
  with Some assms(1) splice_tail_pair [of p 60 "blake2s_128mac k (take 60 p)" "replicate 16 0"]
  show ?thesis
    by (simp add: restamp_response_def recompute_mac1_response_def clear_mac2_response_def
        seal_opt_def seal_def)
qed

section \<open>The operations on packets\<close>

text \<open>The padding a handshake branch puts in front, as bytes.\<close>

definition pad_bytes :: "int \<Rightarrow> u64 \<Rightarrow> bytes" where
  "pad_bytes s seed = (if s > 0 then fst (fastrand_fill (fastrand_init seed) (nat s)) else [])"

lemma length_pad_bytes [simp]: "length (pad_bytes s seed) = nat s"
  by (simp add: pad_bytes_def)

text \<open>The header of a transport packet, and the whole outbound translation of the packet
  \<open>p\<close> behind the headroom \<open>pre\<close>.\<close>

definition h4_value :: "awg_config_t \<Rightarrow> u64 \<Rightarrow> u32" where
  "h4_value cfg rand_val = (if hr_min (cf_h4 cfg) = hr_max (cf_h4 cfg) then cf_h4_fixed cfg
     else hrange_pick (cf_h4 cfg) rand_val)"

definition out_spec :: "awg_config_t \<Rightarrow> bytes option \<Rightarrow> u64 \<Rightarrow> bytes \<Rightarrow> bytes \<Rightarrow> bytes" where
  "out_spec cfg key rand_val pre p =
    (let out_key = (case key of Some k \<Rightarrow> Some k | None \<Rightarrow> cf_mac1key_out cfg);
         t = le32_of p; n = length p
     in
     if n < 4 then p
     else if t = 1 \<and> n = 148 then pad_bytes (cf_s1 cfg) rand_val @
       seal_opt 116 out_key (retype (hrange_pick (cf_h1 cfg) rand_val) p)
     else if t = 2 \<and> n = 92 then pad_bytes (cf_s2 cfg) (rand_val XOR 0x12345) @
       seal_opt 60 out_key (retype (hrange_pick (cf_h2 cfg) rand_val) p)
     else if t = 3 \<and> n = 64 then pad_bytes (cf_s3 cfg) (rand_val XOR 0x67890) @
       retype (hrange_pick (cf_h3 cfg) rand_val) p
     else if t = 4 \<and> n \<ge> 32 then
       if cf_h4_noop cfg then p
       else (if cf_s4 cfg > 0 \<and> int (length pre) \<ge> cf_s4 cfg
             then drop (length pre - nat (cf_s4 cfg)) pre else [])
            @ retype (h4_value cfg rand_val) p
     else p)"

definition in_spec :: "awg_config_t \<Rightarrow> bytes \<Rightarrow> bytes option" where
  "in_spec cfg p =
    (let G = (\<lambda>total s h. int (length p) = total
           \<and> hrange_contains h (le32_of (drop (nat s) p)))
     in
     if length p < 4 then None
     else if cf_h4_noop cfg \<and> le32_of p = 4 \<and> length p \<ge> 32 then Some p
     else if G (cf_init_total cfg) (cf_s1 cfg) (cf_h1 cfg) then
       Some (seal_opt 116 (cf_mac1key_in cfg) (retype 1 (drop (nat (cf_s1 cfg)) p)))
     else if G (cf_resp_total cfg) (cf_s2 cfg) (cf_h2 cfg) then
       Some (seal_opt 60 (cf_mac1key_in cfg) (retype 2 (drop (nat (cf_s2 cfg)) p)))
     else if G (cf_cookie_total cfg) (cf_s3 cfg) (cf_h3 cfg) then
       Some (retype 3 (drop (nat (cf_s3 cfg)) p))
     else if int (length p) \<ge> cf_s4 cfg + 32
         \<and> hrange_contains (cf_h4 cfg) (le32_of (drop (nat (cf_s4 cfg)) p)) then
       Some (retype 4 (drop (nat (cf_s4 cfg)) p))
     else None)"

lemma length_seal_opt [simp]:
  "key32 key \<Longrightarrow> length p = cov + 32 \<Longrightarrow> length (seal_opt cov key p) = length p"
  by (cases key) (simp_all add: seal_opt_def seal_def length_blake2s_128mac)

section \<open>Outbound refinement\<close>

text \<open>What a result satisfies: the packet sent is \<open>q\<close>, it lies inside the buffer it points
  into, and the buffers keep their sizes.\<close>

definition tx_ok :: "bytes \<Rightarrow> bytes \<Rightarrow> bytes \<Rightarrow> tx_result \<Rightarrow> bool" where
  "tx_ok buf hs q r \<longleftrightarrow> tx_packet r = q \<and> tx_len r = length q
     \<and> length (tx_buf r) = length buf \<and> length (tx_hs r) = length hs
     \<and> (case tx_loc r of InBuf off \<Rightarrow> off + tx_len r \<le> length (tx_buf r)
        | InHs \<Rightarrow> tx_len r \<le> length (tx_hs r))"

lemma tx_ok_in_place:
  "tx_ok (xs @ p' @ zs) hs p \<lparr>tx_buf = xs @ p @ zs, tx_hs = hs, tx_loc = InBuf (length xs),
     tx_len = length p, tx_junk = j\<rparr>" if "length p' = length p"
  using that by (simp add: tx_ok_def tx_packet_def)

lemma prepend_padding_ok:
  assumes "0 \<le> s" and "nat s + length p \<le> length hs" and "length p' = length p"
  shows "\<exists>r. prepend_padding (xs @ p @ zs) hs (length xs) (length p) s seed j = Some r
    \<and> tx_ok (xs @ p' @ zs) hs (pad_bytes s seed @ p) r \<and> tx_junk r = j"
proof (cases "s > 0")
  case False
  then show ?thesis
    using tx_ok_in_place [of p' p xs zs hs j] assms(3)
    by (simp add: prepend_padding_def pad_bytes_def)
next
  case True
  let ?pad = "fst (fastrand_fill (fastrand_init seed) (nat s))"
  have lp: "length ?pad = nat s" by simp
  show ?thesis
  proof (cases "nat s \<le> length xs")
    case fits: True
    define ys where "ys = take (length xs - nat s) xs"
    define us where "us = drop (length xs - nat s) xs"
    have xs: "xs = ys @ us" "length us = nat s" "length xs - nat s = length ys"
      using fits by (simp_all add: ys_def us_def)
    have "wr (xs @ p @ zs) (length xs - nat s) ?pad = Some (ys @ ?pad @ p @ zs)"
      using wr_mid_0 [of ?pad us ys "p @ zs"] xs lp by simp
    moreover have "slice (ys @ ?pad @ p @ zs) (length xs - nat s) (nat s + length p) = ?pad @ p"
      using slice_mid [of "nat s + length p" "?pad @ p" ys zs] xs(3) lp by simp
    moreover have "length ys + nat s = length xs" using fits by (simp add: ys_def)
    ultimately show ?thesis
      using True fits lp assms(3)
      by (simp add: prepend_padding_def Let_def tx_ok_def tx_packet_def pad_bytes_def)
  next
    case False
    define hs1 where "hs1 = drop (nat s) hs"
    have "wr hs 0 ?pad = Some (?pad @ hs1)"
      using assms(2) lp mem_front(4) [of ?pad hs "[]"]
      by (simp add: hs1_def wr_def splice_def)
    moreover have "wr (?pad @ hs1) (nat s) p = Some (?pad @ p @ drop (length p) hs1)"
      using assms(2) lp wr_mid_0 [of p hs1 ?pad "[]"] by (simp add: hs1_def)
    ultimately show ?thesis
      using True False lp assms(2,3)
      by (simp add: prepend_padding_def Let_def tx_ok_def tx_packet_def pad_bytes_def
          slice_def hs1_def)
  qed
qed

text \<open>The seven branches, one lemma each, then the whole function.\<close>

definition out_key :: "awg_config_t \<Rightarrow> bytes option \<Rightarrow> bytes option" where
  "out_key cfg key = (case key of Some k \<Rightarrow> Some k | None \<Rightarrow> cf_mac1key_out cfg)"

lemma key32_out_key: "config_ready cfg \<Longrightarrow> key32 key \<Longrightarrow> key32 (out_key cfg key)"
  by (cases key) (simp_all add: out_key_def config_ready_def)

lemma config_ready_bounds:
  assumes "config_ready cfg"
  shows "0 \<le> cf_s1 cfg" "cf_s1 cfg \<le> 1352" "0 \<le> cf_s2 cfg" "cf_s2 cfg \<le> 1408"
    "0 \<le> cf_s3 cfg" "cf_s3 cfg \<le> 1436" "0 \<le> cf_s4 cfg" "cf_s4 cfg \<le> 1500"
  using assms unfolding config_ready_def config_ok_def by auto

lemma config_ready_totals:
  assumes "config_ready cfg"
  shows "cf_init_total cfg = cf_s1 cfg + 148" "cf_resp_total cfg = cf_s2 cfg + 92"
    "cf_cookie_total cfg = cf_s3 cfg + 64" "cf_h4_fixed cfg = hr_min (cf_h4 cfg)"
    "cf_h4_noop cfg \<longleftrightarrow> hr_min (cf_h4 cfg) = 4 \<and> hr_max (cf_h4 cfg) = 4 \<and> cf_s4 cfg = 0"
  using assms unfolding config_ready_def by auto

definition out_refines ::
  "bytes \<Rightarrow> bytes \<Rightarrow> bytes \<Rightarrow> bytes \<Rightarrow> awg_config_t \<Rightarrow> bytes option \<Rightarrow> u64 \<Rightarrow> bool" where
  "out_refines xs p zs hs cfg key rand_val \<longleftrightarrow>
    (\<exists>r. transform_outbound_with_mac1 (xs @ p @ zs) hs (length xs) (length p) cfg key rand_val = Some r
      \<and> tx_ok (xs @ p @ zs) hs (out_spec cfg key rand_val xs p) r
      \<and> tx_junk r = (cf_jc cfg > 0 \<and> le32_of p = 1 \<and> length p = 148))"

lemma out_refines_init:
  assumes cfg: "config_ready cfg" and key: "key32 key" and hs: "length hs = 1500"
    and p: "le32_of p = 1" "length p = 148"
  shows "out_refines xs p zs hs cfg key rand_val"
proof -
  let ?p = "retype (hrange_pick (cf_h1 cfg) rand_val) p"
  let ?q = "seal_opt 116 (out_key cfg key) ?p"
  have k: "key32 (out_key cfg key)" by (rule key32_out_key [OF cfg key])
  have lp: "length ?p = 148" using p(2) by simp
  then have lq: "length ?q = 148" using k by simp
  have w: "restamp_init (xs @ ?p @ zs) (length xs) (out_key cfg key) = Some (xs @ ?q @ zs)"
    by (rule restamp_init_mid [OF lp k])
  have "\<exists>r. prepend_padding (xs @ ?q @ zs) hs (length xs) (length ?q) (cf_s1 cfg) rand_val
      (cf_jc cfg > 0) = Some r
      \<and> tx_ok (xs @ p @ zs) hs (pad_bytes (cf_s1 cfg) rand_val @ ?q) r
      \<and> tx_junk r = (cf_jc cfg > 0)"
    using config_ready_bounds [OF cfg] hs lq p(2) by (intro prepend_padding_ok) simp_all
  then show ?thesis
    using p w lq
    by (simp add: out_refines_def transform_outbound_with_mac1_def out_spec_def Let_def
        retype_def [symmetric] out_key_def)
qed

lemma out_refines_response:
  assumes cfg: "config_ready cfg" and key: "key32 key" and hs: "length hs = 1500"
    and p: "le32_of p = 2" "length p = 92"
  shows "out_refines xs p zs hs cfg key rand_val"
proof -
  let ?p = "retype (hrange_pick (cf_h2 cfg) rand_val) p"
  let ?q = "seal_opt 60 (out_key cfg key) ?p"
  have k: "key32 (out_key cfg key)" by (rule key32_out_key [OF cfg key])
  have lp: "length ?p = 92" using p(2) by simp
  then have lq: "length ?q = 92" using k by simp
  have w: "restamp_response (xs @ ?p @ zs) (length xs) (out_key cfg key) = Some (xs @ ?q @ zs)"
    by (rule restamp_response_mid [OF lp k])
  have "\<exists>r. prepend_padding (xs @ ?q @ zs) hs (length xs) (length ?q) (cf_s2 cfg)
      (rand_val XOR 0x12345) False = Some r
      \<and> tx_ok (xs @ p @ zs) hs (pad_bytes (cf_s2 cfg) (rand_val XOR 0x12345) @ ?q) r
      \<and> tx_junk r = False"
    using config_ready_bounds [OF cfg] hs lq p(2) by (intro prepend_padding_ok) simp_all
  then show ?thesis
    using p w lq
    by (simp add: out_refines_def transform_outbound_with_mac1_def out_spec_def Let_def
        retype_def [symmetric] out_key_def)
qed

lemma out_refines_cookie:
  assumes cfg: "config_ready cfg" and hs: "length hs = 1500"
    and p: "le32_of p = 3" "length p = 64"
  shows "out_refines xs p zs hs cfg key rand_val"
proof -
  let ?p = "retype (hrange_pick (cf_h3 cfg) rand_val) p"
  have lp: "length ?p = 64" using p(2) by simp
  have "\<exists>r. prepend_padding (xs @ ?p @ zs) hs (length xs) (length ?p) (cf_s3 cfg)
      (rand_val XOR 0x67890) False = Some r
      \<and> tx_ok (xs @ p @ zs) hs (pad_bytes (cf_s3 cfg) (rand_val XOR 0x67890) @ ?p) r
      \<and> tx_junk r = False"
    using config_ready_bounds [OF cfg] hs lp p(2) by (intro prepend_padding_ok) simp_all
  then show ?thesis
    using p lp
    by (simp add: out_refines_def transform_outbound_with_mac1_def out_spec_def Let_def
        retype_def [symmetric])
qed

lemma tx_ok_headroom:
  assumes "k \<le> length xs" and "length p' = length p"
  shows "tx_ok (xs @ p' @ zs) hs (drop (length xs - k) xs @ p)
    \<lparr>tx_buf = xs @ p @ zs, tx_hs = hs, tx_loc = InBuf (length xs - k),
     tx_len = k + length p, tx_junk = j\<rparr>"
proof -
  have "slice (take (length xs - k) xs @ (drop (length xs - k) xs @ p) @ zs)
      (length (take (length xs - k) xs)) (k + length p) = drop (length xs - k) xs @ p"
    using assms by (subst slice_mid) simp_all
  then have "slice (xs @ p @ zs) (length xs - k) (k + length p) = drop (length xs - k) xs @ p"
    using assms(1) by (simp flip: append_assoc)
  then show ?thesis using assms by (simp add: tx_ok_def tx_packet_def)
qed

lemma out_refines_transport:
  assumes cfg: "config_ready cfg" and p: "le32_of p = 4" "32 \<le> length p"
  shows "out_refines xs p zs hs cfg key rand_val"
proof -
  let ?p = "retype (h4_value cfg rand_val) p"
  have lp: "length ?p = length p" using p(2) by simp
  have noop: "cf_h4_noop cfg \<Longrightarrow> ?thesis"
    using p tx_ok_in_place [of p p xs zs hs False]
    by (simp add: out_refines_def transform_outbound_with_mac1_def out_spec_def Let_def)
  have pad: "cf_s4 cfg > 0 \<and> int (length xs) \<ge> cf_s4 cfg \<Longrightarrow> \<not> cf_h4_noop cfg \<Longrightarrow> ?thesis"
    using p tx_ok_headroom [of "nat (cf_s4 cfg)" xs p ?p zs hs False] lp
    by (simp add: out_refines_def transform_outbound_with_mac1_def out_spec_def Let_def
        retype_def [symmetric] h4_value_def nat_le_iff)
  have bare: "\<not> (cf_s4 cfg > 0 \<and> int (length xs) \<ge> cf_s4 cfg) \<Longrightarrow> \<not> cf_h4_noop cfg \<Longrightarrow> ?thesis"
    using p tx_ok_in_place [of p ?p xs zs hs False] lp
    by (auto simp: out_refines_def transform_outbound_with_mac1_def out_spec_def Let_def
        retype_def [symmetric] h4_value_def)
  show ?thesis using noop pad bare by blast
qed

lemma out_refines_other:
  assumes "length p < 4 \<or> (\<not> (le32_of p = 1 \<and> length p = 148) \<and> \<not> (le32_of p = 2 \<and> length p = 92)
    \<and> \<not> (le32_of p = 3 \<and> length p = 64) \<and> \<not> (le32_of p = 4 \<and> 32 \<le> length p))"
  shows "out_refines xs p zs hs cfg key rand_val"
  using assms tx_ok_in_place [of p p xs zs hs False]
  by (auto simp: out_refines_def transform_outbound_with_mac1_def out_spec_def Let_def)

lemma transform_outbound_refines:
  assumes "config_ready cfg" and "key32 key" and "length hs = 1500"
  shows "out_refines xs p zs hs cfg key rand_val"
proof -
  consider "le32_of p = 1" "length p = 148" | "le32_of p = 2" "length p = 92"
    | "le32_of p = 3" "length p = 64" | "le32_of p = 4" "32 \<le> length p"
    | "length p < 4 \<or> (\<not> (le32_of p = 1 \<and> length p = 148)
        \<and> \<not> (le32_of p = 2 \<and> length p = 92)
        \<and> \<not> (le32_of p = 3 \<and> length p = 64) \<and> \<not> (le32_of p = 4 \<and> 32 \<le> length p))"
    by blast
  then show ?thesis
  proof cases
    case 1 then show ?thesis by (rule out_refines_init [OF assms])
  next
    case 2 then show ?thesis by (rule out_refines_response [OF assms])
  next
    case 3 then show ?thesis by (rule out_refines_cookie [OF assms(1,3)])
  next
    case 4 then show ?thesis by (rule out_refines_transport [OF assms(1)])
  next
    case 5 then show ?thesis by (rule out_refines_other)
  qed
qed

section \<open>Inbound refinement\<close>

text \<open>The result of \<open>transform_inbound\<close> on the packet \<open>p\<close> at the start of a buffer:
  nothing faults, and either both drop the packet or the returned window holds it.\<close>

definition rx_ok :: "bytes \<Rightarrow> nat \<Rightarrow> bytes option \<Rightarrow> in_result \<Rightarrow> bool" where
  "rx_ok buf n q r = (case q of None \<Rightarrow> r = None
     | Some q \<Rightarrow> \<exists>buf' off. r = Some (buf', off, length q) \<and> slice buf' off (length q) = q
         \<and> off + length q = n \<and> length buf' = length buf)"

lemma rx_ok_None [simp]: "rx_ok buf n None r \<longleftrightarrow> r = None"
  by (simp add: rx_ok_def)

lemma rx_ok_window:
  assumes "length xs = k" and "length q = m" and "k + m = n" and "length buf = n + length zs"
  shows "rx_ok buf n (Some q) (Some (xs @ q @ zs, k, m))"
  using assms by (auto simp: rx_ok_def)

text \<open>Each branch, on a packet that is padding \<open>xs\<close> followed by a message \<open>q\<close>.\<close>

lemma nat_len: "nat (int k) = k" by simp

lemma in_init_eq:
  assumes cfg: "config_ready cfg" and s: "cf_s1 cfg = int (length xs)" and q: "length q = 148"
    and h: "hrange_contains (cf_h1 cfg) (le32_of q)"
  shows "in_init (xs @ q @ zs) (length xs + 148) cfg =
    Some (Some (xs @ seal_opt 116 (cf_mac1key_in cfg) (retype 1 q) @ zs, length xs, 148))"
proof -
  have key: "key32 (cf_mac1key_in cfg)" using cfg by (simp add: config_ready_def)
  have "restamp_init (xs @ retype 1 q @ zs) (length xs) (cf_mac1key_in cfg)
      = Some (xs @ seal_opt 116 (cf_mac1key_in cfg) (retype 1 q) @ zs)"
    using q key by (intro restamp_init_mid) simp_all
  moreover have "wr32 (xs @ q @ zs) (length xs) 1 = Some (xs @ retype 1 q @ zs)"
    using q by (simp add: retype_def)
  ultimately show ?thesis
    using s q h config_ready_totals [OF cfg] by (simp add: in_init_def ptr_off_def del: wr32_mid)
qed

lemma in_response_eq:
  assumes cfg: "config_ready cfg" and s: "cf_s2 cfg = int (length xs)" and q: "length q = 92"
    and h: "hrange_contains (cf_h2 cfg) (le32_of q)"
  shows "in_response (xs @ q @ zs) (length xs + 92) cfg =
    Some (Some (xs @ seal_opt 60 (cf_mac1key_in cfg) (retype 2 q) @ zs, length xs, 92))"
proof -
  have key: "key32 (cf_mac1key_in cfg)" using cfg by (simp add: config_ready_def)
  have "restamp_response (xs @ retype 2 q @ zs) (length xs) (cf_mac1key_in cfg)
      = Some (xs @ seal_opt 60 (cf_mac1key_in cfg) (retype 2 q) @ zs)"
    using q key by (intro restamp_response_mid) simp_all
  moreover have "wr32 (xs @ q @ zs) (length xs) 2 = Some (xs @ retype 2 q @ zs)"
    using q by (simp add: retype_def)
  ultimately show ?thesis
    using s q h config_ready_totals [OF cfg] by (simp add: in_response_def ptr_off_def del: wr32_mid)
qed

lemma in_cookie_eq:
  assumes cfg: "config_ready cfg" and s: "cf_s3 cfg = int (length xs)" and q: "length q = 64"
    and h: "hrange_contains (cf_h3 cfg) (le32_of q)"
  shows "in_cookie (xs @ q @ zs) (length xs + 64) cfg =
    Some (Some (xs @ retype 3 q @ zs, length xs, 64))"
  using s q h config_ready_totals [OF cfg] by (simp add: in_cookie_def ptr_off_def retype_def)

lemma in_transport_eq:
  assumes s: "cf_s4 cfg = int (length xs)" and q: "32 \<le> length q"
    and h: "hrange_contains (cf_h4 cfg) (le32_of q)"
  shows "in_transport (xs @ q @ zs) (length xs + length q) cfg =
    Some (Some (xs @ retype 4 q @ zs, length xs, length q))"
  using s q h by (simp add: in_transport_def ptr_off_def retype_def)

text \<open>A branch that does not take the packet reads inside it and falls through.\<close>

lemma rd32_inside:
  "k + 4 \<le> length p \<Longrightarrow> rd32 (p @ zs) k = Some (le32_of (drop k p))"
  by (simp add: rd32_def slice_def le32_of_take)

lemma in_init_skip:
  assumes cfg: "config_ready cfg" and
    n: "\<not> (int (length p) = cf_init_total cfg \<and> hrange_contains (cf_h1 cfg) (le32_of (drop (nat (cf_s1 cfg)) p)))"
  shows "in_init (p @ zs) (length p) cfg = Some None"
  using n config_ready_bounds [OF cfg] config_ready_totals [OF cfg]
  by (auto simp: in_init_def ptr_off_def rd32_inside)

lemma in_response_skip:
  assumes cfg: "config_ready cfg" and
    n: "\<not> (int (length p) = cf_resp_total cfg \<and> hrange_contains (cf_h2 cfg) (le32_of (drop (nat (cf_s2 cfg)) p)))"
  shows "in_response (p @ zs) (length p) cfg = Some None"
  using n config_ready_bounds [OF cfg] config_ready_totals [OF cfg]
  by (auto simp: in_response_def ptr_off_def rd32_inside)

lemma in_cookie_skip:
  assumes cfg: "config_ready cfg" and
    n: "\<not> (int (length p) = cf_cookie_total cfg \<and> hrange_contains (cf_h3 cfg) (le32_of (drop (nat (cf_s3 cfg)) p)))"
  shows "in_cookie (p @ zs) (length p) cfg = Some None"
  using n config_ready_bounds [OF cfg] config_ready_totals [OF cfg]
  by (auto simp: in_cookie_def ptr_off_def rd32_inside)

lemma in_transport_skip:
  assumes cfg: "config_ready cfg" and
    n: "\<not> (int (length p) \<ge> cf_s4 cfg + 32 \<and> hrange_contains (cf_h4 cfg) (le32_of (drop (nat (cf_s4 cfg)) p)))"
  shows "in_transport (p @ zs) (length p) cfg = Some None"
  using n config_ready_bounds [OF cfg]
  by (auto simp: in_transport_def ptr_off_def rd32_inside)

lemma in_noop_eq:
  assumes "4 \<le> length p"
  shows "in_noop (p @ zs) (length p) cfg = Some
    (if cf_h4_noop cfg \<and> le32_of p = 4 \<and> length p \<ge> 32 then Some (p @ zs, 0, length p) else None)"
  using assms rd32_inside [of 0 p zs] by (simp add: in_noop_def)

text \<open>\<open>in_spec\<close> chooses the branch the code takes.\<close>

definition in_refines :: "bytes \<Rightarrow> bytes \<Rightarrow> awg_config_t \<Rightarrow> bool" where
  "in_refines p zs cfg \<longleftrightarrow>
    (\<exists>r. transform_inbound (p @ zs) (length p) cfg = Some r
      \<and> rx_ok (p @ zs) (length p) (in_spec cfg p) r)"

lemma in_refinesI:
  "transform_inbound (p @ zs) (length p) cfg = Some r \<Longrightarrow> in_spec cfg p = q
    \<Longrightarrow> rx_ok (p @ zs) (length p) q r \<Longrightarrow> in_refines p zs cfg"
  by (auto simp: in_refines_def)

text \<open>The branches when the packet is theirs.\<close>

lemma in_init_hit:
  assumes cfg: "config_ready cfg" and m: "int (length p) = cf_init_total cfg \<and> hrange_contains (cf_h1 cfg) (le32_of (drop (nat (cf_s1 cfg)) p))"
  shows "\<exists>r. in_init (p @ zs) (length p) cfg = Some (Some r) \<and> rx_ok (p @ zs) (length p) (Some (seal_opt 116 (cf_mac1key_in cfg) (retype 1 (drop (nat (cf_s1 cfg)) p)))) (Some r)"
proof -
  let ?k = "nat (cf_s1 cfg)"
  note b = config_ready_bounds [OF cfg] config_ready_totals [OF cfg]
  have key: "key32 (cf_mac1key_in cfg)" using cfg by (simp add: config_ready_def)
  have l: "length p = ?k + 148" using m b by linarith
  have at: "take ?k p @ drop ?k p @ zs = p @ zs" by simp
  have "in_init (p @ zs) (length p) cfg = Some (Some (take ?k p @ (seal_opt 116 (cf_mac1key_in cfg) (retype 1 (drop (nat (cf_s1 cfg)) p))) @ zs, ?k, 148))"
    using in_init_eq [OF cfg, of "take ?k p" "drop ?k p" zs, unfolded at] m b l by simp
  moreover have "rx_ok (p @ zs) (length p) (Some (seal_opt 116 (cf_mac1key_in cfg) (retype 1 (drop (nat (cf_s1 cfg)) p)))) (Some (take ?k p @ (seal_opt 116 (cf_mac1key_in cfg) (retype 1 (drop (nat (cf_s1 cfg)) p))) @ zs, ?k, 148))"
    using l key by (intro rx_ok_window) simp_all
  ultimately show ?thesis by blast
qed

lemma in_response_hit:
  assumes cfg: "config_ready cfg" and m: "int (length p) = cf_resp_total cfg \<and> hrange_contains (cf_h2 cfg) (le32_of (drop (nat (cf_s2 cfg)) p))"
  shows "\<exists>r. in_response (p @ zs) (length p) cfg = Some (Some r) \<and> rx_ok (p @ zs) (length p) (Some (seal_opt 60 (cf_mac1key_in cfg) (retype 2 (drop (nat (cf_s2 cfg)) p)))) (Some r)"
proof -
  let ?k = "nat (cf_s2 cfg)"
  note b = config_ready_bounds [OF cfg] config_ready_totals [OF cfg]
  have key: "key32 (cf_mac1key_in cfg)" using cfg by (simp add: config_ready_def)
  have l: "length p = ?k + 92" using m b by linarith
  have at: "take ?k p @ drop ?k p @ zs = p @ zs" by simp
  have "in_response (p @ zs) (length p) cfg = Some (Some (take ?k p @ (seal_opt 60 (cf_mac1key_in cfg) (retype 2 (drop (nat (cf_s2 cfg)) p))) @ zs, ?k, 92))"
    using in_response_eq [OF cfg, of "take ?k p" "drop ?k p" zs, unfolded at] m b l by simp
  moreover have "rx_ok (p @ zs) (length p) (Some (seal_opt 60 (cf_mac1key_in cfg) (retype 2 (drop (nat (cf_s2 cfg)) p)))) (Some (take ?k p @ (seal_opt 60 (cf_mac1key_in cfg) (retype 2 (drop (nat (cf_s2 cfg)) p))) @ zs, ?k, 92))"
    using l key by (intro rx_ok_window) simp_all
  ultimately show ?thesis by blast
qed

lemma in_cookie_hit:
  assumes cfg: "config_ready cfg" and m: "int (length p) = cf_cookie_total cfg \<and> hrange_contains (cf_h3 cfg) (le32_of (drop (nat (cf_s3 cfg)) p))"
  shows "\<exists>r. in_cookie (p @ zs) (length p) cfg = Some (Some r) \<and> rx_ok (p @ zs) (length p) (Some (retype 3 (drop (nat (cf_s3 cfg)) p))) (Some r)"
proof -
  let ?k = "nat (cf_s3 cfg)"
  note b = config_ready_bounds [OF cfg] config_ready_totals [OF cfg]
  have key: "key32 (cf_mac1key_in cfg)" using cfg by (simp add: config_ready_def)
  have l: "length p = ?k + 64" using m b by linarith
  have at: "take ?k p @ drop ?k p @ zs = p @ zs" by simp
  have "in_cookie (p @ zs) (length p) cfg = Some (Some (take ?k p @ (retype 3 (drop (nat (cf_s3 cfg)) p)) @ zs, ?k, 64))"
    using in_cookie_eq [OF cfg, of "take ?k p" "drop ?k p" zs, unfolded at] m b l by simp
  moreover have "rx_ok (p @ zs) (length p) (Some (retype 3 (drop (nat (cf_s3 cfg)) p))) (Some (take ?k p @ (retype 3 (drop (nat (cf_s3 cfg)) p)) @ zs, ?k, 64))"
    using l key by (intro rx_ok_window) simp_all
  ultimately show ?thesis by blast
qed

lemma in_transport_hit:
  assumes cfg: "config_ready cfg" and m: "int (length p) \<ge> cf_s4 cfg + 32 \<and> hrange_contains (cf_h4 cfg) (le32_of (drop (nat (cf_s4 cfg)) p))"
  shows "\<exists>r. in_transport (p @ zs) (length p) cfg = Some (Some r)
    \<and> rx_ok (p @ zs) (length p) (Some (retype 4 (drop (nat (cf_s4 cfg)) p))) (Some r)"
proof -
  let ?k = "nat (cf_s4 cfg)"
  note b = config_ready_bounds [OF cfg]
  have l: "?k + 32 \<le> length p" using m b by linarith
  have at: "take ?k p @ drop ?k p @ zs = p @ zs" by simp
  have "in_transport (p @ zs) (length p) cfg = Some (Some (take ?k p @ retype 4 (drop ?k p) @ zs, ?k, length p - ?k))"
    using in_transport_eq [of cfg "take ?k p" "drop ?k p" zs, unfolded at] m b l by simp
  moreover have "rx_ok (p @ zs) (length p) (Some (retype 4 (drop ?k p)))
      (Some (take ?k p @ retype 4 (drop ?k p) @ zs, ?k, length p - ?k))"
    using l by (intro rx_ok_window) simp_all
  ultimately show ?thesis by blast
qed

lemma transform_inbound_refines:
  assumes cfg: "config_ready cfg"
  shows "in_refines p zs cfg"
proof -
  define N where "N = (cf_h4_noop cfg \<and> le32_of p = 4 \<and> length p \<ge> 32)"
  define G1 where "G1 = (int (length p) = cf_init_total cfg \<and> hrange_contains (cf_h1 cfg) (le32_of (drop (nat (cf_s1 cfg)) p)))"
  define G2 where "G2 = (int (length p) = cf_resp_total cfg \<and> hrange_contains (cf_h2 cfg) (le32_of (drop (nat (cf_s2 cfg)) p)))"
  define G3 where "G3 = (int (length p) = cf_cookie_total cfg \<and> hrange_contains (cf_h3 cfg) (le32_of (drop (nat (cf_s3 cfg)) p)))"
  define T where "T = (int (length p) \<ge> cf_s4 cfg + 32 \<and> hrange_contains (cf_h4 cfg) (le32_of (drop (nat (cf_s4 cfg)) p)))"
  have noop: "4 \<le> length p \<Longrightarrow> in_noop (p @ zs) (length p) cfg = Some (if N then Some (p @ zs, 0, length p) else None)"
    unfolding N_def by (rule in_noop_eq)
  note skip = in_init_skip [OF cfg, of p zs, folded G1_def] in_response_skip [OF cfg, of p zs, folded G2_def]
    in_cookie_skip [OF cfg, of p zs, folded G3_def] in_transport_skip [OF cfg, of p zs, folded T_def]
  note hit = in_init_hit [OF cfg, of p zs, folded G1_def] in_response_hit [OF cfg, of p zs, folded G2_def]
    in_cookie_hit [OF cfg, of p zs, folded G3_def] in_transport_hit [OF cfg, of p zs, folded T_def]
  have spec: "in_spec cfg p = (if length p < 4 then None else if N then Some p
    else if G1 then Some (seal_opt 116 (cf_mac1key_in cfg) (retype 1 (drop (nat (cf_s1 cfg)) p)))
    else if G2 then Some (seal_opt 60 (cf_mac1key_in cfg) (retype 2 (drop (nat (cf_s2 cfg)) p)))
    else if G3 then Some (retype 3 (drop (nat (cf_s3 cfg)) p))
    else if T then Some (retype 4 (drop (nat (cf_s4 cfg)) p)) else None)"
    by (simp only: in_spec_def N_def G1_def G2_def G3_def T_def Let_def)
  consider "length p < 4" | "4 \<le> length p" N | "4 \<le> length p" "\<not> N" by linarith
  then show ?thesis
  proof cases
    case 1
    then show ?thesis by (simp add: in_refines_def transform_inbound_def in_spec_def)
  next
    case 2
    then have "in_spec cfg p = Some p" by (simp add: in_spec_def N_def)
    moreover have "transform_inbound (p @ zs) (length p) cfg = Some (Some ([] @ p @ zs, 0, length p))"
      using 2 noop by (simp add: transform_inbound_def or_next_def)
    moreover have "rx_ok (p @ zs) (length p) (Some p) (Some ([] @ p @ zs, 0, length p))"
      by (rule rx_ok_window) simp_all
    ultimately show ?thesis by (simp add: in_refinesI)
  next
    case 3
    have "\<exists>r. transform_inbound (p @ zs) (length p) cfg = Some r \<and> rx_ok (p @ zs) (length p) (in_spec cfg p) r"
    proof (cases "G1 \<or> G2 \<or> G3 \<or> T")
      case True
      then consider G1 | "\<not> G1" G2 | "\<not> G1" "\<not> G2" G3 | "\<not> G1" "\<not> G2" "\<not> G3" T by blast
      then show ?thesis
        using 3 noop skip hit by cases (auto simp: transform_inbound_def or_next_def spec)
    next
      case False
      then show ?thesis using 3 noop skip by (simp add: transform_inbound_def or_next_def spec)
    qed
    then show ?thesis by (auto simp: in_refines_def)
  qed
qed

section \<open>Round trips between two peers\<close>

text \<open>Two ends of an obfuscated link use the same padding sizes and header ranges.\<close>

definition same_params :: "awg_config_t \<Rightarrow> awg_config_t \<Rightarrow> bool" where
  "same_params c g \<longleftrightarrow> cf_s1 c = cf_s1 g \<and> cf_s2 c = cf_s2 g \<and> cf_s3 c = cf_s3 g \<and> cf_s4 c = cf_s4 g
     \<and> cf_h1 c = cf_h1 g \<and> cf_h2 c = cf_h2 g \<and> cf_h3 c = cf_h3 g \<and> cf_h4 c = cf_h4 g"

text \<open>No two packet classes can be mistaken for one another by their sizes: the totals of
  the padded handshake messages differ, and a transport packet whose size coincides with
  one of them carries its header at the same offset.\<close>

definition sizes_distinct :: "awg_config_t \<Rightarrow> bool" where
  "sizes_distinct g \<longleftrightarrow> cf_init_total g \<noteq> cf_resp_total g \<and> cf_init_total g \<noteq> cf_cookie_total g
     \<and> cf_resp_total g \<noteq> cf_cookie_total g"

definition size_clear :: "awg_config_t \<Rightarrow> nat \<Rightarrow> bool" where
  "size_clear g n \<longleftrightarrow>
     (int n + cf_s4 g = cf_init_total g \<longrightarrow> cf_s1 g = cf_s4 g)
     \<and> (int n + cf_s4 g = cf_resp_total g \<longrightarrow> cf_s2 g = cf_s4 g)
     \<and> (int n + cf_s4 g = cf_cookie_total g \<longrightarrow> cf_s3 g = cf_s4 g)"

definition out_pad :: "awg_config_t \<Rightarrow> u64 \<Rightarrow> bytes \<Rightarrow> bytes \<Rightarrow> bytes" where
  "out_pad cfg rand_val pre p =
     (if le32_of p = 1 then pad_bytes (cf_s1 cfg) rand_val
      else if le32_of p = 2 then pad_bytes (cf_s2 cfg) (rand_val XOR 0x12345)
      else if le32_of p = 3 then pad_bytes (cf_s3 cfg) (rand_val XOR 0x67890)
      else drop (length pre - nat (cf_s4 cfg)) pre)"

text \<open>The messages of the WireGuard protocol by type word and size, and what the receiving
  side is to hand on: the message, with its MAC restamped under the receiver's key.\<close>

definition wg_message :: "bytes \<Rightarrow> bool" where
  "wg_message p \<longleftrightarrow> le32_of p = 1 \<and> length p = 148 \<or> le32_of p = 2 \<and> length p = 92
     \<or> le32_of p = 3 \<and> length p = 64 \<or> le32_of p = 4 \<and> 32 \<le> length p"

definition wg_restamped :: "bytes option \<Rightarrow> bytes \<Rightarrow> bytes" where
  "wg_restamped key p = (if le32_of p = 1 then seal_opt 116 key p
     else if le32_of p = 2 then seal_opt 60 key p else p)"

lemma contains_pick [simp]:
  "hranges_ordered c \<Longrightarrow> hrange_contains (cf_h1 c) (hrange_pick (cf_h1 c) v)"
  "hranges_ordered c \<Longrightarrow> hrange_contains (cf_h2 c) (hrange_pick (cf_h2 c) v)"
  "hranges_ordered c \<Longrightarrow> hrange_contains (cf_h3 c) (hrange_pick (cf_h3 c) v)"
  "hranges_ordered c \<Longrightarrow> hrange_contains (cf_h4 c) (hrange_pick (cf_h4 c) v)"
  by (simp_all add: hranges_ordered_def hrange_pick_contains)

lemma contains_h4_value: "config_ready c \<Longrightarrow> hrange_contains (cf_h4 c) (h4_value c v)"
  by (simp add: h4_value_def config_ready_def hranges_ordered_def hrange_pick_contains)
    (simp add: hrange_contains_def)

text \<open>Restoring the type and restamping undoes the outbound rewriting: the bytes covered by
  the MAC are again those of the original message.\<close>

lemma restamp_undo:
  assumes "mac1_codec mac cov" and mac: "mac = blake2s_128mac" and cov: "cov \<le> length p"
    and t: "le32_of p = t" and k: "key = None \<longrightarrow> key' = None"
  shows "seal_opt cov key (retype t (seal_opt cov key' (retype h p))) = seal_opt cov key p"
proof -
  note c = assms(1) [unfolded mac]
  have "4 \<le> length p" using cov mac1_codec.cov_type [OF c] by simp
  then have r: "retype t p = p" "retype t (retype h p) = p" using t by (auto simp: retype_same)
  show ?thesis
  proof (cases key)
    case None
    with k r show ?thesis by (simp add: seal_opt_def)
  next
    case (Some k1)
    show ?thesis
    proof (cases key')
      case None
      with Some r show ?thesis by (simp add: seal_opt_def)
    next
      case (Some k2)
      with \<open>key = Some k1\<close> r cov \<open>4 \<le> length p\<close>
        mac1_codec.seal_retype_seal [OF c, of "retype h p" k1 t k2]
      show ?thesis by (simp add: seal_opt_def)
    qed
  qed
qed

text \<open>The two configurations, and the side condition on the random padding: with the
  transport shortcut on (\<open>h4_noop\<close>) the receiver looks at the first word of the packet
  before anything else.\<close>

definition peers_ok :: "awg_config_t \<Rightarrow> awg_config_t \<Rightarrow> bytes option \<Rightarrow> bool" where
  "peers_ok c g key \<longleftrightarrow> config_ready c \<and> config_ready g \<and> same_params c g \<and> key32 key
     \<and> (cf_mac1key_in g = None \<longrightarrow> out_key c key = None)"

lemma out_spec_handshake:
  assumes "wg_message p" and "le32_of p \<noteq> 4"
  shows "out_spec c key v pre p = out_pad c v pre p @
    (if le32_of p = 1 then seal_opt 116 (out_key c key) (retype (hrange_pick (cf_h1 c) v) p)
     else if le32_of p = 2 then seal_opt 60 (out_key c key) (retype (hrange_pick (cf_h2 c) v) p)
     else retype (hrange_pick (cf_h3 c) v) p)"
  using assms unfolding wg_message_def
  by (elim disjE) (simp_all add: out_spec_def out_pad_def out_key_def Let_def)

lemma le32_of_seal_opt:
  "cov \<le> length p \<Longrightarrow> 4 \<le> cov \<Longrightarrow> le32_of (seal_opt cov key p) = le32_of p"
  by (cases key) (simp_all add: seal_opt_def seal_def le32_of_take)

lemma in_spec_skip_noop:
  assumes "cf_h4_noop g \<longrightarrow> le32_of q \<noteq> 4" and "4 \<le> length q"
  shows "in_spec g q =
    (if int (length q) = cf_init_total g \<and> hrange_contains (cf_h1 g) (le32_of (drop (nat (cf_s1 g)) q)) then
       Some (seal_opt 116 (cf_mac1key_in g) (retype 1 (drop (nat (cf_s1 g)) q)))
     else if int (length q) = cf_resp_total g \<and> hrange_contains (cf_h2 g) (le32_of (drop (nat (cf_s2 g)) q)) then
       Some (seal_opt 60 (cf_mac1key_in g) (retype 2 (drop (nat (cf_s2 g)) q)))
     else if int (length q) = cf_cookie_total g \<and> hrange_contains (cf_h3 g) (le32_of (drop (nat (cf_s3 g)) q)) then
       Some (retype 3 (drop (nat (cf_s3 g)) q))
     else if int (length q) \<ge> cf_s4 g + 32
         \<and> hrange_contains (cf_h4 g) (le32_of (drop (nat (cf_s4 g)) q)) then
       Some (retype 4 (drop (nat (cf_s4 g)) q))
     else None)"
  using assms by (simp only: in_spec_def Let_def) auto

lemma roundtrip_init:
  assumes ok: "peers_ok c g key" and p: "le32_of p = 1" "length p = 148"
    and noop: "cf_h4_noop g \<longrightarrow> le32_of (out_spec c key v pre p) \<noteq> 4"
  shows "in_spec g (out_spec c key v pre p) = Some (seal_opt 116 (cf_mac1key_in g) p)"
proof -
  have c: "config_ready c" and g: "config_ready g" and k: "key32 (out_key c key)"
    and key: "cf_mac1key_in g = None \<longrightarrow> out_key c key = None"
    and s: "cf_s1 c = cf_s1 g" and h: "cf_h1 c = cf_h1 g"
    using ok key32_out_key by (auto simp: peers_ok_def same_params_def)
  let ?q = "seal_opt 116 (out_key c key) (retype (hrange_pick (cf_h1 g) v) p)"
  have q: "out_spec c key v pre p = pad_bytes (cf_s1 g) v @ ?q"
    using p out_spec_handshake [of p c key v pre] s h by (simp add: wg_message_def out_pad_def)
  have lq: "length ?q = 148" "le32_of ?q = hrange_pick (cf_h1 g) v"
    using p k by (simp_all add: le32_of_seal_opt)
  have "hrange_contains (cf_h1 g) (le32_of ?q)"
    using g lq by (simp add: config_ready_def)
  moreover have "seal_opt 116 (cf_mac1key_in g) (retype 1 ?q) = seal_opt 116 (cf_mac1key_in g) p"
    using p key by (intro restamp_undo [OF init_mac.mac1_codec_axioms refl]) simp_all
  moreover have "int (length (out_spec c key v pre p)) = cf_init_total g"
    using lq q config_ready_totals [OF g] config_ready_bounds [OF g] by simp
  ultimately show ?thesis
    using noop q lq by (subst in_spec_skip_noop) simp_all
qed

lemma roundtrip_response:
  assumes ok: "peers_ok c g key" and p: "le32_of p = 2" "length p = 92"
    and noop: "cf_h4_noop g \<longrightarrow> le32_of (out_spec c key v pre p) \<noteq> 4"
    and d: "sizes_distinct g"
  shows "in_spec g (out_spec c key v pre p) = Some (seal_opt 60 (cf_mac1key_in g) p)"
proof -
  have c: "config_ready c" and g: "config_ready g" and k: "key32 (out_key c key)"
    and key: "cf_mac1key_in g = None \<longrightarrow> out_key c key = None"
    and s: "cf_s2 c = cf_s2 g" and h: "cf_h2 c = cf_h2 g"
    using ok key32_out_key by (auto simp: peers_ok_def same_params_def)
  let ?pad = "pad_bytes (cf_s2 g) (v XOR 0x12345)"
  let ?q = "seal_opt 60 (out_key c key) (retype (hrange_pick (cf_h2 g) v) p)"
  have q: "out_spec c key v pre p = ?pad @ ?q"
    using p out_spec_handshake [of p c key v pre] s h by (simp add: wg_message_def out_pad_def)
  have lq: "length ?q = 92" "le32_of ?q = hrange_pick (cf_h2 g) v"
    using p k by (simp_all add: le32_of_seal_opt)
  have "hrange_contains (cf_h2 g) (le32_of ?q)"
    using g lq by (simp add: config_ready_def)
  moreover have "seal_opt 60 (cf_mac1key_in g) (retype 2 ?q) = seal_opt 60 (cf_mac1key_in g) p"
    using p key by (intro restamp_undo [OF resp_mac.mac1_codec_axioms refl]) simp_all
  moreover have n: "int (length (out_spec c key v pre p)) = cf_resp_total g"
    using lq q config_ready_totals [OF g] config_ready_bounds [OF g] by simp
  moreover have "cf_resp_total g \<noteq> cf_init_total g" using d by (auto simp: sizes_distinct_def)
  ultimately show ?thesis
    using noop q lq by (subst in_spec_skip_noop) simp_all
qed

lemma roundtrip_cookie:
  assumes ok: "peers_ok c g key" and p: "le32_of p = 3" "length p = 64"
    and noop: "cf_h4_noop g \<longrightarrow> le32_of (out_spec c key v pre p) \<noteq> 4"
    and d: "sizes_distinct g"
  shows "in_spec g (out_spec c key v pre p) = Some p"
proof -
  have c: "config_ready c" and g: "config_ready g"
    and s: "cf_s3 c = cf_s3 g" and h: "cf_h3 c = cf_h3 g"
    using ok by (auto simp: peers_ok_def same_params_def)
  let ?pad = "pad_bytes (cf_s3 g) (v XOR 0x67890)"
  let ?q = "retype (hrange_pick (cf_h3 g) v) p"
  have q: "out_spec c key v pre p = ?pad @ ?q"
    using p out_spec_handshake [of p c key v pre] s h by (simp add: wg_message_def out_pad_def)
  have lq: "length ?q = 64" using p by simp
  have "hrange_contains (cf_h3 g) (le32_of ?q)" using g by (simp add: config_ready_def)
  moreover have "retype 3 ?q = p" using p retype_same [of p] by simp
  moreover have n: "int (length (out_spec c key v pre p)) = cf_cookie_total g"
    using lq q config_ready_totals [OF g] config_ready_bounds [OF g] by simp
  moreover have "cf_cookie_total g \<noteq> cf_init_total g" "cf_cookie_total g \<noteq> cf_resp_total g"
    using d by (auto simp: sizes_distinct_def)
  ultimately show ?thesis
    using noop q lq by (subst in_spec_skip_noop) simp_all
qed

lemma disjoint_h4:
  assumes "config_ready g" and "hrange_contains (cf_h4 g) w"
  shows "\<not> hrange_contains (cf_h1 g) w" "\<not> hrange_contains (cf_h2 g) w"
    "\<not> hrange_contains (cf_h3 g) w"
  using assms hrange_disjoint by (auto simp: config_ready_def config_ok_def)

lemma roundtrip_transport:
  assumes ok: "peers_ok c g key" and p: "le32_of p = 4" "32 \<le> length p"
    and room: "cf_s4 c \<le> int (length pre)"
    and d: "size_clear g (length p)"
  shows "in_spec g (out_spec c key v pre p) = Some p"
proof (cases "cf_h4_noop g")
  case True
  then have "cf_h4_noop c"
    using ok by (auto simp: peers_ok_def same_params_def config_ready_def)
  then show ?thesis using True p by (simp add: out_spec_def in_spec_def)
next
  case False
  have c: "config_ready c" and g: "config_ready g"
    and s: "cf_s4 c = cf_s4 g" and h: "cf_h4 c = cf_h4 g"
    using ok by (auto simp: peers_ok_def same_params_def)
  have nc: "\<not> cf_h4_noop c" using False c g s h by (auto simp: config_ready_def)
  let ?pad = "if cf_s4 g > 0 then drop (length pre - nat (cf_s4 g)) pre else []"
  let ?q = "retype (h4_value c v) p"
  have q: "out_spec c key v pre p = ?pad @ ?q"
    using p nc s room by (simp add: out_spec_def)
  have lp: "length ?pad = nat (cf_s4 g)" using room s by simp
  have lq: "length ?q = length p" using p by simp
  have n: "int (length (out_spec c key v pre p)) = int (length p) + cf_s4 g"
    using q lp lq config_ready_bounds(7) [OF g] by simp
  have w: "le32_of (drop (nat (cf_s4 g)) (out_spec c key v pre p)) = h4_value c v"
    using q lp by (simp only: drop_append) simp
  have hc: "hrange_contains (cf_h4 g) (h4_value c v)" using contains_h4_value [OF c] h by simp
  have r: "retype 4 (drop (nat (cf_s4 g)) (out_spec c key v pre p)) = p"
    using q lp p retype_same [of p] by (simp only: drop_append) simp
  have l4: "4 \<le> length (out_spec c key v pre p)" using q lq p by simp
  have "cf_h4_noop g \<longrightarrow> le32_of (out_spec c key v pre p) \<noteq> 4" using False by simp
  note sp = in_spec_skip_noop [OF this l4]
  let ?o = "out_spec c key v pre p"
  note cl = d [unfolded size_clear_def] and dj = disjoint_h4 [OF g hc]
  have no: "\<not> (int (length ?o) = t \<and> hrange_contains h (le32_of (drop (nat s) ?o)))"
    if "int (length p) + cf_s4 g = t \<longrightarrow> s = cf_s4 g" and "\<not> hrange_contains h (h4_value c v)"
    for t s h
  proof
    assume a: "int (length ?o) = t \<and> hrange_contains h (le32_of (drop (nat s) ?o))"
    with that(1) n have "s = cf_s4 g" by simp
    with a w that(2) show False by simp
  qed
  have "int (length ?o) \<ge> cf_s4 g + 32 \<and> hrange_contains (cf_h4 g) (le32_of (drop (nat (cf_s4 g)) ?o))"
    using n w hc p by simp
  then show ?thesis
    using no [OF cl [THEN conjunct1] dj(1)] no [OF cl [THEN conjunct2, THEN conjunct1] dj(2)]
      no [OF cl [THEN conjunct2, THEN conjunct2] dj(3)] r
    by (simp only: sp if_True if_False simp_thms)
qed

text \<open>The four cases together.\<close>

definition clear_of_confusion :: "awg_config_t \<Rightarrow> bytes \<Rightarrow> bytes \<Rightarrow> bool" where
  "clear_of_confusion g p q \<longleftrightarrow>
     (if le32_of p = 4 then size_clear g (length p)
      else (cf_h4_noop g \<longrightarrow> le32_of q \<noteq> 4) \<and> (le32_of p = 1 \<or> sizes_distinct g))"

lemma in_out_spec:
  assumes "peers_ok c g key" and "wg_message p" and "cf_s4 c \<le> int (length pre)"
    and "clear_of_confusion g p (out_spec c key v pre p)"
  shows "in_spec g (out_spec c key v pre p) = Some (wg_restamped (cf_mac1key_in g) p)"
proof -
  note p = assms(2) [unfolded wg_message_def] and cl = assms(4) [unfolded clear_of_confusion_def]
  consider "le32_of p = 1" "length p = 148" | "le32_of p = 2" "length p = 92"
    | "le32_of p = 3" "length p = 64" | "le32_of p = 4" "32 \<le> length p"
    using p by blast
  then show ?thesis
  proof cases
    case 1
    with roundtrip_init [OF assms(1) this] cl show ?thesis by (simp add: wg_restamped_def)
  next
    case 2
    with roundtrip_response [OF assms(1) this] cl show ?thesis by (simp add: wg_restamped_def)
  next
    case 3
    with roundtrip_cookie [OF assms(1) this] cl show ?thesis by (simp add: wg_restamped_def)
  next
    case 4
    with roundtrip_transport [OF assms(1) this assms(3)] cl show ?thesis
      by (simp add: wg_restamped_def)
  qed
qed

text \<open>The same on buffers: whatever the sender's buffers hold around the packet, the bytes it
  sends, received at the start of any buffer, come out as the message in its window.\<close>

lemma buffers_roundtrip:
  assumes ok: "peers_ok c g key" and p: "wg_message p" and room: "cf_s4 c \<le> int (length xs)"
    and hs: "length hs = 1500"
    and cl: "clear_of_confusion g p (out_spec c key v xs p)"
  shows "\<exists>r buf off.
    transform_outbound_with_mac1 (xs @ p @ zs) hs (length xs) (length p) c key v = Some r
    \<and> transform_inbound (tx_packet r @ ws) (tx_len r) g = Some (Some (buf, off, length p))
    \<and> slice buf off (length p) = wg_restamped (cf_mac1key_in g) p"
proof -
  have c: "config_ready c" "key32 key" and g: "config_ready g"
    using ok by (auto simp: peers_ok_def)
  let ?q = "out_spec c key v xs p" and ?m = "wg_restamped (cf_mac1key_in g) p"
  obtain r where r: "transform_outbound_with_mac1 (xs @ p @ zs) hs (length xs) (length p) c key v = Some r"
      "tx_packet r = ?q" "tx_len r = length ?q"
    using transform_outbound_refines [OF c hs, of xs p zs v]
    by (auto simp: out_refines_def tx_ok_def)
  have i: "in_spec g ?q = Some ?m" by (rule in_out_spec [OF ok p room cl])
  have k: "key32 (cf_mac1key_in g)" using g by (simp add: config_ready_def)
  have lm: "length ?m = length p"
    using p k by (auto simp: wg_restamped_def wg_message_def)
  obtain buf off where "transform_inbound (?q @ ws) (length ?q) g = Some (Some (buf, off, length ?m))"
      "slice buf off (length ?m) = ?m"
    using transform_inbound_refines [OF g, of ?q ws] i by (auto simp: in_refines_def rx_ok_def)
  with r lm show ?thesis by auto
qed

section \<open>What leaves and what enters\<close>

text \<open>An authenticated message leaves with a MAC1 over its rewritten bytes and a zero MAC2.\<close>

lemma seal_opt_valid:
  assumes "length k = 32" and "cov + 32 \<le> length p"
  defines "q \<equiv> seal_opt cov (Some k) p"
  shows "slice q cov 16 = blake2s_128mac k (take cov q)" "slice q (cov + 16) 16 = replicate 16 0"
  using assms by (simp_all add: seal_opt_def seal_def slice_def length_blake2s_128mac)

lemma if_SomeE:
  "(if b then Some x else r) = Some q \<Longrightarrow> (b \<Longrightarrow> q = x \<Longrightarrow> P) \<Longrightarrow> (\<not> b \<Longrightarrow> r = Some q \<Longrightarrow> P) \<Longrightarrow> P"
  "(if b then None else r) = Some q \<Longrightarrow> (\<not> b \<Longrightarrow> r = Some q \<Longrightarrow> P) \<Longrightarrow> P"
  by (auto split: if_splits)

lemma if_NoneE: "None = Some q \<Longrightarrow> P"
  by simp

text \<open>Every packet the inbound translation hands on is a WireGuard message.\<close>

lemma in_spec_message:
  assumes cfg: "config_ready cfg" and q: "in_spec cfg p = Some q"
  shows "wg_message q"
proof -
  note b = config_ready_bounds [OF cfg] config_ready_totals [OF cfg]
  have key: "key32 (cf_mac1key_in cfg)" using cfg by (simp add: config_ready_def)
  have l1: "length (drop (nat (cf_s1 cfg)) p) = 148" if "int (length p) = cf_init_total cfg"
    using that b by (simp add: nat_diff_distrib)
  have l2: "length (drop (nat (cf_s2 cfg)) p) = 92" if "int (length p) = cf_resp_total cfg"
    using that b by (simp add: nat_diff_distrib)
  have l3: "length (drop (nat (cf_s3 cfg)) p) = 64" if "int (length p) = cf_cookie_total cfg"
    using that b by (simp add: nat_diff_distrib)
  have l4: "length (drop (nat (cf_s4 cfg)) p) \<ge> 32" if "cf_s4 cfg + 32 \<le> int (length p)"
    using that b by simp
  consider "le32_of p = 4" "32 \<le> length p" "q = p"
    | "int (length p) = cf_init_total cfg"
      "q = seal_opt 116 (cf_mac1key_in cfg) (retype 1 (drop (nat (cf_s1 cfg)) p))"
    | "int (length p) = cf_resp_total cfg"
      "q = seal_opt 60 (cf_mac1key_in cfg) (retype 2 (drop (nat (cf_s2 cfg)) p))"
    | "int (length p) = cf_cookie_total cfg" "q = retype 3 (drop (nat (cf_s3 cfg)) p)"
    | "cf_s4 cfg + 32 \<le> int (length p)" "q = retype 4 (drop (nat (cf_s4 cfg)) p)"
    using q unfolding in_spec_def Let_def by (elim if_SomeE if_NoneE) (blast | simp)+
  then show ?thesis
    by cases (use l1 l2 l3 l4 key in
      \<open>simp_all add: wg_message_def le32_of_seal_opt del: length_drop\<close>)
qed

section \<open>Peer resolution and junk sizes\<close>

text \<open>The resolver returns the first peer whose key verifies the response.\<close>

lemma resolve_loop_first:
  "resolve_loop ks msg m i =
    (if \<exists>k \<in> set ks. blake2s_128mac k msg = m
     then i + int (length (takeWhile (\<lambda>k. blake2s_128mac k msg \<noteq> m) ks)) else -1)"
  by (induction ks arbitrary: i) auto

text \<open>Every junk packet fits between the configured bounds, and the total fits the buffer the
  caller allocated (\<open>jc * jmax\<close>).\<close>

lemma junk_sizes_bounds:
  assumes "1 \<le> span"
  shows "length (junk_sizes r jmin span k) = k
    \<and> set (junk_sizes r jmin span k) \<subseteq> {jmin .. jmin + int span - 1}"
proof (induction k arbitrary: r)
  case (Suc k)
  obtain x r' where x: "fastrand_intn r span = (x, r')" by fastforce
  then have "span > 1 \<Longrightarrow> x < span" using fastrand_intn_bound [of span r] by simp
  then show ?case using Suc.IH [of r] Suc.IH [of r'] x assms by simp
qed simp

lemma sum_list_le_const: "(\<And>x. x \<in> set xs \<Longrightarrow> x \<le> (c :: int)) \<Longrightarrow> sum_list xs \<le> int (length xs) * c"
  by (induction xs) (auto simp: algebra_simps add_mono)

lemma generate_junk_bounds:
  assumes cfg: "config_ready cfg" and jc: "0 < cf_jc cfg" and jmax: "0 < cf_jmax cfg"
    and buf: "4 \<le> length junk_buf"
  shows "\<exists>sizes. generate_junk cfg junk_buf = Some sizes \<and> length sizes = nat (cf_jc cfg)
    \<and> (\<forall>x \<in> set sizes. max 1 (cf_jmin cfg) \<le> x \<and> x \<le> cf_jmax cfg)
    \<and> sum_list sizes \<le> cf_jc cfg * cf_jmax cfg"
proof -
  define jmin where "jmin = (if cf_jmin cfg > 0 then cf_jmin cfg else 1)"
  have j: "0 < jmin" "jmin \<le> cf_jmax cfg" "jmin = max 1 (cf_jmin cfg)"
    using cfg jmax by (auto simp: jmin_def config_ready_def config_ok_def)
  define span where "span = nat (cf_jmax cfg - jmin + 1)"
  have sp: "1 \<le> span" "jmin + int span - 1 = cf_jmax cfg" using j(1,2) unfolding span_def by linarith+
  obtain seed where "rd32 junk_buf 0 = Some seed" using buf by (simp add: rd32_def)
  then have e: "generate_junk cfg junk_buf =
      Some (junk_sizes (fastrand_init (ucast seed OR 1)) jmin span (nat (cf_jc cfg)))"
    using j jc jmax by (simp add: generate_junk_def Let_def jmin_def span_def)
  let ?s = "junk_sizes (fastrand_init (ucast seed OR 1)) jmin span (nat (cf_jc cfg))"
  have b: "length ?s = nat (cf_jc cfg)" "\<forall>x \<in> set ?s. jmin \<le> x \<and> x \<le> cf_jmax cfg"
    using junk_sizes_bounds [OF sp(1), of "fastrand_init (ucast seed OR 1)" jmin "nat (cf_jc cfg)"] sp(2)
    by auto
  define sz where "sz = ?s"
  note e' = e [folded sz_def] and b' = b [folded sz_def]
  have "sum_list sz \<le> int (length sz) * cf_jmax cfg"
    using b'(2) by (intro sum_list_le_const) simp
  then have "sum_list sz \<le> cf_jc cfg * cf_jmax cfg" using b'(1) jc by simp
  then show ?thesis using e' b'(1) b'(2) [unfolded j(3)] by blast
qed

end
