(* ===== verification/Obfs.thy ===== *)
theory Obfs
  imports Awg_Config Fastrand
begin

text \<open>
  \<open>src/obfs.c\<close>: the framing of packets as another protocol's.  A session counts the
  packets it sends; the first three carry a marker, and the receiver drops packets until it
  has seen one.  The wrapped packet is built in the thread's \<open>obfs_buf\<close>; its contents
  are the bytes the functions below return.  The receiver's parsers read with checked
  accesses (\<open>None\<close> is a read outside the datagram).
\<close>

section \<open>Profiles\<close>

text \<open>C strings without their terminating NUL.\<close>

fun streqi_loop :: "string \<Rightarrow> string \<Rightarrow> bool" where
  "streqi_loop (a # as) (b # bs) = (if lower_c a \<noteq> lower_c b then False else streqi_loop as bs)"
| "streqi_loop as bs = (as = [] \<and> bs = [])"

definition streqi :: "string option \<Rightarrow> string option \<Rightarrow> bool" where
  "streqi a b = (case (a, b) of (Some a, Some b) \<Rightarrow> streqi_loop a b | _ \<Rightarrow> False)"

definition parse_obfs_profile :: "string option \<Rightarrow> awg_obfs_profile_t" where
  "parse_obfs_profile s =
    (if s = None \<or> s = Some [] then AWG_OBFS_OFF
     else if streqi s (Some ''off'') then AWG_OBFS_OFF
     else if streqi s (Some ''stun_ice'') then AWG_OBFS_STUN_ICE
     else if streqi s (Some ''dtls_record'') then AWG_OBFS_DTLS_RECORD
     else if streqi s (Some ''rtp_media'') then AWG_OBFS_RTP_MEDIA
     else if streqi s (Some ''source_query'') then AWG_OBFS_SOURCE_QUERY
     else if streqi s (Some ''raknet'') then AWG_OBFS_RAKNET
     else if streqi s (Some ''quic_short'') then AWG_OBFS_QUIC_SHORT
     else if streqi s (Some ''game_enet'') then AWG_OBFS_GAME_ENET
     else if streqi s (Some ''game_kcp'') then AWG_OBFS_GAME_KCP
     else if streqi s (Some ''dns_like'') then AWG_OBFS_DNS_LIKE
     else AWG_OBFS_OFF)"

fun obfs_profile_name :: "awg_obfs_profile_t \<Rightarrow> string" where
  "obfs_profile_name AWG_OBFS_STUN_ICE = ''stun_ice''"
| "obfs_profile_name AWG_OBFS_DTLS_RECORD = ''dtls_record''"
| "obfs_profile_name AWG_OBFS_RTP_MEDIA = ''rtp_media''"
| "obfs_profile_name AWG_OBFS_SOURCE_QUERY = ''source_query''"
| "obfs_profile_name AWG_OBFS_RAKNET = ''raknet''"
| "obfs_profile_name AWG_OBFS_QUIC_SHORT = ''quic_short''"
| "obfs_profile_name AWG_OBFS_GAME_ENET = ''game_enet''"
| "obfs_profile_name AWG_OBFS_GAME_KCP = ''game_kcp''"
| "obfs_profile_name AWG_OBFS_DNS_LIKE = ''dns_like''"
| "obfs_profile_name AWG_OBFS_OFF = ''off''"

fun obfs_profile_overhead_max :: "awg_obfs_profile_t \<Rightarrow> nat" where
  "obfs_profile_overhead_max AWG_OBFS_STUN_ICE = 28"
| "obfs_profile_overhead_max AWG_OBFS_DTLS_RECORD = 17"
| "obfs_profile_overhead_max AWG_OBFS_RTP_MEDIA = 16"
| "obfs_profile_overhead_max AWG_OBFS_SOURCE_QUERY = 10"
| "obfs_profile_overhead_max AWG_OBFS_RAKNET = 13"
| "obfs_profile_overhead_max AWG_OBFS_QUIC_SHORT = 31"
| "obfs_profile_overhead_max AWG_OBFS_GAME_ENET = 27"
| "obfs_profile_overhead_max AWG_OBFS_GAME_KCP = 32"
| "obfs_profile_overhead_max AWG_OBFS_DNS_LIKE = 34"
| "obfs_profile_overhead_max AWG_OBFS_OFF = 0"

section \<open>Sessions and the marker\<close>

record obfs_session_t =
  ob_profile :: awg_obfs_profile_t
  ob_tx_seq :: u64
  ob_rx_seq :: u64
  ob_ssrc :: u32
  ob_ts :: u32
  ob_marker_seen :: bool
  ob_marker_tx_left :: nat
  ob_marker_rx_window :: nat

abbreviation (input) "OBFS_MAX_PACKET \<equiv> 4096"

definition k_obfs_marker :: bytes where
  "k_obfs_marker = [0xA7, 0x51, 0xC3, 0x2E]"

definition obfs_session_init :: "awg_obfs_profile_t \<Rightarrow> u64 \<Rightarrow> obfs_session_t" where
  "obfs_session_init profile seed = \<lparr>
     ob_profile = profile,
     ob_tx_seq = seed,
     ob_rx_seq = seed XOR 0x9e3779b97f4a7c15,
     ob_ssrc = ucast (seed XOR (drop_bit 32 seed)),
     ob_ts = ucast (drop_bit 16 seed),
     ob_marker_seen = (profile = AWG_OBFS_OFF),
     ob_marker_tx_left = (if profile = AWG_OBFS_OFF then 0 else 3),
     ob_marker_rx_window = (if profile = AWG_OBFS_OFF then 0 else 16)\<rparr>"

definition marker_extra_len :: "obfs_session_t \<Rightarrow> nat" where
  "marker_extra_len s = (if ob_marker_tx_left s > 0 then 4 else 0)"

text \<open>The bytes \<open>marker_write_if_needed\<close> stores at its destination, none when the
  markers have been sent.\<close>

definition marker_write_if_needed :: "obfs_session_t \<Rightarrow> obfs_session_t \<times> bytes" where
  "marker_write_if_needed s =
     (if ob_marker_tx_left s > 0
      then (s\<lparr>ob_marker_tx_left := ob_marker_tx_left s - 1\<rparr>, k_obfs_marker) else (s, []))"

text \<open>A window \<open>(off, len)\<close> of the datagram \<open>m\<close> is a pointer and a length; the
  function returns the window after the marker, or \<open>NULL\<close>.\<close>

definition marker_unwrap_if_needed ::
  "obfs_session_t \<Rightarrow> bytes \<Rightarrow> nat \<Rightarrow> nat \<Rightarrow> obfs_session_t \<times> (nat \<times> nat) option" where
  "marker_unwrap_if_needed s m off len =
     (if ob_marker_seen s then (s, Some (off, len))
      else if len \<ge> 4 \<and> slice m off 4 = k_obfs_marker
        then (s\<lparr>ob_marker_seen := True\<rparr>, Some (off + 4, len - 4))
      else if ob_marker_rx_window s > 0
        then (s\<lparr>ob_marker_rx_window := ob_marker_rx_window s - 1\<rparr>, None)
      else (s, None))"

section \<open>Wrapping\<close>

text \<open>One function per profile: \<open>None\<close> is the \<open>NULL\<close> of a packet that does not fit
  \<open>obfs_buf\<close>, otherwise the \<open>*out_len\<close> bytes of \<open>obfs_buf\<close>.  The header bytes
  are computed from \<open>tx_seq\<close> before it is incremented.\<close>

type_synonym wrap_result = "obfs_session_t \<times> bytes option"

definition seq_byte :: "u64 \<Rightarrow> nat \<Rightarrow> u8" where
  "seq_byte v k = ucast (drop_bit k v)"

definition tx_next :: "obfs_session_t \<Rightarrow> obfs_session_t" where
  "tx_next s = s\<lparr>ob_tx_seq := ob_tx_seq s + 1\<rparr>"

definition wrap_stun :: "obfs_session_t \<Rightarrow> bytes \<Rightarrow> wrap_result" where
  "wrap_stun s p =
    (let t = ob_tx_seq s; pad = unat (t AND 3); mx = marker_extra_len s;
         body_len = length p + pad + mx; total = 20 + body_len in
     if total > OBFS_MAX_PACKET then (s, None)
     else
       let (s, mk) = marker_write_if_needed s in
       (tx_next s, Some (
         be16_bytes 0x0001 @ be16_bytes (of_nat body_len) @ [0x21, 0x12, 0xA4, 0x42]
         @ map (\<lambda>i. ucast (drop_bit ((i mod 8) * 8) t + of_nat i * 17)) [0..<12]
         @ mk @ p @ replicate pad 0)))"

definition wrap_dtls :: "obfs_session_t \<Rightarrow> bytes \<Rightarrow> wrap_result" where
  "wrap_dtls s p =
    (let mx = marker_extra_len s; total = 13 + mx + length p;
         seq = ob_tx_seq s AND 0x0000FFFFFFFFFFFF in
     if total > OBFS_MAX_PACKET \<or> length p > 0xFFFF then (s, None)
     else
       let (s, mk) = marker_write_if_needed s in
       (tx_next s, Some (
         [23, 0xFE, 0xFD, 0x00, 0x00, seq_byte seq 40, seq_byte seq 32, seq_byte seq 24,
          seq_byte seq 16, seq_byte seq 8, seq_byte seq 0]
         @ be16_bytes (of_nat (mx + length p)) @ mk @ p)))"

definition wrap_rtp :: "obfs_session_t \<Rightarrow> bytes \<Rightarrow> wrap_result" where
  "wrap_rtp s p =
    (let mx = marker_extra_len s; total = 12 + mx + length p;
         seq = (ucast (ob_tx_seq s AND 0xFFFF) :: u16) in
     if total > OBFS_MAX_PACKET then (s, None)
     else
       let s = s\<lparr>ob_ts := ob_ts s + 3000\<rparr>; ts = ob_ts s; ssrc = ob_ssrc s;
           (s, mk) = marker_write_if_needed s in
       (tx_next s, Some (
         [0x80, 96, ucast (drop_bit 8 seq), ucast seq,
          ucast (drop_bit 24 ts), ucast (drop_bit 16 ts), ucast (drop_bit 8 ts), ucast ts,
          ucast (drop_bit 24 ssrc), ucast (drop_bit 16 ssrc), ucast (drop_bit 8 ssrc), ucast ssrc]
         @ mk @ p)))"

definition wrap_source_query :: "obfs_session_t \<Rightarrow> bytes \<Rightarrow> wrap_result" where
  "wrap_source_query s p =
    (let t = ob_tx_seq s; mx = marker_extra_len s; total = 6 + mx + length p in
     if total > OBFS_MAX_PACKET then (s, None)
     else
       let (s, mk) = marker_write_if_needed s in
       (tx_next s, Some (
         [0xFF, 0xFF, 0xFF, 0xFF, ucast (0x40 + (t AND 0x0F)), ucast (t AND 0xFF)] @ mk @ p)))"

definition wrap_raknet :: "obfs_session_t \<Rightarrow> bytes \<Rightarrow> wrap_result" where
  "wrap_raknet s p =
    (let mx = marker_extra_len s; total = 1 + 8 + mx + length p;
         nonce = ob_tx_seq s XOR 0xA5A5A5A55A5A5A5A in
     if total > OBFS_MAX_PACKET then (s, None)
     else
       let (s, mk) = marker_write_if_needed s in
       (tx_next s, Some (
         [0x84] @ map (\<lambda>i. seq_byte nonce ((7 - i) * 8)) [0..<8] @ mk @ p)))"

definition wrap_quic :: "obfs_session_t \<Rightarrow> bytes \<Rightarrow> wrap_result" where
  "wrap_quic s p =
    (let t = ob_tx_seq s; mx = marker_extra_len s;
         dcid_len = 8 + unat (t mod 5); pn_len = 1 + unat (t mod 4); pad_len = unat (t AND 7);
         hdr_len = 4 + dcid_len + pn_len; total = hdr_len + mx + length p + pad_len in
     if total > OBFS_MAX_PACKET then (s, None)
     else
       let (s, mk) = marker_write_if_needed s in
       (tx_next s, Some (
         [ucast (0x40 OR (drop_bit 3 t AND 0x3F)), of_nat dcid_len, of_nat pn_len, of_nat pad_len]
         @ map (\<lambda>i. ucast (drop_bit ((i mod 8) * 8) t + of_nat i * 29)) [0..<dcid_len]
         @ map (\<lambda>i. seq_byte t ((pn_len - i - 1) * 8)) [0..<pn_len]
         @ mk @ p
         @ map (\<lambda>i. ucast (0x90 + ((t + of_nat i) AND 0x3F))) [0..<pad_len])))"

definition enet_cmd_ids :: "u8 list" where
  "enet_cmd_ids = [0x01, 0x06, 0x07, 0x08]"

definition wrap_enet :: "obfs_session_t \<Rightarrow> bytes \<Rightarrow> wrap_result" where
  "wrap_enet s p =
    (let t = ob_tx_seq s; mx = marker_extra_len s;
         cmd_count = 1 + unat (t mod 3); pad_len = unat (t mod 6);
         hdr_len = 6 + cmd_count * 4; total = hdr_len + mx + length p + pad_len;
         peer_id = (ucast (0x8000 OR (t AND 0x0FFF)) :: u16);
         sent_time = (ucast ((t * 7) AND 0xFFFF) :: u16) in
     if total > OBFS_MAX_PACKET then (s, None)
     else
       let (s, mk) = marker_write_if_needed s in
       (tx_next s, Some (
         [ucast (drop_bit 8 peer_id), ucast peer_id, ucast (drop_bit 8 sent_time), ucast sent_time,
          of_nat cmd_count, of_nat pad_len]
         @ concat (map (\<lambda>i. [enet_cmd_ids ! unat ((t + of_nat i) AND 3),
             ucast ((t + of_nat i) AND 3), seq_byte (t + of_nat i) 8, seq_byte (t + of_nat i) 0])
             [0..<cmd_count])
         @ mk @ p
         @ map (\<lambda>i. ucast (0x30 + ((t + of_nat i * 3) AND 0x4F))) [0..<pad_len])))"

text \<open>The KCP fields are \<open>int\<close>s in C; their bytes are those of the 32-bit pattern.\<close>

definition le32_fields :: "u32 \<Rightarrow> bytes" where
  "le32_fields v = [ucast v, ucast (drop_bit 8 v), ucast (drop_bit 16 v), ucast (drop_bit 24 v)]"

definition wrap_kcp :: "obfs_session_t \<Rightarrow> bytes \<Rightarrow> wrap_result" where
  "wrap_kcp s p =
    (let t = ob_tx_seq s; mx = marker_extra_len s;
         conv = (0x01020304 XOR ucast t :: u32);
         cmd = t mod 4 + 80; frg = t mod 3;
         wnd = (64 + ucast (t AND 0x1F) :: u32);
         ts = (ucast ((t * 33) AND 0x7FFFFFFF) :: u32);
         sn = (ucast (t AND 0x7FFFFFFF) :: u32);
         una = sn - ucast (t mod 11);
         pad_len = unat (t mod 5); hdr_len = 24;
         total = hdr_len + mx + length p + pad_len;
         seg = (of_nat (mx + length p + pad_len) :: u32) in
     if total > OBFS_MAX_PACKET then (s, None)
     else
       let (s, mk) = marker_write_if_needed s in
       (tx_next s, Some (
         le32_fields conv @ [ucast cmd, ucast frg, ucast wnd, ucast (drop_bit 8 wnd)]
         @ le32_fields ts @ le32_fields sn @ le32_fields una
         @ [ucast seg, ucast (drop_bit 8 seg), 0, of_nat pad_len]
         @ mk @ p
         @ map (\<lambda>i. ucast (0x55 + ((t + of_nat i) AND 0x33))) [0..<pad_len])))"

definition wrap_dns :: "obfs_session_t \<Rightarrow> bytes \<Rightarrow> wrap_result" where
  "wrap_dns s p =
    (let t = ob_tx_seq s; mx = marker_extra_len s;
         label_len = 6 + unat (t mod 6); qname_len = 1 + label_len + 1 + 3 + 1;
         tail_len = unat (t mod 4); hdr_len = 12 + qname_len + 4;
         total = hdr_len + mx + length p + tail_len;
         id = (ucast (t AND 0xFFFF) :: u16) in
     if total > OBFS_MAX_PACKET then (s, None)
     else
       let (s, mk) = marker_write_if_needed s in
       (tx_next s, Some (
         be16_bytes id @ be16_bytes 0x0100 @ be16_bytes 1 @ be16_bytes 0 @ be16_bytes 0 @ be16_bytes 0
         @ [of_nat label_len]
         @ map (\<lambda>i. ucast (97 + (t + of_nat i) mod 26)) [0..<label_len]
         @ [3, 99, 100, 110, 0] @ be16_bytes 16 @ be16_bytes 1
         @ mk @ p @ replicate tail_len 0)))"

text \<open>Where the returned pointer points: the caller's packet or \<open>obfs_buf\<close>.\<close>

datatype wrap_out = WIn bytes | WObfsBuf bytes

primrec wrap_bytes :: "wrap_out \<Rightarrow> bytes" where
  "wrap_bytes (WIn p) = p"
| "wrap_bytes (WObfsBuf p) = p"

definition in_obfs_buf :: "wrap_result \<Rightarrow> obfs_session_t \<times> wrap_out option" where
  "in_obfs_buf r = (fst r, map_option WObfsBuf (snd r))"

definition obfs_wrap :: "obfs_session_t \<Rightarrow> bytes \<Rightarrow> obfs_session_t \<times> wrap_out option" where
  "obfs_wrap s p = (case ob_profile s of
     AWG_OBFS_OFF \<Rightarrow> (tx_next s, Some (WIn p))
   | AWG_OBFS_STUN_ICE \<Rightarrow> in_obfs_buf (wrap_stun s p)
   | AWG_OBFS_DTLS_RECORD \<Rightarrow> in_obfs_buf (wrap_dtls s p)
   | AWG_OBFS_RTP_MEDIA \<Rightarrow> in_obfs_buf (wrap_rtp s p)
   | AWG_OBFS_SOURCE_QUERY \<Rightarrow> in_obfs_buf (wrap_source_query s p)
   | AWG_OBFS_RAKNET \<Rightarrow> in_obfs_buf (wrap_raknet s p)
   | AWG_OBFS_QUIC_SHORT \<Rightarrow> in_obfs_buf (wrap_quic s p)
   | AWG_OBFS_GAME_ENET \<Rightarrow> in_obfs_buf (wrap_enet s p)
   | AWG_OBFS_GAME_KCP \<Rightarrow> in_obfs_buf (wrap_kcp s p)
   | AWG_OBFS_DNS_LIKE \<Rightarrow> in_obfs_buf (wrap_dns s p))"

section \<open>Unwrapping\<close>

text \<open>The parser of each profile: \<open>None\<close> a read outside the datagram, \<open>Some None\<close> a
  datagram that is not of the profile (\<open>NULL\<close>), \<open>Some (Some (off, len))\<close> the window
  the marker is looked for in.\<close>

type_synonym window = "(nat \<times> nat) option"

definition unwrap_stun :: "bytes \<Rightarrow> window option" where
  "unwrap_stun m =
    (if length m < 20 then Some None
     else do {
       c \<leftarrow> rd m 4 4;
       if c \<noteq> [0x21, 0x12, 0xA4, 0x42] then Some None
       else do {
         b2 \<leftarrow> rd8 m 2; b3 \<leftarrow> rd8 m 3;
         let body_len = unat (be16_of b2 b3);
         if 20 + body_len > length m then Some None else Some (Some (20, body_len))
       }
     })"

definition unwrap_dtls :: "bytes \<Rightarrow> window option" where
  "unwrap_dtls m =
    (if length m < 13 then Some None
     else do {
       b1 \<leftarrow> rd8 m 1; b2 \<leftarrow> rd8 m 2;
       if b1 \<noteq> 0xFE \<or> b2 \<noteq> 0xFD then Some None
       else do {
         b11 \<leftarrow> rd8 m 11; b12 \<leftarrow> rd8 m 12;
         let body_len = unat (be16_of b11 b12);
         if 13 + body_len > length m then Some None else Some (Some (13, body_len))
       }
     })"

definition unwrap_rtp :: "bytes \<Rightarrow> window option" where
  "unwrap_rtp m =
    (if length m < 12 then Some None
     else do {
       b0 \<leftarrow> rd8 m 0;
       if drop_bit 6 b0 \<noteq> 2 then Some None else Some (Some (12, length m - 12))
     })"

definition unwrap_source_query :: "bytes \<Rightarrow> window option" where
  "unwrap_source_query m =
    (if length m < 6 then Some None
     else do {
       c \<leftarrow> rd m 0 4;
       if c \<noteq> [0xFF, 0xFF, 0xFF, 0xFF] then Some None else Some (Some (6, length m - 6))
     })"

definition unwrap_raknet :: "bytes \<Rightarrow> window option" where
  "unwrap_raknet m =
    (if length m < 9 then Some None
     else do {
       b0 \<leftarrow> rd8 m 0;
       if b0 \<noteq> 0x84 then Some None else Some (Some (9, length m - 9))
     })"

definition unwrap_quic :: "bytes \<Rightarrow> window option" where
  "unwrap_quic m =
    (if length m < 13 then Some None
     else do {
       b0 \<leftarrow> rd8 m 0;
       if b0 AND 0x40 = 0 then Some None
       else do {
         b1 \<leftarrow> rd8 m 1; b2 \<leftarrow> rd8 m 2; b3 \<leftarrow> rd8 m 3;
         let dcid_len = unat b1; let pn_len = unat b2; let pad_len = unat b3;
         let hdr_len = 4 + dcid_len + pn_len;
         if dcid_len < 8 \<or> dcid_len > 12 \<or> pn_len < 1 \<or> pn_len > 4 \<or> pad_len > 7 then Some None
         else if hdr_len + pad_len > length m then Some None
         else Some (Some (hdr_len, length m - hdr_len - pad_len))
       }
     })"

definition unwrap_enet :: "bytes \<Rightarrow> window option" where
  "unwrap_enet m =
    (if length m < 10 then Some None
     else do {
       b4 \<leftarrow> rd8 m 4; b5 \<leftarrow> rd8 m 5;
       let cmd_count = unat b4; let pad_len = unat b5; let hdr_len = 6 + cmd_count * 4;
       if cmd_count < 1 \<or> cmd_count > 3 \<or> pad_len > 5 then Some None
       else if hdr_len + pad_len > length m then Some None
       else Some (Some (hdr_len, length m - hdr_len - pad_len))
     })"

definition unwrap_kcp :: "bytes \<Rightarrow> window option" where
  "unwrap_kcp m =
    (if length m < 24 then Some None
     else do {
       b4 \<leftarrow> rd8 m 4; b23 \<leftarrow> rd8 m 23; b20 \<leftarrow> rd8 m 20; b21 \<leftarrow> rd8 m 21;
       let cmd = unat b4; let pad_len = unat b23;
       let seg_len = unat (ucast b20 OR push_bit 8 (ucast b21) :: u32);
       if cmd < 80 \<or> cmd > 83 \<or> pad_len > 4 then Some None
       else if seg_len > length m - 24 then Some None
       else if seg_len < pad_len then Some None
       else Some (Some (24, seg_len - pad_len))
     })"

definition unwrap_dns :: "bytes \<Rightarrow> window option" where
  "unwrap_dns m =
    (if length m < 22 then Some None
     else do {
       b4 \<leftarrow> rd8 m 4; b5 \<leftarrow> rd8 m 5;
       if unat (be16_of b4 b5) \<noteq> 1 then Some None
       else do {
         b12 \<leftarrow> rd8 m 12;
         let label_len = unat b12;
         if label_len < 6 \<or> label_len > 11 then Some None
         else
           let qname_len = 1 + label_len + 1 + 3 + 1; hdr_len = 12 + qname_len + 4 in
           if length m < hdr_len then Some None
           else do {
             c \<leftarrow> rd m (13 + label_len) 5;
             if c \<noteq> [3, 99, 100, 110, 0] then Some None
             else Some (Some (hdr_len, length m - hdr_len))
           }
       }
     })"

text \<open>The common end of every profile: look for the marker in the window and count the
  packet when it is delivered.\<close>

definition deliver ::
  "obfs_session_t \<Rightarrow> bytes \<Rightarrow> window option \<Rightarrow> (obfs_session_t \<times> window) option" where
  "deliver s m w = (case w of
     None \<Rightarrow> None
   | Some None \<Rightarrow> Some (s, None)
   | Some (Some (off, len)) \<Rightarrow>
       (case marker_unwrap_if_needed s m off len of
         (s, None) \<Rightarrow> Some (s, None)
       | (s, Some out) \<Rightarrow> Some (s\<lparr>ob_rx_seq := ob_rx_seq s + 1\<rparr>, Some out)))"

definition obfs_unwrap :: "obfs_session_t \<Rightarrow> bytes \<Rightarrow> (obfs_session_t \<times> window) option" where
  "obfs_unwrap s m = (case ob_profile s of
     AWG_OBFS_OFF \<Rightarrow> Some (s\<lparr>ob_rx_seq := ob_rx_seq s + 1\<rparr>, Some (0, length m))
   | AWG_OBFS_STUN_ICE \<Rightarrow> deliver s m (unwrap_stun m)
   | AWG_OBFS_DTLS_RECORD \<Rightarrow> deliver s m (unwrap_dtls m)
   | AWG_OBFS_RTP_MEDIA \<Rightarrow> deliver s m (unwrap_rtp m)
   | AWG_OBFS_SOURCE_QUERY \<Rightarrow> deliver s m (unwrap_source_query m)
   | AWG_OBFS_RAKNET \<Rightarrow> deliver s m (unwrap_raknet m)
   | AWG_OBFS_QUIC_SHORT \<Rightarrow> deliver s m (unwrap_quic m)
   | AWG_OBFS_GAME_ENET \<Rightarrow> deliver s m (unwrap_enet m)
   | AWG_OBFS_GAME_KCP \<Rightarrow> deliver s m (unwrap_kcp m)
   | AWG_OBFS_DNS_LIKE \<Rightarrow> deliver s m (unwrap_dns m))"

section \<open>The contract of a profile\<close>

definition marker_bytes :: "obfs_session_t \<Rightarrow> bytes" where
  "marker_bytes s = snd (marker_write_if_needed s)"

text \<open>The sender's session after a packet; only the clock of the RTP profile is free.\<close>

definition sent :: "obfs_session_t \<Rightarrow> obfs_session_t \<Rightarrow> bool" where
  "sent s s' \<longleftrightarrow> ob_profile s' = ob_profile s \<and> ob_tx_seq s' = ob_tx_seq s + 1
     \<and> ob_rx_seq s' = ob_rx_seq s \<and> ob_marker_seen s' = ob_marker_seen s
     \<and> ob_marker_tx_left s' = ob_marker_tx_left s - 1
     \<and> ob_marker_rx_window s' = ob_marker_rx_window s"

lemma length_marker_bytes [simp]: "length (marker_bytes s) = marker_extra_len s"
  by (simp add: marker_bytes_def marker_write_if_needed_def marker_extra_len_def k_obfs_marker_def)

lemma marker_write_eq:
  "marker_write_if_needed s = (s\<lparr>ob_marker_tx_left := ob_marker_tx_left s - 1\<rparr>, marker_bytes s)"
  by (simp add: marker_bytes_def marker_write_if_needed_def)

lemma marker_ts [simp]:
  "marker_bytes (s\<lparr>ob_ts := t\<rparr>) = marker_bytes s"
  "marker_extra_len (s\<lparr>ob_ts := t\<rparr>) = marker_extra_len s"
  by (simp_all add: marker_bytes_def marker_write_if_needed_def marker_extra_len_def)

lemma sent_tx_next [simp]:
  "sent s (tx_next (s\<lparr>ob_marker_tx_left := ob_marker_tx_left s - Suc 0\<rparr>))"
  "sent s (tx_next (s\<lparr>ob_ts := t, ob_marker_tx_left := ob_marker_tx_left s - Suc 0\<rparr>))"
  by (simp_all add: sent_def tx_next_def)

text \<open>What a profile's sender and parser promise each other: a packet that fits is framed
  with \<open>over\<close> extra bytes, and the parser finds the marker, the packet and
  \<open>tail\<close> zero bytes that it cannot tell from the packet; on any datagram the parser
  reads and returns only what is inside it.\<close>

locale obfs_profile =
  fixes wrap :: "obfs_session_t \<Rightarrow> bytes \<Rightarrow> wrap_result"
    and unwrap :: "bytes \<Rightarrow> window option"
    and over :: "u64 \<Rightarrow> nat"
    and tail :: "u64 \<Rightarrow> nat"
  assumes too_big: "over (ob_tx_seq s) + marker_extra_len s + length p > 4096
      \<Longrightarrow> wrap s p = (s, None)"
    and fits: "over (ob_tx_seq s) + marker_extra_len s + length p \<le> 4096
      \<Longrightarrow> \<exists>s' fr off. wrap s p = (s', Some fr) \<and> sent s s'
        \<and> length fr = over (ob_tx_seq s) + marker_extra_len s + length p
        \<and> unwrap fr = Some (Some (off, marker_extra_len s + length p + tail (ob_tx_seq s)))
        \<and> slice fr off (marker_extra_len s + length p + tail (ob_tx_seq s))
            = marker_bytes s @ p @ replicate (tail (ob_tx_seq s)) 0"
    and safe: "\<exists>w. unwrap m = Some w \<and> (\<forall>off len. w = Some (off, len) \<longrightarrow> off + len \<le> length m)"

text \<open>Reads of a header written as a list.\<close>

lemma rd8_nth: "i < length m \<Longrightarrow> rd8 m i = Some (m ! i)"
  by (simp add: rd8_def)

lemma rd8_guard: "\<not> length m < k \<Longrightarrow> i < k \<Longrightarrow> rd8 m i = Some (m ! i)"
  by (simp add: rd8_def)

lemma slice_at:
  assumes "length h = k" and "n = length q"
  shows "slice (h @ q @ t) k n = q"
  using assms by (simp add: slice_def)

lemma sum_of_nat_u16 [simp]: "n < 65536 \<Longrightarrow> unat (of_nat n :: u16) = n"
  by (simp add: unat_of_nat)

lemma be16_read_write [simp]:
  "be16_of (ucast (drop_bit 8 v)) (ucast (v AND 255)) = v"
  using be16_of_be16_bytes [of v] by simp

interpretation rtp: obfs_profile wrap_rtp unwrap_rtp "\<lambda>_. 12" "\<lambda>_. 0"
proof
  fix s :: obfs_session_t and p :: bytes
  show "12 + marker_extra_len s + length p > 4096 \<Longrightarrow> wrap_rtp s p = (s, None)"
    by (simp add: wrap_rtp_def)
  show "12 + marker_extra_len s + length p \<le> 4096 \<Longrightarrow> \<exists>s' fr off. wrap_rtp s p = (s', Some fr) \<and> sent s s'
        \<and> length fr = 12 + marker_extra_len s + length p
        \<and> unwrap_rtp fr = Some (Some (off, marker_extra_len s + length p + 0))
        \<and> slice fr off (marker_extra_len s + length p + 0) = marker_bytes s @ p @ replicate 0 0"
    by (simp add: wrap_rtp_def unwrap_rtp_def Let_def marker_write_eq rd8_nth slice_def)
  show "\<exists>w. unwrap_rtp m = Some w \<and> (\<forall>off len. w = Some (off, len) \<longrightarrow> off + len \<le> length m)" for m
    by (auto simp: unwrap_rtp_def rd8_guard [of _ 12])
qed

interpretation source_query: obfs_profile wrap_source_query unwrap_source_query "\<lambda>_. 6" "\<lambda>_. 0"
proof
  fix s :: obfs_session_t and p :: bytes
  show "6 + marker_extra_len s + length p > 4096 \<Longrightarrow> wrap_source_query s p = (s, None)"
    by (simp add: wrap_source_query_def)
  show "6 + marker_extra_len s + length p \<le> 4096 \<Longrightarrow>
      \<exists>s' fr off. wrap_source_query s p = (s', Some fr) \<and> sent s s'
        \<and> length fr = 6 + marker_extra_len s + length p
        \<and> unwrap_source_query fr = Some (Some (off, marker_extra_len s + length p + 0))
        \<and> slice fr off (marker_extra_len s + length p + 0) = marker_bytes s @ p @ replicate 0 0"
    by (simp add: wrap_source_query_def unwrap_source_query_def Let_def marker_write_eq rd_def
        slice_def)
  show "\<exists>w. unwrap_source_query m = Some w
      \<and> (\<forall>off len. w = Some (off, len) \<longrightarrow> off + len \<le> length m)" for m
    by (auto simp: unwrap_source_query_def rd_def)
qed

interpretation raknet: obfs_profile wrap_raknet unwrap_raknet "\<lambda>_. 9" "\<lambda>_. 0"
proof
  fix s :: obfs_session_t and p :: bytes
  show "9 + marker_extra_len s + length p > 4096 \<Longrightarrow> wrap_raknet s p = (s, None)"
    by (simp add: wrap_raknet_def)
  show "9 + marker_extra_len s + length p \<le> 4096 \<Longrightarrow>
      \<exists>s' fr off. wrap_raknet s p = (s', Some fr) \<and> sent s s'
        \<and> length fr = 9 + marker_extra_len s + length p
        \<and> unwrap_raknet fr = Some (Some (off, marker_extra_len s + length p + 0))
        \<and> slice fr off (marker_extra_len s + length p + 0) = marker_bytes s @ p @ replicate 0 0"
    by (simp add: wrap_raknet_def unwrap_raknet_def Let_def marker_write_eq rd8_nth slice_def)
  show "\<exists>w. unwrap_raknet m = Some w \<and> (\<forall>off len. w = Some (off, len) \<longrightarrow> off + len \<le> length m)" for m
    by (auto simp: unwrap_raknet_def rd8_guard [of _ 9])
qed

interpretation dtls: obfs_profile wrap_dtls unwrap_dtls "\<lambda>_. 13" "\<lambda>_. 0"
proof
  fix s :: obfs_session_t and p :: bytes
  show "13 + marker_extra_len s + length p > 4096 \<Longrightarrow> wrap_dtls s p = (s, None)"
    by (simp add: wrap_dtls_def)
  show "13 + marker_extra_len s + length p \<le> 4096 \<Longrightarrow>
      \<exists>s' fr off. wrap_dtls s p = (s', Some fr) \<and> sent s s'
        \<and> length fr = 13 + marker_extra_len s + length p
        \<and> unwrap_dtls fr = Some (Some (off, marker_extra_len s + length p + 0))
        \<and> slice fr off (marker_extra_len s + length p + 0) = marker_bytes s @ p @ replicate 0 0"
    by (simp add: wrap_dtls_def unwrap_dtls_def Let_def marker_write_eq rd8_nth slice_def be16_bytes_def
        del: of_nat_add)
  show "\<exists>w. unwrap_dtls m = Some w \<and> (\<forall>off len. w = Some (off, len) \<longrightarrow> off + len \<le> length m)" for m
    by (auto simp: unwrap_dtls_def rd8_nth Let_def)
qed

interpretation stun: obfs_profile wrap_stun unwrap_stun "\<lambda>t. 20 + unat (t AND 3)" "\<lambda>t. unat (t AND 3)"
proof
  fix s :: obfs_session_t and p :: bytes
  define pad where "pad = unat (ob_tx_seq s AND 3)"
  show "20 + pad + marker_extra_len s + length p > 4096 \<Longrightarrow> wrap_stun s p = (s, None)"
    by (simp add: wrap_stun_def pad_def Let_def)
  show "20 + pad + marker_extra_len s + length p \<le> 4096 \<Longrightarrow>
      \<exists>s' fr off. wrap_stun s p = (s', Some fr) \<and> sent s s'
        \<and> length fr = 20 + pad + marker_extra_len s + length p
        \<and> unwrap_stun fr = Some (Some (off, marker_extra_len s + length p + pad))
        \<and> slice fr off (marker_extra_len s + length p + pad) = marker_bytes s @ p @ replicate pad 0"
    by (simp add: wrap_stun_def unwrap_stun_def Let_def marker_write_eq rd8_nth rd_def slice_def
        be16_bytes_def pad_def [symmetric] del: of_nat_add)
  show "\<exists>w. unwrap_stun m = Some w \<and> (\<forall>off len. w = Some (off, len) \<longrightarrow> off + len \<le> length m)" for m
    by (auto simp: unwrap_stun_def rd8_nth rd_def Let_def)
qed

lemma unat_of_nat_u8 [simp]: "n < 256 \<Longrightarrow> unat (of_nat n :: u8) = n"
  by (simp add: unat_of_nat)

lemma unat_mod_lt [simp]:
  "unat (t mod 5 :: u64) < 5" "unat (t mod 4 :: u64) < 4" "unat (t mod 3 :: u64) < 3"
  "unat (t mod 6 :: u64) < 6"
  by (simp_all add: unat_mod)

lemma nat_and_mask [simp]: "(n :: nat) AND 7 < 8" "n AND 3 < 4"
proof -
  have "n AND 7 = n mod 8" "n AND 3 = n mod 4"
    using take_bit_eq_mask [of 3 n] take_bit_eq_mask [of 2 n]
    by (simp_all add: take_bit_eq_mod mask_eq_exp_minus_1)
  then show "n AND 7 < 8" "n AND 3 < 4" by simp_all
qed

lemma unat_and_lt [simp]: "unat (t AND 7 :: u64) < 8" "unat (t AND 3 :: u64) < 4"
  by (simp_all add: unsigned_and_eq)

text \<open>The marker and the packet behind a header, and possibly before a tail.\<close>

lemma fits_frame:
  assumes "wrap s p = (s', Some (h @ (marker_bytes s @ p @ replicate k 0) @ t))"
    and "sent s s'" and "length h + k + length t = n" and "length h = off"
    and "unwrap (h @ (marker_bytes s @ p @ replicate k 0) @ t)
      = Some (Some (off, marker_extra_len s + length p + k))"
  shows "\<exists>s' fr off. wrap s p = (s', Some fr) \<and> sent s s'
        \<and> length fr = n + marker_extra_len s + length p
        \<and> unwrap fr = Some (Some (off, marker_extra_len s + length p + k))
        \<and> slice fr off (marker_extra_len s + length p + k) = marker_bytes s @ p @ replicate k 0"
  using assms slice_at [of h off "marker_extra_len s + length p + k"
    "marker_bytes s @ p @ replicate k 0" t]
  by (intro exI conjI; assumption?) simp_all

lemma quic_first_byte: "ucast (0x40 OR (x AND 0x3F) :: u64) AND (0x40 :: u8) \<noteq> 0"
proof -
  have b: "bit (0x40 :: u64) 6" "bit (0x40 :: u8) 6" by (simp_all add: bit_numeral_rec)
  then have "bit (ucast (0x40 OR (x AND 0x3F) :: u64) AND (0x40 :: u8)) 6"
    by (simp add: bit_simps)
  then show ?thesis by (auto simp: bit_0_eq)
qed

interpretation quic: obfs_profile wrap_quic unwrap_quic
  "\<lambda>t. 13 + unat (t mod 5) + unat (t mod 4) + unat (t AND 7)" "\<lambda>_. 0"
proof
  fix s :: obfs_session_t and p :: bytes
  define d where "d = unat (ob_tx_seq s mod 5)"
  define n where "n = unat (ob_tx_seq s mod 4)"
  define k where "k = unat (ob_tx_seq s AND 7)"
  have b: "d < 5" "n < 4" "k < 8" by (simp_all add: d_def n_def k_def)
  note f = d_def [symmetric] n_def [symmetric] k_def [symmetric]
  show "13 + d + n + k + marker_extra_len s + length p > 4096 \<Longrightarrow> wrap_quic s p = (s, None)"
    by (simp add: wrap_quic_def f Let_def)
  define t where "t = ob_tx_seq s"
  define h :: bytes where "h = [ucast (0x40 OR (drop_bit 3 t AND 0x3F)), of_nat (8 + d),
      of_nat (1 + n), of_nat k]
    @ map (\<lambda>i. ucast (drop_bit ((i mod 8) * 8) t + of_nat i * 29)) [0..<8 + d]
    @ map (\<lambda>i. seq_byte t ((1 + n - i - 1) * 8)) [0..<1 + n]"
  define tr :: bytes where "tr = map (\<lambda>i. ucast (0x90 + ((t + of_nat i) AND 0x3F))) [0..<k]"
  have lh: "length h = 13 + d + n" "length tr = k" by (simp_all add: h_def tr_def)
  have hb: "h ! 0 AND 0x40 \<noteq> 0" "h ! Suc 0 = of_nat (8 + d)" "h ! 2 = of_nat (1 + n)" "h ! 3 = of_nat k"
    using quic_first_byte [of "drop_bit 3 t"] by (simp_all add: h_def del: of_nat_add)
  show "\<exists>s' fr off. wrap_quic s p = (s', Some fr) \<and> sent s s'
        \<and> length fr = 13 + d + n + k + marker_extra_len s + length p
        \<and> unwrap_quic fr = Some (Some (off, marker_extra_len s + length p + 0))
        \<and> slice fr off (marker_extra_len s + length p + 0) = marker_bytes s @ p @ replicate 0 0"
    if "13 + d + n + k + marker_extra_len s + length p \<le> 4096"
  proof (rule fits_frame)
    show "wrap_quic s p = (tx_next (s\<lparr>ob_marker_tx_left := ob_marker_tx_left s - 1\<rparr>),
        Some (h @ (marker_bytes s @ p @ replicate 0 0) @ tr))"
      using that
      by (simp add: wrap_quic_def Let_def f marker_write_eq h_def tr_def t_def
          del: of_nat_add of_nat_Suc upt_Suc)
    show "unwrap_quic (h @ (marker_bytes s @ p @ replicate 0 0) @ tr)
        = Some (Some (13 + d + n, marker_extra_len s + length p + 0))"
      using b hb lh by (simp add: unwrap_quic_def Let_def rd8_nth nth_append del: of_nat_add of_nat_Suc)
  qed (use lh in simp_all)
  show "\<exists>w. unwrap_quic m = Some w \<and> (\<forall>off len. w = Some (off, len) \<longrightarrow> off + len \<le> length m)" for m
    by (auto simp: unwrap_quic_def rd8_guard [of _ 13] Let_def)
qed

interpretation enet: obfs_profile wrap_enet unwrap_enet
  "\<lambda>t. 10 + 4 * unat (t mod 3) + unat (t mod 6)" "\<lambda>_. 0"
proof
  fix s :: obfs_session_t and p :: bytes
  define d where "d = unat (ob_tx_seq s mod 3)"
  define k where "k = unat (ob_tx_seq s mod 6)"
  define t where "t = ob_tx_seq s"
  have b: "d < 3" "k < 6" by (simp_all add: d_def k_def)
  note f = d_def [folded t_def, symmetric] k_def [folded t_def, symmetric]
  define peer_id :: u16 where "peer_id = ucast (0x8000 OR (t AND 0x0FFF))"
  define sent_time :: u16 where "sent_time = ucast ((t * 7) AND 0xFFFF)"
  define h :: bytes where "h = [ucast (drop_bit 8 peer_id), ucast peer_id,
      ucast (drop_bit 8 sent_time), ucast sent_time, of_nat (1 + d), of_nat k]
    @ concat (map (\<lambda>i. [enet_cmd_ids ! unat ((t + of_nat i) AND 3),
             ucast ((t + of_nat i) AND 3), seq_byte (t + of_nat i) 8, seq_byte (t + of_nat i) 0])
             [0..<1 + d])"
  define tr :: bytes where "tr = map (\<lambda>i. ucast (0x30 + ((t + of_nat i * 3) AND 0x4F))) [0..<k]"
  have lh: "length h = 10 + 4 * d" "length tr = k"
    by (simp_all add: h_def tr_def length_concat comp_def sum_list_triv del: upt_Suc)
  have hb: "h ! 4 = of_nat (1 + d)" "h ! 5 = of_nat k" by (simp_all add: h_def del: of_nat_add)
  show "10 + 4 * d + k + marker_extra_len s + length p > 4096 \<Longrightarrow> wrap_enet s p = (s, None)"
    by (simp add: wrap_enet_def t_def [symmetric] f Let_def)
  show "\<exists>s' fr off. wrap_enet s p = (s', Some fr) \<and> sent s s'
        \<and> length fr = 10 + 4 * d + k + marker_extra_len s + length p
        \<and> unwrap_enet fr = Some (Some (off, marker_extra_len s + length p + 0))
        \<and> slice fr off (marker_extra_len s + length p + 0) = marker_bytes s @ p @ replicate 0 0"
    if "10 + 4 * d + k + marker_extra_len s + length p \<le> 4096"
  proof (rule fits_frame)
    show "wrap_enet s p = (tx_next (s\<lparr>ob_marker_tx_left := ob_marker_tx_left s - 1\<rparr>),
        Some (h @ (marker_bytes s @ p @ replicate 0 0) @ tr))"
      using that
      by (simp add: wrap_enet_def Let_def t_def [symmetric] f marker_write_eq h_def tr_def
          peer_id_def sent_time_def del: of_nat_add of_nat_Suc upt_Suc)
    show "unwrap_enet (h @ (marker_bytes s @ p @ replicate 0 0) @ tr)
        = Some (Some (10 + 4 * d, marker_extra_len s + length p + 0))"
      using b hb lh by (simp add: unwrap_enet_def Let_def rd8_nth nth_append del: of_nat_add of_nat_Suc)
  qed (use lh in simp_all)
  show "\<exists>w. unwrap_enet m = Some w \<and> (\<forall>off len. w = Some (off, len) \<longrightarrow> off + len \<le> length m)" for m
    by (auto simp: unwrap_enet_def rd8_guard [of _ 10] Let_def)
qed

lemma kcp_length_bytes:
  assumes "n < 65536"
  shows "unat (ucast (ucast (of_nat n :: u32) :: u8)
    OR push_bit 8 (ucast (ucast (drop_bit 8 (of_nat n :: u32)) :: u8)) :: u32) = n"
proof -
  have "(ucast (ucast (of_nat n :: u32) :: u8)
      OR push_bit 8 (ucast (ucast (drop_bit 8 (of_nat n :: u32)) :: u8)) :: u32) = take_bit 16 (of_nat n)"
    by (rule bit_word_eqI) (auto simp: bit_simps)
  also have "\<dots> = of_nat n" using assms by (simp add: take_bit_of_nat take_bit_nat_eq_self)
  finally show ?thesis using assms by (simp add: unat_of_nat)
qed

lemma kcp_cmd: "80 \<le> unat (ucast (t mod 4 + 80 :: u64) :: u8)" "unat (ucast (t mod 4 + 80 :: u64) :: u8) \<le> 83"
proof -
  define m where "m = t mod 4"
  have m: "unat m < 4" by (simp add: m_def)
  then have "unat (m + 80) = unat m + 80" by (simp add: unat_word_ariths)
  then show "80 \<le> unat (ucast (t mod 4 + 80 :: u64) :: u8)" "unat (ucast (t mod 4 + 80 :: u64) :: u8) \<le> 83"
    using m by (simp_all add: unat_ucast_mod flip: m_def)
qed

interpretation kcp: obfs_profile wrap_kcp unwrap_kcp "\<lambda>t. 24 + unat (t mod 5)" "\<lambda>_. 0"
proof
  fix s :: obfs_session_t and p :: bytes
  define k where "k = unat (ob_tx_seq s mod 5)"
  define t where "t = ob_tx_seq s"
  have b: "k < 5" by (simp add: k_def)
  note f = k_def [folded t_def, symmetric]
  define n where "n = marker_extra_len s + length p + k"
  define seg :: u32 where "seg = of_nat n"
  define h :: bytes where "h = le32_fields (0x01020304 XOR ucast t)
    @ [ucast (t mod 4 + 80), ucast (t mod 3), ucast (64 + ucast (t AND 0x1F) :: u32),
       ucast (drop_bit 8 (64 + ucast (t AND 0x1F) :: u32))]
    @ le32_fields (ucast ((t * 33) AND 0x7FFFFFFF)) @ le32_fields (ucast (t AND 0x7FFFFFFF))
    @ le32_fields (ucast (t AND 0x7FFFFFFF) - ucast (t mod 11))
    @ [ucast seg, ucast (drop_bit 8 seg), 0, of_nat k]"
  define tr :: bytes where "tr = map (\<lambda>i. ucast (0x55 + ((t + of_nat i) AND 0x33))) [0..<k]"
  have lh: "length h = 24" "length tr = k" by (simp_all add: h_def tr_def le32_fields_def)
  have hb: "h ! 4 = ucast (t mod 4 + 80)" "h ! 20 = ucast seg" "h ! 21 = ucast (drop_bit 8 seg)"
    "h ! 23 = of_nat k" by (simp_all add: h_def le32_fields_def)
  show "24 + k + marker_extra_len s + length p > 4096 \<Longrightarrow> wrap_kcp s p = (s, None)"
    by (simp add: wrap_kcp_def t_def [symmetric] f Let_def)
  show "\<exists>s' fr off. wrap_kcp s p = (s', Some fr) \<and> sent s s'
        \<and> length fr = 24 + k + marker_extra_len s + length p
        \<and> unwrap_kcp fr = Some (Some (off, marker_extra_len s + length p + 0))
        \<and> slice fr off (marker_extra_len s + length p + 0) = marker_bytes s @ p @ replicate 0 0"
    if *: "24 + k + marker_extra_len s + length p \<le> 4096"
  proof (rule fits_frame)
    show "wrap_kcp s p = (tx_next (s\<lparr>ob_marker_tx_left := ob_marker_tx_left s - 1\<rparr>),
        Some (h @ (marker_bytes s @ p @ replicate 0 0) @ tr))"
      using *
      by (simp add: wrap_kcp_def Let_def t_def [symmetric] f marker_write_eq h_def tr_def seg_def
          n_def del: of_nat_add of_nat_Suc upt_Suc)
    have "n < 65536" using * b by (simp add: n_def)
    then have "unat (ucast (h ! 20) OR push_bit 8 (ucast (h ! 21)) :: u32) = n"
      unfolding hb seg_def by (rule kcp_length_bytes)
    then show "unwrap_kcp (h @ (marker_bytes s @ p @ replicate 0 0) @ tr)
        = Some (Some (24, marker_extra_len s + length p + 0))"
      using b hb(1,4) lh kcp_cmd [of t]
      by (simp add: unwrap_kcp_def Let_def rd8_nth nth_append n_def not_less del: of_nat_add of_nat_Suc)
  qed (use lh in simp_all)
  show "\<exists>w. unwrap_kcp m = Some w \<and> (\<forall>off len. w = Some (off, len) \<longrightarrow> off + len \<le> length m)" for m
    by (auto simp: unwrap_kcp_def rd8_guard [of _ 24] Let_def)
qed

interpretation dns: obfs_profile wrap_dns unwrap_dns
  "\<lambda>t. 28 + unat (t mod 6) + unat (t mod 4)" "\<lambda>t. unat (t mod 4)"
proof
  fix s :: obfs_session_t and p :: bytes
  define d where "d = unat (ob_tx_seq s mod 6)"
  define k where "k = unat (ob_tx_seq s mod 4)"
  define t where "t = ob_tx_seq s"
  have b: "d < 6" "k < 4" by (simp_all add: d_def k_def)
  note f = d_def [folded t_def, symmetric] k_def [folded t_def, symmetric]
  define h1 :: bytes where "h1 = be16_bytes (ucast (t AND 0xFFFF)) @ be16_bytes 0x0100 @ be16_bytes 1
    @ be16_bytes 0 @ be16_bytes 0 @ be16_bytes 0 @ [of_nat (6 + d)]
    @ map (\<lambda>i. ucast (97 + (t + of_nat i) mod 26)) [0..<6 + d]"
  define h :: bytes where "h = h1 @ [3, 99, 100, 110, 0] @ be16_bytes 16 @ be16_bytes 1"
  have lh1: "length h1 = 19 + d" by (simp add: h1_def)
  then have lh: "length h = 28 + d" by (simp add: h_def)
  have hb: "be16_of (h ! 4) (h ! 5) = 1" "h ! 12 = of_nat (6 + d)"
    by (simp_all add: h_def h1_def be16_bytes_def be16_of_def del: of_nat_add)
  have hs: "slice h (19 + d) 5 = [3, 99, 100, 110, 0]"
    unfolding h_def by (rule slice_at [OF lh1]) simp
  show "28 + d + k + marker_extra_len s + length p > 4096 \<Longrightarrow> wrap_dns s p = (s, None)"
    by (simp add: wrap_dns_def t_def [symmetric] f Let_def)
  show "\<exists>s' fr off. wrap_dns s p = (s', Some fr) \<and> sent s s'
        \<and> length fr = 28 + d + k + marker_extra_len s + length p
        \<and> unwrap_dns fr = Some (Some (off, marker_extra_len s + length p + k))
        \<and> slice fr off (marker_extra_len s + length p + k) = marker_bytes s @ p @ replicate k 0"
    if "28 + d + k + marker_extra_len s + length p \<le> 4096"
  proof (rule fits_frame)
    show "wrap_dns s p = (tx_next (s\<lparr>ob_marker_tx_left := ob_marker_tx_left s - 1\<rparr>),
        Some (h @ (marker_bytes s @ p @ replicate k 0) @ []))"
      using that
      by (simp add: wrap_dns_def Let_def t_def [symmetric] f marker_write_eq h_def h1_def
          del: of_nat_add of_nat_Suc upt_Suc)
    have "rd (h @ (marker_bytes s @ p @ replicate k 0) @ []) (19 + d) 5 = Some [3, 99, 100, 110, 0]"
      using hs lh by (simp add: rd_def slice_def)
    then show "unwrap_dns (h @ (marker_bytes s @ p @ replicate k 0) @ [])
        = Some (Some (28 + d, marker_extra_len s + length p + k))"
      using b hb lh by (simp add: unwrap_dns_def Let_def rd8_nth nth_append del: of_nat_add of_nat_Suc)
  qed (use lh in simp_all)
  show "\<exists>w. unwrap_dns m = Some w \<and> (\<forall>off len. w = Some (off, len) \<longrightarrow> off + len \<le> length m)" for m
    by (auto simp: unwrap_dns_def rd8_guard [of _ 22] rd_def Let_def)
qed

section \<open>Delivery\<close>

text \<open>What a receiver's session hands on of the bytes \<open>q\<close> found in the frame.\<close>

definition obfs_receive :: "obfs_session_t \<Rightarrow> bytes \<Rightarrow> bytes option" where
  "obfs_receive r q =
     (if ob_marker_seen r then Some q
      else if 4 \<le> length q \<and> take 4 q = k_obfs_marker then Some (drop 4 q) else None)"

text \<open>The receiver's session after a frame: the marker is seen once and for all, delivered
  packets are counted, and the marker window shrinks with every other packet.\<close>

definition received :: "obfs_session_t \<Rightarrow> bytes \<Rightarrow> obfs_session_t" where
  "received r q =
     (if ob_marker_seen r then r\<lparr>ob_rx_seq := ob_rx_seq r + 1\<rparr>
      else if 4 \<le> length q \<and> take 4 q = k_obfs_marker
        then r\<lparr>ob_marker_seen := True, ob_rx_seq := ob_rx_seq r + 1\<rparr>
      else r\<lparr>ob_marker_rx_window := ob_marker_rx_window r - 1\<rparr>)"

definition window_bytes :: "bytes \<Rightarrow> window \<Rightarrow> bytes option" where
  "window_bytes m w = map_option (\<lambda>(off, len). slice m off len) w"

lemma slice_slice_front: "n \<le> k \<Longrightarrow> slice m off n = take n (slice m off k)"
  by (simp add: slice_def min_def)

lemma slice_slice_back: "slice m (off + n) (k - n) = drop n (slice m off k)"
  by (simp add: slice_def drop_take add.commute)

lemma deliver_window:
  assumes "slice m off (length q) = q"
  shows "\<exists>w. deliver r m (Some (Some (off, length q))) = Some (received r q, w)
    \<and> window_bytes m w = obfs_receive r q"
proof (cases "4 \<le> length q")
  case True
  then have "slice m off 4 = take 4 q" "slice m (off + 4) (length q - 4) = drop 4 q"
    using assms slice_slice_front [of 4 "length q" m off] slice_slice_back [of m off 4 "length q"]
    by simp_all
  then show ?thesis
    using assms True
    by (auto simp: deliver_def marker_unwrap_if_needed_def received_def obfs_receive_def
        window_bytes_def)
next
  case False
  then show ?thesis
    using assms
    by (auto simp: deliver_def marker_unwrap_if_needed_def received_def obfs_receive_def
        window_bytes_def)
qed

lemma deliver_safe:
  assumes "off + len \<le> length m"
  shows "\<exists>s' w. deliver s m (Some (Some (off, len))) = Some (s', w)
    \<and> (\<forall>o' l'. w = Some (o', l') \<longrightarrow> o' + l' \<le> length m)"
  using assms by (auto simp: deliver_def marker_unwrap_if_needed_def)

context obfs_profile
begin

lemma roundtrip:
  assumes "over (ob_tx_seq s) + marker_extra_len s + length p \<le> 4096"
  shows "\<exists>s' fr w. wrap s p = (s', Some fr) \<and> sent s s'
    \<and> length fr = over (ob_tx_seq s) + marker_extra_len s + length p
    \<and> deliver r fr (unwrap fr)
        = Some (received r (marker_bytes s @ p @ replicate (tail (ob_tx_seq s)) 0), w)
    \<and> window_bytes fr w = obfs_receive r (marker_bytes s @ p @ replicate (tail (ob_tx_seq s)) 0)"
proof -
  let ?q = "marker_bytes s @ p @ replicate (tail (ob_tx_seq s)) 0"
  have lq: "length ?q = marker_extra_len s + length p + tail (ob_tx_seq s)" by simp
  obtain s' fr off where f: "wrap s p = (s', Some fr)" "sent s s'"
      "length fr = over (ob_tx_seq s) + marker_extra_len s + length p"
      "unwrap fr = Some (Some (off, length ?q))" "slice fr off (length ?q) = ?q"
    unfolding lq using fits [OF assms] by blast
  from deliver_window [OF f(5), of r] f show ?thesis by auto
qed

lemma unwrap_total:
  "\<exists>s' w. deliver s m (unwrap m) = Some (s', w)
    \<and> (\<forall>off len. w = Some (off, len) \<longrightarrow> off + len \<le> length m)"
proof -
  obtain w where w: "unwrap m = Some w" "\<forall>off len. w = Some (off, len) \<longrightarrow> off + len \<le> length m"
    using safe by blast
  show ?thesis
  proof (cases w)
    case None
    with w show ?thesis by (simp add: deliver_def)
  next
    case (Some ol)
    then obtain off len where "w = Some (off, len)" by (cases ol) auto
    with w deliver_safe [of off len m s] show ?thesis by simp
  qed
qed

end

section \<open>All profiles\<close>

text \<open>The bytes a profile adds, and the zero bytes its parser leaves behind the packet.\<close>

fun obfs_over :: "awg_obfs_profile_t \<Rightarrow> u64 \<Rightarrow> nat" where
  "obfs_over AWG_OBFS_OFF t = 0"
| "obfs_over AWG_OBFS_STUN_ICE t = 20 + unat (t AND 3)"
| "obfs_over AWG_OBFS_DTLS_RECORD t = 13"
| "obfs_over AWG_OBFS_RTP_MEDIA t = 12"
| "obfs_over AWG_OBFS_SOURCE_QUERY t = 6"
| "obfs_over AWG_OBFS_RAKNET t = 9"
| "obfs_over AWG_OBFS_QUIC_SHORT t = 13 + unat (t mod 5) + unat (t mod 4) + unat (t AND 7)"
| "obfs_over AWG_OBFS_GAME_ENET t = 10 + 4 * unat (t mod 3) + unat (t mod 6)"
| "obfs_over AWG_OBFS_GAME_KCP t = 24 + unat (t mod 5)"
| "obfs_over AWG_OBFS_DNS_LIKE t = 28 + unat (t mod 6) + unat (t mod 4)"

fun obfs_tail :: "awg_obfs_profile_t \<Rightarrow> u64 \<Rightarrow> nat" where
  "obfs_tail AWG_OBFS_STUN_ICE t = unat (t AND 3)"
| "obfs_tail AWG_OBFS_DNS_LIKE t = unat (t mod 4)"
| "obfs_tail _ t = 0"

definition obfs_fits :: "obfs_session_t \<Rightarrow> bytes \<Rightarrow> bool" where
  "obfs_fits s p \<longleftrightarrow> ob_profile s = AWG_OBFS_OFF
     \<or> obfs_over (ob_profile s) (ob_tx_seq s) + marker_extra_len s + length p \<le> 4096"

text \<open>The body of the frame of \<open>p\<close>: everything the parser returns to the marker check.\<close>

definition obfs_body :: "obfs_session_t \<Rightarrow> bytes \<Rightarrow> bytes" where
  "obfs_body s p = marker_bytes s @ p @ replicate (obfs_tail (ob_profile s) (ob_tx_seq s)) 0"

text \<open>A session without a profile neither sends nor waits for markers.\<close>

definition session_ok :: "obfs_session_t \<Rightarrow> bool" where
  "session_ok s \<longleftrightarrow> ob_marker_tx_left s \<le> 3
     \<and> (ob_profile s = AWG_OBFS_OFF \<longrightarrow> ob_marker_tx_left s = 0 \<and> ob_marker_seen s)"

lemma session_ok_init: "session_ok (obfs_session_init profile seed)"
  by (simp add: session_ok_def obfs_session_init_def)

lemma obfs_wrap_too_big:
  assumes "\<not> obfs_fits s p"
  shows "obfs_wrap s p = (s, None)"
  using assms rtp.too_big [of s p] source_query.too_big [of s p] raknet.too_big [of s p]
    dtls.too_big [of s p] stun.too_big [of s p] quic.too_big [of s p] enet.too_big [of s p]
    kcp.too_big [of s p] dns.too_big [of s p]
  unfolding obfs_fits_def obfs_wrap_def in_obfs_buf_def
  by (cases "ob_profile s") (simp_all only: awg_obfs_profile_t.case obfs_over.simps
      awg_obfs_profile_t.simps simp_thms not_le fst_conv snd_conv option.map)

definition profile_roundtrip :: "obfs_session_t \<Rightarrow> obfs_session_t \<Rightarrow> bytes \<Rightarrow> bool" where
  "profile_roundtrip s r p \<longleftrightarrow>
    (\<exists>s' out w. obfs_wrap s p = (s', Some out) \<and> sent s s'
      \<and> length (wrap_bytes out)
          = obfs_over (ob_profile s) (ob_tx_seq s) + marker_extra_len s + length p
      \<and> obfs_unwrap r (wrap_bytes out) = Some (received r (obfs_body s p), w)
      \<and> window_bytes (wrap_bytes out) w = obfs_receive r (obfs_body s p))"

lemma profile_roundtripI:
  assumes "\<exists>s' fr w. wrap s p = (s', Some fr) \<and> sent s s'
      \<and> length fr = n + marker_extra_len s + length p
      \<and> deliver r fr (unwrap fr) = Some (received r q, w) \<and> window_bytes fr w = obfs_receive r q"
    and "obfs_wrap s p = in_obfs_buf (wrap s p)" and "\<And>m. obfs_unwrap r m = deliver r m (unwrap m)"
    and "n = obfs_over (ob_profile s) (ob_tx_seq s)" and "q = obfs_body s p"
  shows "profile_roundtrip s r p"
  using assms unfolding profile_roundtrip_def in_obfs_buf_def by fastforce

lemmas profile_roundtrips =
  stun.roundtrip [THEN profile_roundtripI] dtls.roundtrip [THEN profile_roundtripI]
  rtp.roundtrip [THEN profile_roundtripI] source_query.roundtrip [THEN profile_roundtripI]
  raknet.roundtrip [THEN profile_roundtripI] quic.roundtrip [THEN profile_roundtripI]
  enet.roundtrip [THEN profile_roundtripI] kcp.roundtrip [THEN profile_roundtripI]
  dns.roundtrip [THEN profile_roundtripI]

lemma obfs_roundtrip:
  assumes "session_ok s" and "session_ok r" and prof: "ob_profile r = ob_profile s"
    and fit: "obfs_fits s p"
  shows "profile_roundtrip s r p"
proof (cases "ob_profile s")
  case AWG_OBFS_OFF
  with assms show ?thesis
    by (simp add: profile_roundtrip_def obfs_wrap_def obfs_unwrap_def session_ok_def sent_def
        tx_next_def received_def obfs_body_def marker_bytes_def marker_write_if_needed_def
        obfs_receive_def window_bytes_def slice_def marker_extra_len_def)
qed ((rule profile_roundtrips; use assms in
      \<open>simp add: obfs_wrap_def obfs_unwrap_def obfs_fits_def obfs_body_def; fail\<close>)+)

lemma obfs_unwrap_safe:
  "\<exists>s' w. obfs_unwrap s m = Some (s', w) \<and> (\<forall>off len. w = Some (off, len) \<longrightarrow> off + len \<le> length m)"
  unfolding obfs_unwrap_def
  by (cases "ob_profile s") (simp_all add: stun.unwrap_total dtls.unwrap_total rtp.unwrap_total
      source_query.unwrap_total raknet.unwrap_total quic.unwrap_total enet.unwrap_total
      kcp.unwrap_total dns.unwrap_total)

text \<open>What \<open>wrap\<close> adds is within \<open>obfs_profile_overhead_max\<close>, except for the DNS
  profile, whose maximum is six bytes larger.\<close>

lemma marker_extra_len_le: "marker_extra_len s \<le> 4"
  by (simp add: marker_extra_len_def)

lemma obfs_over_max:
  "profile \<noteq> AWG_OBFS_DNS_LIKE \<Longrightarrow> profile \<noteq> AWG_OBFS_OFF
    \<Longrightarrow> obfs_over profile t + 4 \<le> obfs_profile_overhead_max profile"
  by (cases profile; use unat_mod_lt [of t] unat_and_lt [of t] in
    \<open>simp only: obfs_over.simps obfs_profile_overhead_max.simps awg_obfs_profile_t.simps simp_thms; linarith\<close>)

lemma obfs_over_max_dns: "obfs_over AWG_OBFS_DNS_LIKE t + 4 \<le> 40"
  unfolding obfs_over.simps using unat_mod_lt [of t] by linarith

section \<open>Sequences of packets\<close>

lemma session_ok_sent: "session_ok s \<Longrightarrow> sent s s' \<Longrightarrow> session_ok s'"
  by (auto simp: session_ok_def sent_def)

lemma session_ok_received: "session_ok r \<Longrightarrow> session_ok (received r q)"
  by (auto simp: session_ok_def received_def)

lemma ob_profile_received [simp]: "ob_profile (received r q) = ob_profile r"
  by (simp add: received_def)

lemma marker_bytes_first: "ob_marker_tx_left s > 0 \<Longrightarrow> marker_bytes s = k_obfs_marker"
  by (simp add: marker_bytes_def marker_write_if_needed_def)

lemma marker_bytes_later: "ob_marker_tx_left s = 0 \<Longrightarrow> marker_bytes s = []"
  by (simp add: marker_bytes_def marker_write_if_needed_def)

text \<open>A receiver that has not seen a marker takes the packet behind one; a receiver that has
  takes the whole body.\<close>

lemma obfs_receive_marked:
  assumes "ob_marker_tx_left s > 0" and "\<not> ob_marker_seen r"
  shows "obfs_receive r (obfs_body s p)
      = Some (p @ replicate (obfs_tail (ob_profile s) (ob_tx_seq s)) 0)"
    and "ob_marker_seen (received r (obfs_body s p))"
  using assms
  by (simp_all add: obfs_receive_def received_def obfs_body_def marker_bytes_first
      k_obfs_marker_def)

lemma obfs_receive_seen:
  "ob_marker_seen r \<Longrightarrow> obfs_receive r q = Some q"
  "ob_marker_seen r \<Longrightarrow> ob_marker_seen (received r q)"
  by (simp_all add: obfs_receive_def received_def)

text \<open>A lossless run of packets from a sender to a receiver: the payloads delivered.\<close>

fun obfs_run :: "obfs_session_t \<Rightarrow> obfs_session_t \<Rightarrow> bytes list \<Rightarrow> bytes option list" where
  "obfs_run s r [] = []"
| "obfs_run s r (p # ps) =
     (case obfs_wrap s p of
        (s', None) \<Rightarrow> None # obfs_run s' r ps
      | (s', Some out) \<Rightarrow>
          (case obfs_unwrap r (wrap_bytes out) of
             None \<Rightarrow> [None]
           | Some (r', w) \<Rightarrow> window_bytes (wrap_bytes out) w # obfs_run s' r' ps))"

lemma obfs_run_Cons:
  assumes "session_ok s" "session_ok r" "ob_profile r = ob_profile s" "obfs_fits s p"
  shows "\<exists>s'. sent s s' \<and> obfs_run s r (p # ps)
    = obfs_receive r (obfs_body s p) # obfs_run s' (received r (obfs_body s p)) ps"
proof -
  from obfs_roundtrip [OF assms] obtain s' out w where
    "obfs_wrap s p = (s', Some out)" "sent s s'"
    "obfs_unwrap r (wrap_bytes out) = Some (received r (obfs_body s p), w)"
    "window_bytes (wrap_bytes out) w = obfs_receive r (obfs_body s p)"
    by (auto simp: profile_roundtrip_def)
  then show ?thesis by auto
qed

lemma obfs_fits_small:
  assumes "length p \<le> 4056"
  shows "obfs_fits s p"
proof (cases "ob_profile s = AWG_OBFS_OFF")
  case False
  then have "obfs_over (ob_profile s) (ob_tx_seq s) + 4 \<le> 40"
    using obfs_over_max [of "ob_profile s" "ob_tx_seq s"] obfs_over_max_dns [of "ob_tx_seq s"]
    by (cases "ob_profile s") simp_all
  with assms marker_extra_len_le [of s] show ?thesis unfolding obfs_fits_def by linarith
qed (simp add: obfs_fits_def)

text \<open>Once the markers are sent and seen, every packet is delivered as its frame's body:
  unchanged for the profiles without a residue.\<close>

lemma obfs_run_steady:
  assumes "session_ok s" "session_ok r" "ob_profile r = ob_profile s"
    and "ob_marker_tx_left s = 0" "ob_marker_seen r"
    and "\<forall>p \<in> set ps. length p \<le> 4056" and "\<forall>t. obfs_tail (ob_profile s) t = 0"
  shows "obfs_run s r ps = map Some ps"
  using assms
proof (induction ps arbitrary: s r)
  case (Cons p ps)
  let ?r = "received r (obfs_body s p)"
  obtain s' where s': "sent s s'"
    "obfs_run s r (p # ps) = obfs_receive r (obfs_body s p) # obfs_run s' ?r ps"
    using obfs_run_Cons [of s r p ps] Cons.prems obfs_fits_small [of p s] by auto
  have "obfs_run s' ?r ps = map Some ps"
    using Cons.prems s'(1) session_ok_sent [of s s'] session_ok_received [of r]
    by (intro Cons.IH) (simp_all add: sent_def obfs_receive_seen)
  with s' Cons.prems show ?case
    by (simp add: obfs_receive_seen obfs_body_def marker_bytes_later del: obfs_run.simps)
qed simp

text \<open>A fresh pair of sessions: the first packet arrives; the second and third still carry
  the marker, which the receiver, having seen one, no longer strips.\<close>

lemma obfs_run_fresh:
  assumes "profile \<noteq> AWG_OBFS_OFF" and "length p1 \<le> 4056" "length p2 \<le> 4056"
    and tail: "\<forall>t. obfs_tail profile t = 0"
  shows "obfs_run (obfs_session_init profile a) (obfs_session_init profile b) [p1, p2]
    = [Some p1, Some (k_obfs_marker @ p2)]"
proof -
  let ?s = "obfs_session_init profile a" and ?r = "obfs_session_init profile b"
  let ?r1 = "received ?r (obfs_body ?s p1)"
  have prof: "ob_profile ?s = profile" "ob_profile ?r = profile"
    "ob_marker_tx_left ?s = 3" "\<not> ob_marker_seen ?r"
    using assms(1) by (simp_all add: obfs_session_init_def)
  obtain s1 where s1: "sent ?s s1" "obfs_run ?s ?r [p1, p2]
      = obfs_receive ?r (obfs_body ?s p1) # obfs_run s1 ?r1 [p2]"
    using obfs_run_Cons [of ?s ?r p1 "[p2]"] prof session_ok_init obfs_fits_small [OF assms(2)]
    by auto
  have s1p: "session_ok s1" "session_ok ?r1" "ob_profile s1 = profile" "ob_marker_tx_left s1 = 2"
    using session_ok_sent [OF session_ok_init s1(1)] session_ok_received [OF session_ok_init] s1 prof
    by (simp_all add: sent_def)
  obtain s2 where s2: "obfs_run s1 ?r1 [p2]
      = obfs_receive ?r1 (obfs_body s1 p2) # obfs_run s2 (received ?r1 (obfs_body s1 p2)) []"
    using obfs_run_Cons [of s1 ?r1 p2 "[]"] prof s1p obfs_fits_small [OF assms(3)] by auto
  have "obfs_receive ?r (obfs_body ?s p1) = Some p1" "ob_marker_seen ?r1"
    using obfs_receive_marked [of ?s ?r p1] prof tail by simp_all
  moreover have "obfs_receive ?r1 (obfs_body s1 p2) = Some (k_obfs_marker @ p2)"
    using calculation(2) s1p tail
    by (simp add: obfs_receive_seen obfs_body_def marker_bytes_first)
  ultimately show ?thesis using s1 s2 by simp
qed

section \<open>Profile names\<close>

lemma streqi_loop_lower: "streqi_loop a b \<longleftrightarrow> map lower_c a = map lower_c b"
  by (induction a b rule: streqi_loop.induct) auto

lemma parse_profile_name: "parse_obfs_profile (Some (obfs_profile_name profile)) = profile"
  by (cases profile; simp only: obfs_profile_name.simps; code_simp)

end
