(* ===== verification/Cps.thy ===== *)
theory Cps
  imports Awg_Config Fastrand
begin

text \<open>
  \<open>src/cps.c\<close>: templates of the custom packets sent before a handshake, e.g.
  \<open><b 0xc0ff><r 16><c>\<close>.  Parsing works on the part of the string still to be read;
  generation writes segment after segment into the packet buffer.  \<open>time(NULL)\<close> is the
  parameter \<open>now\<close>, read at the offset where the timestamp is written.
\<close>

section \<open>Parsing\<close>

definition write_be32 :: "u32 \<Rightarrow> bytes" where
  "write_be32 v = [ucast (drop_bit 24 v AND 0xFF), ucast (drop_bit 16 v AND 0xFF),
     ucast (drop_bit 8 v AND 0xFF), ucast (v AND 0xFF)]"

definition hex_val :: "char \<Rightarrow> int" where
  "hex_val c = (let n = (of_char c :: int) in
     if 48 \<le> n \<and> n \<le> 57 then n - 48
     else if 97 \<le> n \<and> n \<le> 102 then n - 97 + 10
     else if 65 \<le> n \<and> n \<le> 70 then n - 65 + 10
     else -1)"

fun parse_int_loop :: "int \<Rightarrow> string \<Rightarrow> int" where
  "parse_int_loop v [] = v"
| "parse_int_loop v (c # cs) =
     (if \<not> is_digit_c c then -1
      else if v > 100000 then -1
      else parse_int_loop (v * 10 + int (digit_val c)) cs)"

definition parse_int :: "string \<Rightarrow> int" where
  "parse_int s = (if s = [] then -1 else parse_int_loop 0 s)"

definition skip_spaces :: "string \<Rightarrow> string" where
  "skip_spaces s = dropWhile (\<lambda>c. c = CHR '' '' \<or> c = CHR 0x09) s"

text \<open>The loop over the digit pairs of \<open><b 0x...>\<close>.\<close>

fun hex_bytes :: "string \<Rightarrow> bytes option" where
  "hex_bytes (a # b # s) =
     (let hi = hex_val a; lo = hex_val b in
      if hi < 0 \<or> lo < 0 then None
      else map_option (Cons (of_int (push_bit 4 hi OR lo))) (hex_bytes s))"
| "hex_bytes _ = Some []"

definition seg_zero :: cps_segment_t where
  "seg_zero = \<lparr>sg_kind = CPS_STATIC, sg_size = 0, sg_data_off = 0, sg_data_len = 0\<rparr>"

definition add_seg :: "cps_template_t \<Rightarrow> cps_segment_t \<Rightarrow> cps_template_t" where
  "add_seg t seg = t\<lparr>tm_segs := tm_segs t @ [seg]\<rparr>"

text \<open>One \<open><...>\<close>, without its brackets and not empty.\<close>

definition parse_static :: "string \<Rightarrow> cps_template_t \<Rightarrow> cps_template_t option" where
  "parse_static inner t =
    (let p = skip_spaces (tl inner) in
     if length p \<le> 2 \<or> p ! 0 \<noteq> CHR ''0'' \<or> (p ! 1 \<noteq> CHR ''x'' \<and> p ! 1 \<noteq> CHR ''X'') then None
     else
       let hex = drop 2 p in
       if length hex mod 2 \<noteq> 0 then None
       else
         let nbytes = length hex div 2; used = length (tm_static t) in
         if used + nbytes > 1500 then None
         else case hex_bytes hex of None \<Rightarrow> None
           | Some bs \<Rightarrow> Some (add_seg (t\<lparr>tm_static := tm_static t @ bs\<rparr>)
               (seg_zero\<lparr>sg_kind := CPS_STATIC, sg_data_off := of_nat used,
                         sg_data_len := of_nat nbytes\<rparr>)))"

text \<open>\<open>seg->size = size\<close> stores an \<open>int\<close> into a \<open>uint16_t\<close>.\<close>

definition parse_random :: "string \<Rightarrow> cps_template_t \<Rightarrow> cps_template_t option" where
  "parse_random inner t =
    (let (kind, p) =
       (if length inner > 1 \<and> inner ! 1 = CHR ''c'' then (CPS_RANDOM_CHARS, skip_spaces (drop 2 inner))
        else if length inner > 1 \<and> inner ! 1 = CHR ''d'' then (CPS_RANDOM_DIGITS, skip_spaces (drop 2 inner))
        else (CPS_RANDOM, skip_spaces (drop 1 inner)));
       size = parse_int p
     in if size \<le> 0 then None
        else Some (add_seg t (seg_zero\<lparr>sg_kind := kind, sg_size := of_int size\<rparr>)))"

definition parse_segment :: "string \<Rightarrow> cps_template_t \<Rightarrow> cps_template_t option" where
  "parse_segment inner t =
    (let kind = hd inner in
     if kind = CHR ''b'' then parse_static inner t
     else if kind = CHR ''r'' then parse_random inner t
     else if kind = CHR ''t'' then Some (add_seg t (seg_zero\<lparr>sg_kind := CPS_TIMESTAMP\<rparr>))
     else if kind = CHR ''c'' then Some (add_seg t (seg_zero\<lparr>sg_kind := CPS_COUNTER\<rparr>))
     else None)"

definition is_ws :: "char \<Rightarrow> bool" where
  "is_ws c \<longleftrightarrow> c = CHR '' '' \<or> c = CHR 0x09 \<or> c = CHR 0x0A \<or> c = CHR 0x0D"

function parse_loop :: "string \<Rightarrow> cps_template_t \<Rightarrow> cps_template_t option" where
  "parse_loop [] t = Some t"
| "parse_loop (c # cs) t =
    (if is_ws c then parse_loop cs t
     else if c \<noteq> CHR ''<'' then None
     else
       let inner = takeWhile (\<lambda>c. c \<noteq> CHR ''>'') cs; rest = dropWhile (\<lambda>c. c \<noteq> CHR ''>'') cs in
       if rest = [] then None
       else if length (tm_segs t) \<ge> 32 then None
       else if inner = [] then None
       else case parse_segment inner t of None \<Rightarrow> None | Some t \<Rightarrow> parse_loop (tl rest) t)"
  by pat_completeness auto
termination
proof (relation "measure (\<lambda>(s, t). length s)", goal_cases)
  case (3 c cs t inner rest t')
  have "length (dropWhile (\<lambda>c. c \<noteq> CHR ''>'') cs) \<le> length cs" by (rule length_dropWhile_le)
  with 3 show ?case by (cases "dropWhile (\<lambda>c. c \<noteq> CHR ''>'') cs") simp_all
qed simp_all

fun seg_size :: "cps_segment_t \<Rightarrow> nat" where
  "seg_size seg = (case sg_kind seg of
     CPS_STATIC \<Rightarrow> unat (sg_data_len seg)
   | CPS_RANDOM \<Rightarrow> unat (sg_size seg)
   | CPS_RANDOM_CHARS \<Rightarrow> unat (sg_size seg)
   | CPS_RANDOM_DIGITS \<Rightarrow> unat (sg_size seg)
   | CPS_TIMESTAMP \<Rightarrow> 4
   | CPS_COUNTER \<Rightarrow> 4)"

definition cps_max_size :: "cps_template_t \<Rightarrow> nat" where
  "cps_max_size t = sum_list (map seg_size (tm_segs t))"

text \<open>\<open>None\<close> is the return value -1.\<close>

definition cps_parse :: "string \<Rightarrow> cps_template_t option" where
  "cps_parse s = (case parse_loop (c_str s) \<lparr>tm_segs = [], tm_static = []\<rparr> of
     None \<Rightarrow> None
   | Some t \<Rightarrow> if tm_segs t = [] then None
       else if cps_max_size t > 1500 then None else Some t)"

section \<open>Generation\<close>

definition alpha :: bytes where
  "alpha = map of_nat ([97..<123] @ [65..<91])"

text \<open>The bytes of the loops over \<open>alpha[fastrand_intn(&rng, 52)]\<close> and
  \<open>'0' + fastrand_intn(&rng, 10)\<close>.\<close>

fun rand_chars :: "fastrand_t \<Rightarrow> nat \<Rightarrow> bytes \<times> fastrand_t" where
  "rand_chars r 0 = ([], r)"
| "rand_chars r (Suc n) =
     (let (x, r) = fastrand_intn r 52; (bs, r) = rand_chars r n in (alpha ! x # bs, r))"

fun rand_digits :: "fastrand_t \<Rightarrow> nat \<Rightarrow> bytes \<times> fastrand_t" where
  "rand_digits r 0 = ([], r)"
| "rand_digits r (Suc n) =
     (let (x, r) = fastrand_intn r 10; (bs, r) = rand_digits r n in (of_nat (48 + x) # bs, r))"

text \<open>\<open>static_data\<close> is an array of 1500 bytes; a read past its end is a fault.\<close>

definition static_array :: "cps_template_t \<Rightarrow> bytes" where
  "static_array t = tm_static t @ replicate (1500 - length (tm_static t)) 0"

definition seg_bytes ::
  "cps_template_t \<Rightarrow> u32 \<Rightarrow> u32 \<Rightarrow> fastrand_t \<Rightarrow> cps_segment_t \<Rightarrow> (bytes \<times> fastrand_t) option" where
  "seg_bytes t counter now r seg = (case sg_kind seg of
     CPS_STATIC \<Rightarrow> map_option (\<lambda>bs. (bs, r))
       (rd (static_array t) (unat (sg_data_off seg)) (unat (sg_data_len seg)))
   | CPS_RANDOM \<Rightarrow> Some (fastrand_fill r (unat (sg_size seg)))
   | CPS_RANDOM_CHARS \<Rightarrow> Some (rand_chars r (unat (sg_size seg)))
   | CPS_RANDOM_DIGITS \<Rightarrow> Some (rand_digits r (unat (sg_size seg)))
   | CPS_TIMESTAMP \<Rightarrow> Some (write_be32 now, r)
   | CPS_COUNTER \<Rightarrow> Some (write_be32 counter, r))"

text \<open>The bytes written to \<open>buf\<close> from offset \<open>off\<close> on; the loop returns early at the
  first segment that does not fit.\<close>

fun generate_loop ::
  "cps_template_t \<Rightarrow> u32 \<Rightarrow> (nat \<Rightarrow> u32) \<Rightarrow> nat \<Rightarrow> nat \<Rightarrow> fastrand_t \<Rightarrow> cps_segment_t list
    \<Rightarrow> bytes option" where
  "generate_loop t counter now bufsize off r [] = Some []"
| "generate_loop t counter now bufsize off r (seg # segs) =
     (if off + seg_size seg > bufsize then Some []
      else do {
        (bs, r) \<leftarrow> seg_bytes t counter (now off) r seg;
        rest \<leftarrow> generate_loop t counter now bufsize (off + seg_size seg) r segs;
        Some (bs @ rest)
      })"

definition cps_generate ::
  "cps_template_t \<Rightarrow> u32 \<Rightarrow> (nat \<Rightarrow> u32) \<Rightarrow> nat \<Rightarrow> bytes option" where
  "cps_generate t counter now bufsize =
     generate_loop t counter now bufsize 0 (fastrand_init (ucast (counter XOR 0xDEADBEEF))) (tm_segs t)"

text \<open>The packets of the configured templates and the counter after them.\<close>

fun cps_generate_all ::
  "cps_template_t option list \<Rightarrow> u32 \<Rightarrow> (nat \<Rightarrow> u32) \<Rightarrow> (bytes list \<times> u32) option" where
  "cps_generate_all [] counter now = Some ([], counter)"
| "cps_generate_all (None # ts) counter now = cps_generate_all ts counter now"
| "cps_generate_all (Some t # ts) counter now = do {
     p \<leftarrow> cps_generate t counter now 1500;
     (ps, c) \<leftarrow> cps_generate_all ts (counter + 1) now;
     Some (p # ps, c)
   }"

section \<open>What a parsed template satisfies\<close>

text \<open>While parsing: at most 32 segments, at most 1500 static bytes, every static segment
  inside them.\<close>

definition seg_inside :: "nat \<Rightarrow> cps_segment_t \<Rightarrow> bool" where
  "seg_inside used seg \<longleftrightarrow>
     (sg_kind seg = CPS_STATIC \<longrightarrow> unat (sg_data_off seg) + unat (sg_data_len seg) \<le> used)"

definition tmpl_inv :: "cps_template_t \<Rightarrow> bool" where
  "tmpl_inv t \<longleftrightarrow> length (tm_segs t) \<le> 32 \<and> length (tm_static t) \<le> 1500
     \<and> list_all (seg_inside (length (tm_static t))) (tm_segs t)"

lemma seg_inside_mono: "seg_inside m seg \<Longrightarrow> m \<le> n \<Longrightarrow> seg_inside n seg"
  by (auto simp: seg_inside_def)

lemma tmpl_inv_add:
  assumes "tmpl_inv t" and "length (tm_segs t) < 32" and "seg_inside (length (tm_static t)) seg"
  shows "tmpl_inv (add_seg t seg)"
  using assms by (simp add: tmpl_inv_def add_seg_def)

lemma length_hex_bytes: "hex_bytes s = Some bs \<Longrightarrow> length bs = length s div 2"
  by (induction s arbitrary: bs rule: hex_bytes.induct) (auto simp: Let_def split: if_splits)

lemma tmpl_inv_parse_static:
  assumes inv: "tmpl_inv t" and n: "length (tm_segs t) < 32" and p: "parse_static inner t = Some t'"
  shows "tmpl_inv t'"
proof -
  from p obtain hex bs where h: "hex_bytes hex = Some bs"
      "length (tm_static t) + length hex div 2 \<le> 1500"
      "t' = add_seg (t\<lparr>tm_static := tm_static t @ bs\<rparr>) (seg_zero\<lparr>sg_kind := CPS_STATIC,
         sg_data_off := of_nat (length (tm_static t)), sg_data_len := of_nat (length hex div 2)\<rparr>)"
    by (auto simp: parse_static_def Let_def not_le split: if_splits option.splits)
  have lb: "length bs = length hex div 2" by (rule length_hex_bytes [OF h(1)])
  have "tmpl_inv (t\<lparr>tm_static := tm_static t @ bs\<rparr>)"
    using inv h(2) lb
    by (auto simp: tmpl_inv_def list_all_iff intro: seg_inside_mono)
  moreover have "length (tm_segs (t\<lparr>tm_static := tm_static t @ bs\<rparr>)) < 32" using n by simp
  moreover have "seg_inside (length (tm_static (t\<lparr>tm_static := tm_static t @ bs\<rparr>)))
     (seg_zero\<lparr>sg_kind := CPS_STATIC, sg_data_off := of_nat (length (tm_static t)),
        sg_data_len := of_nat (length hex div 2)\<rparr>)"
    using h(2) lb by (simp add: seg_inside_def unat_of_nat)
  ultimately show ?thesis unfolding h(3) by (rule tmpl_inv_add)
qed

lemma tmpl_inv_parse_segment:
  assumes "tmpl_inv t" and "length (tm_segs t) < 32" and "parse_segment inner t = Some t'"
  shows "tmpl_inv t'"
  using assms tmpl_inv_parse_static [of t inner t']
  by (auto simp: parse_segment_def parse_random_def Let_def seg_inside_def split: if_splits
      intro!: tmpl_inv_add)

lemma tmpl_inv_parse_loop: "tmpl_inv t \<Longrightarrow> parse_loop s t = Some t' \<Longrightarrow> tmpl_inv t'"
proof (induction s t rule: parse_loop.induct)
  case (2 c cs t)
  from "2.prems"(2) show ?case
    using 2 tmpl_inv_parse_segment [of t] 
    by (auto simp: Let_def not_le split: if_splits option.splits)
qed simp

definition template_ok :: "cps_template_t \<Rightarrow> bool" where
  "template_ok t \<longleftrightarrow> tmpl_inv t \<and> tm_segs t \<noteq> [] \<and> cps_max_size t \<le> 1500"

lemma cps_parse_ok: "cps_parse s = Some t \<Longrightarrow> template_ok t"
  using tmpl_inv_parse_loop [of "\<lparr>tm_segs = [], tm_static = []\<rparr>" "c_str s" t]
  by (auto simp: cps_parse_def template_ok_def tmpl_inv_def split: option.splits if_splits)

section \<open>What is generated\<close>

text \<open>The bytes a segment may produce.\<close>

definition is_letter :: "u8 \<Rightarrow> bool" where
  "is_letter b \<longleftrightarrow> (97 \<le> b \<and> b \<le> 122) \<or> (65 \<le> b \<and> b \<le> 90)"

definition is_digit_byte :: "u8 \<Rightarrow> bool" where
  "is_digit_byte b \<longleftrightarrow> 48 \<le> b \<and> b \<le> 57"

definition seg_matches :: "cps_template_t \<Rightarrow> u32 \<Rightarrow> cps_segment_t \<Rightarrow> bytes \<Rightarrow> bool" where
  "seg_matches t counter seg bs \<longleftrightarrow> length bs = seg_size seg \<and> (case sg_kind seg of
     CPS_STATIC \<Rightarrow> bs = slice (tm_static t) (unat (sg_data_off seg)) (unat (sg_data_len seg))
   | CPS_RANDOM \<Rightarrow> True
   | CPS_RANDOM_CHARS \<Rightarrow> list_all is_letter bs
   | CPS_RANDOM_DIGITS \<Rightarrow> list_all is_digit_byte bs
   | CPS_TIMESTAMP \<Rightarrow> True
   | CPS_COUNTER \<Rightarrow> bs = write_be32 counter)"

lemma alpha_letters: "list_all is_letter alpha \<and> length alpha = 52"
  unfolding alpha_def is_letter_def by code_simp

lemma alpha_nth: "x < 52 \<Longrightarrow> is_letter (alpha ! x)"
  using alpha_letters by (auto simp: list_all_length)

lemma digit_bytes: "list_all (\<lambda>x. is_digit_byte (of_nat (48 + x))) [0..<10]"
  unfolding is_digit_byte_def by code_simp

lemma rand_chars_spec:
  "length (fst (rand_chars r n)) = n \<and> list_all is_letter (fst (rand_chars r n))"
proof (induction n arbitrary: r)
  case (Suc n)
  obtain x r' where x: "fastrand_intn r 52 = (x, r')" by fastforce
  with fastrand_intn_bound [of 52 r] have "x < 52" by simp
  with x Suc [of r'] alpha_nth show ?case by (simp add: case_prod_beta Let_def)
qed simp

lemma rand_digits_spec:
  "length (fst (rand_digits r n)) = n \<and> list_all is_digit_byte (fst (rand_digits r n))"
proof (induction n arbitrary: r)
  case (Suc n)
  obtain x r' where x: "fastrand_intn r 10 = (x, r')" by fastforce
  with fastrand_intn_bound [of 10 r] have "x < 10" by simp
  with digit_bytes have "is_digit_byte (of_nat (48 + x))" by (auto simp: list_all_iff)
  with x Suc [of r'] show ?case by (simp add: case_prod_beta Let_def)
qed simp

lemma seg_bytes_ok:
  assumes "seg_inside (length (tm_static t)) seg"
  shows "\<exists>bs r'. seg_bytes t counter now r seg = Some (bs, r') \<and> seg_matches t counter seg bs"
proof (cases "sg_kind seg")
  case CPS_STATIC
  with assms show ?thesis
    by (simp add: seg_bytes_def seg_matches_def seg_inside_def rd_def static_array_def slice_def)
next
  case CPS_RANDOM
  then show ?thesis
    by (cases "fastrand_fill r (unat (sg_size seg))")
      (use length_fastrand_fill [of r "unat (sg_size seg)"] in
        \<open>simp add: seg_bytes_def seg_matches_def\<close>)
next
  case CPS_RANDOM_CHARS
  then show ?thesis
    by (cases "rand_chars r (unat (sg_size seg))")
      (use rand_chars_spec [of r "unat (sg_size seg)"] in
        \<open>simp add: seg_bytes_def seg_matches_def\<close>)
next
  case CPS_RANDOM_DIGITS
  then show ?thesis
    by (cases "rand_digits r (unat (sg_size seg))")
      (use rand_digits_spec [of r "unat (sg_size seg)"] in
        \<open>simp add: seg_bytes_def seg_matches_def\<close>)
qed (simp_all add: seg_bytes_def seg_matches_def write_be32_def)

text \<open>With room for the largest packet every segment is written, in order.\<close>

lemma generate_loop_shape:
  assumes "list_all (seg_inside (length (tm_static t))) segs"
    and "off + sum_list (map seg_size segs) \<le> bufsize"
  shows "\<exists>parts. generate_loop t counter now bufsize off r segs = Some (concat parts)
    \<and> list_all2 (seg_matches t counter) segs parts"
  using assms
proof (induction segs arbitrary: off r)
  case (Cons seg segs)
  obtain bs r' where b: "seg_bytes t counter (now off) r seg = Some (bs, r')"
      "seg_matches t counter seg bs"
    using seg_bytes_ok [of t seg] Cons.prems(1) by fastforce
  obtain parts where "generate_loop t counter now bufsize (off + seg_size seg) r' segs = Some (concat parts)"
      "list_all2 (seg_matches t counter) segs parts"
    using Cons.IH [of "off + seg_size seg" r'] Cons.prems by auto
  then show ?case using b Cons.prems(2) by (intro exI [of _ "bs # parts"]) simp
qed simp

lemma length_parts:
  "list_all2 (seg_matches t counter) segs parts
    \<Longrightarrow> length (concat parts) = sum_list (map seg_size segs)"
  by (induction rule: list_all2_induct) (auto simp: seg_matches_def)

lemma cps_generate_shape:
  assumes "tmpl_inv t" and "cps_max_size t \<le> bufsize"
  shows "\<exists>parts. cps_generate t counter now bufsize = Some (concat parts)
    \<and> list_all2 (seg_matches t counter) (tm_segs t) parts
    \<and> length (concat parts) = cps_max_size t"
  using generate_loop_shape [of t "tm_segs t" 0 bufsize] assms length_parts
  unfolding cps_generate_def tmpl_inv_def cps_max_size_def by fastforce

text \<open>Whatever the buffer size, nothing is written past it.\<close>

lemma generate_loop_bound:
  assumes "list_all (seg_inside (length (tm_static t))) segs" and "off \<le> bufsize"
  shows "\<exists>bs. generate_loop t counter now bufsize off r segs = Some bs \<and> off + length bs \<le> bufsize"
  using assms
proof (induction segs arbitrary: off r)
  case (Cons seg segs)
  show ?case
  proof (cases "off + seg_size seg > bufsize")
    case False
    obtain bs r' where b: "seg_bytes t counter (now off) r seg = Some (bs, r')"
        "seg_matches t counter seg bs"
      using seg_bytes_ok [of t seg] Cons.prems(1) by fastforce
    obtain rest where "generate_loop t counter now bufsize (off + seg_size seg) r' segs = Some rest"
        "off + seg_size seg + length rest \<le> bufsize"
      using Cons.IH [of "off + seg_size seg" r'] Cons.prems False by auto
    then show ?thesis using b False by (simp add: seg_matches_def)
  qed (use Cons.prems in simp)
qed simp

lemma cps_generate_bound:
  "tmpl_inv t \<Longrightarrow> \<exists>bs. cps_generate t counter now bufsize = Some bs \<and> length bs \<le> bufsize"
  using generate_loop_bound [of t "tm_segs t" 0 bufsize] by (simp add: cps_generate_def tmpl_inv_def)

text \<open>All configured templates are generated, each with its own counter value.\<close>

lemma cps_generate_all_spec:
  assumes "\<forall>t. Some t \<in> set ts \<longrightarrow> template_ok t"
  shows "\<exists>ps. cps_generate_all ts counter now
      = Some (ps, counter + of_nat (length (filter (\<lambda>x. x \<noteq> None) ts)))
    \<and> list_all2 (\<lambda>t p. length p = cps_max_size t) (map the (filter (\<lambda>x. x \<noteq> None) ts)) ps"
  using assms
proof (induction ts counter now rule: cps_generate_all.induct)
  case (3 t ts counter now)
  obtain p where "cps_generate t counter now 1500 = Some p" "length p = cps_max_size t"
    using cps_generate_shape [of t 1500 counter now] "3.prems" by (auto simp: template_ok_def)
  moreover obtain ps where "cps_generate_all ts (counter + 1) now
      = Some (ps, counter + 1 + of_nat (length (filter (\<lambda>x. x \<noteq> None) ts)))"
      "list_all2 (\<lambda>t p. length p = cps_max_size t) (map the (filter (\<lambda>x. x \<noteq> None) ts)) ps"
    using "3.IH" [OF calculation(1)] "3.prems" by auto
  ultimately show ?case by (simp add: add.assoc)
qed simp_all

section \<open>Static templates\<close>

text \<open>The text of a static template, and that parsing and generating it gives its bytes.\<close>

definition hex_digit :: "nat \<Rightarrow> char" where
  "hex_digit n = ''0123456789abcdef'' ! n"

fun hex_text :: "bytes \<Rightarrow> string" where
  "hex_text [] = []"
| "hex_text (b # bs) = hex_digit (unat b div 16) # hex_digit (unat b mod 16) # hex_text bs"

definition static_text :: "bytes \<Rightarrow> string" where
  "static_text bs = ''<b 0x'' @ hex_text bs @ ''>''"

lemma hex_val_digits: "list_all (\<lambda>n. hex_val (hex_digit n) = int n
    \<and> hex_digit n \<noteq> CHR ''>'' \<and> hex_digit n \<noteq> CHR 0x00) [0..<16]"
  unfolding hex_val_def hex_digit_def by code_simp

lemma hex_digit_props:
  assumes "n < 16"
  shows "hex_val (hex_digit n) = int n" "hex_digit n \<noteq> CHR ''>''" "hex_digit n \<noteq> CHR 0x00"
  using assms hex_val_digits by (auto simp: list_all_iff)

lemma length_hex_text [simp]: "length (hex_text bs) = 2 * length bs"
  by (induction bs) auto

lemma hex_text_chars: "c \<in> set (hex_text bs) \<Longrightarrow> c \<noteq> CHR ''>'' \<and> c \<noteq> CHR 0x00"
proof (induction bs)
  case (Cons b bs)
  have "unat b div 16 < 16" "unat b mod 16 < 16" using u8_less [of b] by linarith+
  then show ?case using Cons hex_digit_props by auto
qed simp

lemma nibbles: "(of_int (push_bit 4 (int a) OR int b) :: u8) = of_nat (16 * a + b)" if "b < 16"
proof -
  have "push_bit 4 (int a) OR int b = push_bit 4 (int a) + int b"
  proof (rule disjunctive_add [symmetric])
    fix n
    show "\<not> bit (push_bit 4 (int a)) n \<or> \<not> bit (int b) n"
    proof (cases "n < 4")
      case True
      then show ?thesis by (simp add: bit_push_bit_iff)
    next
      case False
      have "b < 2 ^ 4" using that by simp
      also have "(2 :: nat) ^ 4 \<le> 2 ^ n" using False by (intro power_increasing) simp_all
      finally show ?thesis by (simp add: bit_iff_odd)
    qed
  qed
  then show ?thesis by (simp add: push_bit_eq_mult)
qed

lemma hex_bytes_text: "hex_bytes (hex_text bs) = Some bs"
proof (induction bs)
  case (Cons b bs)
  have "unat b div 16 < 16" "unat b mod 16 < 16" using u8_less [of b] by linarith+
  then have h: "hex_val (hex_digit (unat b div 16)) = int (unat b div 16)"
      "hex_val (hex_digit (unat b mod 16)) = int (unat b mod 16)"
    by (simp_all only: hex_digit_props)
  have "(of_int (push_bit 4 (int (unat b div 16)) OR int (unat b mod 16)) :: u8)
      = of_nat (16 * (unat b div 16) + unat b mod 16)"
    by (rule nibbles) simp
  also have "16 * (unat b div 16) + unat b mod 16 = unat b" by simp
  also have "of_nat (unat b) = b" by simp
  finally show ?case using Cons h by (simp add: Let_def)
qed simp

lemma cps_static_roundtrip:
  assumes "bs \<noteq> []" and "length bs \<le> 1500"
  shows "\<exists>t. cps_parse (static_text bs) = Some t \<and> cps_generate t counter now 1500 = Some bs"
proof -
  define t where "t = add_seg \<lparr>tm_segs = [], tm_static = bs\<rparr>
    (seg_zero\<lparr>sg_kind := CPS_STATIC, sg_data_off := 0, sg_data_len := of_nat (length bs)\<rparr>)"
  define inner where "inner = ''b 0x'' @ hex_text bs"
  have cs: "c_str (static_text bs) = static_text bs"
    using hex_text_chars by (auto simp: c_str_def static_text_def takeWhile_append2 takeWhile_eq_all_conv)
  have tw: "takeWhile (\<lambda>c. c \<noteq> CHR ''>'') (inner @ ''>'') = inner"
    "dropWhile (\<lambda>c. c \<noteq> CHR ''>'') (inner @ ''>'') = ''>''"
    using hex_text_chars by (auto simp: inner_def takeWhile_append2 dropWhile_append2)
  have seg: "parse_segment inner \<lparr>tm_segs = [], tm_static = []\<rparr> = Some t"
    using assms hex_bytes_text [of bs]
    by (simp add: parse_segment_def parse_static_def skip_spaces_def inner_def t_def Let_def)
  have st: "static_text bs = CHR ''<'' # (inner @ ''>'')" by (simp add: static_text_def inner_def)
  have "parse_loop (static_text bs) \<lparr>tm_segs = [], tm_static = []\<rparr> = Some t"
    unfolding st by (simp only: parse_loop.simps) (simp add: tw seg is_ws_def, simp add: inner_def)
  moreover have sz: "cps_max_size t = length bs" "tm_segs t \<noteq> []"
    using assms by (simp_all add: t_def cps_max_size_def add_seg_def unat_of_nat seg_zero_def)
  ultimately have "cps_parse (static_text bs) = Some t"
    using assms by (simp add: cps_parse_def cs)
  moreover have "cps_generate t counter now 1500 = Some bs"
    using assms
    by (simp add: cps_generate_def t_def add_seg_def seg_zero_def seg_bytes_def rd_def
        static_array_def slice_def unat_of_nat)
  ultimately show ?thesis by blast
qed

text \<open>A random segment's size is kept in 16 bits: a size just above loses its high bits.\<close>

lemma cps_size_truncated:
  "map_option (map (unat \<circ> sg_size) \<circ> tm_segs) (cps_parse ''<r 65537>'') = Some [1]"
  by code_simp

end
