(* ===== verification/Session_Table.thy ===== *)
theory Session_Table
  imports Obfs
begin

text \<open>
  \<open>src/session_table.c\<close>: the gateway's table from WireGuard receiver indices to client
  addresses, 4096 entries probed at four consecutive slots.  Here the operations run one
  at a time; the seqlock they use between threads is modelled in \<open>Seqlock\<close>.
  A \<open>struct sockaddr_storage\<close> is its 128 bytes.
\<close>

section \<open>Addresses\<close>

type_synonym sockaddr = bytes

abbreviation (input) "AF_INET \<equiv> 2"
abbreviation (input) "AF_INET6 \<equiv> 10"

text \<open>The fields of \<open>sockaddr_in\<close> and \<open>sockaddr_in6\<close> on Linux: family at 0, port at
  2, the IPv4 address at 4, the IPv6 address at 8 and its scope at 24.\<close>

definition ss_family :: "sockaddr \<Rightarrow> nat" where
  "ss_family a = le_val (take 2 a)"

text \<open>The result is the destination and its length after the copy.\<close>

definition session_addr_copy :: "sockaddr \<Rightarrow> sockaddr \<Rightarrow> nat \<Rightarrow> sockaddr \<times> nat" where
  "session_addr_copy dst src src_len =
     (let src_len = (if src_len > 128 then 128 else src_len)
      in (take src_len src @ drop src_len dst, src_len))"

definition session_addr_equal :: "sockaddr \<Rightarrow> sockaddr \<Rightarrow> bool" where
  "session_addr_equal a b =
     (if ss_family a \<noteq> ss_family b then False
      else if ss_family a = AF_INET then slice a 2 2 = slice b 2 2 \<and> slice a 4 4 = slice b 4 4
      else if ss_family a = AF_INET6 then
        slice a 2 2 = slice b 2 2 \<and> slice a 24 4 = slice b 24 4 \<and> slice a 8 16 = slice b 8 16
      else False)"

section \<open>Entries\<close>

record session_entry_t =
  se_sender_index :: u32
  se_seq :: u32
  se_peer_slot :: int
  se_valid :: bool
  se_obfs_ready :: bool
  se_obfs_c2s :: obfs_session_t
  se_obfs_s2c :: obfs_session_t
  se_addr_len :: nat
  se_addr :: sockaddr

type_synonym session_table = "session_entry_t list"

abbreviation (input) "SESSION_TABLE_SIZE \<equiv> 4096"
abbreviation (input) SESSION_TABLE_MASK :: u32 where "SESSION_TABLE_MASK \<equiv> 4095"

definition probe_slot :: "u32 \<Rightarrow> nat \<Rightarrow> nat" where
  "probe_slot index i = unat (((index AND SESSION_TABLE_MASK) + of_nat i) AND SESSION_TABLE_MASK)"

definition probes :: "u32 \<Rightarrow> nat list" where
  "probes index = map (probe_slot index) [0..<4]"

definition matches :: "session_table \<Rightarrow> u32 \<Rightarrow> nat \<Rightarrow> bool" where
  "matches tbl index s \<longleftrightarrow> se_valid (tbl ! s) \<and> se_sender_index (tbl ! s) = index"

definition session_get_entry :: "session_table \<Rightarrow> u32 \<Rightarrow> nat option" where
  "session_get_entry tbl index = List.find (matches tbl index) (probes index)"

text \<open>The reader's loop: it spins while the sequence number is odd (\<open>None\<close>).\<close>

definition read_addr :: "session_entry_t \<Rightarrow> (sockaddr \<times> nat) option" where
  "read_addr e = (if odd (unat (se_seq e)) then None else Some (se_addr e, se_addr_len e))"

text \<open>\<open>Some None\<close> is the return value 0; a hit is the entry and the address read.\<close>

fun lookup_loop ::
  "session_table \<Rightarrow> u32 \<Rightarrow> nat list \<Rightarrow> (nat \<times> sockaddr \<times> nat) option option" where
  "lookup_loop tbl index [] = Some None"
| "lookup_loop tbl index (s # ss) =
     (if \<not> se_valid (tbl ! s) then lookup_loop tbl index ss
      else if se_sender_index (tbl ! s) \<noteq> index then lookup_loop tbl index ss
      else do {
        (addr, len) \<leftarrow> read_addr (tbl ! s);
        if \<not> se_valid (tbl ! s) \<or> se_sender_index (tbl ! s) \<noteq> index then lookup_loop tbl index ss
        else Some (Some (s, addr, len))
      })"

definition session_lookup ::
  "session_table \<Rightarrow> u32 \<Rightarrow> (nat \<times> sockaddr \<times> nat) option option" where
  "session_lookup tbl index = lookup_loop tbl index (probes index)"

definition session_get :: "session_table \<Rightarrow> u32 \<Rightarrow> (sockaddr \<times> nat) option option" where
  "session_get tbl index = map_option (map_option snd) (session_lookup tbl index)"

text \<open>The stores of \<open>session_put\<close> into the entry it has chosen.\<close>

definition write_entry :: "session_entry_t \<Rightarrow> u32 \<Rightarrow> sockaddr \<Rightarrow> nat \<Rightarrow> bool \<Rightarrow> session_entry_t" where
  "write_entry e index addr addr_len preserve_peer =
     (let e = e\<lparr>se_valid := False\<rparr>;
          e = e\<lparr>se_seq := se_seq e + 1\<rparr>;
          e = e\<lparr>se_sender_index := index\<rparr>;
          (a, l) = session_addr_copy (se_addr e) addr addr_len;
          e = e\<lparr>se_addr := a, se_addr_len := l\<rparr>;
          e = (if \<not> preserve_peer then e\<lparr>se_peer_slot := -1\<rparr> else e);
          e = e\<lparr>se_seq := se_seq e + 1\<rparr>
      in e\<lparr>se_valid := True\<rparr>)"

fun put_loop :: "session_table \<Rightarrow> u32 \<Rightarrow> sockaddr \<Rightarrow> nat \<Rightarrow> nat list \<Rightarrow> session_table option" where
  "put_loop tbl index addr addr_len [] = None"
| "put_loop tbl index addr addr_len (s # ss) =
     (let was_valid = se_valid (tbl ! s); cur_idx = se_sender_index (tbl ! s) in
      if \<not> was_valid \<or> cur_idx = index then
        Some (tbl[s := write_entry (tbl ! s) index addr addr_len (was_valid \<and> cur_idx = index)])
      else put_loop tbl index addr addr_len ss)"

definition session_put :: "session_table \<Rightarrow> u32 \<Rightarrow> sockaddr \<Rightarrow> nat \<Rightarrow> session_table" where
  "session_put tbl index addr addr_len =
     (case put_loop tbl index addr addr_len (probes index) of
        Some t \<Rightarrow> t
      | None \<Rightarrow> let slot = unat (index AND SESSION_TABLE_MASK) in
          tbl[slot := write_entry (tbl ! slot) index addr addr_len False])"

text \<open>Entry pointers are slots; \<open>None\<close> is \<open>NULL\<close>.\<close>

definition session_set_peer_slot :: "session_table \<Rightarrow> nat option \<Rightarrow> int \<Rightarrow> session_table" where
  "session_set_peer_slot tbl entry peer_slot = (case entry of None \<Rightarrow> tbl
     | Some s \<Rightarrow> tbl[s := (tbl ! s)\<lparr>se_peer_slot := peer_slot\<rparr>])"

definition session_set_peer_slot_if_index ::
  "session_table \<Rightarrow> nat option \<Rightarrow> u32 \<Rightarrow> int \<Rightarrow> session_table" where
  "session_set_peer_slot_if_index tbl entry expected_index peer_slot = (case entry of None \<Rightarrow> tbl
     | Some s \<Rightarrow> if \<not> se_valid (tbl ! s) then tbl
         else if se_sender_index (tbl ! s) \<noteq> expected_index then tbl
         else tbl[s := (tbl ! s)\<lparr>se_peer_slot := peer_slot\<rparr>])"

definition session_get_peer_slot :: "session_table \<Rightarrow> nat option \<Rightarrow> int" where
  "session_get_peer_slot tbl entry = (case entry of None \<Rightarrow> -1 | Some s \<Rightarrow> se_peer_slot (tbl ! s))"

text \<open>The scan for the only client: the outer \<open>None\<close> is a spinning read,
  \<open>Some None\<close> the return value 0.\<close>

fun sole_loop ::
  "session_table \<Rightarrow> (nat \<times> sockaddr \<times> nat) option \<Rightarrow> nat list
    \<Rightarrow> (nat \<times> sockaddr \<times> nat) option option" where
  "sole_loop tbl found [] = Some found"
| "sole_loop tbl found (i # is) =
     (if \<not> se_valid (tbl ! i) then sole_loop tbl found is
      else do {
        (addr, len) \<leftarrow> read_addr (tbl ! i);
        case found of
          None \<Rightarrow> sole_loop tbl (Some (i, addr, len)) is
        | Some (j, addr', len') \<Rightarrow>
            if \<not> session_addr_equal addr' addr then Some None else sole_loop tbl found is
      })"

definition session_find_sole_entry_with_addr ::
  "session_table \<Rightarrow> (nat \<times> sockaddr \<times> nat) option option" where
  "session_find_sole_entry_with_addr tbl = sole_loop tbl None [0..<SESSION_TABLE_SIZE]"

definition session_find_sole_entry :: "session_table \<Rightarrow> nat option option" where
  "session_find_sole_entry tbl = map_option (map_option fst) (session_find_sole_entry_with_addr tbl)"

definition session_find_sole_client :: "session_table \<Rightarrow> (sockaddr \<times> nat) option option" where
  "session_find_sole_client tbl = map_option (map_option snd) (session_find_sole_entry_with_addr tbl)"

fun by_addr_loop :: "session_table \<Rightarrow> sockaddr \<Rightarrow> nat list \<Rightarrow> nat option option" where
  "by_addr_loop tbl addr [] = Some None"
| "by_addr_loop tbl addr (i # is) =
     (if \<not> se_valid (tbl ! i) then by_addr_loop tbl addr is
      else do {
        (cur_addr, cur_len) \<leftarrow> read_addr (tbl ! i);
        if session_addr_equal cur_addr addr then Some (Some i) else by_addr_loop tbl addr is
      })"

definition session_find_by_addr :: "session_table \<Rightarrow> sockaddr \<Rightarrow> nat option option" where
  "session_find_by_addr tbl addr = by_addr_loop tbl addr [0..<SESSION_TABLE_SIZE]"

section \<open>The table's invariant\<close>

lemma probe_slot_eq: "probe_slot index i = (unat index + i) mod 4096"
proof -
  have m: "(4095 :: u32) = mask 12" by (simp add: mask_eq_exp_minus_1)
  have a: "unat (x AND 4095 :: u32) = unat x mod 4096" for x
    unfolding m by (simp add: take_bit_eq_mask [symmetric] take_bit_eq_mod unat_mod)
  show ?thesis
    by (simp add: probe_slot_def a unat_word_ariths unat_of_nat mod_add_left_eq mod_add_right_eq
        mod_mod_cancel)
qed

text \<open>No entry is being written, addresses are whole, and an index is stored at one of its
  probes, with the earlier ones taken by others.\<close>

definition entry_ok :: "session_entry_t \<Rightarrow> bool" where
  "entry_ok e \<longleftrightarrow> even (unat (se_seq e)) \<and> length (se_addr e) = 128"

definition chain_ok :: "session_table \<Rightarrow> bool" where
  "chain_ok tbl \<longleftrightarrow> (\<forall>index k. k < 4 \<longrightarrow> matches tbl index (probe_slot index k) \<longrightarrow>
     (\<forall>j < k. se_valid (tbl ! probe_slot index j)
        \<and> se_sender_index (tbl ! probe_slot index j) \<noteq> index))"

definition placed_ok :: "session_table \<Rightarrow> bool" where
  "placed_ok tbl \<longleftrightarrow> (\<forall>s < 4096. se_valid (tbl ! s) \<longrightarrow> s \<in> set (probes (se_sender_index (tbl ! s))))"

definition table_ok :: "session_table \<Rightarrow> bool" where
  "table_ok tbl \<longleftrightarrow> length tbl = SESSION_TABLE_SIZE \<and> list_all entry_ok tbl \<and> chain_ok tbl
     \<and> placed_ok tbl"

text \<open>The zeroed table the proxy starts with.\<close>

definition obfs_zero :: obfs_session_t where
  "obfs_zero = \<lparr>ob_profile = AWG_OBFS_OFF, ob_tx_seq = 0, ob_rx_seq = 0, ob_ssrc = 0, ob_ts = 0,
     ob_marker_seen = False, ob_marker_tx_left = 0, ob_marker_rx_window = 0\<rparr>"

definition entry_zero :: session_entry_t where
  "entry_zero = \<lparr>se_sender_index = 0, se_seq = 0, se_peer_slot = 0, se_valid = False,
     se_obfs_ready = False, se_obfs_c2s = obfs_zero, se_obfs_s2c = obfs_zero, se_addr_len = 0, se_addr = replicate 128 0\<rparr>"

lemma table_ok_empty: "table_ok (replicate 4096 entry_zero)"
  by (auto simp: table_ok_def entry_ok_def chain_ok_def matches_def entry_zero_def
      probe_slot_eq list_all_iff placed_ok_def)

lemma probe_slot_less [simp]: "probe_slot index i < 4096"
  by (simp add: probe_slot_eq)

section \<open>Lookup and put\<close>

text \<open>The table as a map from indices to addresses.\<close>

definition table_map :: "session_table \<Rightarrow> u32 \<Rightarrow> (sockaddr \<times> nat) option" where
  "table_map tbl index = (case session_get_entry tbl index of None \<Rightarrow> None
     | Some s \<Rightarrow> Some (se_addr (tbl ! s), se_addr_len (tbl ! s)))"

lemma entry_ok_at: "table_ok tbl \<Longrightarrow> s < 4096 \<Longrightarrow> entry_ok (tbl ! s)"
  by (simp add: table_ok_def list_all_length)

lemma find_Some_set: "List.find P xs = Some x \<Longrightarrow> x \<in> set xs \<and> P x"
  by (induction xs) (auto split: if_splits)

lemma find_cong_set: "(\<And>x. x \<in> set xs \<Longrightarrow> P x = Q x) \<Longrightarrow> List.find P xs = List.find Q xs"
  by (induction xs) auto

lemma lookup_loop_find:
  assumes "table_ok tbl" and "\<forall>s \<in> set ss. s < 4096"
  shows "lookup_loop tbl index ss = Some (map_option
    (\<lambda>s. (s, se_addr (tbl ! s), se_addr_len (tbl ! s))) (List.find (matches tbl index) ss))"
  using assms
proof (induction ss)
  case (Cons s ss)
  then have "entry_ok (tbl ! s)" using entry_ok_at by simp
  with Cons show ?case by (auto simp: matches_def read_addr_def entry_ok_def)
qed simp

text \<open>On a well-formed table \<open>session_lookup\<close> does not spin, and is the map.\<close>

lemma session_lookup_eq:
  assumes "table_ok tbl"
  shows "session_lookup tbl index = Some (map_option
    (\<lambda>s. (s, se_addr (tbl ! s), se_addr_len (tbl ! s))) (session_get_entry tbl index))"
    and "session_get tbl index = Some (table_map tbl index)"
proof -
  have "\<forall>s \<in> set (probes index). s < 4096" by (auto simp: probes_def)
  from lookup_loop_find [OF assms this] show
    1: "session_lookup tbl index = Some (map_option
      (\<lambda>s. (s, se_addr (tbl ! s), se_addr_len (tbl ! s))) (session_get_entry tbl index))"
    by (simp add: session_lookup_def session_get_entry_def)
  show "session_get tbl index = Some (table_map tbl index)"
    by (simp add: session_get_def 1 table_map_def option.map_comp comp_def split: option.split)
qed

text \<open>The slot \<open>session_put\<close> writes: the first probe that is free or holds the index,
  otherwise the first probe, whose entry is evicted.\<close>

definition put_slot :: "session_table \<Rightarrow> u32 \<Rightarrow> nat" where
  "put_slot tbl index =
     (case List.find (\<lambda>s. \<not> se_valid (tbl ! s) \<or> se_sender_index (tbl ! s) = index) (probes index)
      of Some s \<Rightarrow> s | None \<Rightarrow> probe_slot index 0)"

definition victim :: "session_table \<Rightarrow> u32 \<Rightarrow> u32 option" where
  "victim tbl index = (let e = tbl ! put_slot tbl index in
     if se_valid e \<and> se_sender_index e \<noteq> index then Some (se_sender_index e) else None)"

lemma put_slot_probe: "put_slot tbl index \<in> set (probes index)"
  by (auto simp: put_slot_def probes_def dest!: find_Some_set split: option.split)

lemma put_slot_less: "put_slot tbl index < 4096"
  using put_slot_probe [of tbl index] by (auto simp: probes_def)

lemma put_loop_find:
  "put_loop tbl index addr len ss = map_option (\<lambda>s. tbl[s := write_entry (tbl ! s) index addr len
      (se_valid (tbl ! s) \<and> se_sender_index (tbl ! s) = index)])
    (List.find (\<lambda>s. \<not> se_valid (tbl ! s) \<or> se_sender_index (tbl ! s) = index) ss)"
  by (induction ss) (auto simp: Let_def)

lemma session_put_eq:
  "session_put tbl index addr len = tbl[put_slot tbl index :=
     write_entry (tbl ! put_slot tbl index) index addr len
       (se_valid (tbl ! put_slot tbl index) \<and> se_sender_index (tbl ! put_slot tbl index) = index)]"
proof (cases "List.find (\<lambda>s. \<not> se_valid (tbl ! s) \<or> se_sender_index (tbl ! s) = index) (probes index)")
  case None
  then have "put_slot tbl index = probe_slot index 0" by (simp add: put_slot_def)
  moreover have "unat (index AND SESSION_TABLE_MASK) = probe_slot index 0"
    by (simp add: probe_slot_def)
  moreover have "se_valid (tbl ! probe_slot index 0) \<and> se_sender_index (tbl ! probe_slot index 0) \<noteq> index"
    using None by (auto simp: find_None_iff probes_def)
  ultimately show ?thesis
    using None by (simp add: session_put_def put_loop_find Let_def)
next
  case (Some s)
  then show ?thesis by (simp add: session_put_def put_loop_find put_slot_def)
qed

text \<open>The entry written.\<close>

lemma write_entry_fields [simp]:
  "se_valid (write_entry e index addr len pp)"
  "se_sender_index (write_entry e index addr len pp) = index"
  "se_addr_len (write_entry e index addr len pp) = min len 128"
  "se_addr (write_entry e index addr len pp) = take (min len 128) addr @ drop (min len 128) (se_addr e)"
  "se_seq (write_entry e index addr len pp) = se_seq e + 2"
  "se_obfs_ready (write_entry e index addr len pp) = se_obfs_ready e"
  "se_obfs_c2s (write_entry e index addr len pp) = se_obfs_c2s e"
  "se_obfs_s2c (write_entry e index addr len pp) = se_obfs_s2c e"
  "se_peer_slot (write_entry e index addr len pp) = (if pp then se_peer_slot e else -1)"
  by (auto simp: write_entry_def Let_def session_addr_copy_def min_def)

lemma entry_ok_write:
  assumes "entry_ok e" and "length addr = 128"
  shows "entry_ok (write_entry e index addr len pp)"
proof -
  have "even (unat (se_seq e + 2)) = even (unat (se_seq e))"
    by (simp add: unat_word_ariths dvd_mod_iff)
  with assms show ?thesis by (simp add: entry_ok_def)
qed

lemma find_unique:
  "x \<in> set xs \<Longrightarrow> P x \<Longrightarrow> (\<And>y. y \<in> set xs \<Longrightarrow> P y \<Longrightarrow> y = x) \<Longrightarrow> List.find P xs = Some x"
proof (induction xs)
  case (Cons y ys)
  show ?case
  proof (cases "P y")
    case True
    with Cons.prems(3) [of y] have "y = x" by simp
    with Cons.prems(2) show ?thesis by simp
  next
    case False
    with Cons.prems(1,2) have "x \<in> set ys" by auto
    with Cons.IH [OF _ Cons.prems(2)] Cons.prems(3) False show ?thesis by simp
  qed
qed simp

lemma find_prefix:
  "List.find P (map f [0..<n]) = Some x \<Longrightarrow> \<exists>k < n. x = f k \<and> P (f k) \<and> (\<forall>j < k. \<not> P (f j))"
proof -
  assume "List.find P (map f [0..<n]) = Some x"
  from this [unfolded find_Some_iff] obtain k where k: "k < length (map f [0..<n])"
      "P (map f [0..<n] ! k)" "x = map f [0..<n] ! k" "\<forall>j < k. \<not> P (map f [0..<n] ! j)"
    by (elim exE conjE)
  then show ?thesis by (intro exI [of _ k]) simp
qed

lemma probe_inj: "j < 4 \<Longrightarrow> k < 4 \<Longrightarrow> probe_slot index j = probe_slot index k \<Longrightarrow> j = k"
proof -
  assume jk: "j < 4" "k < 4" and e: "probe_slot index j = probe_slot index k"
  have "j = k" if "j \<le> k" "(a + j) mod 4096 = (a + k) mod 4096" "k < 4" for a j k :: nat
  proof -
    have "4096 dvd (a + k) - (a + j)"
      using that mod_eq_dvd_iff_nat [of "a + j" "a + k" 4096] by simp
    with that show ?thesis by (auto dest: dvd_imp_le)
  qed
  with jk e show "j = k" unfolding probe_slot_eq by (metis nle_le)
qed

text \<open>At most one probe of an index holds it.\<close>

lemma chain_unique:
  assumes "chain_ok tbl" and "j < 4" "k < 4"
    and "matches tbl index (probe_slot index j)" "matches tbl index (probe_slot index k)"
  shows "j = k"
proof -
  have "\<not> j < k" if "k < 4" "matches tbl index (probe_slot index j)"
      "matches tbl index (probe_slot index k)" for j k
  proof
    assume "j < k"
    with assms(1) that have "se_sender_index (tbl ! probe_slot index j) \<noteq> index"
      unfolding chain_ok_def by metis
    with that(2) show False by (simp add: matches_def)
  qed
  from this [of k j] this [of j k] assms(2-5) show ?thesis by linarith
qed

lemma put_slot_cases:
  assumes "chain_ok tbl"
  shows "\<exists>k0 < 4. put_slot tbl index = probe_slot index k0
    \<and> (\<forall>j < k0. se_valid (tbl ! probe_slot index j) \<and> se_sender_index (tbl ! probe_slot index j) \<noteq> index)
    \<and> (\<forall>j < 4. matches tbl index (probe_slot index j) \<longrightarrow> j = k0)"
proof (cases "List.find (\<lambda>s. \<not> se_valid (tbl ! s) \<or> se_sender_index (tbl ! s) = index) (probes index)")
  case None
  then have "\<forall>j < 4. \<not> matches tbl index (probe_slot index j)"
    by (auto simp: find_None_iff probes_def matches_def)
  with None show ?thesis by (intro exI [of _ 0]) (auto simp: put_slot_def)
next
  case (Some s)
  then obtain k0 where k0: "k0 < 4" "s = probe_slot index k0"
      "\<not> se_valid (tbl ! s) \<or> se_sender_index (tbl ! s) = index"
      "\<forall>j < k0. se_valid (tbl ! probe_slot index j) \<and> se_sender_index (tbl ! probe_slot index j) \<noteq> index"
    unfolding probes_def by (auto dest!: find_prefix)
  have "j = k0" if "j < 4" "matches tbl index (probe_slot index j)" for j
  proof (cases "se_valid (tbl ! s)")
    case True
    with k0 have "matches tbl index (probe_slot index k0)" by (auto simp: matches_def)
    with chain_unique [OF assms] that k0(1) show ?thesis by blast
  next
    case False
    have "\<not> k0 < j" using assms that False k0(2) unfolding chain_ok_def by blast
    moreover have "\<not> j < k0" using k0(4) that by (auto simp: matches_def)
    ultimately show ?thesis by simp
  qed
  with k0 Some show ?thesis by (intro exI [of _ k0]) (auto simp: put_slot_def)
qed

lemma put_at:
  assumes "length tbl = 4096" and "s < 4096"
  shows "session_put tbl index addr len ! s = (if s = put_slot tbl index
    then write_entry (tbl ! s) index addr len
      (se_valid (tbl ! s) \<and> se_sender_index (tbl ! s) = index) else tbl ! s)"
  using assms by (simp add: session_put_eq)

lemma matches_put:
  assumes "length tbl = 4096" and "s < 4096"
  shows "matches (session_put tbl index addr len) x s \<longleftrightarrow>
    (if s = put_slot tbl index then x = index else matches tbl x s)"
  using assms by (auto simp: matches_def put_at)

lemma chain_ok_put:
  assumes ch: "chain_ok tbl" and len: "length tbl = 4096"
  shows "chain_ok (session_put tbl index addr alen)"
  unfolding chain_ok_def
proof (intro allI impI)
  fix x k j
  let ?t = "session_put tbl index addr alen"
  assume k: "k < 4" and m: "matches ?t x (probe_slot x k)" and j: "j < (k :: nat)"
  obtain k0 where k0: "k0 < 4" "put_slot tbl index = probe_slot index k0"
      "\<And>j. j < k0 \<Longrightarrow> se_valid (tbl ! probe_slot index j)
        \<and> se_sender_index (tbl ! probe_slot index j) \<noteq> index"
      "\<And>j. j < 4 \<Longrightarrow> matches tbl index (probe_slot index j) \<Longrightarrow> j = k0"
    using put_slot_cases [OF ch, of index] by auto
  note mp = matches_put [OF len probe_slot_less [of x k], of index addr alen x]
  show "se_valid (?t ! probe_slot x j) \<and> se_sender_index (?t ! probe_slot x j) \<noteq> x"
  proof (cases "x = index")
    case True
    have "k = k0"
    proof (cases "probe_slot x k = put_slot tbl index")
      case slot: True
      then show ?thesis using True k k0(1,2) probe_inj [of k k0 index] by simp
    next
      case False
      with m mp k0(4) [of k] k True show ?thesis by simp
    qed
    moreover from this have "probe_slot index j \<noteq> put_slot tbl index"
      using k j k0(2) probe_inj [of j k0 index] by auto
    ultimately show ?thesis using k0(3) [of j] j True len by (simp add: put_at)
  next
    case False
    with m mp have "matches tbl x (probe_slot x k)" by (auto split: if_splits)
    with ch k j have "se_valid (tbl ! probe_slot x j) \<and> se_sender_index (tbl ! probe_slot x j) \<noteq> x"
      by (auto simp: chain_ok_def)
    with False len show ?thesis by (simp add: put_at)
  qed
qed

lemma placed_ok_put:
  assumes "placed_ok tbl" and "length tbl = 4096"
  shows "placed_ok (session_put tbl index addr len)"
  using assms put_slot_probe [of tbl index] by (auto simp: placed_ok_def put_at)

lemma table_ok_put:
  assumes ok: "table_ok tbl" and addr: "length addr = 128"
  shows "table_ok (session_put tbl index addr len)"
proof -
  have t: "length tbl = 4096" "chain_ok tbl" "placed_ok tbl"
    using ok by (simp_all add: table_ok_def)
  have e: "entry_ok (tbl ! s)" if "s < 4096" for s by (rule entry_ok_at [OF ok that])
  have "entry_ok (session_put tbl index addr len ! s)" if "s < 4096" for s
    unfolding put_at [OF t(1) that]
    using e [OF that] entry_ok_write [OF e [OF that] addr] by presburger
  moreover have "length (session_put tbl index addr len) = 4096"
    using t(1) by (simp add: session_put_eq)
  ultimately show ?thesis
    using t chain_ok_put placed_ok_put by (simp add: table_ok_def list_all_length)
qed

text \<open>A put stores its address, drops at most the evicted index and changes no other.\<close>

lemma table_map_put:
  assumes ok: "table_ok tbl" and addr: "length addr = 128" and len: "len \<le> 128"
  shows "table_map (session_put tbl index addr len) x =
    (if x = index then Some (take len addr @ drop len (se_addr (tbl ! put_slot tbl index)), len)
     else if victim tbl index = Some x then None else table_map tbl x)"
proof -
  have l: "length tbl = 4096" and ch: "chain_ok tbl" and pl: "placed_ok tbl"
    using ok by (simp_all add: table_ok_def)
  let ?t = "session_put tbl index addr len" and ?S = "put_slot tbl index"
  have m: "matches ?t x s \<longleftrightarrow> (if s = ?S then x = index else matches tbl x s)"
    if "s \<in> set (probes x')" for s x x'
    by (rule matches_put [OF l]) (use that in \<open>auto simp: probes_def\<close>)
  obtain k0 where k0: "k0 < 4" "?S = probe_slot index k0"
      "\<And>j. j < 4 \<Longrightarrow> matches tbl index (probe_slot index j) \<Longrightarrow> j = k0"
    using put_slot_cases [OF ch, of index] by auto
  show ?thesis
  proof (cases "x = index")
    case True
    have "session_get_entry ?t index = Some ?S"
      unfolding session_get_entry_def
    proof (rule find_unique [OF put_slot_probe])
      show "matches ?t index ?S" using m [OF put_slot_probe] by simp
      fix y assume y: "y \<in> set (probes index)" "matches ?t index y"
      then obtain j where "j < 4" "y = probe_slot index j" by (auto simp: probes_def)
      with m [OF y(1), of index] y(2) k0(2) k0(3) [of j] show "y = ?S"
        by (cases "y = ?S") simp_all
    qed
    then show ?thesis
      using True l put_slot_less [of tbl index] len
      by (simp add: table_map_def put_at min_def)
  next
    case False
    have v: "victim tbl index = Some x \<longleftrightarrow> matches tbl x ?S"
      using False by (auto simp: victim_def Let_def matches_def)
    show ?thesis
    proof (cases "matches tbl x ?S")
      case True
      then have "?S \<in> set (probes x)"
        using pl put_slot_less [of tbl index] by (auto simp: placed_ok_def matches_def)
      then obtain k where k: "k < 4" "?S = probe_slot x k" by (auto simp: probes_def)
      have "\<not> matches ?t x y" if y: "y \<in> set (probes x)" for y
      proof
        assume a: "matches ?t x y"
        from y obtain j where j: "j < 4" "y = probe_slot x j" by (auto simp: probes_def)
        from a m [OF y, of x] False have "y \<noteq> ?S" "matches tbl x y" by (auto split: if_splits)
        with j k True chain_unique [OF ch, of j k x] show False by auto
      qed
      then have "session_get_entry ?t x = None"
        by (auto simp: session_get_entry_def find_None_iff)
      then show ?thesis using False True v by (simp add: table_map_def)
    next
      case no: False
      have f: "session_get_entry ?t x = session_get_entry tbl x"
        unfolding session_get_entry_def
        by (rule find_cong_set) (use m no False in \<open>auto split: if_splits\<close>)
      have s: "s \<noteq> ?S" "s < 4096" if "session_get_entry tbl x = Some s" for s
        using find_Some_set [OF that [unfolded session_get_entry_def]] no by (auto simp: probes_def)
      have "table_map ?t x = table_map tbl x"
        using s l by (cases "session_get_entry tbl x") (simp_all add: table_map_def f put_at)
      then show ?thesis using False v no by simp
    qed
  qed
qed

section \<open>A store that may lose entries\<close>

text \<open>The contract the data path relies on: a put is visible at once, it loses at most one
  other key, and a key never yields a value other than the last one put for it.\<close>

locale lossy_map =
  fixes inv :: "'s \<Rightarrow> bool" and arg_ok :: "'a \<Rightarrow> bool"
    and get :: "'s \<Rightarrow> 'k \<Rightarrow> 'v option" and put :: "'s \<Rightarrow> 'k \<Rightarrow> 'a \<Rightarrow> 's"
    and lost :: "'s \<Rightarrow> 'k \<Rightarrow> 'k option" and val :: "'a \<Rightarrow> 'v"
  assumes inv_put: "inv s \<Longrightarrow> arg_ok a \<Longrightarrow> inv (put s k a)"
    and get_put: "inv s \<Longrightarrow> arg_ok a \<Longrightarrow> get (put s k a) x =
      (if x = k then Some (val a) else if lost s k = Some x then None else get s x)"
begin

fun puts :: "'s \<Rightarrow> ('k \<times> 'a) list \<Rightarrow> 's" where
  "puts s [] = s"
| "puts s ((k, a) # kas) = puts (put s k a) kas"

lemma inv_puts: "inv s \<Longrightarrow> \<forall>(k, a) \<in> set kas. arg_ok a \<Longrightarrow> inv (puts s kas)"
  by (induction s kas rule: puts.induct) (auto simp: inv_put)

lemma puts_append: "puts s (xs @ ys) = puts (puts s xs) ys"
  by (induction s xs rule: puts.induct) auto

lemma get_puts_last:
  assumes "inv s" and "\<forall>(k, a) \<in> set (kas @ [(k, a)]). arg_ok a"
  shows "get (puts s (kas @ [(k, a)])) k = Some (val a)"
  using assms inv_puts [of s kas] by (simp add: puts_append get_put)

lemma get_puts_fresh:
  assumes "inv s" and "\<forall>(k, a) \<in> set kas. arg_ok a" and "get (puts s kas) x = Some v"
  shows "(case map_of (rev kas) x of Some a \<Rightarrow> v = val a | None \<Rightarrow> get s x = Some v)"
  using assms
proof (induction kas rule: rev_induct)
  case (snoc ka kas)
  obtain k a where ka: "ka = (k, a)" by fastforce
  have "inv (puts s kas)" "arg_ok a" using snoc.prems ka by (auto intro!: inv_puts)
  with snoc.prems(3) have "x = k \<and> v = val a \<or> x \<noteq> k \<and> get (puts s kas) x = Some v"
    by (auto simp: ka puts_append get_put split: if_splits)
  then show ?case
    using snoc.IH [OF snoc.prems(1)] snoc.prems(2) by (auto simp: ka)
qed simp

end

definition stored_addr :: "session_table \<Rightarrow> u32 \<Rightarrow> bytes option" where
  "stored_addr tbl index = map_option (\<lambda>(a, l). take l a) (table_map tbl index)"

definition addr_arg_ok :: "sockaddr \<times> nat \<Rightarrow> bool" where
  "addr_arg_ok al \<longleftrightarrow> length (fst al) = 128 \<and> snd al \<le> 128"

definition put_addr :: "session_table \<Rightarrow> u32 \<Rightarrow> sockaddr \<times> nat \<Rightarrow> session_table" where
  "put_addr tbl index al = session_put tbl index (fst al) (snd al)"

interpretation sessions: lossy_map table_ok addr_arg_ok stored_addr put_addr victim
  "\<lambda>al. take (snd al) (fst al)"
proof
  fix tbl :: session_table and al :: "sockaddr \<times> nat" and index x :: u32
  assume ok: "table_ok tbl" and al: "addr_arg_ok al"
  then show "table_ok (put_addr tbl index al)"
    by (simp add: put_addr_def addr_arg_ok_def table_ok_put)
  show "stored_addr (put_addr tbl index al) x = (if x = index then Some (take (snd al) (fst al))
      else if victim tbl index = Some x then None else stored_addr tbl x)"
    using table_map_put [OF ok, of "fst al" "snd al" index x] al
    by (simp add: stored_addr_def put_addr_def addr_arg_ok_def)
qed

text \<open>An index is only lost when all four probes of the new one are taken by others.\<close>

lemma victim_None:
  assumes "s \<in> set (probes index)" and "\<not> se_valid (tbl ! s) \<or> se_sender_index (tbl ! s) = index"
  shows "victim tbl index = None"
proof -
  obtain t where t: "List.find (\<lambda>s. \<not> se_valid (tbl ! s) \<or> se_sender_index (tbl ! s) = index)
      (probes index) = Some t"
    using assms by (cases "List.find (\<lambda>s. \<not> se_valid (tbl ! s) \<or> se_sender_index (tbl ! s) = index)
      (probes index)") (auto simp: find_None_iff)
  from find_Some_set [OF t] t show ?thesis by (auto simp: victim_def put_slot_def Let_def)
qed

text \<open>Taking over an entry, evicted or not, keeps its obfuscation sessions: they are not
  part of what \<open>session_put\<close> writes.\<close>

lemma session_put_keeps_obfs:
  assumes "length tbl = 4096"
  shows "se_obfs_ready (session_put tbl index addr len ! put_slot tbl index)
      = se_obfs_ready (tbl ! put_slot tbl index)"
    "se_obfs_c2s (session_put tbl index addr len ! put_slot tbl index)
      = se_obfs_c2s (tbl ! put_slot tbl index)"
    "se_obfs_s2c (session_put tbl index addr len ! put_slot tbl index)
      = se_obfs_s2c (tbl ! put_slot tbl index)"
  using assms put_slot_less [of tbl index] by (simp_all add: put_at)

section \<open>The scans\<close>

definition entry_addr :: "session_table \<Rightarrow> nat \<Rightarrow> nat \<times> sockaddr \<times> nat" where
  "entry_addr tbl i = (i, se_addr (tbl ! i), se_addr_len (tbl ! i))"

lemma read_addr_ok: "entry_ok e \<Longrightarrow> read_addr e = Some (se_addr e, se_addr_len e)"
  by (simp add: read_addr_def entry_ok_def)

lemma sole_loop_found:
  assumes "\<forall>i \<in> set is. entry_ok (tbl ! i)"
  shows "sole_loop tbl (Some (j, a, l)) is = Some
    (if \<forall>i \<in> set is. se_valid (tbl ! i) \<longrightarrow> session_addr_equal a (se_addr (tbl ! i))
     then Some (j, a, l) else None)"
  using assms by (induction "is") (auto simp: read_addr_ok)

lemma sole_loop_spec:
  assumes "\<forall>i \<in> set is. entry_ok (tbl ! i)"
  shows "sole_loop tbl None is = Some (case filter (\<lambda>i. se_valid (tbl ! i)) is of [] \<Rightarrow> None
    | v # vs \<Rightarrow> if \<forall>i \<in> set vs. session_addr_equal (se_addr (tbl ! v)) (se_addr (tbl ! i))
       then Some (entry_addr tbl v) else None)"
  using assms by (induction "is") (auto simp: read_addr_ok sole_loop_found entry_addr_def)

definition valid_slots :: "session_table \<Rightarrow> nat list" where
  "valid_slots tbl = filter (\<lambda>i. se_valid (tbl ! i)) [0..<4096]"

lemma session_find_sole_spec:
  assumes "table_ok tbl"
  shows "session_find_sole_entry_with_addr tbl = Some (case valid_slots tbl of [] \<Rightarrow> None
    | v # vs \<Rightarrow> if \<forall>i \<in> set vs. session_addr_equal (se_addr (tbl ! v)) (se_addr (tbl ! i))
       then Some (entry_addr tbl v) else None)"
  unfolding session_find_sole_entry_with_addr_def valid_slots_def
  by (rule sole_loop_spec) (use entry_ok_at [OF assms] in simp)

lemma by_addr_loop_spec:
  assumes "\<forall>i \<in> set is. entry_ok (tbl ! i)"
  shows "by_addr_loop tbl addr is = Some (List.find
    (\<lambda>i. se_valid (tbl ! i) \<and> session_addr_equal (se_addr (tbl ! i)) addr) is)"
  using assms by (induction "is") (auto simp: read_addr_ok)

lemma session_find_by_addr_spec:
  assumes "table_ok tbl"
  shows "session_find_by_addr tbl addr = Some (List.find
    (\<lambda>i. se_valid (tbl ! i) \<and> session_addr_equal (se_addr (tbl ! i)) addr) [0..<4096])"
  unfolding session_find_by_addr_def
  by (rule by_addr_loop_spec) (use entry_ok_at [OF assms] in simp)

lemma session_addr_equal_refl:
  "ss_family a = 2 \<or> ss_family a = 10 \<Longrightarrow> session_addr_equal a a"
  by (auto simp: session_addr_equal_def)

lemma session_addr_equal_sym: "session_addr_equal a b = session_addr_equal b a"
  by (auto simp: session_addr_equal_def)

lemma session_addr_equal_trans:
  "session_addr_equal a b \<Longrightarrow> session_addr_equal b c \<Longrightarrow> session_addr_equal a c"
  by (auto simp: session_addr_equal_def split: if_splits)

end
