(* ===== verification/Seqlock.thy ===== *)
theory Seqlock
  imports Session_Table
begin

text \<open>
  The seqlock of \<open>src/session_table.c\<close>: one entry shared by a thread in
  \<open>session_put\<close> and a thread in \<open>session_lookup\<close>, as the interleaving of their memory
  accesses.  The address is copied byte by byte, so a reader can see it half written; the
  sequence number it compares is the counter modulo \<open>2 ^ 32\<close>.  Accesses interleave in one
  global order (the fences of the code are taken to order them so).
\<close>

section \<open>The two programs\<close>

datatype w_pc = WIdle | WSeq1 | WIndex | WCopy nat | WLen | WSeq2 | WValid

datatype r_pc = RValid | RIndex | RSeq1 | RLen | RCopy nat | RSeq2 | RRecheck | RHit | RMiss

text \<open>The entry, the writer with the arguments of its call, the reader with its locals, and
  three ghosts: the entry's contents at every even sequence number, the values put so far, and
  the sequence number the reader read second.\<close>

record seqlock =
  sl_valid :: bool
  sl_index :: u32
  sl_seq :: nat
  sl_addr :: sockaddr
  sl_len :: nat
  sl_wpc :: w_pc
  sl_job :: "u32 \<times> sockaddr \<times> nat"
  sl_rpc :: r_pc
  sl_rindex :: u32
  sl_seq1 :: nat
  sl_rlen :: nat
  sl_rbuf :: bytes
  sl_seq2 :: nat
  sl_committed :: "nat \<Rightarrow> bytes"
  sl_puts :: "bytes set"

definition seq_word :: "nat \<Rightarrow> u32" where
  "seq_word n = of_nat n"

text \<open>The writer: \<open>valid = 0\<close>, \<open>seq++\<close>, the index, the address bytes, the length,
  \<open>seq++\<close>, \<open>valid = 1\<close>.\<close>

inductive put_step :: "seqlock \<Rightarrow> seqlock \<Rightarrow> bool" where
  put_begin: "sl_wpc s = WIdle \<Longrightarrow> length addr = 128 \<Longrightarrow> len \<le> 128 \<Longrightarrow>
    put_step s (s\<lparr>sl_valid := False, sl_job := (index, addr, len), sl_wpc := WSeq1\<rparr>)"
| put_seq1: "sl_wpc s = WSeq1 \<Longrightarrow> put_step s (s\<lparr>sl_seq := sl_seq s + 1, sl_wpc := WIndex\<rparr>)"
| put_index: "sl_wpc s = WIndex \<Longrightarrow> sl_job s = (index, addr, len) \<Longrightarrow>
    put_step s (s\<lparr>sl_index := index, sl_wpc := WCopy 0\<rparr>)"
| put_copy: "sl_wpc s = WCopy n \<Longrightarrow> sl_job s = (index, addr, len) \<Longrightarrow> n < len \<Longrightarrow>
    put_step s (s\<lparr>sl_addr := (sl_addr s)[n := addr ! n], sl_wpc := WCopy (n + 1)\<rparr>)"
| put_copied: "sl_wpc s = WCopy n \<Longrightarrow> sl_job s = (index, addr, len) \<Longrightarrow> \<not> n < len \<Longrightarrow>
    put_step s (s\<lparr>sl_wpc := WLen\<rparr>)"
| put_len: "sl_wpc s = WLen \<Longrightarrow> sl_job s = (index, addr, len) \<Longrightarrow>
    put_step s (s\<lparr>sl_len := len, sl_wpc := WSeq2\<rparr>)"
| put_seq2: "sl_wpc s = WSeq2 \<Longrightarrow> sl_job s = (index, addr, len) \<Longrightarrow>
    put_step s (s\<lparr>sl_seq := sl_seq s + 1, sl_wpc := WValid,
      sl_committed := (sl_committed s)(sl_seq s + 1 := take (sl_len s) (sl_addr s)),
      sl_puts := insert (take len addr) (sl_puts s)\<rparr>)"
| put_valid: "sl_wpc s = WValid \<Longrightarrow> put_step s (s\<lparr>sl_valid := True, sl_wpc := WIdle\<rparr>)"

text \<open>The reader: the tests, the loop around the copy, the second tests.\<close>

inductive lookup_step :: "seqlock \<Rightarrow> seqlock \<Rightarrow> bool" where
  look_valid: "sl_rpc s = RValid \<Longrightarrow>
    lookup_step s (s\<lparr>sl_rpc := (if sl_valid s then RIndex else RMiss)\<rparr>)"
| look_index: "sl_rpc s = RIndex \<Longrightarrow>
    lookup_step s (s\<lparr>sl_rpc := (if sl_index s = sl_rindex s then RSeq1 else RMiss)\<rparr>)"
| look_spin: "sl_rpc s = RSeq1 \<Longrightarrow> odd (unat (seq_word (sl_seq s))) \<Longrightarrow> lookup_step s s"
| look_seq1: "sl_rpc s = RSeq1 \<Longrightarrow> even (unat (seq_word (sl_seq s))) \<Longrightarrow>
    lookup_step s (s\<lparr>sl_seq1 := sl_seq s, sl_rpc := RLen\<rparr>)"
| look_len: "sl_rpc s = RLen \<Longrightarrow>
    lookup_step s (s\<lparr>sl_rlen := sl_len s, sl_rbuf := [], sl_rpc := RCopy 0\<rparr>)"
| look_copy: "sl_rpc s = RCopy n \<Longrightarrow> n < sl_rlen s \<Longrightarrow>
    lookup_step s (s\<lparr>sl_rbuf := sl_rbuf s @ [sl_addr s ! n], sl_rpc := RCopy (n + 1)\<rparr>)"
| look_copied: "sl_rpc s = RCopy n \<Longrightarrow> \<not> n < sl_rlen s \<Longrightarrow> lookup_step s (s\<lparr>sl_rpc := RSeq2\<rparr>)"
| look_accept: "sl_rpc s = RSeq2 \<Longrightarrow> seq_word (sl_seq1 s) = seq_word (sl_seq s) \<Longrightarrow>
    even (unat (seq_word (sl_seq s))) \<Longrightarrow>
    lookup_step s (s\<lparr>sl_seq2 := sl_seq s, sl_rpc := RRecheck\<rparr>)"
| look_retry: "sl_rpc s = RSeq2 \<Longrightarrow>
    seq_word (sl_seq1 s) \<noteq> seq_word (sl_seq s) \<or> odd (unat (seq_word (sl_seq s))) \<Longrightarrow>
    lookup_step s (s\<lparr>sl_rpc := RSeq1\<rparr>)"
| look_recheck: "sl_rpc s = RRecheck \<Longrightarrow>
    lookup_step s (s\<lparr>sl_rpc := (if sl_valid s \<and> sl_index s = sl_rindex s then RHit else RMiss)\<rparr>)"

definition seqlock_init :: "session_entry_t \<Rightarrow> u32 \<Rightarrow> seqlock" where
  "seqlock_init e index = \<lparr>sl_valid = se_valid e, sl_index = se_sender_index e, sl_seq = 0,
     sl_addr = se_addr e, sl_len = se_addr_len e, sl_wpc = WIdle, sl_job = (0, se_addr e, 0),
     sl_rpc = RValid, sl_rindex = index, sl_seq1 = 0, sl_rlen = 0, sl_rbuf = [], sl_seq2 = 0,
     sl_committed = (\<lambda>_. take (se_addr_len e) (se_addr e)),
     sl_puts = {take (se_addr_len e) (se_addr e)}\<rparr>"

inductive seqlock_reach :: "session_entry_t \<Rightarrow> u32 \<Rightarrow> seqlock \<Rightarrow> bool" for e index where
  reach_init: "seqlock_reach e index (seqlock_init e index)"
| reach_put: "seqlock_reach e index s \<Longrightarrow> put_step s s' \<Longrightarrow> seqlock_reach e index s'"
| reach_look: "seqlock_reach e index s \<Longrightarrow> lookup_step s s' \<Longrightarrow> seqlock_reach e index s'"

inductive_cases put_stepE: "put_step s s'"
inductive_cases lookup_stepE: "lookup_step s s'"

section \<open>Invariants\<close>

text \<open>The writer: the sequence number is odd exactly inside the critical section; what it has
  copied is a prefix of its argument; outside, the entry is what was last committed.\<close>

fun wpc_ok :: "w_pc \<Rightarrow> u32 \<times> sockaddr \<times> nat \<Rightarrow> sockaddr \<Rightarrow> nat \<Rightarrow> bool" where
  "wpc_ok (WCopy n) (index, addr, len) a l \<longleftrightarrow> n \<le> len \<and> take n a = take n addr"
| "wpc_ok WLen (index, addr, len) a l \<longleftrightarrow> take len a = take len addr"
| "wpc_ok WSeq2 (index, addr, len) a l \<longleftrightarrow> l = len \<and> take len a = take len addr"
| "wpc_ok _ job a l \<longleftrightarrow> True"

fun job_ok :: "u32 \<times> sockaddr \<times> nat \<Rightarrow> bool" where
  "job_ok (index, addr, len) \<longleftrightarrow> length addr = 128 \<and> len \<le> 128"

definition writer_inv :: "seqlock \<Rightarrow> bool" where
  "writer_inv s \<longleftrightarrow> length (sl_addr s) = 128 \<and> sl_len s \<le> 128
     \<and> job_ok (sl_job s) \<and> wpc_ok (sl_wpc s) (sl_job s) (sl_addr s) (sl_len s)
     \<and> (even (sl_seq s) \<longleftrightarrow> sl_wpc s \<in> {WIdle, WSeq1, WValid})
     \<and> (even (sl_seq s) \<longrightarrow> sl_committed s (sl_seq s) = take (sl_len s) (sl_addr s))
     \<and> (\<forall>n \<le> sl_seq s. even n \<longrightarrow> sl_committed s n \<in> sl_puts s)"

text \<open>The reader: while the sequence number has not moved, what it has copied is what was
  committed under it.\<close>

definition reader_inv :: "seqlock \<Rightarrow> bool" where
  "reader_inv s \<longleftrightarrow> (case sl_rpc s of
     RLen \<Rightarrow> even (sl_seq1 s) \<and> sl_seq1 s \<le> sl_seq s
   | RCopy n \<Rightarrow> even (sl_seq1 s) \<and> sl_seq1 s \<le> sl_seq s \<and> n \<le> sl_rlen s \<and> (sl_seq s = sl_seq1 s \<longrightarrow>
       sl_rlen s = sl_len s \<and> sl_rbuf s = take n (sl_addr s))
   | RSeq2 \<Rightarrow> even (sl_seq1 s) \<and> sl_seq1 s \<le> sl_seq s \<and> (sl_seq s = sl_seq1 s \<longrightarrow>
       sl_rbuf s = take (sl_len s) (sl_addr s))
   | RRecheck \<Rightarrow> sl_seq1 s \<le> sl_seq2 s \<and> sl_seq2 s \<le> sl_seq s \<and> even (sl_seq1 s)
       \<and> seq_word (sl_seq1 s) = seq_word (sl_seq2 s)
       \<and> (sl_seq2 s = sl_seq1 s \<longrightarrow> sl_rbuf s = sl_committed s (sl_seq1 s))
   | RHit \<Rightarrow> sl_seq1 s \<le> sl_seq2 s \<and> sl_seq2 s \<le> sl_seq s \<and> even (sl_seq1 s)
       \<and> seq_word (sl_seq1 s) = seq_word (sl_seq2 s)
       \<and> (sl_seq2 s = sl_seq1 s \<longrightarrow> sl_rbuf s = sl_committed s (sl_seq1 s))
   | _ \<Rightarrow> True)"

lemma even_seq_word [simp]: "even (unat (seq_word n)) = even n"
  by (simp add: seq_word_def unat_of_nat dvd_mod_iff)

lemma writer_inv_put: "put_step s s' \<Longrightarrow> writer_inv s \<Longrightarrow> writer_inv s'"
  by (elim put_stepE)
    (auto simp: writer_inv_def take_Suc_conv_app_nth take_update_cancel le_Suc_eq)

lemma writer_inv_look: "lookup_step s s' \<Longrightarrow> writer_inv s \<Longrightarrow> writer_inv s'"
  by (elim lookup_stepE) (simp_all add: writer_inv_def)

lemma reader_inv_put: "put_step s s' \<Longrightarrow> writer_inv s \<Longrightarrow> reader_inv s \<Longrightarrow> reader_inv s'"
  by (elim put_stepE) (auto simp: reader_inv_def writer_inv_def split: r_pc.splits)

lemma reader_inv_look: "lookup_step s s' \<Longrightarrow> writer_inv s \<Longrightarrow> reader_inv s \<Longrightarrow> reader_inv s'"
  by (elim lookup_stepE)
    (auto simp: reader_inv_def writer_inv_def take_Suc_conv_app_nth split: if_splits)

lemma seqlock_invs:
  assumes "entry_ok e" and "se_addr_len e \<le> 128" and "seqlock_reach e index s"
  shows "writer_inv s \<and> reader_inv s"
  using assms(3)
proof induction
  case reach_init
  show ?case
    using assms(1,2) by (simp add: writer_inv_def reader_inv_def seqlock_init_def entry_ok_def)
qed (use writer_inv_put writer_inv_look reader_inv_put reader_inv_look in blast)+

text \<open>A hit returns a value put as a whole, unless the sequence number went round
  completely during the read.\<close>

lemma seqlock_hit:
  assumes "entry_ok e" and "se_addr_len e \<le> 128" and "seqlock_reach e index s"
    and hit: "sl_rpc s = RHit" and "sl_seq2 s - sl_seq1 s < 2 ^ 32"
  shows "sl_rbuf s \<in> sl_puts s"
proof -
  have w: "writer_inv s" and r: "reader_inv s" using seqlock_invs [OF assms(1-3)] by auto
  then have "sl_seq1 s \<le> sl_seq2 s" "seq_word (sl_seq1 s) = seq_word (sl_seq2 s)"
    using hit by (simp_all add: reader_inv_def)
  then have "sl_seq1 s mod 2 ^ 32 = sl_seq2 s mod 2 ^ 32"
    by (simp add: seq_word_def word_of_nat_eq_iff take_bit_eq_mod)
  then have "(2 :: nat) ^ 32 dvd sl_seq2 s - sl_seq1 s"
    using mod_eq_dvd_iff_nat [OF \<open>sl_seq1 s \<le> sl_seq2 s\<close>, of "2 ^ 32"] by simp
  with assms(5) have "sl_seq2 s = sl_seq1 s"
    using \<open>sl_seq1 s \<le> sl_seq2 s\<close> by (auto dest: dvd_imp_le)
  with r w hit show ?thesis by (auto simp: reader_inv_def writer_inv_def)
qed

end
