(* ===== verification/Proxy_State.thy ===== *)
theory Proxy_State
  imports Session_Table Packet_Transform Cps
begin

text \<open>
  The shared state \<open>proxy_t\<close> (\<open>src/proxy.h\<close>), the ring of transport headers and the
  buffer sizes of \<open>src/proxy.c\<close>, and the calls with an effect outside the process, which
  the operations return as a list of actions in the order the code makes them.
\<close>

section \<open>State\<close>

text \<open>The batch I/O arrays are not part of the record: the functions that use them take them
  as arguments.  Flags are booleans, descriptors \<open>int\<close>s, -1 for none.\<close>

record proxy_t =
  px_cfg :: awg_config_t
  px_listen_fd :: int
  px_remote_fd :: int
  px_stopped :: bool
  px_has_client :: bool
  px_last_active :: bool
  px_last_remote_rx :: bool
  px_reconnect_needed :: bool
  px_reconnect_drift :: bool
  px_fe_init_seen :: bool
  px_fe_init_sent :: bool
  px_fe_remote_pkt :: bool
  px_fe_resp_received :: bool
  px_fe_resp_sent :: bool
  px_fe_transport_c2s :: bool
  px_fe_transport_s2c :: bool
  px_client_addr :: sockaddr
  px_client_addr_len :: nat
  px_gso_ok :: bool
  px_gro_enabled :: bool
  px_gro_enabled_c2s :: bool
  px_h4_idx :: u16
  px_rng :: fastrand_t
  px_listen_addr :: sockaddr
  px_listen_addr_len :: nat
  px_remote_addr :: sockaddr
  px_remote_addr_len :: nat
  px_remote_host :: string
  px_remote_port :: nat
  px_auto_src_port :: bool
  px_local_port :: int
  px_dns_resolve_fail_started_at :: int
  px_cps_counter :: u32
  px_junk_buf :: "bytes option"
  px_junk_sizes :: "int list option"
  px_signal_fd :: int
  px_timer_fd :: int
  px_h4_ring :: "u32 list"
  px_sessions :: session_table
  px_obfs_c2s :: obfs_session_t
  px_obfs_s2c :: obfs_session_t
  px_obfs_fail_c2s :: u32
  px_obfs_fail_s2c :: u32

text \<open>Calls with an outside effect: a log line (level, prefix, text), \<open>close\<close>,
  \<open>shutdown\<close>, \<open>nanosleep\<close> in seconds, \<open>_exit\<close>, a socket opened, bound, connected or
  configured, and a packet handed to the kernel (to the connected peer, or to an address).\<close>

datatype action = Log log_level string string | Close int | Shutdown int | Sleep int | Exit int
  | Open int | Bind int sockaddr nat | Connect int sockaddr nat | SetOpt int string int
  | Send int "(sockaddr \<times> nat) option" bytes

text \<open>The macros \<open>log_info\<close>, \<open>log_error\<close> and \<open>log_debug\<close> and their longer forms.\<close>

definition log_info :: "string \<Rightarrow> action" where
  "log_info s = Log LOG_INFO ''INFO: '' s"

definition log_error :: "string \<Rightarrow> action" where
  "log_error s = Log LOG_ERROR ''ERROR: '' s"

definition log_debug :: "string \<Rightarrow> action" where
  "log_debug s = Log LOG_DEBUG ''DEBUG: '' s"

text \<open>A direct call of \<open>log_msgn(\"ERROR: \", ...)\<close>: no level is tested.\<close>

definition log_always :: "string \<Rightarrow> action" where
  "log_always s = Log LOG_NONE ''ERROR: '' s"

lemmas log_defs = log_info_def log_error_def log_debug_def log_always_def

section \<open>The transport header ring\<close>

abbreviation (input) "H4_RING_SIZE \<equiv> 4096"
abbreviation (input) "BATCH_SIZE \<equiv> 32"

fun ring_values :: "hrange_t \<Rightarrow> fastrand_t \<Rightarrow> nat \<Rightarrow> u32 list \<times> fastrand_t" where
  "ring_values h r 0 = ([], r)"
| "ring_values h r (Suc n) =
     (let (v, r) = fastrand_u64 r; (vs, r) = ring_values h r n in (hrange_pick h v # vs, r))"

definition fill_h4_ring :: "proxy_t \<Rightarrow> proxy_t" where
  "fill_h4_ring p =
    (let h4 = cf_h4 (px_cfg p) in
     if hr_min h4 = hr_max h4 then p\<lparr>px_h4_ring := replicate H4_RING_SIZE (hr_min h4)\<rparr>
     else let (vs, r) = ring_values h4 (px_rng p) H4_RING_SIZE
          in p\<lparr>px_h4_ring := vs, px_rng := r\<rparr>)"

definition pick_h4 :: "proxy_t \<Rightarrow> u32 \<times> proxy_t" where
  "pick_h4 p =
    (let v = px_h4_ring p ! unat (px_h4_idx p);
         p = p\<lparr>px_h4_idx := (px_h4_idx p + 1) AND 4095\<rparr>;
         p = (if px_h4_idx p = 0 then fill_h4_ring p else p)
     in (v, p))"

text \<open>The ring always holds 4096 header values of the configured range, and the index stays
  inside it.\<close>

definition ring_ok :: "proxy_t \<Rightarrow> bool" where
  "ring_ok p \<longleftrightarrow> length (px_h4_ring p) = H4_RING_SIZE \<and> unat (px_h4_idx p) < H4_RING_SIZE
     \<and> (\<forall>v \<in> set (px_h4_ring p). hrange_contains (cf_h4 (px_cfg p)) v)"

lemma ring_values_ok:
  "hr_min h \<le> hr_max h \<Longrightarrow> length (fst (ring_values h r n)) = n
    \<and> (\<forall>v \<in> set (fst (ring_values h r n)). hrange_contains h v)"
proof (induction n arbitrary: r)
  case (Suc n)
  obtain v r' where "fastrand_u64 r = (v, r')" by fastforce
  with Suc.IH [of r'] Suc.prems hrange_pick_contains [of h v] show ?case
    by (simp add: case_prod_beta Let_def)
qed simp

lemma ring_ok_fill:
  assumes "hr_min (cf_h4 (px_cfg p)) \<le> hr_max (cf_h4 (px_cfg p))" and "unat (px_h4_idx p) < 4096"
  shows "ring_ok (fill_h4_ring p)"
proof (cases "hr_min (cf_h4 (px_cfg p)) = hr_max (cf_h4 (px_cfg p))")
  case True
  then show ?thesis
    using assms by (simp add: fill_h4_ring_def ring_ok_def Let_def hrange_contains_def)
next
  case False
  obtain vs r where vs: "ring_values (cf_h4 (px_cfg p)) (px_rng p) 4096 = (vs, r)" by fastforce
  with ring_values_ok [OF assms(1), of "px_rng p" 4096] have
    "length vs = 4096" "\<forall>v \<in> set vs. hrange_contains (cf_h4 (px_cfg p)) v" by simp_all
  with False vs assms(2) show ?thesis by (simp add: fill_h4_ring_def ring_ok_def Let_def)
qed

lemma u16_and_4095: "unat ((x :: u16) AND 4095) < 4096"
proof -
  have "x AND 4095 \<le> (4095 :: u16)" by (rule word_and_le1)
  then show ?thesis unfolding word_le_nat_alt by simp
qed

lemma pick_h4_ok:
  assumes "ring_ok p" and "hr_min (cf_h4 (px_cfg p)) \<le> hr_max (cf_h4 (px_cfg p))"
  shows "hrange_contains (cf_h4 (px_cfg p)) (fst (pick_h4 p)) \<and> ring_ok (snd (pick_h4 p))"
proof -
  let ?p = "p\<lparr>px_h4_idx := (px_h4_idx p + 1) AND 4095\<rparr>"
  have "ring_ok ?p" using assms(1) u16_and_4095 [of "px_h4_idx p + 1"] by (simp add: ring_ok_def)
  moreover have "ring_ok (fill_h4_ring ?p)"
    using assms(2) u16_and_4095 [of "px_h4_idx p + 1"] by (intro ring_ok_fill) simp_all
  moreover have "hrange_contains (cf_h4 (px_cfg p)) (px_h4_ring p ! unat (px_h4_idx p))"
    using assms(1) by (simp add: ring_ok_def)
  ultimately show ?thesis
    unfolding pick_h4_def Let_def fst_conv snd_conv by (simp only: if_split) blast
qed

section \<open>Junk buffer sizes\<close>

text \<open>\<open>checked_mul_size\<close> on 64-bit \<open>size_t\<close>; \<open>sizeof(int)\<close> is 4.\<close>

definition checked_mul_size :: "u64 \<Rightarrow> u64 \<Rightarrow> u64 option" where
  "checked_mul_size a b = (if a \<noteq> 0 \<and> b > - 1 div a then None else Some (a * b))"

definition junk_layout_sizes :: "awg_config_t \<Rightarrow> (u64 \<times> u64) option" where
  "junk_layout_sizes cfg = do {
     junk_bytes \<leftarrow> checked_mul_size (of_int (cf_jc cfg)) (of_int (cf_jmax cfg));
     sizes_bytes \<leftarrow> checked_mul_size (of_int (cf_jc cfg)) 4;
     Some (junk_bytes, sizes_bytes)
   }"

lemma checked_mul_size_exact:
  "checked_mul_size a b = Some c \<longleftrightarrow> unat a * unat b < 2 ^ 64 \<and> c = a * b"
proof -
  have m: "unat (- 1 :: u64) = 2 ^ 64 - 1" by (simp add: unsigned_minus_1_eq_mask mask_eq_exp_minus_1)
  have "b > - 1 div a \<longleftrightarrow> unat a * unat b \<ge> 2 ^ 64" if "a \<noteq> 0"
  proof -
    have "unat a > 0" using that by (simp add: unat_gt_0)
    have "b > - 1 div a \<longleftrightarrow> (2 ^ 64 - 1) div unat a < unat b"
      by (simp only: word_less_nat_alt unat_div m)
    also have "\<dots> \<longleftrightarrow> 2 ^ 64 - 1 < unat a * unat b"
      using \<open>unat a > 0\<close> by (simp only: div_less_iff_less_mult mult.commute)
    also have "\<dots> \<longleftrightarrow> 2 ^ 64 \<le> unat a * unat b" by simp linarith
    finally show ?thesis .
  qed
  then show ?thesis by (cases "a = 0") (auto simp: checked_mul_size_def)
qed

end
