(* ===== verification/Proxy_Control.thy ===== *)
theory Proxy_Control
  imports Proxy_State
begin

text \<open>
  \<open>src/proxy_control.c\<close>: the control loop that wakes every five seconds, watches whether
  the remote side answers and asks for reconnects or ends the process;
  \<open>compute_remote_silent_timeout\<close> (\<open>src/config_runtime.c\<close>) that chooses its
  threshold, and the thresholds \<open>proxy_run\<close> passes.  The counters are \<open>int\<close>s that
  grow by one per tick.
\<close>

section \<open>Thresholds\<close>

record thresholds =
  th_checks :: int
  th_silent_checks :: int
  th_exit_checks :: int
  th_warn_checks :: int
  th_exit_secs :: int

text \<open>C division by 5 or 2 of a non-negative \<open>int\<close> is \<open>div\<close>; for negative ones the
  result is at most 0 either way, below the floor of 1.\<close>

definition control_thresholds :: "int \<Rightarrow> int \<Rightarrow> int \<Rightarrow> thresholds" where
  "control_thresholds timeout_secs silent_secs silent_exit_secs =
    (let checks = timeout_secs div 5; checks = (if checks < 1 then 1 else checks);
         silent = silent_secs div 5; silent = (if silent < 1 then 1 else silent);
         exit = silent_exit_secs div 5;
         exit = (if silent_exit_secs > 0 \<and> exit < 1 then 1 else exit);
         warn = silent div 2; warn = (if warn < 1 then 1 else warn)
     in \<lparr>th_checks = checks, th_silent_checks = silent, th_exit_checks = exit,
         th_warn_checks = warn, th_exit_secs = silent_exit_secs\<rparr>)"

abbreviation (input) "CLIENT_ACTIVE_GRACE_CHECKS \<equiv> 12"

section \<open>One tick\<close>

record control =
  ct_inactive_count :: int
  ct_remote_silent_count :: int
  ct_remote_silent_total :: int
  ct_silence_warned :: bool
  ct_client_idle_ticks :: int

definition control_init :: control where
  "control_init = \<lparr>ct_inactive_count = 0, ct_remote_silent_count = 0, ct_remote_silent_total = 0,
     ct_silence_warned = False, ct_client_idle_ticks = 0\<rparr>"

definition trigger_recovery_reconnect :: "proxy_t \<Rightarrow> proxy_t \<times> action list" where
  "trigger_recovery_reconnect p =
    (let rfd = px_remote_fd p in
     if rfd < 0 then (p, [])
     else
       let p = (if cf_src_port_drift (px_cfg p) \<noteq> 0 \<and> px_auto_src_port p
                then p\<lparr>px_reconnect_drift := True\<rparr> else p)
       in (p\<lparr>px_reconnect_needed := True\<rparr>, [Shutdown rfd]))"

text \<open>The body of the timer event.  After \<open>Exit\<close> the process is gone: the state returned
  with it is the last one.\<close>

definition timer_tick ::
  "thresholds \<Rightarrow> proxy_t \<Rightarrow> control \<Rightarrow> proxy_t \<times> control \<times> action list" where
  "timer_tick th p c =
    (let had_activity = px_last_active p; p = p\<lparr>px_last_active := False\<rparr>;
         had_remote_rx = px_last_remote_rx p; p = p\<lparr>px_last_remote_rx := False\<rparr> in
     if had_remote_rx then
       (p\<lparr>px_reconnect_drift := False\<rparr>,
        c\<lparr>ct_inactive_count := 0, ct_remote_silent_count := 0, ct_remote_silent_total := 0,
          ct_silence_warned := False, ct_client_idle_ticks := 0\<rparr>, [])
     else
       let c = (if had_activity then c\<lparr>ct_client_idle_ticks := 0\<rparr>
                else c\<lparr>ct_client_idle_ticks := ct_client_idle_ticks c + 1\<rparr>) in
       if ct_client_idle_ticks c \<le> CLIENT_ACTIVE_GRACE_CHECKS then
         let c = c\<lparr>ct_inactive_count := 0,
                   ct_remote_silent_count := ct_remote_silent_count c + 1,
                   ct_remote_silent_total := ct_remote_silent_total c + 1\<rparr>;
             (c, warn) = (if \<not> ct_silence_warned c \<and> ct_remote_silent_total c \<ge> th_warn_checks th
               then (c\<lparr>ct_silence_warned := True\<rparr>,
                     [Log LOG_INFO ''WARN: '' ''remote silent while client active, will reconnect''])
               else (c, []))
         in if th_exit_secs th > 0 \<and> ct_remote_silent_total c \<ge> th_exit_checks th then
              (p, c, warn @ [Log LOG_ERROR ''ERROR: '' (''remote silent for ''
                 @ u32_to_str (of_int (ct_remote_silent_total c) * 5)
                 @ ''s while client active, exiting''), Exit 1])
            else if ct_remote_silent_count c \<ge> th_silent_checks th then
              let (p, acts) = trigger_recovery_reconnect p in
              (p, c\<lparr>ct_remote_silent_count := 0\<rparr>,
               warn @ [Log LOG_INFO ''INFO: '' ''remote silent, triggering reconnect''] @ acts)
            else (p, c, warn)
       else
         let c = c\<lparr>ct_remote_silent_count := 0, ct_remote_silent_total := 0,
                   ct_silence_warned := False,
                   ct_inactive_count := ct_inactive_count c + 1\<rparr> in
         if ct_inactive_count c \<ge> th_checks th then
           let (p, acts) = trigger_recovery_reconnect p in
           (p, c\<lparr>ct_inactive_count := 0\<rparr>,
            [Log LOG_INFO ''INFO: '' ''remote timeout, triggering reconnect''] @ acts)
         else (p, c, []))"

section \<open>The loop\<close>

datatype control_event = EvSignal | EvTimer

text \<open>The events of one \<open>epoll_wait\<close>: a signal stops the loop over them, and so does the
  end of the process.\<close>

fun control_events ::
  "thresholds \<Rightarrow> proxy_t \<Rightarrow> control \<Rightarrow> control_event list \<Rightarrow> proxy_t \<times> control \<times> action list" where
  "control_events th p c [] = (p, c, [])"
| "control_events th p c (EvSignal # evs) =
     (p\<lparr>px_stopped := True\<rparr>, c, [Log LOG_INFO ''INFO: '' ''shutting down''])"
| "control_events th p c (EvTimer # evs) =
     (let (p, c, acts) = timer_tick th p c in
      if Exit 1 \<in> set acts then (p, c, acts)
      else let (p, c, acts') = control_events th p c evs in (p, c, acts @ acts'))"

text \<open>What \<open>epoll_wait\<close> returns, and what the data threads set meanwhile.\<close>

datatype poll_result = PollEvents "control_event list" | PollEintr | PollError

record env_step =
  es_active :: bool
  es_remote_rx :: bool
  es_poll :: poll_result

definition env_apply :: "env_step \<Rightarrow> proxy_t \<Rightarrow> proxy_t" where
  "env_apply e p = p\<lparr>px_last_active := px_last_active p \<or> es_active e,
                     px_last_remote_rx := px_last_remote_rx p \<or> es_remote_rx e\<rparr>"

fun control_loop ::
  "thresholds \<Rightarrow> proxy_t \<Rightarrow> control \<Rightarrow> env_step list \<Rightarrow> proxy_t \<times> control \<times> action list" where
  "control_loop th p c [] = (p, c, [])"
| "control_loop th p c (e # es) =
     (if px_stopped p then (p, c, [])
      else let p = env_apply e p in
        case es_poll e of
          PollEintr \<Rightarrow> control_loop th p c es
        | PollError \<Rightarrow> (p, c, [])
        | PollEvents evs \<Rightarrow>
            (let (p, c, acts) = control_events th p c evs in
             if Exit 1 \<in> set acts then (p, c, acts)
             else let (p, c, acts') = control_loop th p c es in (p, c, acts @ acts')))"

definition proxy_control_loop ::
  "proxy_t \<Rightarrow> int \<Rightarrow> int \<Rightarrow> int \<Rightarrow> env_step list \<Rightarrow> proxy_t \<times> control \<times> action list" where
  "proxy_control_loop p timeout_secs silent_secs silent_exit_secs es =
     control_loop (control_thresholds timeout_secs silent_secs silent_exit_secs) p control_init es"

text \<open>The timeouts \<open>proxy_run\<close> passes.\<close>

definition run_timeouts :: "awg_config_t \<Rightarrow> int \<times> int \<times> int" where
  "run_timeouts cfg =
     ((if cf_timeout cfg > 0 then cf_timeout cfg else 180),
      (if cf_remote_silent_timeout cfg > 0 then cf_remote_silent_timeout cfg else 60),
      cf_remote_silent_exit_timeout cfg)"

text \<open>\<open>compute_remote_silent_timeout\<close>; \<open>None\<close> is the signed overflow of
  \<open>ka * 4\<close>.\<close>

definition compute_remote_silent_timeout :: "int \<Rightarrow> bool \<Rightarrow> int \<Rightarrow> int \<Rightarrow> int option" where
  "compute_remote_silent_timeout explicit_secs have_keepalive keepalive exit_secs =
    (if explicit_secs > 0 then Some explicit_secs
     else
       let ka = (if have_keepalive \<and> keepalive > 0 then keepalive else 15) in
       if ka * 4 > 2147483647 then None
       else
         let t = ka * 4; t = (if t < 30 then 30 else t) in
         if exit_secs > 0 then
           let cap = exit_secs div 2; cap = (if cap < 30 then 30 else cap) in
           Some (if t > cap then cap else t)
         else Some t)"

section \<open>Runs of ticks\<close>

text \<open>One tick after an interval in which the data threads reported client activity and
  remote traffic as given.\<close>

definition tick ::
  "thresholds \<Rightarrow> proxy_t \<times> control \<Rightarrow> bool \<times> bool \<Rightarrow> proxy_t \<times> control \<times> action list" where
  "tick th pc i = timer_tick th
     ((fst pc)\<lparr>px_last_active := fst i, px_last_remote_rx := snd i\<rparr>) (snd pc)"

definition tick_state :: "thresholds \<Rightarrow> proxy_t \<times> control \<Rightarrow> bool \<times> bool \<Rightarrow> proxy_t \<times> control" where
  "tick_state th pc i = (let (p, c, acts) = tick th pc i in (p, c))"

definition tick_actions :: "thresholds \<Rightarrow> proxy_t \<times> control \<Rightarrow> bool \<times> bool \<Rightarrow> action list" where
  "tick_actions th pc i = (let (p, c, acts) = tick th pc i in acts)"

definition after_ticks :: "thresholds \<Rightarrow> proxy_t \<Rightarrow> (bool \<times> bool) list \<Rightarrow> proxy_t \<times> control" where
  "after_ticks th p is = foldl (tick_state th) (p, control_init) is"

lemma after_ticks_snoc: "after_ticks th p (is @ [i]) = tick_state th (after_ticks th p is) i"
  by (simp add: after_ticks_def)

lemma no_exit_trigger: "trigger_recovery_reconnect p = (q, acts) \<Longrightarrow> Exit n \<notin> set acts"
  by (auto simp: trigger_recovery_reconnect_def Let_def split: if_splits)

text \<open>The silence counter never exceeds the number of ticks since the remote was last heard.\<close>

definition quiet_ticks :: "(bool \<times> bool) list \<Rightarrow> nat" where
  "quiet_ticks is = length (takeWhile (\<lambda>i. \<not> snd i) (rev is))"

lemma silent_total_step:
  "ct_remote_silent_total (snd (tick_state th pc i)) \<le>
    (if snd i then 0 else max 0 (ct_remote_silent_total (snd pc) + 1))"
  by (cases pc) (auto simp: tick_state_def tick_def timer_tick_def Let_def split: prod.splits)

lemma silent_total_quiet:
  "ct_remote_silent_total (snd (after_ticks th p is)) \<le> int (quiet_ticks is)"
proof (induction "is" rule: rev_induct)
  case Nil
  then show ?case by (simp add: after_ticks_def control_init_def quiet_ticks_def)
next
  case (snoc i "is")
  then show ?case
    using silent_total_step [of th "after_ticks th p is" i]
    by (auto simp: after_ticks_snoc quiet_ticks_def split: if_splits)
qed

lemma exit_step:
  "Exit 1 \<in> set (tick_actions th pc i) \<Longrightarrow> \<not> snd i \<and> th_exit_secs th > 0
    \<and> th_exit_checks th \<le> ct_remote_silent_total (snd pc) + 1"
  by (cases pc) (auto simp: tick_actions_def tick_def timer_tick_def Let_def
      split: if_splits prod.splits dest: no_exit_trigger)

text \<open>The process only ends itself after \<open>exit_checks\<close> ticks in a row without any traffic
  from the remote.\<close>

lemma exit_needs_silence:
  assumes "Exit 1 \<in> set (tick_actions th (after_ticks th p is) i)"
  shows "th_exit_secs th > 0 \<and> th_exit_checks th \<le> int (quiet_ticks (is @ [i]))"
  using exit_step [OF assms] silent_total_quiet [of th p "is"] by (simp add: quiet_ticks_def)

section \<open>A client that sends into silence\<close>

definition thresholds_ok :: "thresholds \<Rightarrow> bool" where
  "thresholds_ok th \<longleftrightarrow> 1 \<le> th_checks th \<and> 1 \<le> th_silent_checks th \<and> 1 \<le> th_warn_checks th
     \<and> th_warn_checks th \<le> th_silent_checks th
     \<and> (th_exit_secs th > 0 \<longrightarrow> 1 \<le> th_exit_checks th)"

lemma control_thresholds_ok: "thresholds_ok (control_thresholds t s e)"
  by (auto simp: thresholds_ok_def control_thresholds_def Let_def)

abbreviation (input) "silent_ticks n \<equiv> replicate n (True, False)"

text \<open>The counters after \<open>n\<close> ticks of one-sided silence.\<close>

definition silent_control :: "thresholds \<Rightarrow> nat \<Rightarrow> control" where
  "silent_control th n = \<lparr>ct_inactive_count = 0,
     ct_remote_silent_count = int n mod th_silent_checks th, ct_remote_silent_total = int n,
     ct_silence_warned = (th_warn_checks th \<le> int n), ct_client_idle_ticks = 0\<rparr>"

lemma mod_step:
  assumes "(1 :: int) \<le> s"
  shows "(int n mod s + 1 \<ge> s) = (s dvd int n + 1)"
    and "int n mod s + 1 < s \<Longrightarrow> (int n + 1) mod s = int n mod s + 1"
    and "s dvd int n + 1 \<Longrightarrow> (int n + 1) mod s = 0"
proof -
  have b: "int n mod s < s" "0 \<le> int n mod s" using assms by simp_all
  have e: "(int n + 1) mod s = (int n mod s + 1) mod s" by (simp add: mod_add_left_eq)
  show "int n mod s + 1 < s \<Longrightarrow> (int n + 1) mod s = int n mod s + 1"
    unfolding e using b by (intro mod_pos_pos_trivial) simp_all
  show "s dvd int n + 1 \<Longrightarrow> (int n + 1) mod s = 0" by simp
  show "(int n mod s + 1 \<ge> s) = (s dvd int n + 1)"
  proof (cases "int n mod s + 1 = s")
    case True
    then have "(int n + 1) mod s = 0" unfolding e by simp
    with True show ?thesis by (simp add: dvd_eq_mod_eq_0)
  next
    case False
    with b have "int n mod s + 1 < s" by simp
    then have "(int n + 1) mod s = int n mod s + 1"
      unfolding e using b by (intro mod_pos_pos_trivial) simp_all
    with False b show ?thesis by (simp add: dvd_eq_mod_eq_0)
  qed
qed

lemma silent_tick:
  assumes th: "thresholds_ok th" and pc: "snd pc = silent_control th n"
    and ne: "th_exit_secs th > 0 \<longrightarrow> int n + 1 < th_exit_checks th"
  shows "snd (tick_state th pc (True, False)) = silent_control th (n + 1)"
    and "px_remote_fd (fst (tick_state th pc (True, False))) = px_remote_fd (fst pc)"
    and "Exit 1 \<notin> set (tick_actions th pc (True, False))"
    and "px_remote_fd (fst pc) \<ge> 0 \<Longrightarrow> Shutdown (px_remote_fd (fst pc))
        \<in> set (tick_actions th pc (True, False)) \<longleftrightarrow> th_silent_checks th dvd int n + 1"
proof -
  have s: "1 \<le> th_silent_checks th" "1 \<le> th_warn_checks th" using th by (simp_all add: thresholds_ok_def)
  note m = mod_step [OF s(1), of n]
  note defs = tick_state_def tick_actions_def tick_def timer_tick_def trigger_recovery_reconnect_def
    silent_control_def Let_def
  have x: "\<not> (0 < th_exit_secs th \<and> th_exit_checks th \<le> int n + 1)" using ne by auto
  show "snd (tick_state th pc (True, False)) = silent_control th (n + 1)"
  proof (cases "th_silent_checks th dvd int n + 1")
    case True
    note d = m(3) [OF True] m(3) [OF True, unfolded add.commute [of "int n" 1]]
      m(1) [THEN iffD2, OF True]
    show ?thesis
      by (cases pc; cases "px_remote_fd (fst pc) < 0"; cases "th_warn_checks th \<le> int n";
          cases "0 < th_exit_secs th") (use pc x d in \<open>simp_all add: defs\<close>)
  next
    case False
    then have d: "\<not> th_silent_checks th \<le> int n mod th_silent_checks th + 1" using m(1) by blast
    with m(2) have "(int n + 1) mod th_silent_checks th = int n mod th_silent_checks th + 1" by simp
    note e = this this [unfolded add.commute [of "int n" 1]]
    from d show ?thesis
      by (cases pc; cases "th_warn_checks th \<le> int n"; cases "0 < th_exit_secs th")
        (use pc x e in \<open>simp_all add: defs\<close>)
  qed
  show "px_remote_fd (fst (tick_state th pc (True, False))) = px_remote_fd (fst pc)"
    by (cases pc; cases "0 < th_exit_secs th") (use pc x in \<open>simp_all add: defs\<close>)
  show "Exit 1 \<notin> set (tick_actions th pc (True, False))"
    by (cases pc; cases "0 < th_exit_secs th") (use pc x in \<open>simp_all add: defs\<close>)
  show "px_remote_fd (fst pc) \<ge> 0 \<Longrightarrow> Shutdown (px_remote_fd (fst pc))
        \<in> set (tick_actions th pc (True, False)) \<longleftrightarrow> th_silent_checks th dvd int n + 1"
    by (cases pc; cases "0 < th_exit_secs th") (use pc x m(1) in \<open>simp_all add: defs\<close>)
qed

lemma silent_run:
  assumes th: "thresholds_ok th" and ne: "th_exit_secs th > 0 \<longrightarrow> int n < th_exit_checks th"
  shows "snd (after_ticks th p (silent_ticks n)) = silent_control th n
    \<and> px_remote_fd (fst (after_ticks th p (silent_ticks n))) = px_remote_fd p"
  using ne
proof (induction n)
  case 0
  then show ?case
    using th by (simp add: after_ticks_def control_init_def silent_control_def thresholds_ok_def)
next
  case (Suc n)
  have e: "silent_ticks (Suc n) = silent_ticks n @ [(True, False)]"
    by (simp add: replicate_append_same)
  have ne: "th_exit_secs th > 0 \<longrightarrow> int n < th_exit_checks th"
      "th_exit_secs th > 0 \<longrightarrow> int n + 1 < th_exit_checks th"
    using Suc.prems by auto
  note ih = Suc.IH [OF ne(1)]
  show ?case
    using silent_tick(1,2) [OF th ih [THEN conjunct1] ne(2)] ih
    by (simp add: e after_ticks_snoc del: replicate.simps)
qed

text \<open>One-sided silence triggers a reconnect at every \<open>silent_checks\<close>-th tick and, when the
  guard is on, ends the process at tick \<open>exit_checks\<close> and not before.\<close>

lemma silent_actions:
  assumes th: "thresholds_ok th" and fd: "px_remote_fd p \<ge> 0"
    and ne: "th_exit_secs th > 0 \<longrightarrow> int n + 1 < th_exit_checks th"
  shows "Shutdown (px_remote_fd p) \<in> set (tick_actions th (after_ticks th p (silent_ticks n)) (True, False))
      \<longleftrightarrow> th_silent_checks th dvd int n + 1"
    and "Exit 1 \<notin> set (tick_actions th (after_ticks th p (silent_ticks n)) (True, False))"
  using silent_tick [OF th, of "after_ticks th p (silent_ticks n)" n] silent_run [OF th, of n p] ne fd
  by auto

lemma silent_exit:
  assumes th: "thresholds_ok th" and on: "th_exit_secs th > 0" and n: "int n + 1 = th_exit_checks th"
  shows "Exit 1 \<in> set (tick_actions th (after_ticks th p (silent_ticks n)) (True, False))"
proof -
  have "snd (after_ticks th p (silent_ticks n)) = silent_control th n"
    using silent_run [OF th, of n p] n by simp
  then show ?thesis
    using on n
    by (cases "after_ticks th p (silent_ticks n)")
      (simp add: tick_actions_def tick_def timer_tick_def Let_def silent_control_def)
qed

section \<open>A client that is quiet\<close>

text \<open>When both sides are quiet the process never ends itself, whatever the guard: after the
  grace period the silence counters are cleared at every tick.\<close>

lemma idle_tick_no_exit:
  assumes "ct_client_idle_ticks (snd pc) \<ge> 12"
  shows "Exit 1 \<notin> set (tick_actions th pc (False, rx))"
  using assms
  by (cases pc) (auto simp: tick_actions_def tick_def timer_tick_def Let_def
      split: prod.splits dest: no_exit_trigger)

section \<open>The derived threshold\<close>

text \<open>An automatic threshold is at least thirty seconds and, with the exit guard on, at most
  half of it (or thirty).\<close>

lemma compute_remote_silent_timeout_auto:
  assumes "explicit_secs \<le> 0" and "keepalive \<le> 536870911"
  shows "\<exists>t. compute_remote_silent_timeout explicit_secs have_keepalive keepalive exit_secs = Some t
    \<and> 30 \<le> t \<and> (exit_secs > 0 \<longrightarrow> t \<le> max 30 (exit_secs div 2))"
  using assms by (auto simp: compute_remote_silent_timeout_def Let_def max_def)

lemma compute_remote_silent_timeout_overflow:
  assumes "explicit_secs \<le> 0" and "keepalive > 536870911"
  shows "compute_remote_silent_timeout explicit_secs True keepalive exit_secs = None"
  using assms by (simp add: compute_remote_silent_timeout_def)

text \<open>With a guard of at least sixty seconds a reconnect is triggered before the exit.\<close>

lemma reconnect_before_exit:
  assumes "explicit_secs \<le> 0" and "60 \<le> exit_secs"
    and t: "compute_remote_silent_timeout explicit_secs have_ka ka exit_secs = Some t"
  shows "th_silent_checks (control_thresholds timeout t exit_secs)
      < th_exit_checks (control_thresholds timeout t exit_secs)"
proof -
  have "30 \<le> t" "t \<le> exit_secs div 2"
    using assms by (auto simp: compute_remote_silent_timeout_def Let_def split: if_splits)
  then have "1 \<le> t div 5" "t div 5 < exit_secs div 5" by linarith+
  then show ?thesis using assms(2) by (simp add: control_thresholds_def Let_def)
qed

end
