(* ===== verification/Net_Io.thy ===== *)
theory Net_Io
  imports Proxy_State Transform_Correct
begin

text \<open>
  The network helpers: addresses and their parsing (\<open>src/net_addr.c\<close>), the wildcard
  address a socket is bound to (\<open>src/net_sock.c\<close>), batched sending with UDP segmentation
  (\<open>src/proxy_io_batch.c\<close>) and the custom and junk packets sent before a handshake
  (\<open>src/proxy_emit.c\<close>).  System calls are parameters: their results, in call order.
\<close>

section \<open>Addresses\<close>

definition net_addr_socklen :: "sockaddr \<Rightarrow> nat" where
  "net_addr_socklen a = (if ss_family a = AF_INET then 16
     else if ss_family a = AF_INET6 then 28 else 128)"

text \<open>\<open>ntohs\<close> of the port field.\<close>

definition net_addr_port_host :: "sockaddr \<Rightarrow> u16" where
  "net_addr_port_host a = (if ss_family a = AF_INET then be16_of (a ! 2) (a ! 3)
     else if ss_family a = AF_INET6 then be16_of (a ! 2) (a ! 3) else 0)"

text \<open>One \<open>struct addrinfo\<close>: family, address bytes.  \<open>getaddrinfo\<close> is a parameter:
  its error code or its list.  The result is the address and its length, or the error.\<close>

datatype gai_result = GaiError int | GaiList "(nat \<times> bytes) list"

abbreviation (input) "EAI_FAIL \<equiv> -4"

fun first_usable :: "(nat \<times> bytes) list \<Rightarrow> (sockaddr \<times> nat) option" where
  "first_usable [] = None"
| "first_usable ((family, addr) # its) =
     (if family \<noteq> AF_INET \<and> family \<noteq> AF_INET6 then first_usable its
      else if length addr > 128 then first_usable its
      else Some (addr @ replicate (128 - length addr) 0, length addr))"

definition net_addr_resolve_host_port :: "gai_result \<Rightarrow> int + (sockaddr \<times> nat)" where
  "net_addr_resolve_host_port r = (case r of
     GaiError e \<Rightarrow> Inl e
   | GaiList its \<Rightarrow> (case first_usable its of Some a \<Rightarrow> Inr a | None \<Rightarrow> Inl EAI_FAIL))"

text \<open>The port loop; 32-bit \<open>unsigned\<close> cannot overflow below the bound it checks.\<close>

fun parse_port :: "nat \<Rightarrow> string \<Rightarrow> nat option" where
  "parse_port pv [] = Some pv"
| "parse_port pv (c # cs) =
     (if \<not> is_digit_c c then None
      else let pv = pv * 10 + digit_val c in if pv > 65535 then None else parse_port pv cs)"

definition port_of :: "string \<Rightarrow> nat option" where
  "port_of s = (if s = [] then None
     else case parse_port 0 s of None \<Rightarrow> None | Some pv \<Rightarrow> if pv = 0 then None else Some pv)"

text \<open>\<open>strrchr(s, ':')\<close>: the text before the last colon and after it.\<close>

definition split_last_colon :: "string \<Rightarrow> (string \<times> string) option" where
  "split_last_colon s =
    (if CHR '':'' \<in> set s then
       Some (rev (tl (dropWhile (\<lambda>c. c \<noteq> CHR '':'') (rev s))),
             rev (takeWhile (\<lambda>c. c \<noteq> CHR '':'') (rev s)))
     else None)"

text \<open>\<open>s\<close> is the C string; the result is the host and the port.\<close>

definition net_addr_parse_host_port :: "string \<Rightarrow> nat \<Rightarrow> (string \<times> nat) option" where
  "net_addr_parse_host_port s hostmax =
    (if s = [] then None
     else if hd s = CHR ''['' then
       let host = takeWhile (\<lambda>c. c \<noteq> CHR '']'') (tl s); rb = dropWhile (\<lambda>c. c \<noteq> CHR '']'') (tl s) in
       if rb = [] \<or> tl rb = [] \<or> hd (tl rb) \<noteq> CHR '':'' then None
       else if length host = 0 \<or> length host \<ge> hostmax then None
       else map_option (Pair host) (port_of (drop 2 rb))
     else case split_last_colon s of
         None \<Rightarrow> None
       | Some (host, port) \<Rightarrow>
           if length host \<ge> hostmax then None
           else if CHR '':'' \<in> set host then None
           else map_option (Pair host) (port_of port))"

text \<open>\<open>net_sock_bind_any_port\<close>: the local address it binds and its length.\<close>

definition bind_any_addr :: "nat \<Rightarrow> u16 \<Rightarrow> sockaddr \<times> nat" where
  "bind_any_addr family port =
    (if family = AF_INET6 then ([10, 0] @ be16_bytes port @ replicate 124 0, 28)
     else ([2, 0] @ be16_bytes port @ replicate 124 0, 16))"

section \<open>Batched sending\<close>

abbreviation (input) "ENOPROTOOPT \<equiv> 92"
abbreviation (input) "EIO \<equiv> 5"

text \<open>How many packets of the batch go into one segmented send: the run of the first size
  and one shorter packet behind it; 0 when that is not worth it.\<close>

definition gso_count :: "nat list \<Rightarrow> nat" where
  "gso_count lens =
    (if length lens \<le> 1 then 0
     else
       let seg_size = hd lens;
           n = 1 + length (takeWhile (\<lambda>l. l = seg_size) (tl lens));
           n = (if n < length lens \<and> lens ! n < seg_size then n + 1 else n)
       in if n \<le> 1 then 0 else n)"

text \<open>\<open>send_gso\<close>: the count and the (16-bit) segment size of the \<open>sendmsg\<close> it makes, if any;
  the return value given that call's result (an \<open>errno\<close> or success).\<close>

definition send_gso_call :: "bytes list \<Rightarrow> (nat \<times> nat) option" where
  "send_gso_call pkts = (let n = gso_count (map length pkts) in
     if n = 0 then None else Some (n, length (hd pkts) mod 65536))"

definition send_gso :: "bytes list \<Rightarrow> nat option \<Rightarrow> int" where
  "send_gso pkts err = (case send_gso_call pkts of None \<Rightarrow> 0
     | Some (n, seg) \<Rightarrow> (case err of None \<Rightarrow> int n | Some e \<Rightarrow> - int e))"

text \<open>The \<open>sendmmsg\<close> loop: each result is a positive count or the end of the loop.\<close>

fun send_loop :: "bytes list \<Rightarrow> int list \<Rightarrow> bytes list" where
  "send_loop pkts [] = []"
| "send_loop pkts (r # rs) =
     (if pkts = [] then [] else if r \<le> 0 then []
      else take (nat r) pkts @ send_loop (drop (nat r) pkts) rs)"

text \<open>The whole function: the packets handed to the kernel in one segmented send and by
  \<open>sendmmsg\<close>, and the segmentation flag after it.  \<open>has_addr\<close> is
  \<open>addr != NULL\<close>.\<close>

definition proxy_io_send_batch_gso ::
  "proxy_t \<Rightarrow> int \<Rightarrow> bytes list \<Rightarrow> bool \<Rightarrow> nat option \<Rightarrow> int list
    \<Rightarrow> proxy_t \<times> bytes list \<times> bytes list" where
  "proxy_io_send_batch_gso p fd pkts has_addr gso_err rs =
    (if px_gso_ok p \<and> length pkts > 1 \<and> (has_addr \<or> fd \<noteq> px_listen_fd p) then
       let n = send_gso pkts gso_err in
       if n < 0 then
         ((if - n = ENOPROTOOPT \<or> - n = EIO then p\<lparr>px_gso_ok := False\<rparr> else p),
          [], send_loop pkts rs)
       else (p, take (nat n) pkts, send_loop (drop (nat n) pkts) rs)
     else (p, [], send_loop pkts rs))"

text \<open>What the kernel makes of a segmented send: the payload cut into segments.\<close>

function segments :: "nat \<Rightarrow> bytes \<Rightarrow> bytes list" where
  "segments n bs = (if n = 0 \<or> bs = [] then [] else take n bs # segments n (drop n bs))"
  by pat_completeness auto
termination by (relation "measure (\<lambda>(n, bs). length bs)") auto

declare segments.simps [simp del]

section \<open>Custom and junk packets\<close>

text \<open>The junk packets cut from the buffer at the sizes drawn; a packet reaching past the
  buffer is a fault.\<close>

fun junk_packets :: "bytes \<Rightarrow> nat \<Rightarrow> int list \<Rightarrow> bytes list option" where
  "junk_packets buf off [] = Some []"
| "junk_packets buf off (s # ss) = do {
     pk \<leftarrow> rd buf off (nat s);
     rest \<leftarrow> junk_packets buf (off + nat s) ss;
     Some (pk # rest)
   }"

text \<open>The packets \<open>proxy_emit_send_junk_and_cps\<close> (and its \<open>_to\<close> form) sends, in order;
  \<open>None\<close> is an access outside a buffer.\<close>

definition proxy_emit_send_junk_and_cps ::
  "proxy_t \<Rightarrow> (nat \<Rightarrow> u32) \<Rightarrow> (proxy_t \<times> bytes list) option" where
  "proxy_emit_send_junk_and_cps p now = do {
     let cfg = px_cfg p;
     (cps, counter) \<leftarrow> cps_generate_all (cf_cps cfg) (px_cps_counter p) now;
     let p = p\<lparr>px_cps_counter := counter\<rparr>;
     if cf_jc cfg > 0 \<and> cf_jmax cfg > 0 then
       (case junk_layout_sizes cfg of
          None \<Rightarrow> Some (p, cps)
        | Some (junk_bytes, sizes_bytes) \<Rightarrow> do {
            buf \<leftarrow> px_junk_buf p;
            let (fill, rng) = fastrand_fill (px_rng p) (unat junk_bytes);
            buf \<leftarrow> wr buf 0 fill;
            sizes \<leftarrow> generate_junk cfg buf;
            pkts \<leftarrow> junk_packets buf 0 sizes;
            Some (p\<lparr>px_rng := rng, px_junk_buf := Some buf, px_junk_sizes := Some sizes\<rparr>,
                  cps @ pkts)
          })
     else Some (p, cps)
   }"

section \<open>Parsing\<close>

lemma parse_port_value:
  "\<forall>c \<in> set ds. is_digit_c c \<Longrightarrow> foldl (\<lambda>v c. v * 10 + digit_val c) pv ds \<le> 65535
    \<Longrightarrow> parse_port pv ds = Some (foldl (\<lambda>v c. v * 10 + digit_val c) pv ds)"
proof (induction ds arbitrary: pv)
  case (Cons c ds)
  have mono: "v \<le> foldl (\<lambda>v c. v * 10 + digit_val c) v ds" for v
  proof (induction ds arbitrary: v)
    case (Cons a ds)
    have "v \<le> v * 10 + digit_val a" by simp
    also note Cons [of "v * 10 + digit_val a"]
    finally show ?case by simp
  qed simp
  have "pv * 10 + digit_val c \<le> 65535"
    using Cons.prems(2) mono [of "pv * 10 + digit_val c"] by simp
  with Cons show ?case by (simp add: Let_def)
qed simp

lemma parse_port_bound: "parse_port pv ds = Some v \<Longrightarrow> pv \<le> 65535 \<Longrightarrow> v \<le> 65535"
  by (induction ds arbitrary: pv) (auto simp: Let_def split: if_splits)

lemma port_of_bound: "port_of s = Some v \<Longrightarrow> 1 \<le> v \<and> v \<le> 65535"
  using parse_port_bound [of 0 s v] by (auto simp: port_of_def split: if_splits option.splits)

lemma net_addr_parse_sound:
  "net_addr_parse_host_port s hostmax = Some (host, port)
    \<Longrightarrow> length host < hostmax \<and> 1 \<le> port \<and> port \<le> 65535"
  by (auto simp: net_addr_parse_host_port_def Let_def split: if_splits option.splits
      dest!: port_of_bound)

lemma split_last_colon_append:
  assumes "CHR '':'' \<notin> set ps"
  shows "split_last_colon (h @ CHR '':'' # ps) = Some (h, ps)"
proof -
  have r: "rev (h @ CHR '':'' # ps) = rev ps @ CHR '':'' # rev h" by simp
  have "\<And>c. c \<in> set (rev ps) \<Longrightarrow> c \<noteq> CHR '':''" using assms by auto
  then show ?thesis
    unfolding split_last_colon_def r
    by (subst takeWhile_append2, simp, subst dropWhile_append2, simp, simp)
qed

text \<open>Host and port written out are parsed back, in both notations.\<close>

lemma digits_no_colon: "list_all is_digit_c ds \<Longrightarrow> CHR '':'' \<notin> set ds"
  by (auto simp: list_all_iff is_digit_c_def)

lemma port_of_u32_to_str:
  assumes "1 \<le> port" and "port \<le> 65535"
  shows "port_of (u32_to_str (of_nat port)) = Some port"
proof -
  let ?ds = "u32_to_str (of_nat port)"
  have u: "unat (of_nat port :: u32) = port" using assms by (simp add: unat_of_nat)
  have f: "foldl (\<lambda>v c. v * 10 + digit_val c) 0 ?ds = port"
    using u32_to_str_correct [of "of_nat port"] u by (simp add: dec_val_def mult.commute)
  have "parse_port 0 ?ds = Some port"
    using parse_port_value [of ?ds 0] u32_to_str_correct [of "of_nat port"] f assms
    by (simp add: list_all_iff)
  with u32_to_str_correct [of "of_nat port"] assms show ?thesis by (auto simp: port_of_def)
qed

lemma net_addr_parse_plain:
  assumes "CHR '':'' \<notin> set host" and "length host < hostmax" and "1 \<le> port" "port \<le> 65535"
    and "host = [] \<or> hd host \<noteq> CHR ''[''"
  shows "net_addr_parse_host_port (host @ CHR '':'' # u32_to_str (of_nat port)) hostmax
    = Some (host, port)"
proof -
  have "split_last_colon (host @ CHR '':'' # u32_to_str (of_nat port))
      = Some (host, u32_to_str (of_nat port))"
    using u32_to_str_correct digits_no_colon by (intro split_last_colon_append) blast
  then show ?thesis
    using assms port_of_u32_to_str [OF assms(3,4)]
    by (cases host) (auto simp: net_addr_parse_host_port_def)
qed

lemma net_addr_parse_bracketed:
  assumes "CHR '']'' \<notin> set host" and "host \<noteq> []" and "length host < hostmax"
    and "1 \<le> port" "port \<le> 65535"
  shows "net_addr_parse_host_port (''['' @ host @ '']:'' @ u32_to_str (of_nat port)) hostmax
    = Some (host, port)"
proof -
  have h: "\<And>c. c \<in> set host \<Longrightarrow> c \<noteq> CHR '']''" using assms(1) by auto
  have "takeWhile (\<lambda>c. c \<noteq> CHR '']'') (host @ '']:'' @ u32_to_str (of_nat port)) = host"
    "dropWhile (\<lambda>c. c \<noteq> CHR '']'') (host @ '']:'' @ u32_to_str (of_nat port))
      = '']:'' @ u32_to_str (of_nat port)"
    using h by (subst takeWhile_append2, simp, simp) (use h in \<open>subst dropWhile_append2, simp, simp\<close>)
  then show ?thesis
    using assms port_of_u32_to_str [OF assms(4,5)] by (simp add: net_addr_parse_host_port_def Let_def)
qed

section \<open>Batches\<close>

lemma segments_concat:
  assumes "\<forall>p \<in> set ps. length p = n" and "length q \<le> n" and "0 < n"
  shows "segments n (concat ps @ q) = ps @ (if q = [] then [] else [q])"
  using assms(1)
proof (induction ps)
  case Nil
  then show ?case using assms(2,3) by (simp add: segments.simps [of n q] segments.simps [of n "[]"])
next
  case (Cons p ps)
  then have "p \<noteq> []" using assms(3) by auto
  with Cons show ?case
    using assms(3) by (subst segments.simps) simp
qed

text \<open>The kernel cuts the payload of a segmented send back into exactly the packets given.\<close>

lemma takeWhile_all: "x \<in> set (takeWhile P xs) \<Longrightarrow> P x"
  by (rule set_takeWhileD [THEN conjunct2])

lemma gso_segments:
  assumes "\<forall>p \<in> set pkts. p \<noteq> [] \<and> length p < 65536" and "send_gso_call pkts = Some (n, seg)"
  shows "n \<le> length pkts \<and> segments seg (concat (take n pkts)) = take n pkts"
proof -
  from assms(2) obtain p ps where pkts: "pkts = p # ps"
    by (cases pkts) (auto simp: send_gso_call_def gso_count_def)
  define same where "same = takeWhile (\<lambda>q. length q = length p) ps"
  have tw: "takeWhile (\<lambda>l. l = length p) (map length ps) = map length same"
    by (simp add: same_def takeWhile_map comp_def)
  obtain rest where ps: "ps = same @ rest"
    unfolding same_def by (metis takeWhile_dropWhile_id)
  have seg: "seg = length p" "0 < length p"
    using assms pkts by (auto simp: send_gso_call_def Let_def split: if_splits)
  have all: "\<forall>q \<in> set (p # same). length q = length p"
    by (auto simp: same_def dest: takeWhile_all)
  have g: "n = gso_count (length p # map length ps)" "n \<noteq> 0"
    using assms(2) pkts by (auto simp: send_gso_call_def Let_def split: if_splits)
  have i: "length same < length ps \<longleftrightarrow> rest \<noteq> []"
    "length same < length ps \<Longrightarrow> length (ps ! length same) = length (hd rest)"
    by (simp_all add: ps hd_conv_nth nth_append)
  have n: "n = 1 + length same \<or> (n = 2 + length same \<and> rest \<noteq> [] \<and> length (hd rest) < length p)"
    using g i by (auto simp: gso_count_def Let_def tw split: if_splits)
  then show ?thesis
  proof
    assume e: "n = 1 + length same"
    then have "take n pkts = p # same" using pkts ps by simp
    with segments_concat [OF all, of "[]"] seg e pkts ps show ?thesis by simp
  next
    assume e: "n = 2 + length same \<and> rest \<noteq> [] \<and> length (hd rest) < length p"
    then obtain q rest' where r: "rest = q # rest'" by (cases rest) auto
    then have t: "take n pkts = (p # same) @ [q]" using e pkts ps by simp
    have "q \<noteq> []" using assms(1) pkts ps r by auto
    with segments_concat [OF all, of q] seg e t pkts ps r show ?thesis by simp
  qed
qed

lemma send_loop_prefix: "\<exists>k. send_loop pkts rs = take k pkts"
proof (induction pkts rs rule: send_loop.induct)
  case (2 pkts r rs)
  show ?case
  proof (cases "pkts = [] \<or> r \<le> 0")
    case True
    then show ?thesis by (auto intro: exI [of _ 0])
  next
    case False
    with 2 obtain k where k: "send_loop (drop (nat r) pkts) rs = take k (drop (nat r) pkts)" by auto
    have "take (nat r) pkts @ take k (drop (nat r) pkts) = take (nat r + k) pkts"
      by (simp add: take_add)
    with False k show ?thesis by (intro exI [of _ "nat r + k"]) simp
  qed
qed (auto intro: exI [of _ 0])

text \<open>What is handed to the kernel is an initial part of the batch, each packet once and in
  order, however the calls fail.\<close>

lemma send_batch_prefix:
  assumes "proxy_io_send_batch_gso p fd pkts has_addr gso_err rs = (p', gso, rest)"
  shows "\<exists>k. gso @ rest = take k pkts"
proof -
  have a: "\<exists>k. take m pkts @ send_loop (drop m pkts) rs = take k pkts" for m
    using send_loop_prefix [of "drop m pkts" rs] take_add [of m _ pkts] by metis
  have z: "\<exists>k. send_loop pkts rs = take k pkts" by (rule send_loop_prefix)
  have "gso @ rest = send_loop pkts rs
    \<or> (\<exists>m. gso @ rest = take m pkts @ send_loop (drop m pkts) rs)"
    using assms unfolding proxy_io_send_batch_gso_def Let_def
    by (simp only: split: if_split_asm) (elim Pair_inject; simp; blast)+
  with a z show ?thesis by metis
qed

section \<open>Emission\<close>

lemma junk_packets_ok:
  assumes "\<forall>s \<in> set sizes. 0 \<le> s" and "int off + sum_list sizes \<le> int (length buf)"
  shows "\<exists>pkts. junk_packets buf off sizes = Some pkts \<and> map (\<lambda>q. int (length q)) pkts = sizes"
  using assms
proof (induction sizes arbitrary: off)
  case (Cons s ss)
  have "0 \<le> sum_list ss" using Cons.prems(1) by (intro sum_list_nonneg) simp
  moreover have "0 \<le> s" "int off + (s + sum_list ss) \<le> int (length buf)"
    using Cons.prems by simp_all
  ultimately have "off + nat s \<le> length buf" by linarith
  moreover obtain pkts where "junk_packets buf (off + nat s) ss = Some pkts"
      "map (\<lambda>q. int (length q)) pkts = ss"
    using Cons.IH [of "off + nat s"] Cons.prems by auto
  ultimately show ?case using Cons.prems(1) by (simp add: rd_def)
qed simp

text \<open>The junk buffer as \<open>proxy_init\<close> allocates it.\<close>

definition junk_buf_ok :: "proxy_t \<Rightarrow> bool" where
  "junk_buf_ok p \<longleftrightarrow> cf_jc (px_cfg p) < 2 ^ 31 \<and>
     (cf_jc (px_cfg p) > 0 \<and> cf_jmax (px_cfg p) > 0 \<longrightarrow>
        4 \<le> cf_jc (px_cfg p) * cf_jmax (px_cfg p) \<and>
        (\<exists>buf. px_junk_buf p = Some buf \<and> int (length buf) = cf_jc (px_cfg p) * cf_jmax (px_cfg p)))"

definition templates_ok :: "awg_config_t \<Rightarrow> bool" where
  "templates_ok cfg \<longleftrightarrow> list_all (\<lambda>t. case t of None \<Rightarrow> True | Some t \<Rightarrow> template_ok t) (cf_cps cfg)"

definition cps_emitted :: "awg_config_t \<Rightarrow> bytes list \<Rightarrow> bool" where
  "cps_emitted cfg ps \<longleftrightarrow>
     list_all2 (\<lambda>t p. length p = cps_max_size t) (map the (filter (\<lambda>x. x \<noteq> None) (cf_cps cfg))) ps"

definition junk_emitted :: "awg_config_t \<Rightarrow> bytes list \<Rightarrow> bool" where
  "junk_emitted cfg ps \<longleftrightarrow> length ps = (if cf_jmax cfg > 0 then nat (cf_jc cfg) else 0)
     \<and> (\<forall>p \<in> set ps. max 1 (cf_jmin cfg) \<le> int (length p) \<and> int (length p) \<le> cf_jmax cfg)"

lemma junk_layout_exact:
  assumes "0 \<le> cf_jc cfg" "cf_jc cfg < 2 ^ 31" "0 \<le> cf_jmax cfg" "cf_jmax cfg < 65535"
  shows "\<exists>a b. junk_layout_sizes cfg = Some (a, b) \<and> unat a = nat (cf_jc cfg * cf_jmax cfg)
    \<and> unat b = nat (cf_jc cfg) * 4"
proof -
  have c: "uint (of_int (cf_jc cfg) :: u64) = cf_jc cfg" "uint (of_int (cf_jmax cfg) :: u64) = cf_jmax cfg"
    using assms by (simp_all add: uint_word_of_int take_bit_eq_mod)
  have p: "cf_jc cfg * cf_jmax cfg \<le> 2 ^ 31 * 65535" using assms by (intro mult_mono) auto
  have u: "unat (of_int (cf_jc cfg) :: u64) = nat (cf_jc cfg)"
    "unat (of_int (cf_jmax cfg) :: u64) = nat (cf_jmax cfg)" using c by (simp_all flip: nat_uint_eq)
  have m: "nat (cf_jc cfg) * nat (cf_jmax cfg) = nat (cf_jc cfg * cf_jmax cfg)"
    using assms by (simp add: nat_mult_distrib)
  have m4: "nat (cf_jc cfg) * 4 < 2 ^ 64" using assms(1,2) by simp
  have ml: "nat (cf_jc cfg * cf_jmax cfg) < 2 ^ 64" using p by simp
  have 1: "checked_mul_size (of_int (cf_jc cfg)) (of_int (cf_jmax cfg))
      = Some (of_int (cf_jc cfg) * of_int (cf_jmax cfg))"
    by (simp only: checked_mul_size_exact u m ml)
  have 2: "checked_mul_size (of_int (cf_jc cfg)) 4 = Some (of_int (cf_jc cfg) * 4)"
    using m4 by (simp add: checked_mul_size_exact u)
  have 3: "unat (of_int (cf_jc cfg) * of_int (cf_jmax cfg) :: u64) = nat (cf_jc cfg * cf_jmax cfg)"
    using ml by (simp add: unat_word_ariths u m)
  have 4: "unat (of_int (cf_jc cfg) * 4 :: u64) = nat (cf_jc cfg) * 4"
    using m4 by (simp add: unat_word_ariths u)
  show ?thesis using 1 2 3 4 by (simp add: junk_layout_sizes_def)
qed

lemma emit_ok:
  assumes cfg: "config_ready (px_cfg p)" and t: "templates_ok (px_cfg p)" and b: "junk_buf_ok p"
  shows "\<exists>p' cps junk. proxy_emit_send_junk_and_cps p now = Some (p', cps @ junk)
    \<and> cps_emitted (px_cfg p) cps \<and> junk_emitted (px_cfg p) junk
    \<and> px_cfg p' = px_cfg p \<and> junk_buf_ok p'
    \<and> px_cps_counter p' = px_cps_counter p + of_nat (length cps)"
proof -
  let ?c = "px_cfg p"
  have c: "0 \<le> cf_jc ?c" "0 \<le> cf_jmax ?c" "cf_jmax ?c < 65535"
    using cfg by (simp_all add: config_ready_def config_ok_def)
  have t': "\<forall>t. Some t \<in> set (cf_cps ?c) \<longrightarrow> template_ok t"
    using t by (force simp: templates_ok_def list_all_iff)
  obtain ps where ps: "cps_generate_all (cf_cps ?c) (px_cps_counter p) now
      = Some (ps, px_cps_counter p + of_nat (length (filter (\<lambda>x. x \<noteq> None) (cf_cps ?c))))"
    "cps_emitted ?c ps"
    using cps_generate_all_spec [OF t', of "px_cps_counter p" now]
    unfolding cps_emitted_def by blast
  then have n: "length (filter (\<lambda>x. x \<noteq> None) (cf_cps ?c)) = length ps"
    by (auto simp: cps_emitted_def dest: list_all2_lengthD)
  show ?thesis
  proof (cases "cf_jc ?c > 0 \<and> cf_jmax ?c > 0")
    case False
    then show ?thesis using ps n b c
      by (intro exI [of _ "p\<lparr>px_cps_counter := px_cps_counter p + of_nat (length ps)\<rparr>"]
          exI [of _ ps] exI [of _ "[]"])
        (auto simp: proxy_emit_send_junk_and_cps_def junk_emitted_def junk_buf_ok_def)
  next
    case True
    obtain buf where buf: "px_junk_buf p = Some buf" "int (length buf) = cf_jc ?c * cf_jmax ?c"
      and b4: "4 \<le> length buf" and jc: "cf_jc ?c < 2 ^ 31" using b True by (auto simp: junk_buf_ok_def)
    obtain jb sb where l: "junk_layout_sizes ?c = Some (jb, sb)" "unat jb = length buf"
      using junk_layout_exact [OF c(1) jc c(2,3)] buf(2)
      by (metis nat_int)
    obtain fill rng where f: "fastrand_fill (px_rng p) (unat jb) = (fill, rng)" by fastforce
    have "length fill = unat jb" using length_fastrand_fill [of "px_rng p" "unat jb"]
      by (simp only: f fst_conv)
    with l(2) have lf: "length fill = length buf" by simp
    then have w: "wr buf 0 fill = Some fill" by (simp add: wr_def splice_def)
    obtain sizes where s: "generate_junk ?c fill = Some sizes" "length sizes = nat (cf_jc ?c)"
        "\<forall>x \<in> set sizes. max 1 (cf_jmin ?c) \<le> x \<and> x \<le> cf_jmax ?c"
        "sum_list sizes \<le> cf_jc ?c * cf_jmax ?c"
      using generate_junk_bounds [OF cfg _ _, of fill] True b4 lf by auto
    have s0: "\<forall>s \<in> set sizes. 0 \<le> s" using s(3) by fastforce
    obtain pkts where k: "junk_packets fill 0 sizes = Some pkts" "map (\<lambda>q. int (length q)) pkts = sizes"
      using junk_packets_ok [OF s0, of 0 fill] s(4) buf(2) lf by auto
    have "length pkts = length sizes" using k(2) by (metis length_map)
    then have "junk_emitted ?c pkts" using s True k(2) by (auto simp: junk_emitted_def)
    then show ?thesis using True ps n l f w s k buf lf b
      by (simp add: proxy_emit_send_junk_and_cps_def junk_buf_ok_def) blast
  qed
qed

end
