(* ===== verification/Proxy_Io.thy ===== *)
theory Proxy_Io
  imports Net_Io
begin

text \<open>
  The buffers of a data thread and what it does with them: the receive buffers and their
  set-up (\<open>src/proxy_init_io.c\<close>), the segment size of a coalesced receive
  (\<open>src/proxy_io_batch.c\<close>), the thread-local \<open>hs_buf\<close> and \<open>obfs_buf\<close>, and the I/O
  vectors that point into all of them.  A vector is a place, an offset and a length; its bytes
  are read when the batch is sent, so two vectors into one place see the same contents.
\<close>

section \<open>A thread and its buffers\<close>

abbreviation (input) "BUF_SIZE \<equiv> 1500"
abbreviation (input) "BUF_TOTAL \<equiv> 3000"
abbreviation (input) "GRO_BUF_SIZE \<equiv> 65536"

text \<open>\<open>th_bufs\<close> are \<open>recv_c2s.bufs\<close> or \<open>recv_s2c.bufs\<close>; the three flags are the
  function-local \<open>logged\<close> statics; \<open>th_sys\<close> holds the results of the coming sends: the
  segmented one and the \<open>sendmmsg\<close> counts.\<close>

record thread_t =
  th_bufs :: "bytes list"
  th_gro :: bytes
  th_hs :: bytes
  th_obfs :: bytes
  th_sent_logged :: bool
  th_accept_logged :: bool
  th_reject_logged :: bool
  th_sys :: "(nat option \<times> int list) list"

datatype place = PBuf nat | PGro | PHs | PObfs

type_synonym iovec = "place \<times> nat \<times> nat"
type_synonym dest = "(sockaddr \<times> nat) option"

fun place_bytes :: "thread_t \<Rightarrow> place \<Rightarrow> bytes" where
  "place_bytes th (PBuf i) = (if i < length (th_bufs th) then th_bufs th ! i else [])"
| "place_bytes th PGro = th_gro th"
| "place_bytes th PHs = th_hs th"
| "place_bytes th PObfs = th_obfs th"

fun set_place :: "place \<Rightarrow> bytes \<Rightarrow> thread_t \<Rightarrow> thread_t" where
  "set_place (PBuf i) b th = th\<lparr>th_bufs := (th_bufs th)[i := b]\<rparr>"
| "set_place PGro b th = th\<lparr>th_gro := b\<rparr>"
| "set_place PHs b th = th\<lparr>th_hs := b\<rparr>"
| "set_place PObfs b th = th\<lparr>th_obfs := b\<rparr>"

text \<open>Every buffer has the size the code declares for it.\<close>

definition thread_ok :: "thread_t \<Rightarrow> bool" where
  "thread_ok th \<longleftrightarrow> length (th_bufs th) = BATCH_SIZE \<and> (\<forall>b \<in> set (th_bufs th). length b = BUF_TOTAL)
     \<and> length (th_gro th) = GRO_BUF_SIZE \<and> length (th_hs th) = BUF_SIZE \<and> length (th_obfs th) = 4096"

definition iov_bytes :: "thread_t \<Rightarrow> iovec \<Rightarrow> bytes option" where
  "iov_bytes th v = (case v of (pl, off, len) \<Rightarrow> rd (place_bytes th pl) off len)"

section \<open>Receiving\<close>

text \<open>\<open>proxy_init_io_state\<close>: the headroom of every receive buffer is filled with random
  bytes once; \<open>fill_headroom\<close> is one of its two loops.\<close>

fun fill_headroom :: "fastrand_t \<Rightarrow> nat \<Rightarrow> bytes list \<Rightarrow> bytes list \<times> fastrand_t" where
  "fill_headroom r h [] = ([], r)"
| "fill_headroom r h (b # bs) =
     (let (f, r) = fastrand_fill r h; (bs, r) = fill_headroom r h bs in (splice b 0 f # bs, r))"

definition c2s_headroom :: "awg_config_t \<Rightarrow> int" where
  "c2s_headroom cfg = (if cf_mode cfg = AWG_MODE_CLIENT then cf_s4 cfg else 0)"

definition c2s_recv_len :: "awg_config_t \<Rightarrow> int" where
  "c2s_recv_len cfg = (if cf_mode cfg = AWG_MODE_CLIENT then BUF_SIZE else BUF_TOTAL)"

definition s2c_headroom :: "awg_config_t \<Rightarrow> int" where
  "s2c_headroom cfg = (if cf_mode cfg = AWG_MODE_CLIENT then 0 else cf_s4 cfg)"

definition s2c_recv_len :: "awg_config_t \<Rightarrow> int" where
  "s2c_recv_len cfg = BUF_TOTAL - s2c_headroom cfg"

definition proxy_init_io_state ::
  "proxy_t \<Rightarrow> thread_t \<Rightarrow> thread_t \<Rightarrow> proxy_t \<times> thread_t \<times> thread_t" where
  "proxy_init_io_state p c2s s2c =
    (let cfg = px_cfg p;
         (cb, r) = (if c2s_headroom cfg > 0
            then fill_headroom (px_rng p) (nat (c2s_headroom cfg)) (th_bufs c2s)
            else (th_bufs c2s, px_rng p));
         (sb, r) = (if s2c_headroom cfg > 0
            then fill_headroom r (nat (s2c_headroom cfg)) (th_bufs s2c)
            else (th_bufs s2c, r))
     in (p\<lparr>px_rng := r\<rparr>, c2s\<lparr>th_bufs := cb\<rparr>, s2c\<lparr>th_bufs := sb\<rparr>))"

text \<open>\<open>recvmmsg\<close> with one vector per buffer: datagram \<open>i\<close> is stored at the headroom of
  buffer \<open>i\<close>, cut to the vector's length; its \<open>msg_len\<close> is the stored length.\<close>

fun store_datagrams :: "nat \<Rightarrow> nat \<Rightarrow> nat \<Rightarrow> bytes list \<Rightarrow> thread_t \<Rightarrow> thread_t option" where
  "store_datagrams h cap i [] th = Some th"
| "store_datagrams h cap i (d # ds) th = (if i \<ge> length (th_bufs th) then None else do {
     b \<leftarrow> wr (th_bufs th ! i) h (take cap d);
     store_datagrams h cap (i + 1) ds (set_place (PBuf i) b th)
   })"

text \<open>The control messages of a coalesced receive: level, type, data.  The loop takes the first
  of level \<open>IPPROTO_UDP\<close> and type \<open>UDP_SEGMENT\<close>, reading two bytes.\<close>

type_synonym cmsg = "int \<times> int \<times> bytes"

abbreviation (input) "IPPROTO_UDP \<equiv> 17"
abbreviation (input) "UDP_SEGMENT \<equiv> 103"
abbreviation (input) "UDP_GRO \<equiv> 104"

fun gro_seg_size :: "cmsg list \<Rightarrow> nat" where
  "gro_seg_size [] = 0"
| "gro_seg_size ((level, ty, data) # cms) =
     (if level = IPPROTO_UDP \<and> ty = UDP_SEGMENT then unat (data ! 0) + 256 * unat (data ! 1)
      else gro_seg_size cms)"

text \<open>\<open>proxy_io_recv_gro\<close>: the result of \<open>recvmsg\<close> is a datagram (at most the buffer) with
  control messages, or an error.  The result is \<open>n\<close>, the segment size and the thread.\<close>

datatype recv_result = RecvData bytes "cmsg list" | RecvError int

definition proxy_io_recv_gro :: "thread_t \<Rightarrow> recv_result \<Rightarrow> int \<times> nat \<times> thread_t" where
  "proxy_io_recv_gro th r = (case r of
     RecvError e \<Rightarrow> (-1, 0, th)
   | RecvData d cms \<Rightarrow>
       (let d = take GRO_BUF_SIZE d in
        if d = [] then (0, 0, th)
        else (int (length d), gro_seg_size cms, th\<lparr>th_gro := splice (th_gro th) 0 d\<rparr>)))"

section \<open>Obfuscation through the thread's buffer\<close>

text \<open>\<open>obfs_wrap\<close> on the bytes of a vector: the result points to the input or to
  \<open>obfs_buf\<close>, which is overwritten.\<close>

definition th_obfs_wrap ::
  "obfs_session_t \<Rightarrow> thread_t \<Rightarrow> iovec \<Rightarrow> (obfs_session_t \<times> thread_t \<times> iovec option) option" where
  "th_obfs_wrap s th v = do {
     d \<leftarrow> iov_bytes th v;
     (case obfs_wrap s d of
        (s, None) \<Rightarrow> Some (s, th, None)
      | (s, Some (WIn _)) \<Rightarrow> Some (s, th, Some v)
      | (s, Some (WObfsBuf fr)) \<Rightarrow> do {
          b \<leftarrow> wr (th_obfs th) 0 fr;
          Some (s, th\<lparr>th_obfs := b\<rparr>, Some (PObfs, 0, length fr))
        })
   }"

text \<open>\<open>transform_outbound_with_mac1\<close> on a receive buffer and the thread's \<open>hs_buf\<close>; the
  result is the thread, the vector of the packet and the junk flag.\<close>

definition th_transform_outbound ::
  "thread_t \<Rightarrow> nat \<Rightarrow> nat \<Rightarrow> nat \<Rightarrow> awg_config_t \<Rightarrow> bytes option \<Rightarrow> u64
    \<Rightarrow> (thread_t \<times> iovec \<times> bool) option" where
  "th_transform_outbound th i h n cfg key v = do {
     r \<leftarrow> transform_outbound_with_mac1 (place_bytes th (PBuf i)) (th_hs th) h n cfg key v;
     let th = (set_place (PBuf i) (tx_buf r) th)\<lparr>th_hs := tx_hs r\<rparr>;
     Some (th, (case tx_loc r of InBuf off \<Rightarrow> (PBuf i, off, tx_len r) | InHs \<Rightarrow> (PHs, 0, tx_len r)),
           tx_junk r)
   }"

text \<open>\<open>transform_inbound(pkt, n, cfg, &out_len)\<close> where \<open>pkt\<close> points at offset \<open>off\<close> of a
  place.\<close>

definition th_transform_inbound ::
  "thread_t \<Rightarrow> iovec \<Rightarrow> awg_config_t \<Rightarrow> (thread_t \<times> iovec option) option" where
  "th_transform_inbound th v cfg = (case v of (pl, off, n) \<Rightarrow> do {
     let b = place_bytes th pl;
     if off \<le> length b then do {
       r \<leftarrow> transform_inbound (drop off b) n cfg;
       (case r of
          None \<Rightarrow> Some (th, None)
        | Some (b', o', len) \<Rightarrow> Some (set_place pl (take off b @ b') th, Some (pl, off + o', len)))
     } else None
   })"

section \<open>Sending a batch\<close>

definition next_sys :: "thread_t \<Rightarrow> nat \<Rightarrow> (nat option \<times> int list) \<times> thread_t" where
  "next_sys th n = (case th_sys th of
     [] \<Rightarrow> ((None, [int n]), th)
   | r # rs \<Rightarrow> (r, th\<lparr>th_sys := rs\<rparr>))"

text \<open>\<open>proxy_io_send_batch_gso\<close> on queued vectors, each with the address of its header; the
  bytes are those the places hold now.  \<open>th_sys\<close> gives the results of the system calls; when
  it is empty the kernel takes everything.\<close>

definition send_queue ::
  "proxy_t \<Rightarrow> thread_t \<Rightarrow> int \<Rightarrow> (iovec \<times> dest) list \<Rightarrow> dest
    \<Rightarrow> (proxy_t \<times> thread_t \<times> action list) option" where
  "send_queue p th fd q gso_addr = do {
     pkts \<leftarrow> those (map (\<lambda>e. iov_bytes th (fst e)) q);
     let ((g, rs), th) = next_sys th (length pkts);
     let (p, gso, rest) = proxy_io_send_batch_gso p fd pkts (gso_addr \<noteq> None) g rs;
     Some (p, th, map (Send fd gso_addr) gso
       @ map2 (Send fd) (drop (length gso) (map snd q)) rest)
   }"

section \<open>Facts about the buffers\<close>

lemma thread_ok_buf: "thread_ok th \<Longrightarrow> i < BATCH_SIZE \<Longrightarrow> length (th_bufs th ! i) = BUF_TOTAL"
  by (auto simp: thread_ok_def)

lemma thread_ok_place:
  "thread_ok th \<Longrightarrow> i < BATCH_SIZE \<Longrightarrow> length (place_bytes th (PBuf i)) = BUF_TOTAL"
  by (auto simp: thread_ok_def)

lemma thread_ok_set:
  assumes "thread_ok th" and "length b = length (place_bytes th pl)"
  shows "thread_ok (set_place pl b th)"
  using assms
  by (cases pl) (auto simp: thread_ok_def all_set_conv_all_nth nth_list_update split: if_splits)

lemma place_set_same:
  "length b = length (place_bytes th pl) \<Longrightarrow> place_bytes (set_place pl b th) pl = b"
  by (cases pl) (auto split: if_splits)

lemma place_set_other: "pl' \<noteq> pl \<Longrightarrow> place_bytes (set_place pl b th) pl' = place_bytes th pl'"
  by (cases pl; cases pl') auto

end
