(* ===== verification/Proxy_Path.thy ===== *)
theory Proxy_Path
  imports Proxy_Io
begin

text \<open>
  What the four packet paths share (\<open>src/proxy_c2s_client.c\<close>, \<open>proxy_c2s_gateway.c\<close>,
  \<open>proxy_s2c_client.c\<close>, \<open>proxy_s2c_gateway.c\<close>): the one-time log lines, the shortcut for
  transport packets, the obfuscation sessions of the table entries, the tracking of the client's
  address.  A path's state is the proxy and its thread; a result is \<open>None\<close> when an access
  leaves a buffer.
\<close>

section \<open>Log lines\<close>

text \<open>The counts at which a failure is logged: 1, 8, 16, 32, ...\<close>

definition should_log_obfs_fail :: "u32 \<Rightarrow> bool" where
  "should_log_obfs_fail c \<longleftrightarrow> c = 1 \<or> (c \<ge> 8 \<and> c AND (c - 1) = 0)"

definition log_marker_accept_once :: "thread_t \<Rightarrow> obfs_session_t \<Rightarrow> string \<Rightarrow> thread_t \<times> action list" where
  "log_marker_accept_once th s side =
    (if \<not> th_accept_logged th \<and> ob_profile s \<noteq> AWG_OBFS_OFF \<and> ob_marker_seen s
     then (th\<lparr>th_accept_logged := True\<rparr>, [log_info (side @ '': obfs marker accepted'')])
     else (th, []))"

definition log_marker_reject_once :: "thread_t \<Rightarrow> obfs_session_t \<Rightarrow> string \<Rightarrow> thread_t \<times> action list" where
  "log_marker_reject_once th s side =
    (if \<not> th_reject_logged th \<and> ob_profile s \<noteq> AWG_OBFS_OFF \<and> \<not> ob_marker_seen s
        \<and> ob_marker_rx_window s = 0
     then (th\<lparr>th_reject_logged := True\<rparr>, [log_always (side @ '': obfs marker rejected'')])
     else (th, []))"

definition log_marker_sent_once :: "thread_t \<Rightarrow> obfs_session_t \<Rightarrow> string \<Rightarrow> thread_t \<times> action list" where
  "log_marker_sent_once th s side =
    (if \<not> th_sent_logged th \<and> ob_profile s \<noteq> AWG_OBFS_OFF \<and> ob_marker_tx_left s < 3
     then (th\<lparr>th_sent_logged := True\<rparr>, [log_info (side @ '': obfs marker sent'')])
     else (th, []))"

definition log_obfs_fail :: "string \<Rightarrow> u32 \<Rightarrow> awg_config_t \<Rightarrow> action list" where
  "log_obfs_fail side c cfg = (if should_log_obfs_fail c
     then [log_always (side @ '': obfs unwrap failures='' @ u32_to_str c @ '' profile=''
       @ obfs_profile_name (cf_obfs_profile cfg)
       @ '' (remote likely plain AWG/WG or different obfs preset)'')]
     else [])"

text \<open>\<open>if (!atomic_exchange(&p->fe_x, 1)) log_info(...)\<close>: the flag before, the line.\<close>

definition first_event :: "bool \<Rightarrow> string \<Rightarrow> action list" where
  "first_event seen line = (if seen then [] else [log_info line])"

text \<open>\<open>net_addr_to_host\<close> and \<open>proxy_log_addr\<close>: the result of \<open>getnameinfo\<close> is its code
  and the text.\<close>

definition net_addr_to_host :: "int \<times> string \<Rightarrow> string option" where
  "net_addr_to_host r = (if fst r \<noteq> 0 \<or> snd r = [] then None else Some (snd r))"

definition proxy_log_addr :: "string \<Rightarrow> sockaddr \<Rightarrow> int \<times> string \<Rightarrow> action list" where
  "proxy_log_addr prefix addr name = (case net_addr_to_host name of
     None \<Rightarrow> []
   | Some host \<Rightarrow> [log_info (prefix @ host @ '':'' @ u32_to_str (ucast (net_addr_port_host addr)))])"

section \<open>The transport shortcut\<close>

text \<open>The inner condition both inbound paths test before anything else: a packet long enough for
  a transport packet, of no handshake's size where sizes can be confused, with a header of the
  transport range.  Then the type is written back and the padding skipped, in place.\<close>

definition transport_shortcut ::
  "thread_t \<Rightarrow> iovec \<Rightarrow> awg_config_t \<Rightarrow> (thread_t \<times> iovec) option option" where
  "transport_shortcut th v cfg = (case v of (pl, off, n) \<Rightarrow>
     if int n \<ge> cf_s4 cfg + WG_TRANSPORT_MIN
        \<and> (\<not> cf_transport_size_ambiguous cfg
           \<or> (int n \<noteq> cf_init_total cfg \<and> int n \<noteq> cf_resp_total cfg \<and> int n \<noteq> cf_cookie_total cfg))
     then do {
       s4 \<leftarrow> ptr_off (cf_s4 cfg);
       h \<leftarrow> rd32 (place_bytes th pl) (off + s4);
       if hrange_contains (cf_h4 cfg) h then do {
         b \<leftarrow> wr32 (place_bytes th pl) (off + s4) WG_TRANSPORT_DATA;
         Some (Some (set_place pl b th, (pl, off + s4, n - s4)))
       } else Some None
     } else Some None)"

section \<open>Obfuscation sessions of the table\<close>

text \<open>\<open>entry && !entry->obfs_ready\<close>: both sessions of the entry are initialised once.\<close>

definition ensure_obfs :: "proxy_t \<Rightarrow> nat \<Rightarrow> proxy_t" where
  "ensure_obfs p i = (let e = px_sessions p ! i in
     if se_obfs_ready e then p
     else
       let (a, r) = fastrand_u64 (px_rng p); (b, r) = fastrand_u64 r;
           prof = cf_obfs_profile (px_cfg p)
       in p\<lparr>px_rng := r, px_sessions := (px_sessions p)[i := e\<lparr>se_obfs_c2s := obfs_session_init prof a,
            se_obfs_s2c := obfs_session_init prof b, se_obfs_ready := True\<rparr>]\<rparr>)"

text \<open>A pointer to an obfuscation session: the proxy's own or an entry's.\<close>

datatype obfs_ref = ObfsProxy | ObfsEntry nat

fun get_obfs_c2s :: "proxy_t \<Rightarrow> obfs_ref \<Rightarrow> obfs_session_t" where
  "get_obfs_c2s p ObfsProxy = px_obfs_c2s p"
| "get_obfs_c2s p (ObfsEntry i) = se_obfs_c2s (px_sessions p ! i)"

fun set_obfs_c2s :: "proxy_t \<Rightarrow> obfs_ref \<Rightarrow> obfs_session_t \<Rightarrow> proxy_t" where
  "set_obfs_c2s p ObfsProxy s = p\<lparr>px_obfs_c2s := s\<rparr>"
| "set_obfs_c2s p (ObfsEntry i) s =
     p\<lparr>px_sessions := (px_sessions p)[i := (px_sessions p ! i)\<lparr>se_obfs_c2s := s\<rparr>]\<rparr>"

fun get_obfs_s2c :: "proxy_t \<Rightarrow> obfs_ref \<Rightarrow> obfs_session_t" where
  "get_obfs_s2c p ObfsProxy = px_obfs_s2c p"
| "get_obfs_s2c p (ObfsEntry i) = se_obfs_s2c (px_sessions p ! i)"

fun set_obfs_s2c :: "proxy_t \<Rightarrow> obfs_ref \<Rightarrow> obfs_session_t \<Rightarrow> proxy_t" where
  "set_obfs_s2c p ObfsProxy s = p\<lparr>px_obfs_s2c := s\<rparr>"
| "set_obfs_s2c p (ObfsEntry i) s =
     p\<lparr>px_sessions := (px_sessions p)[i := (px_sessions p ! i)\<lparr>se_obfs_s2c := s\<rparr>]\<rparr>"

definition obfs_max_packet_len :: "proxy_t \<Rightarrow> int" where
  "obfs_max_packet_len p = BUF_TOTAL - int (obfs_profile_overhead_max (cf_obfs_profile (px_cfg p)))"

section \<open>The client's address\<close>

text \<open>The test and update both c2s threads make on the first datagram of a batch; the flag
  tells whether the client was new.\<close>

definition track_client :: "proxy_t \<Rightarrow> sockaddr \<Rightarrow> nat \<Rightarrow> proxy_t \<times> bool" where
  "track_client p addr len =
    (if ss_family addr = AF_INET \<or> ss_family addr = AF_INET6 then
       let len = (if len > 128 then 128 else len) in
       if \<not> px_has_client p \<or> \<not> session_addr_equal (px_client_addr p) addr then
         let (a, l) = session_addr_copy (px_client_addr p) addr len
         in (p\<lparr>px_client_addr := a, px_client_addr_len := l, px_has_client := True\<rparr>, True)
       else (p, False)
     else (p, False))"

section \<open>The shortcut agrees with the full translation\<close>

text \<open>Where the shortcut is taken, \<open>transform_inbound\<close> would have delivered the same
  message.\<close>

lemma shortcut_in_spec:
  assumes "config_ready cfg" and "int (length p) \<ge> cf_s4 cfg + 32"
    and "\<not> cf_transport_size_ambiguous cfg
      \<or> (int (length p) \<noteq> cf_init_total cfg \<and> int (length p) \<noteq> cf_resp_total cfg
         \<and> int (length p) \<noteq> cf_cookie_total cfg)"
    and h: "hrange_contains (cf_h4 cfg) (le32_of (drop (nat (cf_s4 cfg)) p))"
  shows "in_spec cfg p = Some (retype 4 (drop (nat (cf_s4 cfg)) p))"
proof -
  have amb: "cf_transport_size_ambiguous cfg \<longleftrightarrow> cf_init_total cfg \<ge> cf_s4 cfg + 32
          \<or> cf_resp_total cfg \<ge> cf_s4 cfg + 32 \<or> cf_cookie_total cfg \<ge> cf_s4 cfg + 32"
    using assms(1) unfolding config_ready_def by blast
  then have ne: "int (length p) \<noteq> cf_init_total cfg" "int (length p) \<noteq> cf_resp_total cfg"
    "int (length p) \<noteq> cf_cookie_total cfg" using assms(2,3) by auto
  have s4: "0 \<le> cf_s4 cfg" using config_ready_bounds [OF assms(1)] by simp
  then have len: "\<not> length p < 4" using assms(2) by linarith
  have noop: "in_spec cfg p = Some p \<and> retype 4 (drop (nat (cf_s4 cfg)) p) = p"
    if n: "cf_h4_noop cfg" "le32_of p = 4" "length p \<ge> 32"
  proof -
    have "cf_s4 cfg = 0" using config_ready_totals(5) [OF assms(1)] n(1) by simp
    moreover have "retype 4 p = p" using retype_same [of p] n by simp
    ultimately show ?thesis using n len by (simp add: in_spec_def Let_def)
  qed
  show ?thesis
  proof (cases "cf_h4_noop cfg \<and> le32_of p = 4 \<and> length p \<ge> 32")
    case True
    then show ?thesis using noop by simp
  next
    case False
    then show ?thesis using ne len assms(2) h
      by (simp add: in_spec_def Let_def del: de_Morgan_conj)
  qed
qed

end
