(* ===== verification/Proxy_S2c.thy ===== *)
theory Proxy_S2c
  imports Proxy_Path
begin

text \<open>
  The paths from the remote to the clients: one packet in client mode
  (\<open>src/proxy_s2c_client.c\<close>) and one packet in gateway and server mode
  (\<open>src/proxy_s2c_gateway.c\<close>).  Each returns the proxy, the thread, the send queue, the
  outside calls in order and the return value.
\<close>

type_synonym queue = "(iovec \<times> dest) list"
type_synonym path_result = "(proxy_t \<times> thread_t \<times> queue \<times> action list \<times> bool) option"

section \<open>Client mode\<close>

text \<open>The message type in the debug line.\<close>

definition hs_type_name :: "u32 \<Rightarrow> string" where
  "hs_type_name t = (if t = WG_HANDSHAKE_INIT then ''init''
     else if t = WG_HANDSHAKE_RESPONSE then ''resp''
     else if t = WG_COOKIE_REPLY then ''cookie'' else ''unknown'')"

text \<open>The part after the shortcut: \<open>transform_inbound\<close>, the first-event logs, the queue.\<close>

definition s2c_client_slow :: "proxy_t \<Rightarrow> thread_t \<Rightarrow> iovec \<Rightarrow> queue \<Rightarrow> path_result" where
  "s2c_client_slow p th v q = do {
     (th, out) \<leftarrow> th_transform_inbound th v (px_cfg p);
     (case out of
        None \<Rightarrow> Some (p, th, q, [log_debug ''s2c: junk packet dropped''], False)
      | Some (pl, off, len) \<Rightarrow> do {
          mtype \<leftarrow> (if len \<ge> 4 then rd32 (place_bytes th pl) off else Some 0);
          let a1 = [log_debug (''s2c: handshake type='' @ hs_type_name mtype @ '' size=''
                     @ u32_to_str (of_nat len))];
          let resp = (mtype = WG_HANDSHAKE_RESPONSE);
          let a2 = (if resp then first_event (px_fe_resp_received p)
                     (''s2c: AWG handshake response received from remote, transformed to WG (size=''
                      @ u32_to_str (of_nat len) @ '')'') else []);
          let p = (if resp then p\<lparr>px_fe_resp_received := True\<rparr> else p);
          let q = q @ [((pl, off, len), Some (px_client_addr p, px_client_addr_len p))];
          let a3 = (if resp then first_event (px_fe_resp_sent p)
                     ''s2c: WG handshake response delivered to client'' else []);
          let p = (if resp then p\<lparr>px_fe_resp_sent := True\<rparr> else p);
          Some (p, th, q, a1 @ a2 @ a3, True)
        })
   }"

definition proxy_s2c_process_client :: "proxy_t \<Rightarrow> thread_t \<Rightarrow> iovec \<Rightarrow> queue \<Rightarrow> path_result" where
  "proxy_s2c_process_client p th v q = do {
     let cfg = px_cfg p;
     let marker_seen_before = ob_marker_seen (px_obfs_s2c p);
     d \<leftarrow> iov_bytes th v;
     (s, w) \<leftarrow> obfs_unwrap (px_obfs_s2c p) d;
     let p = p\<lparr>px_obfs_s2c := s\<rparr>;
     (case w of
        None \<Rightarrow>
          let (th, a1) = (if \<not> marker_seen_before then log_marker_reject_once th s ''s2c'' else (th, []));
              p = p\<lparr>px_obfs_fail_s2c := px_obfs_fail_s2c p + 1\<rparr>
          in Some (p, th, q, a1 @ log_obfs_fail ''s2c'' (px_obfs_fail_s2c p) cfg, False)
      | Some (o', n) \<Rightarrow> do {
          let (th, a1) = (if \<not> marker_seen_before then log_marker_accept_once th s ''s2c'' else (th, []));
          let v = (fst v, fst (snd v) + o', n);
          fast \<leftarrow> transport_shortcut th v cfg;
          (case fast of
             Some (th, v) \<Rightarrow>
               Some (p\<lparr>px_fe_transport_s2c := True\<rparr>, th,
                 q @ [(v, Some (px_client_addr p, px_client_addr_len p))],
                 a1 @ first_event (px_fe_transport_s2c p) ''s2c: first transport packet to client'', True)
           | None \<Rightarrow> do {
               (p, th, q, a2, r) \<leftarrow> s2c_client_slow p th v q;
               Some (p, th, q, a1 @ a2, r)
             })
        })
   }"

section \<open>Gateway and server mode\<close>

definition pick_obfs_tx :: "proxy_t \<Rightarrow> nat option \<Rightarrow> proxy_t \<times> obfs_ref" where
  "pick_obfs_tx p dest_entry = (case dest_entry of
     None \<Rightarrow> (p, ObfsProxy)
   | Some i \<Rightarrow> if cf_mode (px_cfg p) \<noteq> AWG_MODE_SERVER then (p, ObfsProxy)
       else (ensure_obfs p i, ObfsEntry i))"

text \<open>The routing of server mode: the session the packet belongs to, its address, and the
  receiver index it was found by.  Outer \<open>None\<close> is a lookup that would not end.\<close>

definition server_route ::
  "proxy_t \<Rightarrow> bytes \<Rightarrow> u32 \<Rightarrow> nat
    \<Rightarrow> ((nat \<times> sockaddr \<times> nat) option \<times> u32 option \<times> action list) option" where
  "server_route p pkt msg_type n =
    (let by_index = (\<lambda>idx. do {
           r \<leftarrow> session_lookup (px_sessions p) idx;
           Some (r, map_option (\<lambda>_. idx) r, [])
         })
     in
     if msg_type = WG_TRANSPORT_DATA \<and> n \<ge> WG_TRANSPORT_MIN then do { idx \<leftarrow> rd32 pkt 4; by_index idx }
     else if msg_type = WG_HANDSHAKE_RESPONSE \<and> n = WG_RESP_SIZE then do { idx \<leftarrow> rd32 pkt 8; by_index idx }
     else if msg_type = WG_COOKIE_REPLY \<and> n = WG_COOKIE_SIZE then do { idx \<leftarrow> rd32 pkt 4; by_index idx }
     else if msg_type = WG_HANDSHAKE_INIT \<and> n = WG_INIT_SIZE then do {
       r \<leftarrow> session_find_sole_entry_with_addr (px_sessions p);
       Some (r, None, (if r = None then [] else [log_debug ''s2c: server: init routed to sole client'']))
     }
     else Some (None, None, []))"

text \<open>Wrapping and queueing, the same at the end of both branches.\<close>

definition wrap_and_queue ::
  "proxy_t \<Rightarrow> thread_t \<Rightarrow> nat option \<Rightarrow> iovec \<Rightarrow> sockaddr \<times> nat \<Rightarrow> queue \<Rightarrow> path_result" where
  "wrap_and_queue p th dest_entry v dest q =
    (if int (snd (snd v)) > obfs_max_packet_len p then Some (p, th, q, [], False)
     else do {
       let (p, ref) = pick_obfs_tx p dest_entry;
       (s, th, w) \<leftarrow> th_obfs_wrap (get_obfs_s2c p ref) th v;
       let p = set_obfs_s2c p ref s;
       (case w of
          None \<Rightarrow> Some (p, th, q, [], False)
        | Some v \<Rightarrow>
            let (th, a) = log_marker_sent_once th s ''s2c''
            in Some (p, th, q @ [(v, Some dest)], a, True))
     })"

text \<open>A transport packet: header, padding in front, wrap.  \<open>i\<close> is the receive buffer,
  \<open>prefix\<close> the offset of the packet in it.\<close>

definition s2c_gateway_transport ::
  "proxy_t \<Rightarrow> thread_t \<Rightarrow> nat \<Rightarrow> nat \<Rightarrow> nat \<Rightarrow> nat option \<Rightarrow> sockaddr \<times> nat \<Rightarrow> queue \<Rightarrow> path_result" where
  "s2c_gateway_transport p th i prefix n dest_entry dest q = do {
     (p, th) \<leftarrow> (if \<not> cf_h4_noop (px_cfg p) then do {
         let (h4, p) = pick_h4 p;
         b \<leftarrow> wr32 (place_bytes th (PBuf i)) prefix h4;
         Some (p, set_place (PBuf i) b th)
       } else Some (p, th));
     wrap_and_queue p th dest_entry (PBuf i, 0, prefix + n) dest q
   }"

text \<open>The peer whose key seals the outbound message in server mode, resolved once per
  session.\<close>

definition server_mac1key ::
  "proxy_t \<Rightarrow> bytes \<Rightarrow> u32 \<Rightarrow> nat \<Rightarrow> nat option \<Rightarrow> u32 option \<Rightarrow> proxy_t \<times> bytes option" where
  "server_mac1key p pkt msg_type n dest_entry expected =
    (let cfg = px_cfg p;
         peer_slot = session_get_peer_slot (px_sessions p) dest_entry;
         key = (if 0 \<le> peer_slot \<and> peer_slot < int (length (cf_server_peer_mac1keys cfg))
                then Some (cf_server_peer_mac1keys cfg ! nat peer_slot) else None)
     in
     if msg_type = WG_HANDSHAKE_RESPONSE \<and> n = WG_RESP_SIZE \<and> key = None then
       let resolved = config_server_resolve_peer_for_response cfg pkt n in
       if resolved \<ge> 0 then
         (p\<lparr>px_sessions := (case expected of
              Some idx \<Rightarrow> session_set_peer_slot_if_index (px_sessions p) dest_entry idx resolved
            | None \<Rightarrow> session_set_peer_slot (px_sessions p) dest_entry resolved)\<rparr>,
          Some (cf_server_peer_mac1keys cfg ! nat resolved))
       else (p, None)
     else (p, key))"

text \<open>Everything but transport: translate, then send at once with junk before it, or queue.\<close>

definition s2c_gateway_other ::
  "proxy_t \<Rightarrow> thread_t \<Rightarrow> nat \<Rightarrow> nat \<Rightarrow> nat \<Rightarrow> bytes option \<Rightarrow> nat option \<Rightarrow> sockaddr \<times> nat
    \<Rightarrow> (nat \<Rightarrow> u32) \<Rightarrow> queue \<Rightarrow> path_result" where
  "s2c_gateway_other p th i prefix n key dest_entry dest now q = do {
     let (v, r) = fastrand_u64 (px_rng p);
     let p = p\<lparr>px_rng := r\<rparr>;
     (th, out, junk) \<leftarrow> th_transform_outbound th i prefix n (px_cfg p) key v;
     if junk then do {
       (p, pkts) \<leftarrow> proxy_emit_send_junk_and_cps p now;
       let fd = px_listen_fd p;
       let a1 = log_debug ''s2c: gateway: handshake init, sending junk'' # map (Send fd (Some dest)) pkts;
       let (p, ref) = pick_obfs_tx p dest_entry;
       if int (snd (snd out)) > obfs_max_packet_len p then Some (p, th, q, a1, False)
       else do {
         (s, th, w) \<leftarrow> th_obfs_wrap (get_obfs_s2c p ref) th out;
         let p = set_obfs_s2c p ref s;
         (case w of
            None \<Rightarrow> Some (p, th, q, a1, True)
          | Some v \<Rightarrow> do {
              let (th, a2) = log_marker_sent_once th s ''s2c'';
              d \<leftarrow> iov_bytes th v;
              Some (p, th, q, a1 @ a2 @ [Send fd (Some dest) d], True)
            })
       }
     } else do {
       let (p, ref) = pick_obfs_tx p dest_entry;
       wrap_and_queue p th dest_entry out dest q
     }
   }"

definition proxy_s2c_process_gateway ::
  "proxy_t \<Rightarrow> thread_t \<Rightarrow> nat \<Rightarrow> nat \<Rightarrow> nat \<Rightarrow> (nat \<Rightarrow> u32) \<Rightarrow> queue \<Rightarrow> path_result" where
  "proxy_s2c_process_gateway p th i prefix n now q = do {
     let cfg = px_cfg p;
     let server_mode = (cf_mode cfg = AWG_MODE_SERVER);
     if server_mode \<and> n < 4 \<or> \<not> server_mode \<and> \<not> px_has_client p then Some (p, th, q, [], False)
     else do {
       pkt \<leftarrow> iov_bytes th (PBuf i, prefix, n);
       msg_type \<leftarrow> (if server_mode then rd32 pkt 0 else Some 0);
       (route, expected, a0) \<leftarrow> (if server_mode then server_route p pkt msg_type n
          else Some (None, None, []));
       (case (server_mode, route) of
          (True, None) \<Rightarrow> Some (p, th, q, a0 @ [log_debug ''s2c: server: no session for packet, dropping''], False)
        | _ \<Rightarrow> do {
            let dest_entry = map_option fst route;
            let dest = (case route of Some (e, a, l) \<Rightarrow> (a, l)
                        | None \<Rightarrow> (px_client_addr p, px_client_addr_len p));
            h \<leftarrow> (if n \<ge> WG_TRANSPORT_MIN then rd32 pkt 0 else Some 0);
            if n \<ge> WG_TRANSPORT_MIN \<and> h = WG_TRANSPORT_DATA then do {
              (p, th, q, a1, r) \<leftarrow> s2c_gateway_transport p th i prefix n dest_entry dest q;
              Some (p, th, q, a0 @ a1, r)
            } else do {
              let (p, key) = (if server_mode then server_mac1key p pkt msg_type n dest_entry expected
                              else (p, None));
              (p, th, q, a1, r) \<leftarrow> s2c_gateway_other p th i prefix n key dest_entry dest now q;
              Some (p, th, q, a0 @ a1, r)
            }
          })
     }
   }"

end
