(* ===== verification/Proxy_C2s.thy ===== *)
theory Proxy_C2s
  imports Proxy_Path
begin

text \<open>
  The paths from the clients to the remote: the client-mode thread
  (\<open>src/proxy_c2s_client.c\<close>) and the gateway and server thread
  (\<open>src/proxy_c2s_gateway.c\<close>).  A thread is a loop over what its receive calls return; each
  round processes a batch packet by packet and sends the queue.
\<close>

type_synonym c2s_state = "proxy_t \<times> thread_t \<times> (iovec \<times> dest) list \<times> action list"

text \<open>The queue is sent to the connected remote socket.\<close>

definition flush_c2s :: "int \<Rightarrow> c2s_state \<Rightarrow> c2s_state option" where
  "flush_c2s fd st = (case st of (p, th, q, acts) \<Rightarrow>
     if q = [] then Some (p, th, [], acts)
     else do {
       (p, th, a) \<leftarrow> send_queue p th fd q None;
       Some (p, th, [], acts @ a)
     })"

section \<open>Gateway and server mode\<close>

text \<open>The session a datagram's sender uses: in server mode the one of the entry with its
  address, if there is one.\<close>

definition pick_obfs_rx :: "proxy_t \<Rightarrow> sockaddr \<Rightarrow> (proxy_t \<times> obfs_ref) option" where
  "pick_obfs_rx p addr =
    (if cf_mode (px_cfg p) = AWG_MODE_SERVER then do {
       e \<leftarrow> session_find_by_addr (px_sessions p) addr;
       Some (case e of None \<Rightarrow> (p, ObfsProxy) | Some i \<Rightarrow> (ensure_obfs p i, ObfsEntry i))
     } else Some (p, ObfsProxy))"

text \<open>Server mode: the sender index of a handshake message is recorded with its address.\<close>

definition record_session ::
  "proxy_t \<Rightarrow> bytes \<Rightarrow> sockaddr \<Rightarrow> nat \<Rightarrow> (proxy_t \<times> action list) option" where
  "record_session p out addr addr_len =
    (if cf_mode (px_cfg p) = AWG_MODE_SERVER \<and> (ss_family addr = AF_INET \<or> ss_family addr = AF_INET6)
     then do {
       msg_type \<leftarrow> rd32 out 0;
       if msg_type = WG_HANDSHAKE_INIT \<and> length out = WG_INIT_SIZE
          \<or> msg_type = WG_HANDSHAKE_RESPONSE \<and> length out = WG_RESP_SIZE then do {
         sender_idx \<leftarrow> rd32 out 4;
         let addr_len = (if addr_len > 128 then 128 else addr_len);
         let p = p\<lparr>px_sessions := session_put (px_sessions p) sender_idx addr addr_len\<rparr>;
         let p = (case session_get_entry (px_sessions p) sender_idx of
                    None \<Rightarrow> p | Some i \<Rightarrow> ensure_obfs p i);
         Some (p, [log_debug (if msg_type = WG_HANDSHAKE_INIT
             then ''c2s: server: recorded init sender_index''
             else ''c2s: server: recorded response sender_index'')])
       } else Some (p, [])
     } else Some (p, []))"

text \<open>One datagram of a batch: buffer \<open>i\<close>, length \<open>n\<close>, its sender.\<close>

definition c2s_gateway_packet ::
  "int \<Rightarrow> nat \<Rightarrow> nat \<Rightarrow> sockaddr \<Rightarrow> nat \<Rightarrow> c2s_state \<Rightarrow> c2s_state option" where
  "c2s_gateway_packet fd i n addr addr_len st = (case st of (p, th, q, acts) \<Rightarrow>
     if n = 0 then Some st
     else do {
       let cfg = px_cfg p;
       (p, ref) \<leftarrow> pick_obfs_rx p addr;
       fast \<leftarrow> transport_shortcut th (PBuf i, 0, n) cfg;
       (case fast of
          Some (th, v) \<Rightarrow> Some (p, th, q @ [(v, None)], acts)
        | None \<Rightarrow> do {
            (p, th, q, acts) \<leftarrow> flush_c2s fd (p, th, q, acts);
            let marker_seen_before = ob_marker_seen (get_obfs_c2s p ref);
            d \<leftarrow> iov_bytes th (PBuf i, 0, n);
            (s, w) \<leftarrow> obfs_unwrap (get_obfs_c2s p ref) d;
            let p = set_obfs_c2s p ref s;
            (case w of
               None \<Rightarrow>
                 let (th, a1) = (if \<not> marker_seen_before then log_marker_reject_once th s ''c2s'' else (th, []));
                     p = p\<lparr>px_obfs_fail_c2s := px_obfs_fail_c2s p + 1\<rparr>
                 in Some (p, th, q, acts @ a1 @ log_obfs_fail ''c2s'' (px_obfs_fail_c2s p) cfg)
             | Some (off, len) \<Rightarrow> do {
                 let (th, a1) = (if \<not> marker_seen_before then log_marker_accept_once th s ''c2s'' else (th, []));
                 (th, out) \<leftarrow> th_transform_inbound th (PBuf i, off, len) cfg;
                 (case out of
                    None \<Rightarrow> Some (p, th, q, acts @ a1)
                  | Some v \<Rightarrow> do {
                      b \<leftarrow> iov_bytes th v;
                      (p, a2) \<leftarrow> record_session p b addr addr_len;
                      Some (p, th, q @ [(v, None)], acts @ a1 @ a2)
                    })
               })
          })
     })"

fun c2s_gateway_packets ::
  "int \<Rightarrow> nat \<Rightarrow> (bytes \<times> sockaddr \<times> nat) list \<Rightarrow> c2s_state \<Rightarrow> c2s_state option" where
  "c2s_gateway_packets fd i [] st = Some st"
| "c2s_gateway_packets fd i ((d, addr, addr_len) # ds) st = do {
     st \<leftarrow> c2s_gateway_packet fd i (min BUF_TOTAL (length d)) addr addr_len st;
     c2s_gateway_packets fd (i + 1) ds st
   }"

text \<open>What the other threads did, and what \<open>recvmmsg\<close> returned: up to 32 datagrams with
  their senders, none for an error; \<open>ge_host\<close> is \<open>getnameinfo\<close>'s answer.\<close>

record c2s_env =
  ge_stopped :: bool
  ge_remote_fd :: int
  ge_msgs :: "(bytes \<times> sockaddr \<times> nat) list"
  ge_host :: "int \<times> string"

text \<open>One round of the loop of \<open>proxy_c2s_thread_gateway\<close>.\<close>

definition c2s_gateway_round ::
  "proxy_t \<Rightarrow> thread_t \<Rightarrow> c2s_env \<Rightarrow> (proxy_t \<times> thread_t \<times> action list) option" where
  "c2s_gateway_round p th e = do {
     let p = p\<lparr>px_stopped := px_stopped p \<or> ge_stopped e, px_remote_fd := ge_remote_fd e\<rparr>;
     let msgs = take BATCH_SIZE (ge_msgs e);
     if msgs = [] then Some (p, th, [])
     else do {
       th \<leftarrow> store_datagrams 0 BUF_TOTAL 0 (map fst msgs) th;
       let p = p\<lparr>px_last_active := True\<rparr>;
       let (addr0, len0) = snd (hd msgs);
       let (p, new) = (if cf_mode (px_cfg p) \<noteq> AWG_MODE_SERVER then track_client p addr0 len0
                       else (p, False));
       let a0 = (if new then proxy_log_addr ''client: '' (px_client_addr p) (ge_host e) else []);
       if px_remote_fd p < 0 then Some (p, th, a0)
       else do {
         st \<leftarrow> c2s_gateway_packets (px_remote_fd p) 0 msgs (p, th, [], a0);
         (p', th, q, acts) \<leftarrow> flush_c2s (px_remote_fd p) st;
         Some (p', th, acts)
       }
     }
   }"

fun proxy_c2s_thread_gateway ::
  "proxy_t \<Rightarrow> thread_t \<Rightarrow> c2s_env list \<Rightarrow> (proxy_t \<times> thread_t \<times> action list) option" where
  "proxy_c2s_thread_gateway p th [] = Some (p, th, [])"
| "proxy_c2s_thread_gateway p th (e # es) =
     (if px_stopped p then Some (p, th, [])
      else do {
        (p, th, a) \<leftarrow> c2s_gateway_round p th e;
        (p, th, as) \<leftarrow> proxy_c2s_thread_gateway p th es;
        Some (p, th, a @ as)
      })"

section \<open>Client mode\<close>

text \<open>One packet of a batch: buffer \<open>i\<close>, length \<open>n\<close>; the data is at the headroom \<open>s4\<close>.
  \<open>now\<close> is the clock of the decoys.\<close>

definition c2s_client_transport :: "nat \<Rightarrow> nat \<Rightarrow> nat \<Rightarrow> c2s_state \<Rightarrow> c2s_state option" where
  "c2s_client_transport i prefix n st = (case st of (p, th, q, acts) \<Rightarrow> do {
     (p, th) \<leftarrow> (if \<not> cf_h4_noop (px_cfg p) then do {
         let (h4, p) = pick_h4 p;
         b \<leftarrow> wr32 (place_bytes th (PBuf i)) prefix h4;
         Some (p, set_place (PBuf i) b th)
       } else Some (p, th));
     Some (p\<lparr>px_fe_transport_c2s := True\<rparr>, th, q @ [((PBuf i, 0, prefix + n), None)],
       acts @ first_event (px_fe_transport_c2s p) ''c2s: first transport packet to remote'')
   })"

text \<open>Anything else, after the queue has been flushed: translate; an initiation goes out at
  once behind its decoys and junk, the rest is queued.  The result has the vector to queue and
  the calls made.\<close>

definition c2s_client_other ::
  "int \<Rightarrow> nat \<Rightarrow> nat \<Rightarrow> nat \<Rightarrow> (nat \<Rightarrow> u32) \<Rightarrow> proxy_t \<Rightarrow> thread_t
    \<Rightarrow> (proxy_t \<times> thread_t \<times> iovec option \<times> action list) option" where
  "c2s_client_other fd i prefix n now p th = do {
     hin \<leftarrow> (if n \<ge> 4 then rd32 (place_bytes th (PBuf i)) prefix else Some 0);
     let a0 = (if hin = WG_HANDSHAKE_INIT then first_event (px_fe_init_seen p)
         (''c2s: WG handshake init received from client (size='' @ u32_to_str (of_nat n) @ '')'') else []);
     let p = (if hin = WG_HANDSHAKE_INIT then p\<lparr>px_fe_init_seen := True\<rparr> else p);
     let (v, r) = fastrand_u64 (px_rng p);
     let p = p\<lparr>px_rng := r\<rparr>;
     (th, out, junk) \<leftarrow> th_transform_outbound th i prefix n (px_cfg p) None v;
     if junk then do {
       (p, pkts) \<leftarrow> proxy_emit_send_junk_and_cps p now;
       let a1 = log_debug ''c2s: handshake init, sending junk'' # map (Send fd None) pkts;
       if int (snd (snd out)) > obfs_max_packet_len p then Some (p, th, None, a0 @ a1)
       else do {
         (s, th, w) \<leftarrow> th_obfs_wrap (px_obfs_c2s p) th out;
         let p = p\<lparr>px_obfs_c2s := s\<rparr>;
         (th, a2) \<leftarrow> (case w of
            None \<Rightarrow> Some (th, [])
          | Some v \<Rightarrow> do {
              let (th, a2) = log_marker_sent_once th s ''c2s'';
              d \<leftarrow> iov_bytes th v;
              Some (th, a2 @ [Send fd None d])
            });
         Some (p\<lparr>px_fe_init_sent := True\<rparr>, th, None, a0 @ a1 @ a2
           @ first_event (px_fe_init_sent p) (''c2s: AWG handshake init forwarded to remote (size=''
               @ u32_to_str (of_nat (snd (snd out))) @ '')''))
       }
     }
     else if int (snd (snd out)) > obfs_max_packet_len p then Some (p, th, None, a0)
     else do {
       (s, th, w) \<leftarrow> th_obfs_wrap (px_obfs_c2s p) th out;
       let p = p\<lparr>px_obfs_c2s := s\<rparr>;
       (case w of
          None \<Rightarrow> Some (p, th, None, a0)
        | Some v \<Rightarrow>
            let (th, a2) = log_marker_sent_once th s ''c2s''
            in Some (p, th, Some v, a0 @ a2))
     }
   }"

definition c2s_client_packet ::
  "int \<Rightarrow> (nat \<Rightarrow> u32) \<Rightarrow> nat \<Rightarrow> nat \<Rightarrow> c2s_state \<Rightarrow> c2s_state option" where
  "c2s_client_packet fd now i n st = (case st of (p, th, q, acts) \<Rightarrow>
     if n = 0 then Some st
     else do {
       prefix \<leftarrow> ptr_off (cf_s4 (px_cfg p));
       h \<leftarrow> (if n \<ge> WG_TRANSPORT_MIN then rd32 (place_bytes th (PBuf i)) prefix else Some 0);
       if n \<ge> WG_TRANSPORT_MIN \<and> h = WG_TRANSPORT_DATA then c2s_client_transport i prefix n st
       else do {
         (p, th, q, acts) \<leftarrow> flush_c2s fd st;
         (p, th, w, a) \<leftarrow> c2s_client_other fd i prefix n now p th;
         Some (p, th, (case w of None \<Rightarrow> q | Some v \<Rightarrow> q @ [(v, None)]), acts @ a)
       }
     })"

fun c2s_client_packets ::
  "int \<Rightarrow> (nat \<Rightarrow> u32) \<Rightarrow> nat \<Rightarrow> nat list \<Rightarrow> c2s_state \<Rightarrow> c2s_state option" where
  "c2s_client_packets fd now i [] st = Some st"
| "c2s_client_packets fd now i (n # ns) st = do {
     st \<leftarrow> c2s_client_packet fd now i n st;
     c2s_client_packets fd now (i + 1) ns st
   }"

text \<open>A round's receive.  \<open>cl_addr\<close> is \<open>recv_c2s.addrs[0]\<close>, \<open>cl_namelen\<close> the
  \<open>msg_namelen\<close> of the first message header, \<open>cl_gro_namelen\<close> that of the GRO header,
  \<open>cl_no_coalesce\<close> the counter of uncoalesced receives.\<close>

record c2s_local =
  cl_addr :: sockaddr
  cl_namelen :: nat
  cl_gro_namelen :: nat
  cl_no_coalesce :: nat

record c2s_client_env =
  ce_stopped :: bool
  ce_remote_fd :: int
  ce_msgs :: "bytes list"
  ce_gro :: recv_result
  ce_addr :: sockaddr
  ce_addr_len :: nat
  ce_host :: "int \<times> string"
  ce_now :: "nat \<Rightarrow> u32"

text \<open>The split of a coalesced receive into the receive buffers: segments over 1500 bytes are
  skipped, and at most 32 are kept.\<close>

function c2s_gro_split ::
  "nat \<Rightarrow> nat \<Rightarrow> nat \<Rightarrow> nat \<Rightarrow> nat \<Rightarrow> thread_t \<Rightarrow> (thread_t \<times> nat list \<times> action list) option" where
  "c2s_gro_split prefix tot seg off nrecv th =
     (if off < tot \<and> nrecv < BATCH_SIZE \<and> 0 < seg then
        let plen = (if off + seg \<le> tot then seg else tot - off) in
        if plen > BUF_SIZE then do {
          (th, ns, a) \<leftarrow> c2s_gro_split prefix tot seg (off + seg) nrecv th;
          Some (th, ns, log_debug ''c2s: dropping oversized GRO segment'' # a)
        } else do {
          d \<leftarrow> rd (th_gro th) off plen;
          b \<leftarrow> wr (place_bytes th (PBuf nrecv)) prefix d;
          (th, ns, a) \<leftarrow> c2s_gro_split prefix tot seg (off + seg) (nrecv + 1)
            (set_place (PBuf nrecv) b th);
          Some (th, plen # ns, a)
        }
      else Some (th, [], []))"
  by pat_completeness auto
termination by (relation "measure (\<lambda>(prefix, tot, seg, off, nrecv, th). tot - off)") auto

declare c2s_gro_split.simps [simp del]

text \<open>The receive of one round: the lengths of the packets now in the buffers; \<open>None\<close> inside
  is \<open>continue\<close>.\<close>

definition c2s_client_recv ::
  "proxy_t \<Rightarrow> thread_t \<Rightarrow> c2s_local \<Rightarrow> c2s_client_env
    \<Rightarrow> (proxy_t \<times> thread_t \<times> c2s_local \<times> nat list option \<times> action list) option" where
  "c2s_client_recv p th l e = do {
     prefix \<leftarrow> ptr_off (cf_s4 (px_cfg p));
     if px_gro_enabled_c2s p then
       (case ce_gro e of
          RecvError _ \<Rightarrow> Some (p, th, l\<lparr>cl_gro_namelen := 128\<rparr>, None, [])
        | RecvData d cms \<Rightarrow> do {
            let d = take GRO_BUF_SIZE d;
            let total = length d;
            if total = 0 then Some (p, th, l\<lparr>cl_gro_namelen := 128\<rparr>, None, [])
            else do {
              let th = th\<lparr>th_gro := splice (th_gro th) 0 d\<rparr>;
              let l = l\<lparr>cl_addr := ce_addr e, cl_gro_namelen := ce_addr_len e\<rparr>;
              let seg = gro_seg_size cms;
              if seg > 0 \<and> total > seg then do {
                (th, ns, a) \<leftarrow> c2s_gro_split prefix total seg 0 0 th;
                Some (p, th, l\<lparr>cl_no_coalesce := 0\<rparr>, Some ns, a)
              } else do {
                let l = l\<lparr>cl_no_coalesce := cl_no_coalesce l + 1\<rparr>;
                let off = (cl_no_coalesce l \<ge> 8);
                let p = (if off then p\<lparr>px_gro_enabled_c2s := False\<rparr> else p);
                let a = (if off then [log_info ''c2s: GRO not coalescing, falling back to recvmmsg''] else []);
                if total > BUF_SIZE then
                  Some (p, th, l, None, a @ [log_debug ''c2s: dropping oversized GRO datagram''])
                else do {
                  b \<leftarrow> wr (place_bytes th (PBuf 0)) prefix d;
                  Some (p, set_place (PBuf 0) b th, l, Some [total], a)
                }
              }
            }
          })
     else do {
       let msgs = take BATCH_SIZE (ce_msgs e);
       if msgs = [] then Some (p, th, l\<lparr>cl_namelen := 128\<rparr>, None, [])
       else do {
         th \<leftarrow> store_datagrams prefix BUF_SIZE 0 msgs th;
         Some (p, th, l\<lparr>cl_addr := ce_addr e, cl_namelen := ce_addr_len e\<rparr>,
               Some (map (\<lambda>d. min BUF_SIZE (length d)) msgs), [])
       }
     }
   }"

text \<open>The source port follows the client's in automatic mode.\<close>

definition follow_src_port :: "proxy_t \<Rightarrow> sockaddr \<Rightarrow> proxy_t \<times> action list" where
  "follow_src_port p addr =
    (let cp = int (unat (net_addr_port_host addr)) in
     if px_auto_src_port p \<and> px_local_port p \<noteq> cp
     then (p\<lparr>px_local_port := cp, px_reconnect_needed := True\<rparr>,
           [log_info (''src port: auto, reconnecting port='' @ u32_to_str (of_int cp))])
     else (p, []))"

definition c2s_client_round ::
  "proxy_t \<Rightarrow> thread_t \<Rightarrow> c2s_local \<Rightarrow> c2s_client_env
    \<Rightarrow> (proxy_t \<times> thread_t \<times> c2s_local \<times> action list) option" where
  "c2s_client_round p th l e = do {
     let p = p\<lparr>px_stopped := px_stopped p \<or> ce_stopped e, px_remote_fd := ce_remote_fd e\<rparr>;
     (p, th, l, ns, a0) \<leftarrow> c2s_client_recv p th l e;
     (case ns of
        None \<Rightarrow> Some (p, th, l, a0)
      | Some ns \<Rightarrow> do {
          let p = p\<lparr>px_last_active := True\<rparr>;
          let addr = cl_addr l;
          let len = (if px_gro_enabled_c2s p then cl_gro_namelen l else cl_namelen l);
          let (p, new) = track_client p addr len;
          let (p, a1) = (if new then
              let (p, a) = follow_src_port p addr
              in (p, proxy_log_addr ''client: '' (px_client_addr p) (ce_host e) @ a)
            else (p, []));
          if px_remote_fd p < 0 then Some (p, th, l, a0 @ a1)
          else do {
            st \<leftarrow> c2s_client_packets (px_remote_fd p) (ce_now e) 0 ns (p, th, [], a0 @ a1);
            (p', th, q, acts) \<leftarrow> flush_c2s (px_remote_fd p) st;
            Some (p', th, l, acts)
          }
        })
   }"

fun proxy_c2s_thread_client ::
  "proxy_t \<Rightarrow> thread_t \<Rightarrow> c2s_local \<Rightarrow> c2s_client_env list
    \<Rightarrow> (proxy_t \<times> thread_t \<times> c2s_local \<times> action list) option" where
  "proxy_c2s_thread_client p th l [] = Some (p, th, l, [])"
| "proxy_c2s_thread_client p th l (e # es) =
     (if px_stopped p then Some (p, th, l, [])
      else do {
        (p, th, l, a) \<leftarrow> c2s_client_round p th l e;
        (p, th, l, as) \<leftarrow> proxy_c2s_thread_client p th l es;
        Some (p, th, l, a @ as)
      })"

end
