(* ===== verification/Proxy_Lifecycle.thy ===== *)
theory Proxy_Lifecycle
  imports Proxy_Path Proxy_Control
begin

text \<open>
  The life of the proxy around its data paths: dialling the remote and the DNS failure window
  (\<open>src/proxy_net.c\<close>), the socket helpers (\<open>src/net_sock.c\<close>), reconnecting
  (\<open>src/proxy_reconnect.c\<close>), start-up with its back-off (\<open>src/proxy_startup.c\<close>), control
  set-up (\<open>src/proxy_control.c\<close>), initialisation and the order of a run (\<open>src/proxy.c\<close>), and
  the release of resources (\<open>src/proxy_shutdown.c\<close>).  System calls are parameters; sockets
  opened, bound, connected and closed appear as actions.
\<close>

section \<open>Dialling\<close>

text \<open>What the system answers during one dial: resolver, clock, \<open>socket\<close>,
  \<open>setsockopt(SO_REUSEADDR)\<close>, \<open>bind\<close>, \<open>connect\<close>, \<open>getnameinfo\<close> and the error
  texts.\<close>

record dial_env =
  de_gai :: gai_result
  de_gai_msg :: "string option"
  de_now :: "int option"
  de_host :: "int \<times> string"
  de_socket :: int
  de_reuse :: int
  de_bind :: int
  de_connect :: int
  de_err :: string

abbreviation (input) "INT_MAX \<equiv> 2147483647"

definition monotonic_now_sec :: "int option \<Rightarrow> int" where
  "monotonic_now_sec r = (case r of
     None \<Rightarrow> 0
   | Some t \<Rightarrow> if t \<le> 0 then 0 else if t > INT_MAX then INT_MAX else t)"

definition proxy_reset_dns_resolve_failure_window :: "proxy_t \<Rightarrow> proxy_t" where
  "proxy_reset_dns_resolve_failure_window p = p\<lparr>px_dns_resolve_fail_started_at := 0\<rparr>"

definition gai_text :: "string option \<Rightarrow> string" where
  "gai_text m = (case m of None \<Rightarrow> ''unknown resolver error'' | Some m \<Rightarrow> m)"

text \<open>After \<open>Exit\<close> the process is gone: the state with it is the last one.  \<open>None\<close> for the
  proxy is the call of \<open>proxy_resolve_addr\<close>.\<close>

definition proxy_note_dns_resolve_failure ::
  "proxy_t \<Rightarrow> string \<Rightarrow> dial_env \<Rightarrow> proxy_t \<times> action list" where
  "proxy_note_dns_resolve_failure p host e =
    (let a0 = [log_always (''resolve '' @ host @ '': '' @ gai_text (de_gai_msg e))];
         limit = cf_dns_resolve_failure_timeout (px_cfg p) in
     if limit \<le> 0 then (p, a0)
     else
       let now = monotonic_now_sec (de_now e);
           p = (if px_dns_resolve_fail_started_at p \<le> 0
                then p\<lparr>px_dns_resolve_fail_started_at := now\<rparr> else p);
           elapsed = now - px_dns_resolve_fail_started_at p
       in if elapsed < limit then (p, a0)
          else (p, a0 @ [log_always (''DNS resolve failure timeout exceeded: elapsed=''
                 @ u32_to_str (of_int elapsed) @ ''s limit='' @ u32_to_str (of_int limit)
                 @ ''s, exiting''), Exit 1]))"

text \<open>\<open>proxy_resolve_addr\<close> passes no proxy: a failure is only logged.\<close>

definition proxy_resolve_addr ::
  "string \<Rightarrow> dial_env \<Rightarrow> (sockaddr \<times> nat) option \<times> action list" where
  "proxy_resolve_addr host e = (case net_addr_resolve_host_port (de_gai e) of
     Inl _ \<Rightarrow> (None, [log_info (''resolving '' @ host),
                log_always (''resolve '' @ host @ '': '' @ gai_text (de_gai_msg e))])
   | Inr (addr, len) \<Rightarrow> (Some (addr, len), log_info (''resolving '' @ host)
       # (case net_addr_to_host (de_host e) of None \<Rightarrow> []
          | Some h \<Rightarrow> [log_info (''resolved '' @ host @ '' -> '' @ h)])))"

definition net_sock_set_buffers :: "int \<Rightarrow> int \<Rightarrow> action list" where
  "net_sock_set_buffers fd sz = [SetOpt fd ''SO_RCVBUF'' sz, SetOpt fd ''SO_SNDBUF'' sz]"

definition net_sock_set_busy_poll :: "int \<Rightarrow> int \<Rightarrow> int \<Rightarrow> action list" where
  "net_sock_set_busy_poll fd usec budget =
    (if usec \<le> 0 then []
     else SetOpt fd ''SO_BUSY_POLL'' usec
       # (if budget > 0 then [SetOpt fd ''SO_BUSY_POLL_BUDGET'' budget] else []))"

definition net_sock_bind_any_port ::
  "int \<Rightarrow> nat \<Rightarrow> u16 \<Rightarrow> dial_env \<Rightarrow> int \<times> action list" where
  "net_sock_bind_any_port fd family port e =
    (let a0 = [SetOpt fd ''SO_REUSEADDR'' 1]; (addr, len) = bind_any_addr family port in
     if de_reuse e < 0 then (-1, a0)
     else if de_bind e < 0 then (-1, a0 @ [Bind fd addr len])
     else (0, a0 @ [Bind fd addr len]))"

text \<open>The part of \<open>proxy_dial_remote\<close> after the address is known.\<close>

definition dial_socket :: "proxy_t \<Rightarrow> dial_env \<Rightarrow> int \<times> action list" where
  "dial_socket p e =
    (let fd = de_socket e in
     if fd < 0 then (-1, [])
     else
       let rotate = (px_auto_src_port p \<and> px_reconnect_drift p);
           bind_port = (if rotate then 0 else px_local_port p);
           a1 = Open fd # (if rotate
             then [log_info ''src port: rotating (fresh ephemeral) to reset path state''] else []);
           (br, a2) = (if bind_port > 0
             then net_sock_bind_any_port fd (ss_family (px_remote_addr p)) (of_int bind_port) e
             else (0, []))
       in if br < 0 then (-1, a1 @ a2 @ [log_error (''bind failed: '' @ de_err e), Close fd])
          else
            let a3 = [Connect fd (px_remote_addr p) (px_remote_addr_len p)] in
            if de_connect e < 0
            then (-1, a1 @ a2 @ a3 @ [log_error (''connect failed: '' @ de_err e), Close fd])
            else (fd, a1 @ a2 @ a3 @ proxy_log_addr ''connected to '' (px_remote_addr p) (de_host e)
                   @ net_sock_set_buffers fd (cf_socket_buf (px_cfg p))
                   @ net_sock_set_busy_poll fd (cf_busy_poll (px_cfg p)) BATCH_SIZE))"

definition proxy_dial_remote :: "proxy_t \<Rightarrow> dial_env \<Rightarrow> int \<times> proxy_t \<times> action list" where
  "proxy_dial_remote p e =
    (let a0 = [log_info (''resolving '' @ px_remote_host p)] in
     case net_addr_resolve_host_port (de_gai e) of
       Inl err \<Rightarrow>
         let (p, a) = proxy_note_dns_resolve_failure p (px_remote_host p) e in (-1, p, a0 @ a)
     | Inr (addr, len) \<Rightarrow>
         let p = proxy_reset_dns_resolve_failure_window
               (p\<lparr>px_remote_addr := addr, px_remote_addr_len := len\<rparr>);
             a1 = (case net_addr_to_host (de_host e) of None \<Rightarrow> []
                   | Some h \<Rightarrow> [log_info (''resolved '' @ px_remote_host p @ '' -> '' @ h)]);
             (fd, a2) = dial_socket p e
         in (fd, p, a0 @ a1 @ a2))"

section \<open>Reconnecting\<close>

definition proxy_do_reconnect :: "proxy_t \<Rightarrow> dial_env \<Rightarrow> int \<times> proxy_t \<times> action list" where
  "proxy_do_reconnect p e =
    (let old_fd = px_remote_fd p;
         (p, a0) = (if old_fd \<ge> 0 then (p\<lparr>px_remote_fd := -1\<rparr>, [Close old_fd]) else (p, []));
         a1 = [log_info (''reconnecting to '' @ px_remote_host p)];
         (fd, p, a2) = proxy_dial_remote p e
     in if fd < 0 then (-1, p, a0 @ a1 @ a2)
        else
          (fd, p\<lparr>px_last_active := True, px_last_remote_rx := False,
                px_has_client := (if cf_mode (px_cfg p) = AWG_MODE_CLIENT then False else px_has_client p),
                px_reconnect_needed := False,
                px_fe_init_seen := False, px_fe_init_sent := False, px_fe_remote_pkt := False,
                px_fe_resp_received := False, px_fe_resp_sent := False,
                px_fe_transport_c2s := False, px_fe_transport_s2c := False,
                px_remote_fd := fd\<rparr>,
           a0 @ a1 @ a2 @ [log_info (''reconnected to '' @ px_remote_host p)]))"

section \<open>Start-up\<close>

text \<open>The delay before attempt \<open>attempt + 1\<close>: doubled from 1, capped at 60.\<close>

fun delay_loop :: "nat \<Rightarrow> int \<Rightarrow> int" where
  "delay_loop 0 delay = delay"
| "delay_loop (Suc n) delay = (if delay < 60 then delay_loop n (delay * 2) else delay)"

definition retry_delay :: "nat \<Rightarrow> int" where
  "retry_delay attempt = (let d = delay_loop (attempt - 1) 1 in if d > 60 then 60 else d)"

text \<open>The connect loop: \<open>es\<close> are the answers to the dials to come, \<open>Inr\<close> the descriptor,
  \<open>Inl True\<close> giving up, \<open>Inl False\<close> the process exited or the answers ran out.\<close>

fun connect_loop ::
  "proxy_t \<Rightarrow> nat \<Rightarrow> dial_env list \<Rightarrow> (bool + int) \<times> proxy_t \<times> action list" where
  "connect_loop p attempt [] = (Inl False, p, [])"
| "connect_loop p attempt (e # es) =
    (let (fd, p, a0) = proxy_dial_remote p e; attempt = attempt + 1; retries = cf_connect_retries (px_cfg p) in
     if Exit 1 \<in> set a0 then (Inl False, p, a0)
     else if fd \<ge> 0 then (Inr fd, p, a0)
     else if retries > 0 \<and> int attempt \<ge> retries then
       (Inl True, p, a0 @ [log_error (''initial connect failed after '' @ u32_to_str (of_nat attempt)
          @ '' attempts''), Close (px_listen_fd p)])
     else
       let delay = retry_delay attempt;
           (r, p, a1) = connect_loop p attempt es
       in (r, p, a0 @ [log_error (''initial connect failed, retrying in '' @ u32_to_str (of_int delay)),
            Sleep delay] @ a1))"

text \<open>\<open>proxy_log_socket_buffers\<close>: what \<open>getsockopt\<close> gives for the two sizes.\<close>

definition proxy_log_socket_buffers :: "awg_config_t \<Rightarrow> string \<Rightarrow> int \<Rightarrow> int \<Rightarrow> action list" where
  "proxy_log_socket_buffers cfg label r w =
    [log_info (label @ '' socket buf: requested='' @ u32_to_str (of_int (cf_socket_buf cfg div 1024))
       @ ''KB, actual read='' @ u32_to_str (of_int (r div 1024)) @ ''KB write=''
       @ u32_to_str (of_int (w div 1024)) @ ''KB'')]"

record startup_env =
  se_socket :: int
  se_reuse_ok :: bool
  se_bind_ok :: bool
  se_gro_ok :: bool
  se_sizes :: "int \<times> int"
  se_dials :: "dial_env list"

text \<open>The result is 0, -1, or \<open>None\<close> when the process exited (or still retries at the end of
  the answers).\<close>

definition proxy_startup_network ::
  "proxy_t \<Rightarrow> startup_env \<Rightarrow> int option \<times> proxy_t \<times> action list" where
  "proxy_startup_network p e =
    (let cfg = px_cfg p; p = p\<lparr>px_listen_fd := se_socket e\<rparr>; lfd = px_listen_fd p in
     if lfd < 0 then (Some (-1), p, [log_error ''socket create failed''])
     else
       let a0 = [Open lfd, SetOpt lfd ''SO_REUSEADDR'' 1]
             @ (if se_reuse_ok e then [Bind lfd (px_listen_addr p) (px_listen_addr_len p)] else []) in
       if \<not> se_reuse_ok e \<or> \<not> se_bind_ok e then
         (Some (-1), p, a0 @ [log_error ''bind failed'', Close lfd])
       else
         let a1 = net_sock_set_buffers lfd (cf_socket_buf cfg)
               @ net_sock_set_busy_poll lfd (cf_busy_poll cfg) BATCH_SIZE;
             (p, a2) = (if cf_no_gro cfg = 0 then
                 (p\<lparr>px_gro_enabled_c2s := se_gro_ok e\<rparr>,
                  SetOpt lfd ''UDP_GRO'' 1 # (if se_gro_ok e then [log_info ''c2s: UDP GRO enabled''] else []))
               else (p, []));
             a3 = proxy_log_socket_buffers cfg ''listen'' (fst (se_sizes e)) (snd (se_sizes e));
             (r, p, a4) = connect_loop p 0 (se_dials e)
         in case r of
              Inl True \<Rightarrow> (Some (-1), p, a0 @ a1 @ a2 @ a3 @ a4)
            | Inl False \<Rightarrow> (None, p, a0 @ a1 @ a2 @ a3 @ a4)
            | Inr rfd \<Rightarrow> (Some 0, p\<lparr>px_remote_fd := rfd, px_last_active := True\<rparr>,
                a0 @ a1 @ a2 @ a3 @ a4
                @ proxy_log_socket_buffers cfg ''remote'' (fst (se_sizes e)) (snd (se_sizes e))))"

text \<open>\<open>proxy_control_init\<close>, given what \<open>signalfd\<close> and \<open>timerfd_create\<close>
  return; the timer fires every five seconds, the interval that \<open>SetOpt\<close> stands for.\<close>

definition proxy_control_init :: "proxy_t \<Rightarrow> int \<Rightarrow> int \<Rightarrow> int \<times> proxy_t \<times> action list" where
  "proxy_control_init p sfd tfd =
    (if sfd < 0 then (-1, p\<lparr>px_signal_fd := sfd\<rparr>, [log_error ''signalfd failed''])
     else if tfd < 0 then (-1, p\<lparr>px_signal_fd := -1, px_timer_fd := tfd\<rparr>,
       [Open sfd, log_error ''timerfd failed'', Close sfd])
     else (0, p\<lparr>px_signal_fd := sfd, px_timer_fd := tfd\<rparr>, [Open sfd, Open tfd, SetOpt tfd ''timerfd_settime'' 5]))"

section \<open>Shutdown\<close>

definition proxy_shutdown_sockets :: "proxy_t \<Rightarrow> proxy_t \<times> action list" where
  "proxy_shutdown_sockets p =
    (p\<lparr>px_stopped := True\<rparr>,
     (if px_listen_fd p \<ge> 0 then [Shutdown (px_listen_fd p)] else [])
     @ (if px_remote_fd p \<ge> 0 then [Shutdown (px_remote_fd p)] else []))"

definition proxy_cleanup_resources :: "proxy_t \<Rightarrow> proxy_t \<times> action list" where
  "proxy_cleanup_resources p =
    (let close_fd = (\<lambda>fd. if fd \<ge> 0 then [Close fd] else []);
         gone = (\<lambda>fd. if fd \<ge> 0 then -1 else fd) in
     (p\<lparr>px_remote_fd := gone (px_remote_fd p), px_listen_fd := gone (px_listen_fd p),
        px_signal_fd := gone (px_signal_fd p), px_timer_fd := gone (px_timer_fd p),
        px_junk_buf := None, px_junk_sizes := None\<rparr>,
      close_fd (px_remote_fd p) @ close_fd (px_listen_fd p) @ close_fd (px_signal_fd p)
        @ close_fd (px_timer_fd p)))"

section \<open>A run\<close>

text \<open>\<open>re_threads\<close> is what the two data threads leave in the shared state, up to the moment the
  control loop ends and from there to their end; \<open>re_c2s\<close> and \<open>re_s2c\<close> whether
  \<open>pthread_create\<close> succeeded.\<close>

record run_env =
  re_startup :: startup_env
  re_signal_fd :: int
  re_timer_fd :: int
  re_c2s :: bool
  re_s2c :: bool
  re_control :: "env_step list"
  re_threads :: "proxy_t \<Rightarrow> proxy_t"

definition proxy_run :: "proxy_t \<Rightarrow> run_env \<Rightarrow> int option \<times> proxy_t \<times> action list" where
  "proxy_run p e =
    (let cleanup = (\<lambda>rc p acts. let (p, a) = proxy_cleanup_resources p in (Some rc, p, acts @ a));
         (r, p, a0) = proxy_startup_network p (re_startup e) in
     case r of None \<Rightarrow> (None, p, a0)
     | Some r \<Rightarrow> if r < 0 then cleanup (-1) p a0
       else
         let (r, p, a1) = proxy_control_init p (re_signal_fd e) (re_timer_fd e) in
         if r < 0 then cleanup (-1) p (a0 @ a1)
         else if \<not> re_c2s e then cleanup (-1) p (a0 @ a1 @ [log_error ''pthread_create(c2s) failed''])
         else if \<not> re_s2c e then
           let (p, a2) = proxy_shutdown_sockets p in
           cleanup 0 (re_threads e p) (a0 @ a1 @ [log_error ''pthread_create(s2c) failed''] @ a2)
         else
           let (timeout, silent, exit_secs) = run_timeouts (px_cfg p);
               (p, c, a2) = proxy_control_loop p timeout silent exit_secs (re_control e) in
           if Exit 1 \<in> set a2 then (None, p, a0 @ a1 @ a2)
           else
             let (p, a3) = proxy_shutdown_sockets p in
             cleanup 0 (re_threads e p) (a0 @ a1 @ a2 @ a3))"

end
