(* ===== verification/Proxy_Threads.thy ===== *)
theory Proxy_Threads
  imports Proxy_S2c Proxy_C2s Proxy_Lifecycle
begin

text \<open>
  The thread that serves the remote socket (\<open>s2c_thread\<close> of \<open>src/proxy.c\<close>): reconnecting
  with its own back-off, receiving with or without coalescing, the per-packet paths of
  \<open>Proxy_S2c\<close>, and one batch sent per round; then \<open>proxy_init\<close>, which prepares the state
  all threads start from.
\<close>

section \<open>The s2c thread\<close>

text \<open>\<open>sl_headroom\<close> is not kept: it is \<open>s2c_headroom\<close> of the configuration.\<close>

record s2c_local =
  sl_backoff :: int
  sl_no_coalesce :: nat

text \<open>One round's surroundings: what the other threads did to the shared state before it and
  during the sleep of a reconnect, the answers to a dial, and the result of the receive.
  \<open>xe_errno\<close> and \<open>xe_err\<close> are \<open>errno\<close> and its text.\<close>

record s2c_env =
  xe_others :: "proxy_t \<Rightarrow> proxy_t"
  xe_sleep_others :: "proxy_t \<Rightarrow> proxy_t"
  xe_dial :: dial_env
  xe_gro_ok :: bool
  xe_gro :: recv_result
  xe_recv :: "int + bytes list"
  xe_err :: string
  xe_now :: "nat \<Rightarrow> u32"

abbreviation (input) "EAGAIN \<equiv> 11"
abbreviation (input) "EINTR \<equiv> 4"

definition proxy_set_thread_affinity :: "int \<Rightarrow> string \<Rightarrow> bool \<Rightarrow> action list" where
  "proxy_set_thread_affinity cpu name ok =
    (if cpu < 0 then [] else if ok then [log_info (name @ '' pinned to cpu'' @ u32_to_str (of_int cpu))] else [])"

text \<open>GRO on the first descriptor, and again after a reconnect.\<close>

definition s2c_enable_gro :: "proxy_t \<Rightarrow> int \<Rightarrow> bool \<Rightarrow> string \<Rightarrow> proxy_t \<times> action list" where
  "s2c_enable_gro p fd ok line =
    (p\<lparr>px_gro_enabled := ok\<rparr>, SetOpt fd ''UDP_GRO'' 1 # (if ok then [log_info line] else []))"

definition s2c_thread_start :: "proxy_t \<Rightarrow> bool \<Rightarrow> bool \<Rightarrow> proxy_t \<times> s2c_local \<times> action list" where
  "s2c_thread_start p pin_ok gro_ok =
    (let cfg = px_cfg p; a0 = proxy_set_thread_affinity (cf_cpu_s2c cfg) ''s2c'' pin_ok;
         (p, a1) = (if px_remote_fd p \<ge> 0 \<and> cf_no_gro cfg = 0
           then s2c_enable_gro p (px_remote_fd p) gro_ok ''s2c: UDP GRO enabled'' else (p, []));
         a2 = (if cf_no_gro cfg \<noteq> 0 then [log_info ''s2c: UDP GRO disabled (AWG_NO_GRO)''] else [])
     in (p, \<lparr>sl_backoff = 1, sl_no_coalesce = 0\<rparr>, a0 @ a1 @ a2))"

text \<open>The reconnect branch; the flag is \<open>break\<close>.\<close>

definition s2c_reconnect ::
  "proxy_t \<Rightarrow> s2c_local \<Rightarrow> s2c_env \<Rightarrow> proxy_t \<times> s2c_local \<times> action list \<times> bool" where
  "s2c_reconnect p l e =
    (let a0 = [Sleep (sl_backoff l)]; p = xe_sleep_others e p in
     if px_stopped p then (p, l, a0, True)
     else
       let (fd, p, a1) = proxy_do_reconnect p (xe_dial e) in
       if fd < 0 then
         let b = sl_backoff l * 2; b = (if b > 30 then 30 else b)
         in (p, l\<lparr>sl_backoff := b\<rparr>, a0 @ a1 @ [log_error ''reconnect failed, backing off''], False)
       else
         let (p, a2) = (if cf_no_gro (px_cfg p) = 0
               then s2c_enable_gro p fd (xe_gro_ok e) ''s2c: UDP GRO re-enabled'' else (p, []))
         in (p, l\<lparr>sl_backoff := 1\<rparr>, a0 @ a1 @ a2, False))"

text \<open>A failed receive: other than a retry, it asks for a reconnect once.\<close>

definition s2c_recv_failed :: "proxy_t \<Rightarrow> int \<Rightarrow> int \<Rightarrow> string \<Rightarrow> proxy_t \<times> action list" where
  "s2c_recv_failed p n errno err =
    (if n = 0 \<or> (errno \<noteq> EAGAIN \<and> errno \<noteq> EINTR) then
       if px_stopped p then (p, [])
       else (p\<lparr>px_reconnect_needed := True\<rparr>,
         if px_reconnect_needed p then []
         else if n = 0 then [log_info ''s2c: remote socket closed, reconnecting'']
         else [log_info (''s2c: remote read error ('' @ err @ ''), reconnecting'')])
     else (p, []))"

text \<open>A received batch of which the first packet has size \<open>n\<close>.\<close>

definition s2c_received :: "proxy_t \<Rightarrow> s2c_local \<Rightarrow> nat \<Rightarrow> proxy_t \<times> s2c_local \<times> action list" where
  "s2c_received p l n =
    (p\<lparr>px_last_active := True, px_last_remote_rx := True, px_fe_remote_pkt := True\<rparr>,
     l\<lparr>sl_backoff := 1\<rparr>,
     first_event (px_fe_remote_pkt p)
       (''s2c: first packet received from remote (size='' @ u32_to_str (of_nat n) @ '')''))"

text \<open>The pieces of a coalesced receive, until the queue holds 32 packets.\<close>

function s2c_gro_split ::
  "proxy_t \<Rightarrow> thread_t \<Rightarrow> nat \<Rightarrow> nat \<Rightarrow> nat \<Rightarrow> queue \<Rightarrow> (proxy_t \<times> thread_t \<times> queue \<times> action list) option" where
  "s2c_gro_split p th n seg off q =
     (if off < n \<and> length q < BATCH_SIZE \<and> 0 < seg then do {
        (p, th, q, a, r) \<leftarrow> proxy_s2c_process_client p th (PGro, off, min (off + seg) n - off) q;
        (p, th, q, as) \<leftarrow> s2c_gro_split p th n seg (off + seg) q;
        Some (p, th, q, a @ as)
      } else Some (p, th, q, []))"
  by pat_completeness auto
termination by (relation "measure (\<lambda>(p, th, n, seg, off, q). n - off)") auto

declare s2c_gro_split.simps [simp del]

text \<open>The packets of a \<open>recvmmsg\<close> batch.\<close>

fun s2c_packets ::
  "proxy_t \<Rightarrow> thread_t \<Rightarrow> nat \<Rightarrow> nat \<Rightarrow> nat list \<Rightarrow> (nat \<Rightarrow> u32) \<Rightarrow> queue
    \<Rightarrow> (proxy_t \<times> thread_t \<times> queue \<times> action list) option" where
  "s2c_packets p th h i [] now q = Some (p, th, q, [])"
| "s2c_packets p th h i (n # ns) now q = do {
     (p, th, q, a, r) \<leftarrow> (if n = 0 then Some (p, th, q, [], False)
        else if cf_mode (px_cfg p) \<noteq> AWG_MODE_CLIENT
        then proxy_s2c_process_gateway p th i h n now q
        else proxy_s2c_process_client p th (PBuf i, 0, n) q);
     (p, th, q, as) \<leftarrow> s2c_packets p th h (i + 1) ns now q;
     Some (p, th, q, a @ as)
   }"

text \<open>The send at the end of a round: no segmentation in server mode, otherwise all segments
  to the first packet's address.\<close>

definition s2c_flush ::
  "proxy_t \<Rightarrow> thread_t \<Rightarrow> queue \<Rightarrow> (proxy_t \<times> thread_t \<times> action list) option" where
  "s2c_flush p th q =
    (if q = [] then Some (p, th, [])
     else send_queue p th (px_listen_fd p) q
       (if cf_mode (px_cfg p) = AWG_MODE_SERVER then None else snd (hd q)))"

definition s2c_recv_gro ::
  "proxy_t \<Rightarrow> thread_t \<Rightarrow> s2c_local \<Rightarrow> s2c_env
    \<Rightarrow> (proxy_t \<times> thread_t \<times> s2c_local \<times> action list) option" where
  "s2c_recv_gro p th l e =
    (let (n, seg, th) = proxy_io_recv_gro th (xe_gro e) in
     if n \<le> 0 then
       let errno = (case xe_gro e of RecvError err \<Rightarrow> err | _ \<Rightarrow> 0);
           (p, a) = s2c_recv_failed p n errno (xe_err e) in Some (p, th, l, a)
     else do {
       let (p, l, a0) = s2c_received p l (nat n);
       if \<not> px_has_client p then Some (p, th, l, a0)
       else do {
         (p, th, l, q, a1) \<leftarrow>
           (if seg > 0 \<and> nat n > seg then do {
              (p, th, q, a) \<leftarrow> s2c_gro_split p th (nat n) seg 0 [];
              Some (p, th, l\<lparr>sl_no_coalesce := 0\<rparr>, q,
                log_debug (''s2c: GRO recv bytes='' @ u32_to_str (of_int n) @ u32_to_str (of_nat seg)) # a)
            } else do {
              let l = l\<lparr>sl_no_coalesce := sl_no_coalesce l + 1\<rparr>;
              let fall_back = (sl_no_coalesce l \<ge> 8);
              let p = (if fall_back then p\<lparr>px_gro_enabled := False\<rparr> else p);
              (p, th, q, a, r) \<leftarrow> proxy_s2c_process_client p th (PGro, 0, nat n) [];
              Some (p, th, l, q,
                (if fall_back then [log_info ''GRO not coalescing, falling back to recvmmsg''] else []) @ a)
            });
         (p, th, a2) \<leftarrow> s2c_flush p th q;
         Some (p, th, l, a0 @ a1 @ a2)
       }
     })"

definition s2c_recv_batch ::
  "proxy_t \<Rightarrow> thread_t \<Rightarrow> s2c_local \<Rightarrow> s2c_env
    \<Rightarrow> (proxy_t \<times> thread_t \<times> s2c_local \<times> action list) option" where
  "s2c_recv_batch p th l e = (case xe_recv e of
     Inl err \<Rightarrow> let (p, a) = s2c_recv_failed p (-1) err (xe_err e) in Some (p, th, l, a)
   | Inr msgs \<Rightarrow> do {
       let msgs = take BATCH_SIZE msgs;
       if msgs = [] then (let (p, a) = s2c_recv_failed p 0 0 (xe_err e) in Some (p, th, l, a))
       else do {
         h \<leftarrow> ptr_off (s2c_headroom (px_cfg p));
         cap \<leftarrow> ptr_off (s2c_recv_len (px_cfg p));
         th \<leftarrow> store_datagrams h cap 0 msgs th;
         let ns = map (\<lambda>d. min cap (length d)) msgs;
         let (p, l, a0) = s2c_received p l (hd ns);
         if cf_mode (px_cfg p) = AWG_MODE_CLIENT \<and> \<not> px_has_client p then Some (p, th, l, a0)
         else do {
           (p, th, q, a1) \<leftarrow> s2c_packets p th h 0 ns (xe_now e) [];
           (p, th, a2) \<leftarrow> s2c_flush p th q;
           Some (p, th, l, a0 @ a1 @ a2)
         }
       }
     })"

fun s2c_thread ::
  "proxy_t \<Rightarrow> thread_t \<Rightarrow> s2c_local \<Rightarrow> s2c_env list
    \<Rightarrow> (proxy_t \<times> thread_t \<times> s2c_local \<times> action list) option" where
  "s2c_thread p th l [] = Some (p, th, l, [])"
| "s2c_thread p th l (e # es) =
     (if px_stopped p then Some (p, th, l, [])
      else
        let p = xe_others e p in
        if px_remote_fd p < 0 \<or> px_reconnect_needed p then
          let (p, l, a, stop) = s2c_reconnect p l e in
          if stop \<or> Exit 1 \<in> set a then Some (p, th, l, a)
          else do { (p, th, l, as) \<leftarrow> s2c_thread p th l es; Some (p, th, l, a @ as) }
        else do {
          (p, th, l, a) \<leftarrow> (if px_gro_enabled p \<and> cf_mode (px_cfg p) = AWG_MODE_CLIENT
             then s2c_recv_gro p th l e else s2c_recv_batch p th l e);
          (p, th, l, as) \<leftarrow> s2c_thread p th l es;
          Some (p, th, l, a @ as)
        })"

section \<open>Initialisation\<close>

text \<open>\<open>fill_random_seed\<close>: whether the device opened, and the results of \<open>read\<close> (bytes,
  \<open>EINTR\<close>, or a failure).  Outer \<open>None\<close>: still reading at the end of the results.\<close>

datatype read_result = ReadBytes bytes | ReadIntr | ReadFail

definition le64_of :: "bytes \<Rightarrow> u64" where
  "le64_of bs = ucast (le32_of bs) OR push_bit 32 (ucast (le32_of (drop 4 bs)))"

fun seed_loop :: "bytes \<Rightarrow> read_result list \<Rightarrow> u64 option option" where
  "seed_loop got [] = (if length got < 8 then None else Some (Some (le64_of got)))"
| "seed_loop got (r # rs) =
     (if length got \<ge> 8 then Some (Some (le64_of got))
      else case r of
        ReadBytes bs \<Rightarrow> (let bs = take (8 - length got) bs in
          if bs = [] then Some None else seed_loop (got @ bs) rs)
      | ReadIntr \<Rightarrow> seed_loop got rs
      | ReadFail \<Rightarrow> Some None)"

definition fill_random_seed :: "bool \<Rightarrow> read_result list \<Rightarrow> u64 option option" where
  "fill_random_seed opened rs = (if opened then seed_loop [] rs else Some None)"

text \<open>\<open>memset(p, 0, sizeof(*p))\<close>, and the assignments before the first check.\<close>

definition proxy_zero :: "awg_config_t \<Rightarrow> proxy_t" where
  "proxy_zero cfg = \<lparr>px_cfg = cfg, px_listen_fd = -1, px_remote_fd = -1, px_stopped = False,
     px_has_client = False, px_last_active = False, px_last_remote_rx = False,
     px_reconnect_needed = False, px_reconnect_drift = False, px_fe_init_seen = False,
     px_fe_init_sent = False, px_fe_remote_pkt = False, px_fe_resp_received = False,
     px_fe_resp_sent = False, px_fe_transport_c2s = False, px_fe_transport_s2c = False,
     px_client_addr = replicate 128 0, px_client_addr_len = 0, px_gso_ok = True,
     px_gro_enabled = False, px_gro_enabled_c2s = False, px_h4_idx = 0,
     px_rng = \<lparr>fr_s = 0\<rparr>, px_listen_addr = replicate 128 0, px_listen_addr_len = 0,
     px_remote_addr = replicate 128 0, px_remote_addr_len = 0, px_remote_host = [],
     px_remote_port = 0, px_auto_src_port = False, px_local_port = 0,
     px_dns_resolve_fail_started_at = 0, px_cps_counter = 0, px_junk_buf = None,
     px_junk_sizes = None, px_signal_fd = -1, px_timer_fd = -1, px_h4_ring = replicate 4096 0,
     px_sessions = replicate 4096 entry_zero, px_obfs_c2s = obfs_zero, px_obfs_s2c = obfs_zero,
     px_obfs_fail_c2s = 0, px_obfs_fail_s2c = 0\<rparr>"

definition thread_zero :: thread_t where
  "thread_zero = \<lparr>th_bufs = replicate 32 (replicate 3000 0), th_gro = replicate 65536 0,
     th_hs = replicate 1500 0, th_obfs = replicate 4096 0, th_sent_logged = False,
     th_accept_logged = False, th_reject_logged = False, th_sys = []\<rparr>"

text \<open>The system's part in \<open>proxy_init\<close>: the resolver for the listen address, the random
  device, the address of \<open>p\<close> (the fallback seed), and the contents \<open>malloc\<close> returns or
  nothing.\<close>

record init_env =
  ie_gai :: gai_result
  ie_opened :: bool
  ie_reads :: "read_result list"
  ie_self :: u64
  ie_malloc :: "bytes option"

text \<open>The junk buffers: -1 when their size overflows or \<open>malloc\<close> fails.\<close>

definition alloc_junk :: "proxy_t \<Rightarrow> bytes option \<Rightarrow> proxy_t option" where
  "alloc_junk p mem =
    (if cf_jc (px_cfg p) > 0 \<and> cf_jmax (px_cfg p) > 0 then do {
       (junk_bytes, sizes_bytes) \<leftarrow> junk_layout_sizes (px_cfg p);
       m \<leftarrow> mem;
       Some (p\<lparr>px_junk_buf := Some (take (unat junk_bytes) m @ replicate (unat junk_bytes - length m) 0),
               px_junk_sizes := Some (replicate (unat sizes_bytes div 4) 0)\<rparr>)
     } else Some p)"

text \<open>The fields that parsing, resolving and seeding fill.\<close>

definition init_state ::
  "proxy_t \<Rightarrow> sockaddr \<times> nat \<Rightarrow> string \<times> nat \<Rightarrow> int \<Rightarrow> u64 \<Rightarrow> proxy_t" where
  "init_state p listen remote src_port seed =
    (let p = p\<lparr>px_listen_addr := fst listen, px_listen_addr_len := snd listen,
               px_remote_host := fst remote, px_remote_port := snd remote\<rparr>;
         p = (if src_port > 0 then p\<lparr>px_local_port := src_port\<rparr> else p\<lparr>px_auto_src_port := True\<rparr>);
         prof = cf_obfs_profile (px_cfg p)
     in p\<lparr>px_rng := fastrand_init seed,
          px_obfs_c2s := obfs_session_init prof (seed XOR 0x1111111111111111),
          px_obfs_s2c := obfs_session_init prof (seed XOR 0x2222222222222222)\<rparr>)"

text \<open>The result: \<open>Inl\<close> the log lines of a return of -1, \<open>Inr\<close> the state of a return of 0;
  \<open>None\<close> while the seed is still being read.\<close>

definition proxy_init ::
  "awg_config_t \<Rightarrow> string \<Rightarrow> string \<Rightarrow> int \<Rightarrow> init_env
    \<Rightarrow> (action list + proxy_t \<times> thread_t \<times> thread_t) option" where
  "proxy_init cfg listen_str remote_str src_port e =
    (let p = proxy_zero cfg in
     case config_validate cfg of
       Some err \<Rightarrow> Some (Inl [log_error (''invalid config: '' @ err)])
     | None \<Rightarrow>
      (case net_addr_parse_host_port listen_str 256 of None \<Rightarrow> Some (Inl [])
       | Some (host, port) \<Rightarrow>
         (case net_addr_resolve_host_port (ie_gai e) of Inl _ \<Rightarrow> Some (Inl [])
          | Inr (addr, len) \<Rightarrow>
            (case net_addr_parse_host_port remote_str 256 of None \<Rightarrow> Some (Inl [])
             | Some (rhost, rport) \<Rightarrow> do {
                 s \<leftarrow> fill_random_seed (ie_opened e) (ie_reads e);
                 let seed = (case s of Some v \<Rightarrow> v | None \<Rightarrow> ie_self e XOR 0xDEADBEEFCAFE);
                 let p = init_state p (addr, len) (rhost, rport) src_port seed;
                 (case alloc_junk p (ie_malloc e) of None \<Rightarrow> Some (Inl [])
                  | Some p \<Rightarrow> Some (Inr (proxy_init_io_state (fill_h4_ring p) thread_zero thread_zero)))
               }))))"

end
