(* ===== verification/Path_Correct.thy ===== *)
theory Path_Correct
  imports Proxy_Threads
begin

text \<open>
  What the packet paths do, on top of the refinements of \<open>Transform_Correct\<close> and the profile
  laws of \<open>Obfs\<close>: the thread-level forms of the transforms, then each path in its mode.  For
  each: no access outside a buffer, which bytes are queued, and which places are written.
\<close>

section \<open>Frames\<close>

text \<open>A step that writes only the places of \<open>P\<close>.\<close>

definition th_frame :: "place set \<Rightarrow> thread_t \<Rightarrow> thread_t \<Rightarrow> bool" where
  "th_frame P th th' \<longleftrightarrow> thread_ok th' \<and> th_sys th' = th_sys th
     \<and> (\<forall>pl. pl \<notin> P \<longrightarrow> place_bytes th' pl = place_bytes th pl)"

lemma th_frame_refl: "thread_ok th \<Longrightarrow> th_frame P th th"
  by (simp add: th_frame_def)

lemma th_frame_trans: "th_frame P a b \<Longrightarrow> th_frame Q b c \<Longrightarrow> th_frame (P \<union> Q) a c"
  by (simp add: th_frame_def)

lemma th_frame_mono: "th_frame P a b \<Longrightarrow> P \<subseteq> Q \<Longrightarrow> th_frame Q a b"
  by (auto simp: th_frame_def)

lemma th_frame_set:
  "thread_ok th \<Longrightarrow> length b = length (place_bytes th pl) \<Longrightarrow> th_frame {pl} th (set_place pl b th)"
  by (cases pl) (auto simp: th_frame_def thread_ok_set place_set_other
      simp del: set_place.simps place_bytes.simps, auto)

lemma th_frame_iov: "th_frame P th th' \<Longrightarrow> fst v \<notin> P \<Longrightarrow> iov_bytes th' v = iov_bytes th v"
  by (cases v) (simp add: th_frame_def iov_bytes_def)

lemma thread_ok_flags [simp]:
  "thread_ok (th\<lparr>th_sent_logged := b\<rparr>) = thread_ok th"
  "thread_ok (th\<lparr>th_accept_logged := b\<rparr>) = thread_ok th"
  "thread_ok (th\<lparr>th_reject_logged := b\<rparr>) = thread_ok th"
  "thread_ok (th\<lparr>th_sys := x\<rparr>) = thread_ok th"
  by (simp_all add: thread_ok_def)

lemma place_bytes_flags [simp]:
  "place_bytes (th\<lparr>th_sent_logged := b\<rparr>) pl = place_bytes th pl"
  "place_bytes (th\<lparr>th_accept_logged := b\<rparr>) pl = place_bytes th pl"
  "place_bytes (th\<lparr>th_reject_logged := b\<rparr>) pl = place_bytes th pl"
  "place_bytes (th\<lparr>th_sys := x\<rparr>) pl = place_bytes th pl"
  by (cases pl; simp)+

lemma iov_bytes_flags [simp]:
  "iov_bytes (th\<lparr>th_sent_logged := b\<rparr>) v = iov_bytes th v"
  "iov_bytes (th\<lparr>th_accept_logged := b\<rparr>) v = iov_bytes th v"
  "iov_bytes (th\<lparr>th_reject_logged := b\<rparr>) v = iov_bytes th v"
  "iov_bytes (th\<lparr>th_sys := x\<rparr>) v = iov_bytes th v"
  by (simp_all add: iov_bytes_def)

text \<open>The log helpers write no place.\<close>

lemma log_once_frame:
  "thread_ok th \<Longrightarrow> th_frame {} th (fst (log_marker_sent_once th s side))"
  "thread_ok th \<Longrightarrow> th_frame {} th (fst (log_marker_accept_once th s side))"
  "thread_ok th \<Longrightarrow> th_frame {} th (fst (log_marker_reject_once th s side))"
  by (simp_all add: th_frame_def log_marker_sent_once_def log_marker_accept_once_def
      log_marker_reject_once_def)

section \<open>The transforms on a thread\<close>

context obfs_profile
begin

lemma frame_bound: "snd (wrap s p) = Some fr \<Longrightarrow> length fr \<le> 4096"
  using too_big [of s p] fits [of s p]
  by (cases "over (ob_tx_seq s) + marker_extra_len s + length p > 4096") auto

end

lemma obfs_wrap_bound:
  assumes "obfs_wrap s p = (s', Some (WObfsBuf fr))"
  shows "length fr \<le> 4096"
  using assms unfolding obfs_wrap_def in_obfs_buf_def
  by (auto split: awg_obfs_profile_t.splits
      dest!: stun.frame_bound dtls.frame_bound rtp.frame_bound
        source_query.frame_bound raknet.frame_bound
        quic.frame_bound enet.frame_bound kcp.frame_bound
        dns.frame_bound)

text \<open>What \<open>obfs_wrap\<close> makes of a vector: the bytes sent, and where they are.\<close>

lemma th_obfs_wrap_ok:
  assumes ok: "thread_ok th" and d: "iov_bytes th v = Some d"
  shows "\<exists>th' w. th_obfs_wrap s th v = Some (fst (obfs_wrap s d), th', w) \<and> th_frame {PObfs} th th'
    \<and> (case snd (obfs_wrap s d) of
         None \<Rightarrow> w = None \<and> th' = th
       | Some (WIn _) \<Rightarrow> w = Some v \<and> th' = th
       | Some (WObfsBuf fr) \<Rightarrow> w = Some (PObfs, 0, length fr) \<and> iov_bytes th' (PObfs, 0, length fr) = Some fr)"
proof (cases "snd (obfs_wrap s d)")
  case None
  then show ?thesis using d ok
    by (cases "obfs_wrap s d") (simp add: th_obfs_wrap_def th_frame_refl)
next
  case (Some out)
  show ?thesis
  proof (cases out)
    case (WIn x)
    then show ?thesis using d ok Some
      by (cases "obfs_wrap s d") (simp add: th_obfs_wrap_def th_frame_refl)
  next
    case (WObfsBuf fr)
    obtain s' where w: "obfs_wrap s d = (s', Some (WObfsBuf fr))"
      using Some WObfsBuf by (cases "obfs_wrap s d") simp
    have len: "length fr \<le> length (th_obfs th)"
      using obfs_wrap_bound [OF w] ok by (simp add: thread_ok_def)
    have "th_frame {PObfs} th (set_place PObfs (splice (th_obfs th) 0 fr) th)"
      using len by (intro th_frame_set [OF ok]) simp
    moreover have "iov_bytes (th\<lparr>th_obfs := splice (th_obfs th) 0 fr\<rparr>) (PObfs, 0, length fr) = Some fr"
      using len by (simp add: iov_bytes_def rd_def slice_def splice_def)
    ultimately show ?thesis using d w len
      by (simp add: th_obfs_wrap_def wr_def)
  qed
qed

lemma split_at:
  "off + n \<le> length (b :: bytes) \<Longrightarrow> b = take off b @ slice b off n @ drop (off + n) b"
  by (simp add: slice_def) (metis add.commute append_take_drop_id drop_drop)

text \<open>Outbound: the vector holds the abstract translation, in the receive buffer or in
  \<open>hs_buf\<close>.\<close>

lemma th_transform_outbound_ok:
  assumes cfg: "config_ready cfg" and key: "key32 key" and ok: "thread_ok th" and i: "i < BATCH_SIZE"
    and d: "iov_bytes th (PBuf i, h, n) = Some p"
  shows "\<exists>th' v. th_transform_outbound th i h n cfg key val
      = Some (th', v, cf_jc cfg > 0 \<and> le32_of p = 1 \<and> length p = 148)
    \<and> iov_bytes th' v = Some (out_spec cfg key val (take h (th_bufs th ! i)) p)
    \<and> snd (snd v) = length (out_spec cfg key val (take h (th_bufs th ! i)) p)
    \<and> fst v \<in> {PBuf i, PHs} \<and> th_frame {PBuf i, PHs} th th'"
proof -
  let ?b = "th_bufs th ! i"
  have lb: "length ?b = BUF_TOTAL" "i < length (th_bufs th)" "length (th_hs th) = 1500"
    using ok i thread_ok_buf [OF ok i] by (simp_all add: thread_ok_def)
  have p: "h + n \<le> length ?b" "p = slice ?b h n"
    using d lb by (auto simp: iov_bytes_def rd_def split: if_splits)
  then have lp: "length p = n" by (simp add: slice_def)
  define xs where "xs = take h ?b"
  define zs where "zs = drop (h + n) ?b"
  have b: "?b = xs @ p @ zs" "length xs = h" using split_at [OF p(1)] p by (simp_all add: xs_def zs_def)
  from transform_outbound_refines [OF cfg key lb(3), of xs p zs val]
  obtain r where r: "transform_outbound_with_mac1 ?b (th_hs th) h n cfg key val = Some r"
      "tx_ok ?b (th_hs th) (out_spec cfg key val xs p) r"
      "tx_junk r = (cf_jc cfg > 0 \<and> le32_of p = 1 \<and> length p = 148)"
    using b lp by (auto simp: out_refines_def)
  define th' where "th' = (set_place (PBuf i) (tx_buf r) th)\<lparr>th_hs := tx_hs r\<rparr>"
  define v where "v = (case tx_loc r of InBuf off \<Rightarrow> (PBuf i, off, tx_len r) | InHs \<Rightarrow> (PHs, 0, tx_len r))"
  have e: "th_transform_outbound th i h n cfg key val = Some (th', v, tx_junk r)"
    using r(1) lb by (simp add: th_transform_outbound_def th'_def v_def)
  have bounds: "case tx_loc r of InBuf off \<Rightarrow> off + tx_len r \<le> length (tx_buf r)
      | InHs \<Rightarrow> tx_len r \<le> length (tx_hs r)" "length (tx_buf r) = BUF_TOTAL" "length (tx_hs r) = 1500"
    and pk: "tx_packet r = out_spec cfg key val xs p" "tx_len r = length (out_spec cfg key val xs p)"
    using r(2) lb by (simp_all add: tx_ok_def)
  have "thread_ok th'"
    using ok i bounds by (auto simp: thread_ok_def th'_def all_set_conv_all_nth nth_list_update)
  moreover have "place_bytes th' pl = place_bytes th pl" if "pl \<notin> {PBuf i, PHs}" for pl
    using that by (cases pl) (auto simp: th'_def)
  moreover have "th_sys th' = th_sys th" by (simp add: th'_def)
  ultimately have f: "th_frame {PBuf i, PHs} th th'" by (simp add: th_frame_def)
  have "iov_bytes th' v = Some (tx_packet r)"
    using bounds lb by (simp add: v_def th'_def iov_bytes_def rd_def tx_packet_def split: tx_loc.splits)
  moreover have "fst v \<in> {PBuf i, PHs}" "snd (snd v) = tx_len r"
    by (simp_all add: v_def split: tx_loc.split)
  ultimately show ?thesis using e f pk r(3) unfolding xs_def by (simp del: fst_conv)
qed

text \<open>Inbound: dropped exactly when the abstract translation drops, otherwise a vector in the
  same place with the message.\<close>

lemma th_transform_inbound_ok:
  assumes cfg: "config_ready cfg" and ok: "thread_ok th" and d: "iov_bytes th (pl, off, n) = Some p"
  shows "\<exists>th' w. th_transform_inbound th (pl, off, n) cfg = Some (th', w) \<and> th_frame {pl} th th'
    \<and> (case in_spec cfg p of None \<Rightarrow> w = None \<and> th' = th
       | Some m \<Rightarrow> \<exists>o'. w = Some (pl, o', length m) \<and> iov_bytes th' (pl, o', length m) = Some m)"
proof -
  let ?b = "place_bytes th pl"
  have p: "off + n \<le> length ?b" "p = slice ?b off n"
    using d by (auto simp: iov_bytes_def rd_def split: if_splits)
  then have lp: "length p = n" by (simp add: slice_def)
  define zs where "zs = drop (off + n) ?b"
  have b: "drop off ?b = p @ zs" using split_at [OF p(1)] p by (simp add: zs_def)
      (metis append_eq_conv_conj length_take min.absorb2 add_leD1)
  from transform_inbound_refines [OF cfg, of p zs] obtain r where
    r: "transform_inbound (drop off ?b) n cfg = Some r" "rx_ok (p @ zs) n (in_spec cfg p) r"
    using b lp by (auto simp: in_refines_def)
  show ?thesis
  proof (cases "in_spec cfg p")
    case None
    then have "r = None" using r(2) by simp
    then show ?thesis using None r p ok
      by (simp add: th_transform_inbound_def th_frame_refl)
  next
    case (Some m)
    then obtain b' o' where w: "r = Some (b', o', length m)" "slice b' o' (length m) = m"
        "o' + length m = n" "length b' = length (p @ zs)" using r(2) by (auto simp: rx_ok_def)
    let ?th = "set_place pl (take off ?b @ b') th"
    have len: "length (take off ?b @ b') = length ?b"
    proof -
      have "length (drop off ?b) = length b'" using w(4) b by (simp only: length_append)
      then show ?thesis using p(1) by simp
    qed
    have fr: "th_frame {pl} th ?th" by (rule th_frame_set [OF ok len])
    have "iov_bytes ?th (pl, off + o', length m) = Some m"
    proof -
      have lt: "length (take off ?b) = off" using p(1) by simp
      have "slice (take off ?b @ b') (off + o') (length m) = m"
        using w(2) lt by (simp add: slice_def)
      moreover have "off + o' + length m \<le> length (take off ?b @ b')"
        unfolding len using w(3) p(1) by linarith
      ultimately show ?thesis
        by (simp only: iov_bytes_def rd_def place_set_same [OF len] case_prod_conv if_True)
    qed
    then show ?thesis using Some w r fr p
      by (simp add: th_transform_inbound_def)
  qed
qed

lemma slice_splice_here:
  "length bs \<le> m \<Longrightarrow> x + length bs \<le> length b
    \<Longrightarrow> slice (splice b x bs) x m = bs @ slice b (x + length bs) (m - length bs)"
  by (simp add: slice_def splice_def)

lemma drop_slice: "drop j (slice b off n) = slice b (off + j) (n - j)"
  by (simp add: slice_def drop_take add.commute)

lemma transport_shortcut_ok:
  assumes cfg: "config_ready cfg" and ok: "thread_ok th" and d: "iov_bytes th (pl, off, n) = Some p"
  shows "\<exists>r. transport_shortcut th (pl, off, n) cfg = Some r
    \<and> (case r of None \<Rightarrow> True
       | Some (th', v') \<Rightarrow> th_frame {pl} th th' \<and> fst v' = pl
           \<and> in_spec cfg p \<noteq> None \<and> iov_bytes th' v' = in_spec cfg p)"
proof (cases "int n \<ge> cf_s4 cfg + WG_TRANSPORT_MIN
    \<and> (\<not> cf_transport_size_ambiguous cfg
       \<or> (int n \<noteq> cf_init_total cfg \<and> int n \<noteq> cf_resp_total cfg \<and> int n \<noteq> cf_cookie_total cfg))")
  case False
  then show ?thesis unfolding transport_shortcut_def by (auto simp del: de_Morgan_conj de_Morgan_disj)
next
  case guard: True
  let ?b = "place_bytes th pl" and ?k = "nat (cf_s4 cfg)"
  have p: "off + n \<le> length ?b" "p = slice ?b off n" and lp: "length p = n"
    using d by (auto simp: iov_bytes_def rd_def slice_def split: if_splits)
  have s4: "0 \<le> cf_s4 cfg" using config_ready_bounds [OF cfg] by simp
  then have n: "?k + 32 \<le> n" using guard by linarith
  have h: "rd32 ?b (off + ?k) = Some (le32_of (drop ?k p))"
    using n p by (simp add: rd32_def slice_def le32_of_take drop_take min_def add.commute)
  show ?thesis
  proof (cases "hrange_contains (cf_h4 cfg) (le32_of (drop ?k p))")
    case False
    then show ?thesis using guard s4 h
      unfolding transport_shortcut_def ptr_off_def
      by (auto simp del: de_Morgan_conj de_Morgan_disj)
  next
    case True
    let ?b' = "splice ?b (off + ?k) (le32_bytes 4)"
    let ?th = "set_place pl ?b' th" and ?v = "(pl, off + ?k, n - ?k)"
    have len: "length ?b' = length ?b" using n p(1) by (intro length_splice) simp
    have w: "wr32 ?b (off + ?k) 4 = Some ?b'" using n p(1) by (simp add: wr32_def wr_def)
    have fr: "th_frame {pl} th ?th" by (rule th_frame_set [OF ok len])
    have spec: "in_spec cfg p = Some (retype 4 (drop ?k p))"
      using shortcut_in_spec [OF cfg _ _ True] guard lp by simp
    have "slice ?b' (off + ?k) (n - ?k) = retype 4 (drop ?k p)"
      using n p(1) by (simp add: retype_def slice_splice_here p(2) drop_slice add.assoc)
    moreover have "off + ?k + (n - ?k) \<le> length ?b'" unfolding len using n p(1) by linarith
    ultimately have "iov_bytes ?th ?v = in_spec cfg p"
      by (simp only: iov_bytes_def rd_def place_set_same [OF len] case_prod_conv if_True spec)
    moreover have "transport_shortcut th (pl, off, n) cfg = Some (Some (?th, ?v))"
      using guard s4 h True w unfolding transport_shortcut_def ptr_off_def
      by (auto simp del: de_Morgan_conj de_Morgan_disj)
    ultimately show ?thesis using fr spec by auto
  qed
qed

section \<open>From the remote to the client\<close>

text \<open>The fields of the shared state a path leaves alone.\<close>

definition same_shared :: "proxy_t \<Rightarrow> proxy_t \<Rightarrow> bool" where
  "same_shared p p' \<longleftrightarrow> px_cfg p' = px_cfg p \<and> px_client_addr p' = px_client_addr p
     \<and> px_client_addr_len p' = px_client_addr_len p \<and> px_gso_ok p' = px_gso_ok p
     \<and> px_listen_fd p' = px_listen_fd p \<and> px_remote_fd p' = px_remote_fd p"

text \<open>... and with it the ring, the junk buffer and the table.\<close>

definition same_data :: "proxy_t \<Rightarrow> proxy_t \<Rightarrow> bool" where
  "same_data p p' \<longleftrightarrow> same_shared p p' \<and> px_h4_ring p' = px_h4_ring p \<and> px_h4_idx p' = px_h4_idx p
     \<and> px_junk_buf p' = px_junk_buf p \<and> px_sessions p' = px_sessions p"

lemma same_data_shared: "same_data p p' \<Longrightarrow> same_shared p p'"
  by (simp add: same_data_def)

fun is_log :: "action \<Rightarrow> bool" where
  "is_log (Log l p s) = True"
| "is_log a = False"

fun sent_packets :: "action list \<Rightarrow> (int \<times> dest \<times> bytes) list" where
  "sent_packets [] = []"
| "sent_packets (Send fd d b # as) = (fd, d, b) # sent_packets as"
| "sent_packets (_ # as) = sent_packets as"

lemma sent_packets_append [simp]: "sent_packets (a @ b) = sent_packets a @ sent_packets b"
  by (induction a rule: sent_packets.induct) auto

lemma sent_packets_log: "list_all is_log as \<Longrightarrow> sent_packets as = []"
  by (induction as rule: sent_packets.induct) auto

lemma sent_packets_map [simp]: "sent_packets (map (Send fd d) bs) = map (\<lambda>b. (fd, d, b)) bs"
  by (induction bs) auto

lemma log_actions [simp]:
  "is_log (log_info s)" "is_log (log_error s)" "is_log (log_debug s)" "is_log (log_always s)"
  "list_all is_log (first_event b s)" "list_all is_log (log_obfs_fail side c cfg)"
  "list_all is_log (proxy_log_addr s a n)"
  "list_all is_log (snd (log_marker_sent_once th ob side))"
  "list_all is_log (snd (log_marker_accept_once th ob side))"
  "list_all is_log (snd (log_marker_reject_once th ob side))"
  by (simp_all add: log_defs first_event_def log_obfs_fail_def proxy_log_addr_def
      log_marker_sent_once_def log_marker_accept_once_def log_marker_reject_once_def
      split: option.split)

text \<open>What the client is to receive for a datagram: the unwrapped packet, translated.\<close>

definition s2c_message :: "awg_config_t \<Rightarrow> obfs_session_t \<Rightarrow> bytes \<Rightarrow> bytes option" where
  "s2c_message cfg s d = (case obfs_unwrap s d of
     None \<Rightarrow> None
   | Some (s', w) \<Rightarrow> (case window_bytes d w of None \<Rightarrow> None | Some q \<Rightarrow> in_spec cfg q))"

definition queued :: "thread_t \<Rightarrow> thread_t \<Rightarrow> place \<Rightarrow> dest \<Rightarrow> bytes option \<Rightarrow> queue \<Rightarrow> queue \<Rightarrow> bool \<Rightarrow> bool" where
  "queued th th' pl dst m q q' r \<longleftrightarrow> th_frame {pl} th th'
     \<and> (case m of None \<Rightarrow> q' = q \<and> \<not> r
        | Some m \<Rightarrow> r \<and> (\<exists>v'. q' = q @ [(v', dst)] \<and> fst v' = pl \<and> iov_bytes th' v' = Some m))"

lemma s2c_client_slow_ok:
  assumes cfg: "config_ready (px_cfg p)" and ok: "thread_ok th" and d: "iov_bytes th (pl, off, n) = Some d"
  shows "\<exists>p' th' q' a r. s2c_client_slow p th (pl, off, n) q = Some (p', th', q', a, r)
    \<and> same_data p p' \<and> px_obfs_s2c p' = px_obfs_s2c p \<and> list_all is_log a
    \<and> queued th th' pl (Some (px_client_addr p, px_client_addr_len p)) (in_spec (px_cfg p) d) q q' r"
proof -
  obtain th' w where t: "th_transform_inbound th (pl, off, n) (px_cfg p) = Some (th', w)"
      "th_frame {pl} th th'"
      "case in_spec (px_cfg p) d of None \<Rightarrow> w = None \<and> th' = th
       | Some m \<Rightarrow> \<exists>o'. w = Some (pl, o', length m) \<and> iov_bytes th' (pl, o', length m) = Some m"
    using th_transform_inbound_ok [OF cfg ok d] by blast
  show ?thesis
  proof (cases "in_spec (px_cfg p) d")
    case None
    then show ?thesis using t by (auto simp: s2c_client_slow_def queued_def same_data_def same_shared_def)
  next
    case (Some m)
    with t obtain o' where o: "w = Some (pl, o', length m)" "iov_bytes th' (pl, o', length m) = Some m"
      by auto
    have len: "4 \<le> length m" using in_spec_message [OF cfg Some] by (auto simp: wg_message_def)
    then obtain h where "rd32 (place_bytes th' pl) o' = Some h"
      using o by (auto simp: iov_bytes_def rd_def rd32_def split: if_splits)
    then show ?thesis using t(1,2) o Some len
      by (simp add: s2c_client_slow_def Let_def queued_def same_data_def same_shared_def) blast
  qed
qed

lemma s2c_process_client_ok:
  assumes cfg: "config_ready (px_cfg p)" and ok: "thread_ok th" and d: "iov_bytes th v = Some d"
  shows "\<exists>p' th' q' a r. proxy_s2c_process_client p th v q = Some (p', th', q', a, r)
    \<and> same_data p p' \<and> px_obfs_s2c p' = fst (the (obfs_unwrap (px_obfs_s2c p) d))
    \<and> list_all is_log a
    \<and> queued th th' (fst v) (Some (px_client_addr p, px_client_addr_len p))
        (s2c_message (px_cfg p) (px_obfs_s2c p) d) q q' r"
proof -
  obtain pl off n where v: "v = (pl, off, n)" by (cases v) auto
  have dv: "iov_bytes th (pl, off, n) = Some d" using d v by simp
  have pd: "off + n \<le> length (place_bytes th pl)" "d = slice (place_bytes th pl) off n" "length d = n"
    using dv by (auto simp: iov_bytes_def rd_def slice_def split: if_splits)
  obtain s w where u: "obfs_unwrap (px_obfs_s2c p) d = Some (s, w)"
    using obfs_unwrap_safe [of "px_obfs_s2c p" d] by blast
  let ?p = "p\<lparr>px_obfs_s2c := s\<rparr>"
  show ?thesis
  proof (cases w)
    case None
    let ?l = "if \<not> ob_marker_seen (px_obfs_s2c p) then log_marker_reject_once th s ''s2c'' else (th, [])"
    have "th_frame {pl} th (fst ?l)"
      using log_once_frame(3) [OF ok, of s "''s2c''"] th_frame_refl [OF ok] by (auto intro: th_frame_mono)
    moreover have "list_all is_log (snd ?l)" by simp
    ultimately show ?thesis using d u None v
      by (cases ?l) (auto simp: proxy_s2c_process_client_def Let_def same_data_def same_shared_def queued_def
          s2c_message_def window_bytes_def)
  next
    case (Some on)
    obtain o' n' where on: "on = (o', n')" by fastforce
    have inside: "o' + n' \<le> length d"
      using obfs_unwrap_safe [of "px_obfs_s2c p" d] u Some on by auto
    define l where "l = (if \<not> ob_marker_seen (px_obfs_s2c p) then log_marker_accept_once th s ''s2c'' else (th, []))"
    obtain th1 a1 where l1: "l = (th1, a1)" by fastforce
    have f1: "th_frame {} th th1" and a1: "list_all is_log a1"
      using log_once_frame(2) [OF ok, of s "''s2c''"] th_frame_refl [OF ok, of "{}"] l1
      by (auto simp: l_def split: if_splits) (metis log_actions(9) snd_conv)
    have ok1: "thread_ok th1" using f1 by (simp add: th_frame_def)
    have dm: "iov_bytes th1 (pl, off + o', n') = Some (slice d o' n')"
      using inside pd f1 by (simp add: iov_bytes_def rd_def th_frame_def slice_def drop_take min_def add.commute)
    have msg: "s2c_message (px_cfg p) (px_obfs_s2c p) d = in_spec (px_cfg p) (slice d o' n')"
      using u Some on by (simp add: s2c_message_def window_bytes_def)
    obtain fast where fa: "transport_shortcut th1 (pl, off + o', n') (px_cfg p) = Some fast"
        "case fast of None \<Rightarrow> True
         | Some (th', v') \<Rightarrow> th_frame {pl} th1 th' \<and> fst v' = pl
             \<and> in_spec (px_cfg p) (slice d o' n') \<noteq> None
             \<and> iov_bytes th' v' = in_spec (px_cfg p) (slice d o' n')"
      using transport_shortcut_ok [OF cfg ok1 dm] by blast
    have step: "proxy_s2c_process_client p th v q = (case fast of
             Some (th, v) \<Rightarrow>
               Some (?p\<lparr>px_fe_transport_s2c := True\<rparr>, th,
                 q @ [(v, Some (px_client_addr p, px_client_addr_len p))],
                 a1 @ first_event (px_fe_transport_s2c p) ''s2c: first transport packet to client'', True)
           | None \<Rightarrow> do {
               (p, th, q, a2, r) \<leftarrow> s2c_client_slow ?p th1 (pl, off + o', n') q;
               Some (p, th, q, a1 @ a2, r)
             })"
      using d u Some on v l1 fa(1) unfolding proxy_s2c_process_client_def l_def
      by (simp add: Let_def split: option.split prod.split)
    show ?thesis
    proof (cases fast)
      case fn: None
      have "\<exists>p' th' q' a r. s2c_client_slow ?p th1 (pl, off + o', n') q = Some (p', th', q', a, r)
          \<and> same_data ?p p' \<and> px_obfs_s2c p' = s \<and> list_all is_log a
          \<and> queued th1 th' pl (Some (px_client_addr p, px_client_addr_len p)) (in_spec (px_cfg p) (slice d o' n')) q q' r"
        using s2c_client_slow_ok [of ?p th1 pl "off + o'" n' "slice d o' n'" q] cfg ok1 dm by simp
      then obtain p' th' q' a r where sl: "s2c_client_slow ?p th1 (pl, off + o', n') q = Some (p', th', q', a, r)"
          "same_data ?p p'" "px_obfs_s2c p' = s" "list_all is_log a"
          "queued th1 th' pl (Some (px_client_addr p, px_client_addr_len p)) (in_spec (px_cfg p) (slice d o' n')) q q' r"
        by blast
      have "queued th th' pl (Some (px_client_addr p, px_client_addr_len p)) (in_spec (px_cfg p) (slice d o' n')) q q' r"
        using sl(5) th_frame_trans [OF f1, of "{pl}" th'] by (auto simp: queued_def)
      moreover have "proxy_s2c_process_client p th v q = Some (p', th', q', a1 @ a, r)"
        using step fn sl(1) by simp
      moreover have "same_data p p'" using sl(2) by (simp add: same_data_def same_shared_def)
      moreover have "list_all is_log (a1 @ a)" using a1 sl(4) by simp
      ultimately show ?thesis using sl(3) unfolding u msg v fst_conv option.sel by blast
    next
      case (Some tv)
      obtain th' v' where tv: "tv = (th', v')" by (rule prod.exhaust)
      obtain m where m: "in_spec (px_cfg p) (slice d o' n') = Some m" using fa(2) Some tv by auto
      have "th_frame {pl} th th'" using fa(2) Some tv th_frame_trans [OF f1, of "{pl}" th'] by simp
      then have "queued th th' pl (Some (px_client_addr p, px_client_addr_len p)) (Some m) q
          (q @ [(v', Some (px_client_addr p, px_client_addr_len p))]) True"
        using fa(2) Some tv m by (simp add: queued_def)
      moreover have "proxy_s2c_process_client p th v q = Some (?p\<lparr>px_fe_transport_s2c := True\<rparr>, th',
          q @ [(v', Some (px_client_addr p, px_client_addr_len p))],
          a1 @ first_event (px_fe_transport_s2c p) ''s2c: first transport packet to client'', True)"
        using step Some tv by simp
      moreover have "same_data p (?p\<lparr>px_fe_transport_s2c := True\<rparr>)" by (simp add: same_data_def same_shared_def)
      moreover have "px_obfs_s2c (?p\<lparr>px_fe_transport_s2c := True\<rparr>) = s" by simp
      moreover have "list_all is_log (a1 @ first_event (px_fe_transport_s2c p) ''s2c: first transport packet to client'')"
        using a1 by simp
      ultimately show ?thesis unfolding u msg m v fst_conv option.sel by blast
    qed
  qed
qed

section \<open>Batches\<close>

text \<open>What a batch of datagrams puts into the buffers.\<close>

lemma store_datagrams_ok:
  assumes "thread_ok th" and "i + length ds \<le> BATCH_SIZE" and "h + cap \<le> BUF_TOTAL"
  shows "\<exists>th'. store_datagrams h cap i ds th = Some th'
    \<and> th_frame {PBuf j | j. i \<le> j \<and> j < i + length ds} th th'
    \<and> (\<forall>j < length ds. iov_bytes th' (PBuf (i + j), h, min cap (length (ds ! j))) = Some (take cap (ds ! j)))"
  using assms(1,2)
proof (induction ds arbitrary: i th)
  case Nil
  then show ?case by (auto simp: th_frame_refl)
next
  case (Cons d ds)
  let ?b = "th_bufs th ! i" and ?t = "take cap d"
  have i: "i < BATCH_SIZE" "i < length (th_bufs th)" using Cons.prems by (simp_all add: thread_ok_def)
  have lb: "length ?b = BUF_TOTAL" by (rule thread_ok_buf [OF Cons.prems(1) i(1)])
  have fit: "h + length ?t \<le> length ?b" unfolding lb using assms(3) by simp
  let ?th = "set_place (PBuf i) (splice ?b h ?t) th"
  have len: "length (splice ?b h ?t) = length (place_bytes th (PBuf i))" using fit i by simp
  have f1: "th_frame {PBuf i} th ?th" by (rule th_frame_set [OF Cons.prems(1) len])
  then have ok1: "thread_ok ?th" by (simp add: th_frame_def del: set_place.simps)
  obtain th' where t: "store_datagrams h cap (i + 1) ds ?th = Some th'"
      "th_frame {PBuf j | j. i + 1 \<le> j \<and> j < i + 1 + length ds} ?th th'"
      "\<forall>j < length ds. iov_bytes th' (PBuf (i + 1 + j), h, min cap (length (ds ! j))) = Some (take cap (ds ! j))"
    using Cons.IH [OF ok1, of "i + 1"] Cons.prems(2) by (auto simp del: set_place.simps)
  have e: "store_datagrams h cap i (d # ds) th = Some th'"
    using i fit t(1) by (simp add: wr_def)
  have "{PBuf i} \<union> {PBuf j | j. i + 1 \<le> j \<and> j < i + 1 + length ds}
      \<subseteq> {PBuf j | j. i \<le> j \<and> j < i + length (d # ds)}" by auto
  then have f: "th_frame {PBuf j | j. i \<le> j \<and> j < i + length (d # ds)} th th'"
    using th_frame_mono [OF th_frame_trans [OF f1 t(2)]] by blast
  have "iov_bytes ?th (PBuf i, h, min cap (length d)) = Some ?t"
    using fit i lb by (simp add: iov_bytes_def rd_def slice_splice_here min.commute) (simp add: slice_def)
  moreover have "iov_bytes th' (PBuf i, h, min cap (length d)) = iov_bytes ?th (PBuf i, h, min cap (length d))"
    by (rule th_frame_iov [OF t(2)]) simp
  ultimately have "iov_bytes th' (PBuf i, h, min cap (length d)) = Some ?t" by (rule trans [rotated])
  then have "iov_bytes th' (PBuf (i + j), h, min cap (length ((d # ds) ! j))) = Some (take cap ((d # ds) ! j))"
    if "j < length (d # ds)" for j
    using t(3) that by (cases j) simp_all
  with e f show ?case by blast
qed

definition queue_holds :: "thread_t \<Rightarrow> nat \<Rightarrow> dest \<Rightarrow> queue \<Rightarrow> bytes list \<Rightarrow> bool" where
  "queue_holds th i dst q ms \<longleftrightarrow>
     list_all2 (\<lambda>e m. snd e = dst \<and> (\<exists>k < i. fst (fst e) = PBuf k) \<and> iov_bytes th (fst e) = Some m) q ms"

lemma queue_holds_frame:
  assumes "queue_holds th i dst q ms" and "th_frame {PBuf i} th th'"
  shows "queue_holds th' (i + 1) dst q ms"
  using assms(1) unfolding queue_holds_def
  by (rule list_all2_mono) (auto simp: th_frame_iov [OF assms(2)] less_SucI)

lemma queue_holds_step:
  assumes "queue_holds th i dst q ms" and "queued th th' (PBuf i) dst m q q' r"
  shows "queue_holds th' (i + 1) dst q' (ms @ (case m of None \<Rightarrow> [] | Some x \<Rightarrow> [x]))"
proof -
  have f: "th_frame {PBuf i} th th'" using assms(2) by (simp add: queued_def)
  show ?thesis
    using queue_holds_frame [OF assms(1) f] assms(2)
    by (cases m) (auto simp: queued_def queue_holds_def intro!: list_all2_appendI)
qed

text \<open>What the datagrams of a batch bring the client, from a session state on.\<close>

fun client_deliveries :: "awg_config_t \<Rightarrow> obfs_session_t \<Rightarrow> bytes list \<Rightarrow> bytes list" where
  "client_deliveries cfg s [] = []"
| "client_deliveries cfg s (d # ds) =
     (if d = [] then client_deliveries cfg s ds
      else (case s2c_message cfg s d of None \<Rightarrow> [] | Some m \<Rightarrow> [m])
        @ client_deliveries cfg (fst (the (obfs_unwrap s d))) ds)"

definition client_dest :: "proxy_t \<Rightarrow> dest" where
  "client_dest p = Some (px_client_addr p, px_client_addr_len p)"

lemma same_shared_trans: "same_shared a b \<Longrightarrow> same_shared b c \<Longrightarrow> same_shared a c"
  by (simp add: same_shared_def)

lemma s2c_packets_client:
  assumes "cf_mode (px_cfg p) = AWG_MODE_CLIENT" and "config_ready (px_cfg p)" and "thread_ok th"
    and "\<forall>j < length ds. iov_bytes th (PBuf (i + j), 0, length (ds ! j)) = Some (ds ! j)"
    and "queue_holds th i (client_dest p) q ms"
  shows "\<exists>p' th' q' a. s2c_packets p th h i (map length ds) now q = Some (p', th', q', a)
    \<and> same_shared p p' \<and> list_all is_log a \<and> thread_ok th' \<and> th_sys th' = th_sys th
    \<and> queue_holds th' (i + length ds) (client_dest p) q'
        (ms @ client_deliveries (px_cfg p) (px_obfs_s2c p) ds)"
  using assms
proof (induction ds arbitrary: p th i q ms)
  case Nil
  then show ?case by (simp add: same_shared_def)
next
  case (Cons d ds)
  let ?s = "px_obfs_s2c p" and ?c = "px_cfg p" and ?m = "s2c_message (px_cfg p) (px_obfs_s2c p) d"
  have d: "iov_bytes th (PBuf i, 0, length d) = Some d" using Cons.prems(4) by force
  have rest: "\<forall>j < length ds. iov_bytes th (PBuf (i + 1 + j), 0, length (ds ! j)) = Some (ds ! j)"
    using Cons.prems(4) by force
  show ?case
  proof (cases "d = []")
    case True
    have "queue_holds th (i + 1) (client_dest p) q ms"
      using queue_holds_frame [OF Cons.prems(5) th_frame_refl [OF Cons.prems(3)]] .
    from Cons.IH [OF Cons.prems(1-3) rest this] True show ?thesis by simp
  next
    case False
    obtain p1 th1 q1 a1 r where s: "proxy_s2c_process_client p th (PBuf i, 0, length d) q = Some (p1, th1, q1, a1, r)"
        "same_shared p p1" "px_obfs_s2c p1 = fst (the (obfs_unwrap ?s d))" "list_all is_log a1"
        "queued th th1 (PBuf i) (client_dest p) ?m q q1 r"
      using s2c_process_client_ok [OF Cons.prems(2,3) d, of q] same_data_shared
      unfolding fst_conv client_dest_def by blast
    have f: "th_frame {PBuf i} th th1" using s(5) by (simp add: queued_def)
    then have t1: "thread_ok th1" "th_sys th1 = th_sys th" by (simp_all add: th_frame_def)
    have c1: "px_cfg p1 = ?c" "client_dest p1 = client_dest p"
      using s(2) by (simp_all add: same_shared_def client_dest_def)
    have rest1: "\<forall>j < length ds. iov_bytes th1 (PBuf (i + 1 + j), 0, length (ds ! j)) = Some (ds ! j)"
      using rest th_frame_iov [OF f] by simp
    have h1: "queue_holds th1 (i + 1) (client_dest p1) q1 (ms @ (case ?m of None \<Rightarrow> [] | Some x \<Rightarrow> [x]))"
      unfolding c1 by (rule queue_holds_step [OF Cons.prems(5) s(5)])
    have m1: "cf_mode (px_cfg p1) = AWG_MODE_CLIENT" "config_ready (px_cfg p1)"
      using Cons.prems(1,2) c1 by simp_all
    obtain p' th' q' a where t: "s2c_packets p1 th1 h (i + 1) (map length ds) now q1 = Some (p', th', q', a)"
        "same_shared p1 p'" "list_all is_log a" "thread_ok th'" "th_sys th' = th_sys th1"
        "queue_holds th' (i + 1 + length ds) (client_dest p1) q'
          ((ms @ (case ?m of None \<Rightarrow> [] | Some x \<Rightarrow> [x])) @ client_deliveries (px_cfg p1) (px_obfs_s2c p1) ds)"
      using Cons.IH [OF m1 t1(1) rest1 h1] by blast
    have e: "s2c_packets p th h i (map length (d # ds)) now q = Some (p', th', q', a1 @ a)"
      using False s(1) t(1) Cons.prems(1) by simp
    have "queue_holds th' (i + length (d # ds)) (client_dest p) q' (ms @ client_deliveries ?c ?s (d # ds))"
      using t(6) False unfolding c1 s(3) by simp
    with e s(2,4) t(2-5) t1(2) same_shared_trans [OF s(2) t(2)] show ?thesis by auto
  qed
qed

section \<open>Sending the queue\<close>

lemma those_map_Some: "list_all2 (\<lambda>e m. f e = Some m) q ms \<Longrightarrow> those (map f q) = Some ms"
  by (induction rule: list_all2_induct) auto

text \<open>When the kernel takes everything, the whole queue is sent, each packet once, in order and
  to its address.\<close>

lemma send_batch_all:
  assumes "pkts \<noteq> []"
  shows "\<exists>gso rest. proxy_io_send_batch_gso p fd pkts has_addr None [int (length pkts)] = (p, gso, rest)
    \<and> gso @ rest = pkts"
proof -
  have g: "send_gso pkts None \<ge> 0" by (simp add: send_gso_def split: option.split)
  have l: "send_loop (drop k pkts) [int (length pkts)] = drop k pkts" for k
    using assms by simp
  show ?thesis using g l [of "nat (send_gso pkts None)"] l [of 0]
    unfolding proxy_io_send_batch_gso_def Let_def by auto
qed

lemma map2_const: "length ds = length xs \<Longrightarrow> (\<forall>d \<in> set ds. d = c) \<Longrightarrow> map2 f ds xs = map (f c) xs"
proof (induction xs arbitrary: ds)
  case (Cons x xs)
  then show ?case by (cases ds) auto
qed simp

lemma send_queue_all:
  assumes sys: "th_sys th = []" and q: "queue_holds th i dst q pkts" and ne: "q \<noteq> []"
    and ga: "ga = dst \<or> ga = None \<and> fd = px_listen_fd p"
  shows "send_queue p th fd q ga = Some (p, th, map (Send fd dst) pkts)"
proof -
  have m: "those (map (\<lambda>e. iov_bytes th (fst e)) q) = Some pkts"
    using q unfolding queue_holds_def by (intro those_map_Some) (auto elim: list_all2_mono)
  have len: "length q = length pkts" using q unfolding queue_holds_def by (rule list_all2_lengthD)
  have dst: "\<forall>d \<in> set (map snd q). d = dst"
    using q unfolding queue_holds_def list_all2_conv_all_nth in_set_conv_nth Ball_def
    by (metis length_map nth_map)
  have pk: "pkts \<noteq> []" using ne len by auto
  obtain gso rest where b: "proxy_io_send_batch_gso p fd pkts (ga \<noteq> None) None [int (length pkts)] = (p, gso, rest)"
      "gso @ rest = pkts"
    using send_batch_all [OF pk, of p fd "ga \<noteq> None"] by blast
  have g0: "gso = []" if "ga = None" "fd = px_listen_fd p"
    using b(1) that by (auto simp: proxy_io_send_batch_gso_def Let_def)
  have r: "map2 (Send fd) (drop (length gso) (map snd q)) rest = map (Send fd dst) rest"
    using len b(2) dst by (intro map2_const) (auto dest: in_set_dropD)
  have "map (Send fd ga) gso = map (Send fd dst) gso" using ga g0 by auto
  then have "map (Send fd ga) gso @ map2 (Send fd) (drop (length gso) (map snd q)) rest
      = map (Send fd dst) pkts"
    unfolding r by (simp only: map_append [symmetric] b(2))
  then show ?thesis using m sys b(1)
    by (simp add: send_queue_def next_sys_def)
qed

text \<open>One \<open>recvmmsg\<close> batch in client mode, received, processed and sent.\<close>

lemma s2c_client_batch:
  assumes mode: "cf_mode (px_cfg p) = AWG_MODE_CLIENT" and cfg: "config_ready (px_cfg p)"
    and ok: "thread_ok th" and client: "px_has_client p" and sys: "th_sys th = []"
    and recv: "xe_recv e = Inr msgs" and ne: "msgs \<noteq> []"
  shows "\<exists>p' th' l' acts. s2c_recv_batch p th l e = Some (p', th', l', acts) \<and> thread_ok th'
    \<and> sent_packets acts = map (\<lambda>m. (px_listen_fd p, client_dest p, m))
        (client_deliveries (px_cfg p) (px_obfs_s2c p) (map (take BUF_TOTAL) (take BATCH_SIZE msgs)))"
proof -
  let ?ds = "take BATCH_SIZE msgs" and ?p = "p\<lparr>px_last_active := True, px_last_remote_rx := True, px_fe_remote_pkt := True\<rparr>"
  let ?cut = "map (take BUF_TOTAL) ?ds"
  have lens: "map (\<lambda>d. min BUF_TOTAL (length d)) ?ds = map length ?cut" by (simp add: min.commute)
  have z: "s2c_headroom (px_cfg p) = 0" "s2c_recv_len (px_cfg p) = BUF_TOTAL"
    using mode by (simp_all add: s2c_headroom_def s2c_recv_len_def)
  have nz: "?ds \<noteq> []" using ne by simp
  obtain th1 where t: "store_datagrams 0 BUF_TOTAL 0 ?ds th = Some th1"
      "th_frame {PBuf j | j. 0 \<le> j \<and> j < 0 + length ?ds} th th1"
      "\<forall>j < length ?ds. iov_bytes th1 (PBuf (0 + j), 0, min BUF_TOTAL (length (?ds ! j))) = Some (take BUF_TOTAL (?ds ! j))"
    using store_datagrams_ok [OF ok, of 0 ?ds 0 BUF_TOTAL] by auto
  have ok1: "thread_ok th1" "th_sys th1 = []" using t(2) sys by (simp_all add: th_frame_def)
  have bufs: "\<forall>j < length ?cut. iov_bytes th1 (PBuf (0 + j), 0, length (?cut ! j)) = Some (?cut ! j)"
    using t(3) by (simp add: min.commute)
  have m1: "cf_mode (px_cfg ?p) = AWG_MODE_CLIENT" "config_ready (px_cfg ?p)" using mode cfg by simp_all
  have q0: "queue_holds th1 0 (client_dest ?p) [] []" by (simp add: queue_holds_def)
  obtain p2 th2 q2 a2 where s: "s2c_packets ?p th1 0 0 (map length ?cut) (xe_now e) [] = Some (p2, th2, q2, a2)"
      "same_shared ?p p2" "list_all is_log a2" "thread_ok th2" "th_sys th2 = th_sys th1"
      "queue_holds th2 (0 + length ?cut) (client_dest ?p) q2
        ([] @ client_deliveries (px_cfg ?p) (px_obfs_s2c ?p) ?cut)"
    using s2c_packets_client [OF m1 ok1(1) bufs q0] by blast
  let ?ms = "client_deliveries (px_cfg p) (px_obfs_s2c p) ?cut"
  have q2: "queue_holds th2 (length ?cut) (client_dest p) q2 ?ms"
    using s(6) by (simp add: client_dest_def)
  have fd: "px_listen_fd p2 = px_listen_fd p" "cf_mode (px_cfg p2) = AWG_MODE_CLIENT"
    using s(2) mode by (simp_all add: same_shared_def)
  have fl: "s2c_flush p2 th2 q2 = Some (p2, th2, map (Send (px_listen_fd p) (client_dest p)) ?ms)"
  proof (cases "q2 = []")
    case True
    then show ?thesis using q2 by (simp add: s2c_flush_def queue_holds_def)
  next
    case False
    then have "snd (hd q2) = client_dest p"
      using q2 by (cases q2) (auto simp: queue_holds_def list_all2_Cons1)
    then show ?thesis
      using False fd send_queue_all [of th2 _ _ q2 ?ms "client_dest p" "px_listen_fd p" p2, OF _ q2 False] s(5) ok1(2)
      by (simp add: s2c_flush_def)
  qed
  obtain a0 l' where r: "s2c_received p l (hd (map length ?cut)) = (?p, l', a0)" "list_all is_log a0"
    by (simp add: s2c_received_def)
  have "s2c_recv_batch p th l e
      = Some (p2, th2, l', a0 @ a2 @ map (Send (px_listen_fd p) (client_dest p)) ?ms)"
    using recv nz t(1) r(1) s(1) fl client z unfolding s2c_recv_batch_def
    by (simp add: Let_def ptr_off_def lens del: map_map)
  with s(3,4) r(2) show ?thesis by (simp add: sent_packets_log)
qed

end
