(* ===== verification/C2s_Correct.thy ===== *)
theory C2s_Correct
  imports Path_Correct
begin

text \<open>
  The client-mode thread from the clients to the remote: no round leaves a buffer, what each
  packet puts on the wire, and that queueing packets and sending them in batches is
  indistinguishable from sending each packet as soon as it is processed.
\<close>

section \<open>What the thread needs\<close>

definition path_ok :: "proxy_t \<Rightarrow> thread_t \<Rightarrow> bool" where
  "path_ok p th \<longleftrightarrow> config_ready (px_cfg p) \<and> ring_ok p \<and> templates_ok (px_cfg p)
     \<and> junk_buf_ok p \<and> thread_ok th"

lemma path_ok_h4: "path_ok p th \<Longrightarrow> hr_min (cf_h4 (px_cfg p)) \<le> hr_max (cf_h4 (px_cfg p))"
  by (simp add: path_ok_def config_ready_def hranges_ordered_def)

definition same_cfg :: "proxy_t \<Rightarrow> proxy_t \<Rightarrow> bool" where
  "same_cfg p p' \<longleftrightarrow> px_cfg p' = px_cfg p \<and> px_remote_fd p' = px_remote_fd p \<and> px_listen_fd p' = px_listen_fd p"

text \<open>Emission touches the generator, the counter and the junk buffers only.\<close>

lemma emit_fields:
  assumes "proxy_emit_send_junk_and_cps p now = Some (p', pkts)"
  shows "\<exists>c r b s. p' = p\<lparr>px_cps_counter := c, px_rng := r, px_junk_buf := b, px_junk_sizes := s\<rparr>"
proof -
  have same: "p\<lparr>px_cps_counter := c\<rparr> = p\<lparr>px_cps_counter := c, px_rng := px_rng p,
      px_junk_buf := px_junk_buf p, px_junk_sizes := px_junk_sizes p\<rparr>" for c by simp
  obtain cps c where g: "cps_generate_all (cf_cps (px_cfg p)) (px_cps_counter p) now = Some (cps, c)"
    using assms by (cases "cps_generate_all (cf_cps (px_cfg p)) (px_cps_counter p) now")
      (auto simp: proxy_emit_send_junk_and_cps_def)
  show ?thesis
  proof (cases "cf_jc (px_cfg p) > 0 \<and> cf_jmax (px_cfg p) > 0")
    case False
    then have "p' = p\<lparr>px_cps_counter := c\<rparr>"
      using assms g by (simp add: proxy_emit_send_junk_and_cps_def del: de_Morgan_conj)
    with same show ?thesis by blast
  next
    case True
    show ?thesis
    proof (cases "junk_layout_sizes (px_cfg p)")
      case None
      then have "p' = p\<lparr>px_cps_counter := c\<rparr>"
        using assms g True by (simp add: proxy_emit_send_junk_and_cps_def)
      with same show ?thesis by blast
    next
      case (Some ab)
      obtain jb sb where ab: "ab = (jb, sb)" by fastforce
      obtain fill rng where f: "fastrand_fill (px_rng p) (unat jb) = (fill, rng)" by fastforce
      have "\<exists>b s. p' = p\<lparr>px_cps_counter := c, px_rng := rng, px_junk_buf := b, px_junk_sizes := s\<rparr>"
        using assms g True Some ab f
        by (auto simp: proxy_emit_send_junk_and_cps_def bind_eq_Some_conv)
      then show ?thesis by blast
    qed
  qed
qed

lemma emit_frame:
  assumes "proxy_emit_send_junk_and_cps p now = Some (p', pkts)"
  shows "same_shared p p'" "ring_ok p' = ring_ok p" "px_obfs_c2s p' = px_obfs_c2s p"
    "px_obfs_s2c p' = px_obfs_s2c p" "px_sessions p' = px_sessions p" "px_has_client p' = px_has_client p"
  using emit_fields [OF assms] by (auto simp: same_shared_def ring_ok_def)

text \<open>The decoys and junk in front of an initiation.\<close>

definition decoys :: "awg_config_t \<Rightarrow> bytes list \<Rightarrow> bool" where
  "decoys cfg ds \<longleftrightarrow> (\<exists>cps junk. ds = cps @ junk \<and> cps_emitted cfg cps \<and> junk_emitted cfg junk)"

text \<open>What one non-transport packet puts on the wire: its translation, wrapped, unless it is too
  long for the profile.\<close>

definition wire_of :: "proxy_t \<Rightarrow> u64 \<Rightarrow> bytes \<Rightarrow> bytes \<Rightarrow> bytes list" where
  "wire_of p v pre d =
    (let out = out_spec (px_cfg p) None v pre d in
     if int (length out) > obfs_max_packet_len p then []
     else case snd (obfs_wrap (px_obfs_c2s p) out) of None \<Rightarrow> [] | Some w \<Rightarrow> [wrap_bytes w])"

definition sends_junk :: "awg_config_t \<Rightarrow> bytes \<Rightarrow> bool" where
  "sends_junk cfg d \<longleftrightarrow> cf_jc cfg > 0 \<and> le32_of d = 1 \<and> length d = 148"

section \<open>One packet\<close>

text \<open>The wrapped packet of a thread: what \<open>th_obfs_wrap_ok\<close> says, with the bytes to send.\<close>

lemma th_obfs_wrap_bytes:
  assumes "thread_ok th" and "iov_bytes th v = Some d"
  shows "\<exists>th' w. th_obfs_wrap s th v = Some (fst (obfs_wrap s d), th', w) \<and> th_frame {PObfs} th th'
    \<and> (case snd (obfs_wrap s d) of None \<Rightarrow> w = None
       | Some out \<Rightarrow> \<exists>v'. w = Some v' \<and> fst v' \<in> {fst v, PObfs} \<and> iov_bytes th' v' = Some (wrap_bytes out))"
proof -
  obtain th' w where w: "th_obfs_wrap s th v = Some (fst (obfs_wrap s d), th', w)" "th_frame {PObfs} th th'"
     "case snd (obfs_wrap s d) of
         None \<Rightarrow> w = None \<and> th' = th
       | Some (WIn _) \<Rightarrow> w = Some v \<and> th' = th
       | Some (WObfsBuf fr) \<Rightarrow> w = Some (PObfs, 0, length fr) \<and> iov_bytes th' (PObfs, 0, length fr) = Some fr"
    using th_obfs_wrap_ok [OF assms] by blast
  show ?thesis
  proof (cases "snd (obfs_wrap s d)")
    case (Some out)
    have "x = d" if "out = WIn x" for x
      using Some that unfolding obfs_wrap_def in_obfs_buf_def by (auto split: awg_obfs_profile_t.splits)
    then have "\<exists>v'. w = Some v' \<and> fst v' \<in> {fst v, PObfs} \<and> iov_bytes th' v' = Some (wrap_bytes out)"
      using w(3) Some assms(2) by (cases out) (auto simp del: split_paired_Ex intro: exI [of _ v])
    then show ?thesis using w(1,2) Some by auto
  qed (use w in auto)
qed

text \<open>A transport packet: the header is drawn from the ring, the padding in the headroom goes out
  with it, and only the receive buffer is written.\<close>

definition transport_wire :: "proxy_t \<Rightarrow> bytes \<Rightarrow> bytes \<Rightarrow> bytes" where
  "transport_wire p pre d =
    pre @ (if cf_h4_noop (px_cfg p) then d else retype (fst (pick_h4 p)) d)"

lemma pick_h4_frame:
  "same_shared p (snd (pick_h4 p))" "px_obfs_c2s (snd (pick_h4 p)) = px_obfs_c2s p"
  "junk_buf_ok (snd (pick_h4 p)) = junk_buf_ok p"
  by (auto simp: same_shared_def junk_buf_ok_def pick_h4_def fill_h4_ring_def Let_def split: prod.split)

lemma retype_slice:
  assumes "off + n \<le> length b" and "4 \<le> n"
  shows "slice (splice b off (le32_bytes t)) 0 (off + n) = take off b @ retype t (slice b off n)"
  using assms by (simp add: slice_def splice_def retype_def drop_take min_def add.commute)

lemma c2s_client_transport_ok:
  assumes ok: "path_ok p th" and i: "i < BATCH_SIZE" and n: "4 \<le> n"
    and d: "iov_bytes th (PBuf i, h, n) = Some d"
  shows "\<exists>p' th' l. (\<forall>q acts. c2s_client_transport i h n (p, th, q, acts)
        = Some (p', th', q @ [((PBuf i, 0, h + n), None)], acts @ l))
    \<and> path_ok p' th' \<and> same_shared p p' \<and> list_all is_log l \<and> th_frame {PBuf i} th th'
    \<and> iov_bytes th' (PBuf i, 0, h + n) = Some (transport_wire p (take h (th_bufs th ! i)) d)"
proof -
  let ?b = "th_bufs th ! i" and ?fe = "first_event (px_fe_transport_c2s p) ''c2s: first transport packet to remote''"
  have tok: "thread_ok th" using ok by (simp add: path_ok_def)
  then have il: "i < length (th_bufs th)" "place_bytes th (PBuf i) = ?b" using i by (auto simp: thread_ok_def)
  have d': "h + n \<le> length ?b" "d = slice ?b h n"
    using d il by (auto simp: iov_bytes_def rd_def split: if_splits)
  show ?thesis
  proof (cases "cf_h4_noop (px_cfg p)")
    case True
    have "iov_bytes th (PBuf i, 0, h + n) = Some (take h ?b @ d)"
      using d' il by (simp add: iov_bytes_def rd_def slice_def take_add)
    moreover have "path_ok (p\<lparr>px_fe_transport_c2s := True\<rparr>) th"
      using ok by (simp add: path_ok_def ring_ok_def junk_buf_ok_def)
    moreover have "same_shared p (p\<lparr>px_fe_transport_c2s := True\<rparr>)" by (simp add: same_shared_def)
    moreover have "\<forall>q acts. c2s_client_transport i h n (p, th, q, acts)
        = Some (p\<lparr>px_fe_transport_c2s := True\<rparr>, th, q @ [((PBuf i, 0, h + n), None)], acts @ ?fe)"
      using True by (simp add: c2s_client_transport_def)
    moreover have "list_all is_log ?fe" by simp
    ultimately show ?thesis using th_frame_refl [OF tok, of "{PBuf i}"] True
      unfolding transport_wire_def if_P [OF True] by blast
  next
    case False
    obtain h4 p1 where pk: "pick_h4 p = (h4, p1)" by fastforce
    let ?b' = "splice ?b h (le32_bytes h4)" and ?p = "p1\<lparr>px_fe_transport_c2s := True\<rparr>"
    let ?th = "set_place (PBuf i) ?b' th"
    have len: "length ?b' = length (place_bytes th (PBuf i))" unfolding il(2) using d'(1) n by simp
    have w: "wr32 (place_bytes th (PBuf i)) h h4 = Some ?b'"
      unfolding il(2) using d'(1) n by (simp add: wr32_def wr_def)
    have fr: "th_frame {PBuf i} th ?th" by (rule th_frame_set [OF tok len])
    have "h + n \<le> length ?b'" using d'(1) len unfolding il(2) by simp
    then have by_bytes: "iov_bytes ?th (PBuf i, 0, h + n) = Some (take h ?b @ retype h4 d)"
      using retype_slice [OF d'(1) n, of h4]
      by (simp only: iov_bytes_def rd_def place_set_same [OF len] case_prod_conv if_True add_0 d'(2))
    have c: "px_cfg p1 = px_cfg p" using pick_h4_frame(1) [of p] by (simp add: pk same_shared_def)
    have "ring_ok p1" using pick_h4_ok [of p] ok path_ok_h4 [OF ok] pk by (simp add: path_ok_def)
    then have pok: "path_ok ?p ?th"
      using ok fr pick_h4_frame(3) [of p] pk c
      by (simp add: path_ok_def ring_ok_def junk_buf_ok_def th_frame_def del: set_place.simps)
    have sh: "same_shared p ?p" using pick_h4_frame(1) [of p] by (simp add: pk same_shared_def)
    have fe: "px_fe_transport_c2s p1 = px_fe_transport_c2s p"
      using pk by (auto simp: pick_h4_def fill_h4_ring_def Let_def split: prod.splits if_splits)
    have "\<forall>q acts. c2s_client_transport i h n (p, th, q, acts)
        = Some (?p, ?th, q @ [((PBuf i, 0, h + n), None)], acts @ ?fe)"
      using False w pk fe by (simp add: c2s_client_transport_def del: set_place.simps place_bytes.simps)
    moreover have "list_all is_log ?fe" by simp
    ultimately show ?thesis using pok sh fr by_bytes
      unfolding transport_wire_def if_not_P [OF False] pk fst_conv by blast
  qed
qed

text \<open>Any other packet.  The vector is what \<open>wire_of\<close> gives, or it has gone out already,
  behind its decoys and junk.\<close>

definition other_result ::
  "awg_config_t \<Rightarrow> int \<Rightarrow> bytes \<Rightarrow> bytes list \<Rightarrow> thread_t \<Rightarrow> place set \<Rightarrow> iovec option \<Rightarrow> action list \<Rightarrow> bool" where
  "other_result cfg fd d ws th P w a \<longleftrightarrow>
    (if sends_junk cfg d
     then w = None \<and> (\<exists>ds. decoys cfg ds \<and> sent_packets a = map (\<lambda>b. (fd, None, b)) (ds @ ws))
     else list_all is_log a
       \<and> (case w of None \<Rightarrow> ws = []
          | Some v \<Rightarrow> fst v \<in> P \<and> (\<exists>m. ws = [m] \<and> iov_bytes th v = Some m)))"

lemma path_ok_update:
  "path_ok (p\<lparr>px_rng := r\<rparr>) th = path_ok p th" "path_ok (p\<lparr>px_fe_init_seen := b\<rparr>) th = path_ok p th"
  "path_ok (p\<lparr>px_obfs_c2s := s\<rparr>) th = path_ok p th" "path_ok (p\<lparr>px_fe_init_sent := b\<rparr>) th = path_ok p th"
  by (simp_all add: path_ok_def ring_ok_def junk_buf_ok_def)

lemma path_ok_thread: "path_ok p th \<Longrightarrow> thread_ok th' \<Longrightarrow> path_ok p th'"
  by (simp add: path_ok_def)

text \<open>The tail shared by both branches: wrap, and say once that the marker went out.\<close>

lemma wrap_log_ok:
  assumes ok: "thread_ok th" and d: "iov_bytes th out = Some m"
  shows "\<exists>th1 w. th_obfs_wrap s th out = Some (fst (obfs_wrap s m), th1, w) \<and> th_frame {PObfs} th th1
    \<and> (case snd (obfs_wrap s m) of None \<Rightarrow> w = None
       | Some x \<Rightarrow> \<exists>v th2 l. w = Some v \<and> log_marker_sent_once th1 (fst (obfs_wrap s m)) side = (th2, l)
           \<and> list_all is_log l \<and> th_frame {PObfs} th th2 \<and> fst v \<in> {fst out, PObfs}
           \<and> iov_bytes th2 v = Some (wrap_bytes x))"
proof -
  obtain th1 w where w: "th_obfs_wrap s th out = Some (fst (obfs_wrap s m), th1, w)" "th_frame {PObfs} th th1"
     "case snd (obfs_wrap s m) of None \<Rightarrow> w = None
       | Some x \<Rightarrow> \<exists>v'. w = Some v' \<and> fst v' \<in> {fst out, PObfs} \<and> iov_bytes th1 v' = Some (wrap_bytes x)"
    using th_obfs_wrap_bytes [OF ok d] by blast
  obtain th2 l where l: "log_marker_sent_once th1 (fst (obfs_wrap s m)) side = (th2, l)" by (rule prod.exhaust)
  have ok1: "thread_ok th1" using w(2) by (simp add: th_frame_def)
  have f2: "th_frame {} th1 th2" using log_once_frame(1) [OF ok1, of "fst (obfs_wrap s m)" side] l by simp
  have "th_frame {PObfs} th th2" using th_frame_trans [OF w(2) f2] by simp
  moreover have "list_all is_log l" using log_actions(8) [of th1 "fst (obfs_wrap s m)" side] l by simp
  moreover have "iov_bytes th2 v = iov_bytes th1 v" for v using th_frame_iov [OF f2] by simp
  ultimately show ?thesis using w l by (cases "snd (obfs_wrap s m)") auto
qed

text \<open>The two ends of \<open>c2s_client_other\<close>: the frame is queued, or it is sent at once behind
  decoys and junk.\<close>

definition client_queue :: "proxy_t \<Rightarrow> thread_t \<Rightarrow> iovec \<Rightarrow> action list
    \<Rightarrow> (proxy_t \<times> thread_t \<times> iovec option \<times> action list) option" where
  "client_queue p th out a0 =
    (if int (snd (snd out)) > obfs_max_packet_len p then Some (p, th, None, a0)
     else do {
       (s, th, w) \<leftarrow> th_obfs_wrap (px_obfs_c2s p) th out;
       let p = p\<lparr>px_obfs_c2s := s\<rparr>;
       (case w of
          None \<Rightarrow> Some (p, th, None, a0)
        | Some v \<Rightarrow>
            let (th, a2) = log_marker_sent_once th s ''c2s''
            in Some (p, th, Some v, a0 @ a2))
     })"

definition client_send :: "int \<Rightarrow> (nat \<Rightarrow> u32) \<Rightarrow> proxy_t \<Rightarrow> thread_t \<Rightarrow> iovec \<Rightarrow> action list
    \<Rightarrow> (proxy_t \<times> thread_t \<times> iovec option \<times> action list) option" where
  "client_send fd now p th out a0 = do {
     (p, pkts) \<leftarrow> proxy_emit_send_junk_and_cps p now;
     let a1 = log_debug ''c2s: handshake init, sending junk'' # map (Send fd None) pkts;
     if int (snd (snd out)) > obfs_max_packet_len p then Some (p, th, None, a0 @ a1)
     else do {
       (s, th, w) \<leftarrow> th_obfs_wrap (px_obfs_c2s p) th out;
       let p = p\<lparr>px_obfs_c2s := s\<rparr>;
       (th, a2) \<leftarrow> (case w of
          None \<Rightarrow> Some (th, [])
        | Some v \<Rightarrow> do {
            let (th, a2) = log_marker_sent_once th s ''c2s'';
            d \<leftarrow> iov_bytes th v;
            Some (th, a2 @ [Send fd None d])
          });
       Some (p\<lparr>px_fe_init_sent := True\<rparr>, th, None, a0 @ a1 @ a2
         @ first_event (px_fe_init_sent p) (''c2s: AWG handshake init forwarded to remote (size=''
             @ u32_to_str (of_nat (snd (snd out))) @ '')''))
     }
   }"

text \<open>What becomes of a translated packet: nothing when it does not fit, else its frame.\<close>

definition frame_out :: "proxy_t \<Rightarrow> bytes \<Rightarrow> bytes list" where
  "frame_out p m =
    (if int (length m) > obfs_max_packet_len p then []
     else case snd (obfs_wrap (px_obfs_c2s p) m) of None \<Rightarrow> [] | Some w \<Rightarrow> [wrap_bytes w])"

lemma client_queue_ok:
  assumes ok: "path_ok p th" and d: "iov_bytes th out = Some m" "snd (snd out) = length m" and a0: "list_all is_log a0"
  shows "\<exists>p' th' w a. client_queue p th out a0 = Some (p', th', w, a)
    \<and> path_ok p' th' \<and> same_shared p p' \<and> th_frame {PObfs} th th' \<and> list_all is_log a
    \<and> (case w of None \<Rightarrow> frame_out p m = []
       | Some v \<Rightarrow> fst v \<in> {fst out, PObfs} \<and> (\<exists>x. frame_out p m = [x] \<and> iov_bytes th' v = Some x))"
proof (cases "int (length m) > obfs_max_packet_len p")
  case True
  have "thread_ok th" using ok by (simp add: path_ok_def)
  from True th_frame_refl [OF this, of "{PObfs}"] ok d(2) a0 show ?thesis
    by (simp add: client_queue_def frame_out_def same_shared_def)
next
  case short: False
  let ?s = "px_obfs_c2s p"
  let ?p = "p\<lparr>px_obfs_c2s := fst (obfs_wrap ?s m)\<rparr>"
  have tok: "thread_ok th" using ok by (simp add: path_ok_def)
  have pk: "path_ok ?p x" if "th_frame {PObfs} th x" for x
    using path_ok_thread [OF ok, of x] that by (simp add: path_ok_update th_frame_def)
  have sh: "same_shared p ?p" by (simp add: same_shared_def)
  obtain th2 w where w: "th_obfs_wrap ?s th out = Some (fst (obfs_wrap ?s m), th2, w)" "th_frame {PObfs} th th2"
      "case snd (obfs_wrap ?s m) of None \<Rightarrow> w = None
       | Some x \<Rightarrow> \<exists>v th3 l. w = Some v \<and> log_marker_sent_once th2 (fst (obfs_wrap ?s m)) ''c2s'' = (th3, l)
           \<and> list_all is_log l \<and> th_frame {PObfs} th th3 \<and> fst v \<in> {fst out, PObfs}
           \<and> iov_bytes th3 v = Some (wrap_bytes x)"
    using wrap_log_ok [OF tok d(1)] by blast
  show ?thesis
  proof (cases "snd (obfs_wrap ?s m)")
    case None
    then have "client_queue p th out a0 = Some (?p, th2, None, a0)" "frame_out p m = []"
      using w(1,3) short d(2) by (simp_all add: client_queue_def frame_out_def)
    with pk [OF w(2)] sh w(2) a0 show ?thesis by fastforce
  next
    case (Some x)
    then obtain u th3 l where u: "w = Some u" "log_marker_sent_once th2 (fst (obfs_wrap ?s m)) ''c2s'' = (th3, l)"
       "list_all is_log l" "th_frame {PObfs} th th3" "fst u \<in> {fst out, PObfs}" "iov_bytes th3 u = Some (wrap_bytes x)"
      using w(3) by auto
    have "client_queue p th out a0 = Some (?p, th3, Some u, a0 @ l)" "frame_out p m = [wrap_bytes x]"
      using Some w(1) u(1,2) short d(2) by (simp_all add: client_queue_def frame_out_def)
    moreover have "list_all is_log (a0 @ l)" using a0 u(3) by simp
    ultimately show ?thesis using pk [OF u(4)] sh u(4-6) by fastforce
  qed
qed

lemma client_send_ok:
  assumes ok: "path_ok p th" and d: "iov_bytes th out = Some m" "snd (snd out) = length m" and a0: "list_all is_log a0"
  shows "\<exists>p' th' a ds. client_send fd now p th out a0 = Some (p', th', None, a)
    \<and> path_ok p' th' \<and> same_shared p p' \<and> th_frame {PObfs} th th' \<and> decoys (px_cfg p) ds
    \<and> sent_packets a = map (\<lambda>b. (fd, None, b)) (ds @ frame_out p m)"
proof -
  let ?s = "px_obfs_c2s p"
  have tok: "thread_ok th" using ok by (simp add: path_ok_def)
  have c1: "config_ready (px_cfg p)" "templates_ok (px_cfg p)" "junk_buf_ok p" using ok by (simp_all add: path_ok_def)
  obtain p2 cps jk where e: "proxy_emit_send_junk_and_cps p now = Some (p2, cps @ jk)"
      "cps_emitted (px_cfg p) cps" "junk_emitted (px_cfg p) jk" "junk_buf_ok p2"
    using emit_ok [OF c1, of now] by blast
  have f2: "same_shared p p2" "ring_ok p2 = ring_ok p" "px_obfs_c2s p2 = ?s" using emit_frame [OF e(1)] by simp_all
  have ok2: "path_ok p2 x" if "th_frame {PObfs} th x" for x
    using ok that f2 e(4) by (simp add: path_ok_def same_shared_def th_frame_def)
  have max: "obfs_max_packet_len p2 = obfs_max_packet_len p"
    using f2(1) by (simp add: obfs_max_packet_len_def same_shared_def)
  define a1 where "a1 = log_debug ''c2s: handshake init, sending junk'' # map (Send fd None) (cps @ jk)"
  have dec: "decoys (px_cfg p) (cps @ jk)" using e by (auto simp: decoys_def)
  have sent1: "sent_packets (a0 @ a1) = map (\<lambda>b. (fd, None, b)) (cps @ jk)"
    using a0 by (simp add: a1_def sent_packets_log log_defs)
  have "\<exists>p' th' a. client_send fd now p th out a0 = Some (p', th', None, a)
      \<and> path_ok p' th' \<and> same_shared p p' \<and> th_frame {PObfs} th th'
      \<and> sent_packets a = map (\<lambda>b. (fd, None, b)) ((cps @ jk) @ frame_out p m)"
  proof (cases "int (length m) > obfs_max_packet_len p")
    case True
    then have "client_send fd now p th out a0 = Some (p2, th, None, a0 @ a1)" "frame_out p m = []"
      using e(1) max d(2) by (simp_all add: client_send_def frame_out_def a1_def)
    moreover have "th_frame {PObfs} th th" by (rule th_frame_refl [OF tok])
    ultimately show ?thesis using ok2 f2(1) sent1 by simp
  next
    case short: False
    obtain th2 w where w: "th_obfs_wrap ?s th out = Some (fst (obfs_wrap ?s m), th2, w)" "th_frame {PObfs} th th2"
        "case snd (obfs_wrap ?s m) of None \<Rightarrow> w = None
         | Some x \<Rightarrow> \<exists>v th3 l. w = Some v \<and> log_marker_sent_once th2 (fst (obfs_wrap ?s m)) ''c2s'' = (th3, l)
             \<and> list_all is_log l \<and> th_frame {PObfs} th th3 \<and> fst v \<in> {fst out, PObfs}
             \<and> iov_bytes th3 v = Some (wrap_bytes x)"
      using wrap_log_ok [OF tok d(1)] by blast
    define p3 where "p3 = p2\<lparr>px_obfs_c2s := fst (obfs_wrap ?s m), px_fe_init_sent := True\<rparr>"
    define fe where "fe = first_event (px_fe_init_sent p2)
      (''c2s: AWG handshake init forwarded to remote (size='' @ u32_to_str (of_nat (length m)) @ '')'')"
    have ok3: "path_ok p3 x" if "th_frame {PObfs} th x" for x using ok2 [OF that] by (simp add: p3_def path_ok_update)
    have sh3: "same_shared p p3" using f2(1) by (simp add: p3_def same_shared_def)
    have logs: "sent_packets fe = []" unfolding fe_def by (rule sent_packets_log) simp
    show ?thesis
    proof (cases "snd (obfs_wrap ?s m)")
      case None
      then have "client_send fd now p th out a0 = Some (p3, th2, None, a0 @ a1 @ [] @ fe)" "frame_out p m = []"
        using w(1,3) short e(1) max f2(3) d(2) by (simp_all add: client_send_def frame_out_def a1_def p3_def fe_def)
      moreover have "sent_packets (a0 @ a1 @ [] @ fe) = map (\<lambda>b. (fd, None, b)) (cps @ jk)" using sent1 logs by simp
      ultimately show ?thesis using ok3 [OF w(2)] sh3 w(2) by simp
    next
      case (Some x)
      then obtain u th3 l where u: "w = Some u" "log_marker_sent_once th2 (fst (obfs_wrap ?s m)) ''c2s'' = (th3, l)"
         "list_all is_log l" "th_frame {PObfs} th th3" "iov_bytes th3 u = Some (wrap_bytes x)"
        using w(3) by auto
      define a2 where "a2 = l @ [Send fd None (wrap_bytes x)]"
      have "client_send fd now p th out a0 = Some (p3, th3, None, a0 @ a1 @ a2 @ fe)" "frame_out p m = [wrap_bytes x]"
        using Some w(1) u(1,2,5) short e(1) max f2(3) d(2)
        by (simp_all add: client_send_def frame_out_def a1_def a2_def p3_def fe_def)
      moreover have "sent_packets (a0 @ a1 @ a2 @ fe) = map (\<lambda>b. (fd, None, b)) ((cps @ jk) @ [wrap_bytes x])"
        using sent1 logs u(3) by (simp add: a2_def sent_packets_log)
      ultimately show ?thesis using ok3 [OF u(4)] sh3 u(4) by simp
    qed
  qed
  with dec show ?thesis by blast
qed

lemma c2s_client_other_ok:
  assumes ok: "path_ok p th" and i: "i < BATCH_SIZE" and d: "iov_bytes th (PBuf i, h, n) = Some d"
  shows "\<exists>p' th' w a. c2s_client_other fd i h n now p th = Some (p', th', w, a)
    \<and> path_ok p' th' \<and> same_shared p p' \<and> th_frame {PBuf i, PHs, PObfs} th th'
    \<and> other_result (px_cfg p) fd d
        (wire_of p (fst (fastrand_u64 (px_rng p))) (take h (th_bufs th ! i)) d) th' {PBuf i, PHs, PObfs} w a"
proof -
  let ?c = "px_cfg p"
  define hin where "hin = (if n \<ge> 4 then le32_of d else 0)"
  have tok: "thread_ok th" using ok by (simp add: path_ok_def)
  then have il: "place_bytes th (PBuf i) = th_bufs th ! i" using i by (auto simp: thread_ok_def)
  have hin: "(if n \<ge> 4 then rd32 (place_bytes th (PBuf i)) h else Some 0) = Some hin"
    unfolding il hin_def using d il by (auto simp: iov_bytes_def rd_def rd32_def slice_def le32_of_take min_def split: if_splits)
  obtain v r where v: "fastrand_u64 (px_rng p) = (v, r)" by (rule prod.exhaust)
  define a0 where "a0 = (if hin = WG_HANDSHAKE_INIT then first_event (px_fe_init_seen p)
         (''c2s: WG handshake init received from client (size='' @ u32_to_str (of_nat n) @ '')'') else [])"
  have a0: "list_all is_log a0" by (simp add: a0_def)
  define p1 where "p1 = (if hin = WG_HANDSHAKE_INIT then p\<lparr>px_fe_init_seen := True\<rparr> else p)\<lparr>px_rng := r\<rparr>"
  have p1: "path_ok p1 th" "same_shared p p1" "px_obfs_c2s p1 = px_obfs_c2s p" "px_cfg p1 = ?c"
    using ok by (simp_all add: p1_def path_ok_update same_shared_def)
  define m where "m = out_spec ?c None v (take h (th_bufs th ! i)) d"
  have key: "key32 None" by simp
  have cfg: "config_ready ?c" using ok by (simp add: path_ok_def)
  obtain th1 out where o: "th_transform_outbound th i h n ?c None v = Some (th1, out, sends_junk ?c d)"
      "iov_bytes th1 out = Some m" "snd (snd out) = length m" "fst out \<in> {PBuf i, PHs}" "th_frame {PBuf i, PHs} th th1"
    using th_transform_outbound_ok [OF cfg key tok i d, of v] unfolding m_def sends_junk_def by blast
  have ok1: "path_ok p1 th1" using path_ok_thread [OF p1(1)] o(5) by (simp add: th_frame_def)
  have ws: "wire_of p v (take h (th_bufs th ! i)) d = frame_out p1 m"
    by (simp add: wire_of_def frame_out_def m_def Let_def p1(3,4) obfs_max_packet_len_def)
  have fr: "th_frame {PBuf i, PHs, PObfs} th x" if "th_frame {PObfs} th1 x" for x
    using th_frame_trans [OF o(5) that] by (simp add: insert_commute)
  have start: "c2s_client_other fd i h n now p th =
     (if sends_junk ?c d then client_send fd now p1 th1 out a0 else client_queue p1 th1 out a0)"
    using hin v o(1) unfolding c2s_client_other_def client_send_def client_queue_def a0_def p1_def Let_def
    by (cases "hin = WG_HANDSHAKE_INIT") (simp_all del: place_bytes.simps)
  show ?thesis
  proof (cases "sends_junk ?c d")
    case True
    from client_send_ok [OF ok1 o(2,3) a0, of fd now] p1(2,4) fr True show ?thesis
      unfolding start v fst_conv ws other_result_def by (auto intro: same_shared_trans)
  next
    case False
    obtain p' th' w a where q: "client_queue p1 th1 out a0 = Some (p', th', w, a)" "path_ok p' th'" "same_shared p1 p'"
        "th_frame {PObfs} th1 th'" "list_all is_log a"
        "case w of None \<Rightarrow> frame_out p1 m = []
         | Some v \<Rightarrow> fst v \<in> {fst out, PObfs} \<and> (\<exists>x. frame_out p1 m = [x] \<and> iov_bytes th' v = Some x)"
      using client_queue_ok [OF ok1 o(2,3) a0] by blast
    have "other_result ?c fd d (frame_out p1 m) th' {PBuf i, PHs, PObfs} w a"
      using False q(5,6) o(4) by (auto simp: other_result_def split: option.splits)
    with q(1-4) p1(2) fr False show ?thesis unfolding start v fst_conv ws by (auto intro: same_shared_trans)
  qed
qed

section \<open>Batches\<close>

text \<open>The same packets, each sent as soon as it has been processed.\<close>

fun c2s_client_eager ::
  "int \<Rightarrow> (nat \<Rightarrow> u32) \<Rightarrow> nat \<Rightarrow> nat list \<Rightarrow> c2s_state \<Rightarrow> c2s_state option" where
  "c2s_client_eager fd now i [] st = Some st"
| "c2s_client_eager fd now i (n # ns) st = do {
     st \<leftarrow> c2s_client_packet fd now i n st;
     st \<leftarrow> flush_c2s fd st;
     c2s_client_eager fd now (i + 1) ns st
   }"

text \<open>The queue between two packets: its vectors lie in buffers already passed, in \<open>hs_buf\<close> or
  in \<open>obfs_buf\<close>, and hold the packets still to go.\<close>

definition pending :: "thread_t \<Rightarrow> nat \<Rightarrow> queue \<Rightarrow> bytes list \<Rightarrow> bool" where
  "pending th i q ms \<longleftrightarrow>
     list_all2 (\<lambda>e m. snd e = None \<and> (\<forall>k \<ge> i. fst (fst e) \<noteq> PBuf k) \<and> iov_bytes th (fst e) = Some m) q ms"

lemma pending_Nil [simp]: "pending th i [] ms = (ms = [])"
  by (simp add: pending_def)

lemma pending_frame:
  assumes "pending th i q ms" and "th_frame {PBuf i} th th'"
  shows "pending th' (i + 1) q ms"
  using assms(1) unfolding pending_def
  by (rule list_all2_mono) (auto simp: th_frame_iov [OF assms(2)])

lemma pending_add:
  "pending th i q ms \<Longrightarrow> (\<forall>k \<ge> i. fst v \<noteq> PBuf k) \<Longrightarrow> iov_bytes th v = Some m
    \<Longrightarrow> pending th i (q @ [(v, None)]) (ms @ [m])"
  unfolding pending_def by (intro list_all2_appendI) simp_all

lemma flush_pending:
  assumes "pending th i q ms" and sys: "th_sys th = []"
  shows "flush_c2s fd (p, th, q, acts) = Some (p, th, [], acts @ map (Send fd None) ms)"
proof (cases "q = []")
  case True
  then show ?thesis using assms by (simp add: flush_c2s_def)
next
  case False
  have m: "those (map (\<lambda>e. iov_bytes th (fst e)) q) = Some ms"
    using assms(1) unfolding pending_def by (intro those_map_Some) (auto elim: list_all2_mono)
  have len: "length q = length ms" using assms(1) unfolding pending_def by (rule list_all2_lengthD)
  have dst: "\<forall>d \<in> set (map snd q). d = None"
    using assms(1) unfolding pending_def list_all2_conv_all_nth in_set_conv_nth Ball_def
    by (metis length_map nth_map)
  have "ms \<noteq> []" using False len by auto
  then obtain gso rest where b: "proxy_io_send_batch_gso p fd ms False None [int (length ms)] = (p, gso, rest)"
      "gso @ rest = ms" using send_batch_all [of ms p fd False] by blast
  have "map2 (Send fd) (drop (length gso) (map snd q)) rest = map (Send fd None) rest"
    using len b(2) dst by (intro map2_const) (auto dest: in_set_dropD)
  then have "map (Send fd None) gso @ map2 (Send fd) (drop (length gso) (map snd q)) rest = map (Send fd None) ms"
    by (simp only: map_append [symmetric] b(2))
  then show ?thesis using False m sys b(1) by (simp add: flush_c2s_def send_queue_def next_sys_def)
qed

text \<open>One packet either joins the queue without touching what is pending, or empties it
  first.\<close>

lemma c2s_client_packet_cases:
  assumes ok: "path_ok p th" and i: "i < BATCH_SIZE" and n: "n \<noteq> 0"
    and h: "ptr_off (cf_s4 (px_cfg p)) = Some h" and d: "iov_bytes th (PBuf i, h, n) = Some d"
  shows "(\<exists>p' th' l v m. (\<forall>q acts. c2s_client_packet fd now i n (p, th, q, acts)
        = Some (p', th', q @ [(v, None)], acts @ l)) \<and> path_ok p' th' \<and> same_shared p p'
      \<and> list_all is_log l \<and> th_frame {PBuf i} th th' \<and> fst v = PBuf i \<and> iov_bytes th' v = Some m)
    \<or> (\<exists>p' th' w a. (\<forall>q acts. c2s_client_packet fd now i n (p, th, q, acts) = do {
          (p0, th0, q, acts) \<leftarrow> flush_c2s fd (p, th, q, acts);
          (p, th, w, a) \<leftarrow> c2s_client_other fd i h n now p0 th0;
          Some (p, th, (case w of None \<Rightarrow> q | Some v \<Rightarrow> q @ [(v, None)]), acts @ a) })
      \<and> c2s_client_other fd i h n now p th = Some (p', th', w, a) \<and> path_ok p' th' \<and> same_shared p p'
      \<and> th_frame {PBuf i, PHs, PObfs} th th'
      \<and> (case w of None \<Rightarrow> True | Some v \<Rightarrow> sent_packets a = [] \<and> fst v \<in> {PBuf i, PHs, PObfs}
           \<and> (\<exists>m. iov_bytes th' v = Some m)))"
proof -
  have tok: "thread_ok th" using ok by (simp add: path_ok_def)
  then have il: "place_bytes th (PBuf i) = th_bufs th ! i" using i by (auto simp: thread_ok_def)
  have d': "h + n \<le> length (th_bufs th ! i)"
    using d il by (auto simp: iov_bytes_def rd_def split: if_splits)
  define hd where "hd = (if n \<ge> WG_TRANSPORT_MIN then le32_of (drop h (th_bufs th ! i)) else 0)"
  have hd: "(if n \<ge> WG_TRANSPORT_MIN then rd32 (place_bytes th (PBuf i)) h else Some 0) = Some hd"
    unfolding il hd_def using d' by (simp add: rd32_def slice_def le32_of_take min_def)
  show ?thesis
  proof (cases "n \<ge> WG_TRANSPORT_MIN \<and> hd = WG_TRANSPORT_DATA")
    case True
    then have "4 \<le> n" by simp
    from c2s_client_transport_ok [OF ok i this d] obtain p' th' l where t:
      "\<forall>q acts. c2s_client_transport i h n (p, th, q, acts) = Some (p', th', q @ [((PBuf i, 0, h + n), None)], acts @ l)"
      "path_ok p' th'" "same_shared p p'" "list_all is_log l" "th_frame {PBuf i} th th'"
      "iov_bytes th' (PBuf i, 0, h + n) = Some (transport_wire p (take h (th_bufs th ! i)) d)" by blast
    have "\<forall>q acts. c2s_client_packet fd now i n (p, th, q, acts) = Some (p', th', q @ [((PBuf i, 0, h + n), None)], acts @ l)"
      using t(1) n h hd True unfolding c2s_client_packet_def by simp
    then show ?thesis using t(2-6) by fastforce
  next
    case False
    obtain p' th' w a where o: "c2s_client_other fd i h n now p th = Some (p', th', w, a)"
      "path_ok p' th'" "same_shared p p'" "th_frame {PBuf i, PHs, PObfs} th th'"
      "other_result (px_cfg p) fd d
        (wire_of p (fst (fastrand_u64 (px_rng p))) (take h (th_bufs th ! i)) d) th' {PBuf i, PHs, PObfs} w a"
      using c2s_client_other_ok [OF ok i d, of fd now] by blast
    have "\<forall>q acts. c2s_client_packet fd now i n (p, th, q, acts) = do {
          (p0, th0, q, acts) \<leftarrow> flush_c2s fd (p, th, q, acts);
          (p, th, w, a) \<leftarrow> c2s_client_other fd i h n now p0 th0;
          Some (p, th, (case w of None \<Rightarrow> q | Some v \<Rightarrow> q @ [(v, None)]), acts @ a) }"
      using n h hd False unfolding c2s_client_packet_def by (simp del: de_Morgan_conj)
    moreover have "case w of None \<Rightarrow> True | Some v \<Rightarrow> sent_packets a = [] \<and> fst v \<in> {PBuf i, PHs, PObfs}
           \<and> (\<exists>m. iov_bytes th' v = Some m)"
      using o(5) by (auto simp: other_result_def sent_packets_log split: option.splits if_splits)
    ultimately show ?thesis using o(1-4) by blast
  qed
qed

text \<open>One packet, queued behind what is pending or sent at once: the same state, and what is
  pending afterwards is what the eager side has sent in addition.\<close>

lemma c2s_packet_eager:
  assumes ok: "path_ok p th" and sys0: "th_sys th = []" and h: "ptr_off (cf_s4 (px_cfg p)) = Some h"
    and i: "i < BATCH_SIZE" and d: "iov_bytes th (PBuf i, h, n) = Some d" and q: "pending th i q ms"
    and sent: "sent_packets ae = sent_packets ab @ map (\<lambda>b. (fd, None, b)) ms"
  shows "\<exists>p1 th1 q1 ab1 ae1 ms1. c2s_client_packet fd now i n (p, th, q, ab) = Some (p1, th1, q1, ab1)
    \<and> c2s_client_packet fd now i n (p, th, [], ae) \<bind> flush_c2s fd = Some (p1, th1, [], ae1)
    \<and> path_ok p1 th1 \<and> same_shared p p1 \<and> th_frame {PBuf i, PHs, PObfs} th th1
    \<and> pending th1 (i + 1) q1 ms1 \<and> sent_packets ae1 = sent_packets ab1 @ map (\<lambda>b. (fd, None, b)) ms1"
proof -
  have pack: ?thesis if
      "c2s_client_packet fd now i n (p, th, q, ab) = Some (p1, th1, q1, ab1)"
      "c2s_client_packet fd now i n (p, th, [], ae) \<bind> flush_c2s fd = Some (p1, th1, [], ae1)"
      "path_ok p1 th1" "same_shared p p1" "th_frame {PBuf i, PHs, PObfs} th th1"
      "pending th1 (i + 1) q1 ms1" "sent_packets ae1 = sent_packets ab1 @ map (\<lambda>b. (fd, None, b)) ms1"
    for p1 th1 q1 ab1 ae1 ms1
    using that by blast
  show ?thesis
  proof (cases "n = 0")
    case True
    have skip: "c2s_client_packet fd now i n st = Some st" for st
      using True by (cases st) (simp add: c2s_client_packet_def)
    have fr: "th_frame X th th" for X using ok by (simp add: path_ok_def th_frame_refl)
    show ?thesis
      by (rule pack [OF skip _ ok _ fr pending_frame [OF q fr] sent]) (simp_all add: skip flush_c2s_def same_shared_def)
  next
    case False
    from c2s_client_packet_cases [OF ok i False h d, of fd now]
    show ?thesis
    proof (elim disjE exE conjE)
      fix p1 th1 l v m
      assume t: "\<forall>q acts. c2s_client_packet fd now i n (p, th, q, acts) = Some (p1, th1, q @ [(v, None)], acts @ l)"
        "path_ok p1 th1" "same_shared p p1" "list_all is_log l" "th_frame {PBuf i} th th1" "fst v = PBuf i"
        "iov_bytes th1 v = Some m"
      have sys: "th_sys th1 = []" using t(5) sys0 by (simp add: th_frame_def)
      have pv: "\<forall>k \<ge> i + 1. fst v \<noteq> PBuf k" using t(6) by simp
      have "pending th1 (i + 1) ([] @ [(v, None)]) ([] @ [m])" by (rule pending_add [OF _ pv t(7)]) simp
      from flush_pending [OF this sys]
      have e: "c2s_client_packet fd now i n (p, th, [], ae) \<bind> flush_c2s fd
          = Some (p1, th1, [], (ae @ l) @ map (Send fd None) [m])" using t(1) by simp
      show ?thesis
        by (rule pack [OF t(1) [rule_format] e t(2,3) th_frame_mono [OF t(5)]
              pending_add [OF pending_frame [OF q t(5)] pv t(7)]])
          (use sent t(4) in \<open>simp_all add: sent_packets_log\<close>)
    next
      fix p1 th1 w a
      assume t: "\<forall>q acts. c2s_client_packet fd now i n (p, th, q, acts) = do {
          (p0, th0, q, acts) \<leftarrow> flush_c2s fd (p, th, q, acts);
          (p, th, w, a) \<leftarrow> c2s_client_other fd i h n now p0 th0;
          Some (p, th, (case w of None \<Rightarrow> q | Some v \<Rightarrow> q @ [(v, None)]), acts @ a) }"
        "c2s_client_other fd i h n now p th = Some (p1, th1, w, a)" "path_ok p1 th1" "same_shared p p1"
        "th_frame {PBuf i, PHs, PObfs} th th1"
        "case w of None \<Rightarrow> True | Some v \<Rightarrow> sent_packets a = [] \<and> fst v \<in> {PBuf i, PHs, PObfs}
           \<and> (\<exists>m. iov_bytes th1 v = Some m)"
      have sys: "th_sys th1 = []" using t(5) sys0 by (simp add: th_frame_def)
      let ?q = "case w of None \<Rightarrow> [] | Some v \<Rightarrow> [(v, None)]"
      obtain ms1 where m: "pending th1 (i + 1) ?q ms1"
      proof (cases w)
        case None
        then show ?thesis using that [of "[]"] by simp
      next
        case (Some v)
        then obtain m where "fst v \<in> {PBuf i, PHs, PObfs}" "iov_bytes th1 v = Some m" using t(6) by auto
        then have "pending th1 (i + 1) ([] @ [(v, None)]) ([] @ [m])"
          by (intro pending_add) auto
        then show ?thesis using Some that by simp
      qed
      have b: "c2s_client_packet fd now i n (p, th, q, ab) = Some (p1, th1, ?q, (ab @ map (Send fd None) ms) @ a)"
        using t(1,2) flush_pending [OF q sys0] by (simp split: option.split)
      have "c2s_client_packet fd now i n (p, th, [], ae) = Some (p1, th1, ?q, ae @ a)"
        using t(1,2) by (simp add: flush_c2s_def split: option.split)
      then have e: "c2s_client_packet fd now i n (p, th, [], ae) \<bind> flush_c2s fd
          = Some (p1, th1, [], (ae @ a) @ map (Send fd None) ms1)"
        using flush_pending [OF m sys] by simp
      show ?thesis
        by (rule pack [OF b e t(3-5) m]) (use sent in simp)
    qed
  qed
qed

lemma c2s_batch_eager:
  assumes "path_ok p th" and "th_sys th = []" and "ptr_off (cf_s4 (px_cfg p)) = Some h"
    and "\<forall>j < length ns. \<exists>d. iov_bytes th (PBuf (i + j), h, ns ! j) = Some d"
    and "i + length ns \<le> BATCH_SIZE" and "pending th i q ms"
    and "sent_packets ae = sent_packets ab @ map (\<lambda>b. (fd, None, b)) ms"
  shows "\<exists>p' th' ab' ae'. c2s_client_packets fd now i ns (p, th, q, ab) \<bind> flush_c2s fd = Some (p', th', [], ab')
    \<and> c2s_client_eager fd now i ns (p, th, [], ae) = Some (p', th', [], ae')
    \<and> sent_packets ab' = sent_packets ae' \<and> path_ok p' th' \<and> same_shared p p'"
  using assms
proof (induction ns arbitrary: p th i q ms ae ab)
  case Nil
  then show ?case using flush_pending [OF Nil.prems(6,2)] by (simp add: same_shared_def)
next
  case (Cons n ns)
  have i: "i < BATCH_SIZE" "i + 1 + length ns \<le> BATCH_SIZE" using Cons.prems(5) by simp_all
  obtain d where d: "iov_bytes th (PBuf i, h, n) = Some d" using Cons.prems(4) by force
  have rest: "\<forall>j < length ns. \<exists>d. iov_bytes th (PBuf (i + 1 + j), h, ns ! j) = Some d"
    using Cons.prems(4) by force
  have rest': "\<forall>j < length ns. \<exists>d. iov_bytes th' (PBuf (i + 1 + j), h, ns ! j) = Some d"
    if "th_frame {PBuf i, PHs, PObfs} th th'" for th'
    using rest th_frame_iov [OF that] by simp
  obtain p1 th1 q1 ab1 ae1 ms1 where step:
      "c2s_client_packet fd now i n (p, th, q, ab) = Some (p1, th1, q1, ab1)"
      "c2s_client_packet fd now i n (p, th, [], ae) \<bind> flush_c2s fd = Some (p1, th1, [], ae1)"
      "path_ok p1 th1" "same_shared p p1" "th_frame {PBuf i, PHs, PObfs} th th1"
      "pending th1 (i + 1) q1 ms1" "sent_packets ae1 = sent_packets ab1 @ map (\<lambda>b. (fd, None, b)) ms1"
    using c2s_packet_eager [OF Cons.prems(1-3) i(1) d Cons.prems(6,7), of now] by blast
  have sys: "th_sys th1 = []" using step(5) Cons.prems(2) by (simp add: th_frame_def)
  have s4: "ptr_off (cf_s4 (px_cfg p1)) = Some h" using step(4) Cons.prems(3) by (simp add: same_shared_def)
  obtain p' th' ab' ae' where r:
    "c2s_client_packets fd now (i + 1) ns (p1, th1, q1, ab1) \<bind> flush_c2s fd = Some (p', th', [], ab')"
    "c2s_client_eager fd now (i + 1) ns (p1, th1, [], ae1) = Some (p', th', [], ae')"
    "sent_packets ab' = sent_packets ae'" "path_ok p' th'" "same_shared p1 p'"
    using Cons.IH [OF step(3) sys s4 rest' [OF step(5)] i(2) step(6,7)] by blast
  have "c2s_client_eager fd now i (n # ns) (p, th, [], ae) = Some (p', th', [], ae')"
    using step(2) r(2) by (auto simp: bind_eq_Some_conv)
  then show ?case using step(1) r same_shared_trans [OF step(4) r(5)] by simp
qed

text \<open>What one packet puts on the wire or into the queue, from an empty queue.\<close>

lemma c2s_client_packet_wire:
  assumes ok: "path_ok p th" and i: "i < BATCH_SIZE" and n: "n \<noteq> 0"
    and h: "ptr_off (cf_s4 (px_cfg p)) = Some h" and d: "iov_bytes th (PBuf i, h, n) = Some d"
  shows "\<exists>p' th' q a. c2s_client_packet fd now i n (p, th, [], []) = Some (p', th', q, a) \<and> path_ok p' th'
    \<and> (let pre = take h (th_bufs th ! i); ws = wire_of p (fst (fastrand_u64 (px_rng p))) pre d in
       if 32 \<le> length d \<and> le32_of d = 4 then
         sent_packets a = [] \<and> (\<exists>v. q = [(v, None)] \<and> iov_bytes th' v = Some (transport_wire p pre d))
       else if sends_junk (px_cfg p) d then
         q = [] \<and> (\<exists>ds. decoys (px_cfg p) ds \<and> sent_packets a = map (\<lambda>b. (fd, None, b)) (ds @ ws))
       else sent_packets a = [] \<and> those (map (\<lambda>e. iov_bytes th' (fst e)) q) = Some ws)"
proof -
  let ?b = "th_bufs th ! i"
  have tok: "thread_ok th" using ok by (simp add: path_ok_def)
  then have il: "place_bytes th (PBuf i) = ?b" using i by (auto simp: thread_ok_def)
  have d': "h + n \<le> length ?b" "d = slice ?b h n"
    using d il by (auto simp: iov_bytes_def rd_def split: if_splits)
  have ld: "length d = n" using d' by (simp add: slice_def)
  define hd where "hd = (if n \<ge> WG_TRANSPORT_MIN then le32_of d else 0)"
  have hd: "(if n \<ge> WG_TRANSPORT_MIN then rd32 (place_bytes th (PBuf i)) h else Some 0) = Some hd"
    unfolding il hd_def using d' by (simp add: rd32_def slice_def le32_of_take min_def)
  have tr: "n \<ge> WG_TRANSPORT_MIN \<and> hd = WG_TRANSPORT_DATA \<longleftrightarrow> 32 \<le> length d \<and> le32_of d = 4"
    by (auto simp: ld hd_def)
  show ?thesis
  proof (cases "n \<ge> WG_TRANSPORT_MIN \<and> hd = WG_TRANSPORT_DATA")
    case True
    then have "4 \<le> n" by simp
    from c2s_client_transport_ok [OF ok i this d] obtain p' th' l where t:
      "\<forall>q acts. c2s_client_transport i h n (p, th, q, acts) = Some (p', th', q @ [((PBuf i, 0, h + n), None)], acts @ l)"
      "path_ok p' th'" "list_all is_log l"
      "iov_bytes th' (PBuf i, 0, h + n) = Some (transport_wire p (take h ?b) d)" by blast
    have "c2s_client_packet fd now i n (p, th, [], []) = Some (p', th', [((PBuf i, 0, h + n), None)], l)"
      using t(1) n h hd True unfolding c2s_client_packet_def by simp
    then show ?thesis using t(2-4) True tr by (simp add: sent_packets_log)
  next
    case False
    obtain p' th' w a where o: "c2s_client_other fd i h n now p th = Some (p', th', w, a)" "path_ok p' th'"
      "other_result (px_cfg p) fd d
        (wire_of p (fst (fastrand_u64 (px_rng p))) (take h ?b) d) th' {PBuf i, PHs, PObfs} w a"
      using c2s_client_other_ok [OF ok i d, of fd now] by blast
    have "c2s_client_packet fd now i n (p, th, [], [])
        = Some (p', th', (case w of None \<Rightarrow> [] | Some v \<Rightarrow> [(v, None)]), a)"
      using n h hd False o(1) unfolding c2s_client_packet_def flush_c2s_def
      by (simp del: de_Morgan_conj split: option.split)
    then show ?thesis using o(2,3) False tr
      by (auto simp: other_result_def sent_packets_log Let_def split: option.splits if_splits)
  qed
qed

section \<open>No round leaves a buffer\<close>

text \<open>A flush with any results of the system calls.\<close>

lemma flush_safe:
  assumes "pending th i q ms" and ok: "path_ok p th"
  shows "\<exists>p' th' a. flush_c2s fd (p, th, q, acts) = Some (p', th', [], a) \<and> path_ok p' th' \<and> same_cfg p p'
    \<and> (\<forall>pl. place_bytes th' pl = place_bytes th pl) \<and> (\<exists>g. p' = p\<lparr>px_gso_ok := g\<rparr>)"
proof (cases "q = []")
  case True
  have "\<exists>g. p = p\<lparr>px_gso_ok := g\<rparr>" by (rule exI [of _ "px_gso_ok p"]) simp
  with True show ?thesis using ok by (simp add: flush_c2s_def same_cfg_def)
next
  case False
  have m: "those (map (\<lambda>e. iov_bytes th (fst e)) q) = Some ms"
    using assms(1) unfolding pending_def by (intro those_map_Some) (auto elim: list_all2_mono)
  obtain g rs th' where n: "next_sys th (length ms) = ((g, rs), th')" by (metis prod.exhaust)
  obtain p' gso rest where b: "proxy_io_send_batch_gso p fd ms False g rs = (p', gso, rest)" by (rule prod_cases3)
  have t: "thread_ok th'" "\<forall>pl. place_bytes th' pl = place_bytes th pl"
    using n ok by (auto simp: next_sys_def path_ok_def split: list.splits)
  have "p' = p \<or> p' = p\<lparr>px_gso_ok := False\<rparr>"
    using b by (auto simp: proxy_io_send_batch_gso_def Let_def split: if_splits)
  then obtain g0 where g0: "p' = p\<lparr>px_gso_ok := g0\<rparr>"
    using that [of "px_gso_ok p"] by fastforce
  then have "path_ok p' th' \<and> same_cfg p p'"
    using ok t(1) by (auto simp: path_ok_def ring_ok_def junk_buf_ok_def same_cfg_def)
  moreover have "flush_c2s fd (p, th, q, acts) = Some (p', th', [],
      acts @ map (Send fd None) gso @ map2 (Send fd) (drop (length gso) (map snd q)) rest)"
    using False m n b by (simp add: flush_c2s_def send_queue_def)
  ultimately show ?thesis using t(2) g0 by blast
qed

lemma c2s_packets_safe:
  assumes "path_ok p th" and "ptr_off (cf_s4 (px_cfg p)) = Some h"
    and "\<forall>j < length ns. \<exists>d. iov_bytes th (PBuf (i + j), h, ns ! j) = Some d"
    and "i + length ns \<le> BATCH_SIZE" and "pending th i q ms"
  shows "\<exists>p' th' q' a ms'. c2s_client_packets fd now i ns (p, th, q, acts) = Some (p', th', q', a)
    \<and> path_ok p' th' \<and> same_cfg p p' \<and> pending th' (i + length ns) q' ms'"
  using assms
proof (induction ns arbitrary: p th i q ms acts)
  case Nil
  then show ?case by (auto simp: same_cfg_def)
next
  case (Cons n ns)
  have i: "i < BATCH_SIZE" "i + 1 + length ns \<le> BATCH_SIZE" using Cons.prems(4) by simp_all
  obtain d where d: "iov_bytes th (PBuf i, h, n) = Some d" using Cons.prems(3) by force
  have cont: ?case if step: "c2s_client_packet fd now i n (p, th, q, acts) = Some (p1, th1, q1, a1)"
      "path_ok p1 th1" "same_cfg p p1" "\<forall>pl. pl \<notin> {PBuf i, PHs, PObfs} \<longrightarrow> place_bytes th1 pl = place_bytes th pl"
      "pending th1 (i + 1) q1 ms1" for p1 th1 q1 a1 ms1
  proof -
    have "iov_bytes th1 (PBuf (i + 1 + j), h, x) = iov_bytes th (PBuf (i + 1 + j), h, x)" for j x
      using step(4) unfolding iov_bytes_def by (simp del: place_bytes.simps)
    then have rest: "\<forall>j < length ns. \<exists>d. iov_bytes th1 (PBuf (i + 1 + j), h, ns ! j) = Some d"
      using Cons.prems(3) by force
    have s4: "ptr_off (cf_s4 (px_cfg p1)) = Some h" using step(3) Cons.prems(2) by (simp add: same_cfg_def)
    obtain p' th' q' a ms' where r: "c2s_client_packets fd now (i + 1) ns (p1, th1, q1, a1) = Some (p', th', q', a)"
        "path_ok p' th'" "same_cfg p1 p'" "pending th' (i + 1 + length ns) q' ms'"
      using Cons.IH [OF step(2) s4 rest i(2) step(5)] by blast
    then show ?thesis using step(1,3) by (auto simp: same_cfg_def)
  qed
  show ?case
  proof (cases "n = 0")
    case True
    have "th_frame {PBuf i} th th" using Cons.prems(1) by (simp add: path_ok_def th_frame_refl)
    then show ?thesis
      by (intro cont [OF _ Cons.prems(1) _ _ pending_frame [OF Cons.prems(5)]])
        (simp_all add: True c2s_client_packet_def same_cfg_def)
  next
    case False
    from c2s_client_packet_cases [OF Cons.prems(1) i(1) False Cons.prems(2) d, of fd now]
    show ?thesis
    proof (elim disjE exE conjE)
      fix p1 th1 l v m
      assume t: "\<forall>q acts. c2s_client_packet fd now i n (p, th, q, acts) = Some (p1, th1, q @ [(v, None)], acts @ l)"
        "path_ok p1 th1" "same_shared p p1" "th_frame {PBuf i} th th1" "fst v = PBuf i" "iov_bytes th1 v = Some m"
      have pv: "\<forall>k \<ge> i + 1. fst v \<noteq> PBuf k" using t(5) by simp
      show ?thesis
        by (rule cont [OF t(1) [rule_format] t(2) _ _ pending_add [OF pending_frame [OF Cons.prems(5) t(4)] pv t(6)]])
          (use t(3,4) in \<open>auto simp: same_shared_def same_cfg_def th_frame_def\<close>)
    next
      assume t: "\<forall>q acts. c2s_client_packet fd now i n (p, th, q, acts) = do {
          (p0, th0, q, acts) \<leftarrow> flush_c2s fd (p, th, q, acts);
          (p, th, w, a) \<leftarrow> c2s_client_other fd i h n now p0 th0;
          Some (p, th, (case w of None \<Rightarrow> q | Some v \<Rightarrow> q @ [(v, None)]), acts @ a) }"
      obtain p0 th0 a0 where f: "flush_c2s fd (p, th, q, acts) = Some (p0, th0, [], a0)" "path_ok p0 th0"
          "same_cfg p p0" "\<forall>pl. place_bytes th0 pl = place_bytes th pl"
        using flush_safe [OF Cons.prems(5,1), of fd acts] by blast
      have d0: "iov_bytes th0 (PBuf i, h, n) = Some d"
        using d f(4) by (simp add: iov_bytes_def del: place_bytes.simps)
      obtain p1 th1 w a where o: "c2s_client_other fd i h n now p0 th0 = Some (p1, th1, w, a)"
          "path_ok p1 th1" "same_shared p0 p1" "th_frame {PBuf i, PHs, PObfs} th0 th1"
          "other_result (px_cfg p0) fd d
            (wire_of p0 (fst (fastrand_u64 (px_rng p0))) (take h (th_bufs th0 ! i)) d) th1 {PBuf i, PHs, PObfs} w a"
        using c2s_client_other_ok [OF f(2) i(1) d0, of fd now] by blast
      obtain ms1 where m: "pending th1 (i + 1) (case w of None \<Rightarrow> [] | Some v \<Rightarrow> [(v, None)]) ms1"
      proof (cases w)
        case None
        then show ?thesis using that [of "[]"] by simp
      next
        case (Some v)
        then obtain m where "fst v \<in> {PBuf i, PHs, PObfs}" "iov_bytes th1 v = Some m"
          using o(5) by (auto simp: other_result_def split: if_splits)
        then have "pending th1 (i + 1) ([] @ [(v, None)]) ([] @ [m])"
          by (intro pending_add) auto
        then show ?thesis using Some that by simp
      qed
      have b: "c2s_client_packet fd now i n (p, th, q, acts)
          = Some (p1, th1, case w of None \<Rightarrow> [] | Some v \<Rightarrow> [(v, None)], a0 @ a)"
        using t f(1) o(1) by (simp split: option.split)
      show ?thesis
        by (rule cont [OF b o(2) _ _ m])
          (use f(3,4) o(3,4) in \<open>auto simp: same_shared_def same_cfg_def th_frame_def\<close>)
    qed
  qed
qed

lemma readable:
  assumes "thread_ok th" and "k < BATCH_SIZE" and "h + n \<le> BUF_TOTAL"
  shows "\<exists>d. iov_bytes th (PBuf k, h, n) = Some d"
  using assms(2,3) thread_ok_place [OF assms(1,2)] by (simp add: iov_bytes_def rd_def del: place_bytes.simps)

lemma c2s_gro_split_safe:
  assumes "thread_ok th" and "prefix + BUF_SIZE \<le> BUF_TOTAL" and "tot \<le> GRO_BUF_SIZE" and "nrecv \<le> BATCH_SIZE"
  shows "\<exists>th' ns a. c2s_gro_split prefix tot seg off nrecv th = Some (th', ns, a) \<and> thread_ok th'
    \<and> nrecv + length ns \<le> BATCH_SIZE \<and> (\<forall>n \<in> set ns. n \<le> BUF_SIZE)"
  using assms
proof (induction prefix tot seg off nrecv th rule: c2s_gro_split.induct)
  case (1 prefix tot seg off nrecv th)
  show ?case
  proof (cases "off < tot \<and> nrecv < BATCH_SIZE \<and> 0 < seg")
    case False
    then show ?thesis using "1.prems" by (subst c2s_gro_split.simps) (simp del: de_Morgan_conj)
  next
    case True
    define plen where "plen = (if off + seg \<le> tot then seg else tot - off)"
    show ?thesis
    proof (cases "plen > BUF_SIZE")
      case big: True
      obtain th' ns a where "c2s_gro_split prefix tot seg (off + seg) nrecv th = Some (th', ns, a)" "thread_ok th'"
          "nrecv + length ns \<le> BATCH_SIZE" "\<forall>n \<in> set ns. n \<le> BUF_SIZE"
        using "1.IH"(1) [OF True plen_def big "1.prems"] by blast
      then show ?thesis using True big
        by (subst c2s_gro_split.simps) (simp add: Let_def plen_def)
    next
      case fits: False
      let ?d = "slice (th_gro th) off plen" and ?b = "th_bufs th ! nrecv"
      have pl: "off + plen \<le> tot" using True by (simp add: plen_def)
      have rd: "rd (th_gro th) off plen = Some ?d" and ld: "length ?d = plen"
        using pl "1.prems" by (simp_all add: rd_def slice_def thread_ok_def)
      have pb: "place_bytes th (PBuf nrecv) = ?b" "length ?b = BUF_TOTAL"
        using True "1.prems"(1) by (auto simp: thread_ok_def)
      have fit: "prefix + length ?d \<le> length ?b" unfolding ld pb(2) using fits "1.prems"(2) by linarith
      then have w: "wr (place_bytes th (PBuf nrecv)) prefix ?d = Some (splice ?b prefix ?d)"
        unfolding pb(1) by (simp add: wr_def)
      let ?th = "set_place (PBuf nrecv) (splice ?b prefix ?d) th"
      have "length (splice ?b prefix ?d) = length (place_bytes th (PBuf nrecv))"
        unfolding pb(1) using fit by simp
      then have ok: "thread_ok ?th" by (rule thread_ok_set [OF "1.prems"(1)])
      have nr: "nrecv + 1 \<le> BATCH_SIZE" using True by simp
      obtain th' ns a where r: "c2s_gro_split prefix tot seg (off + seg) (nrecv + 1) ?th = Some (th', ns, a)" "thread_ok th'"
          "nrecv + 1 + length ns \<le> BATCH_SIZE" "\<forall>n \<in> set ns. n \<le> BUF_SIZE"
        using "1.IH"(2) [OF True plen_def fits _ _ ok "1.prems"(2,3) nr] rd w by blast
      then have "c2s_gro_split prefix tot seg off nrecv th = Some (th', plen # ns, a)"
        using True fits rd w
        by (subst c2s_gro_split.simps) (simp add: Let_def plen_def [symmetric] del: set_place.simps place_bytes.simps)
      then show ?thesis using r(2-4) fits by auto
    qed
  qed
qed

lemma c2s_client_recv_safe:
  assumes ok: "path_ok p th"
  shows "\<exists>p' th' l' r a. c2s_client_recv p th l e = Some (p', th', l', r, a) \<and> path_ok p' th' \<and> same_cfg p p'
    \<and> (case r of None \<Rightarrow> True | Some ns \<Rightarrow> length ns \<le> BATCH_SIZE \<and> (\<forall>n \<in> set ns. n \<le> BUF_SIZE))"
proof -
  have cfg: "config_ready (px_cfg p)" and tok: "thread_ok th" using ok by (simp_all add: path_ok_def)
  obtain h where h: "ptr_off (cf_s4 (px_cfg p)) = Some h" "h + BUF_SIZE \<le> BUF_TOTAL"
    using config_ready_bounds [OF cfg] by (auto simp: ptr_off_def)
  have off: "path_ok (p\<lparr>px_gro_enabled_c2s := b\<rparr>) x = path_ok p x" for b x
    by (simp add: path_ok_def ring_ok_def junk_buf_ok_def)
  show ?thesis
  proof (cases "px_gro_enabled_c2s p")
    case False
    define ms where "ms = take BATCH_SIZE (ce_msgs e)"
    show ?thesis
    proof (cases "ms = []")
      case True
      then show ?thesis using False h ok by (auto simp: c2s_client_recv_def ms_def same_cfg_def)
    next
      case ne: False
      have "0 + length ms \<le> BATCH_SIZE" by (simp add: ms_def)
      from store_datagrams_ok [OF tok this h(2)] obtain th' where
        "store_datagrams h BUF_SIZE 0 ms th = Some th'" "thread_ok th'" by (auto simp: th_frame_def)
      then show ?thesis using False h ok ne
        by (simp add: c2s_client_recv_def Let_def same_cfg_def path_ok_def ms_def [symmetric])
          (simp add: ms_def)
    qed
  next
    case gro: True
    show ?thesis
    proof (cases "ce_gro e")
      case (RecvError x)
      then show ?thesis using gro h ok by (auto simp: c2s_client_recv_def same_cfg_def)
    next
      case (RecvData d0 cms)
      define d where "d = take GRO_BUF_SIZE d0"
      have ld: "length d \<le> GRO_BUF_SIZE" by (simp add: d_def)
      let ?th = "th\<lparr>th_gro := splice (th_gro th) 0 d\<rparr>"
      have ok1: "thread_ok ?th" using tok ld by (simp add: thread_ok_def)
      have bs: "length (th_bufs ?th ! 0) = BUF_TOTAL" using thread_ok_buf [OF ok1, of 0] by simp
      show ?thesis
      proof (cases "length d = 0 \<or> gro_seg_size cms > 0 \<and> length d > gro_seg_size cms \<or> length d > BUF_SIZE")
        case True
        have z: "(0 :: nat) \<le> BATCH_SIZE" by simp
        obtain th' ns a where "c2s_gro_split h (length d) (gro_seg_size cms) 0 0 ?th = Some (th', ns, a)"
            "thread_ok th'" "0 + length ns \<le> BATCH_SIZE" "\<forall>n \<in> set ns. n \<le> BUF_SIZE"
          using c2s_gro_split_safe [OF ok1 h(2) ld z] by blast
        then show ?thesis using gro h ok RecvData True ok1 path_ok_thread [OF ok ok1] path_ok_thread [OF ok, of th']
          unfolding c2s_client_recv_def Let_def d_def [symmetric]
          by (auto simp: d_def [symmetric] same_cfg_def off simp del: set_place.simps place_bytes.simps)
      next
        case False
        then have small: "length d \<le> BUF_SIZE" "h + length d \<le> length (th_bufs ?th ! 0)"
          using h(2) bs by simp_all
        have p0: "place_bytes ?th (PBuf 0) = th_bufs ?th ! 0" using ok1 by (auto simp: thread_ok_def)
        let ?b = "splice (th_bufs ?th ! 0) h d"
        have w: "wr (place_bytes ?th (PBuf 0)) h d = Some ?b" unfolding p0 using small by (simp add: wr_def)
        have "thread_ok (set_place (PBuf 0) ?b ?th)"
          by (rule thread_ok_set [OF ok1]) (use small(2) p0 in simp)
        then show ?thesis using gro h RecvData False small w path_ok_thread [OF ok]
          unfolding c2s_client_recv_def Let_def d_def [symmetric]
          by (auto simp: d_def [symmetric] same_cfg_def off simp del: set_place.simps place_bytes.simps)
      qed
    qed
  qed
qed

text \<open>A round, and the thread: whatever arrives, whatever the other threads do to the shared
  descriptors, whatever the system calls return.\<close>

lemma track_client_ok:
  "path_ok (fst (track_client p addr len)) th = path_ok p th" "same_cfg p (fst (track_client p addr len))"
  by (auto simp: track_client_def path_ok_def ring_ok_def junk_buf_ok_def same_cfg_def Let_def split: prod.split)

lemma c2s_client_round_safe:
  assumes ok: "path_ok p th"
  shows "\<exists>p' th' l' a. c2s_client_round p th l e = Some (p', th', l', a) \<and> path_ok p' th' \<and> px_cfg p' = px_cfg p"
proof -
  define p0 where "p0 = p\<lparr>px_stopped := px_stopped p \<or> ce_stopped e, px_remote_fd := ce_remote_fd e\<rparr>"
  have ok0: "path_ok p0 th" using ok by (simp add: p0_def path_ok_def ring_ok_def junk_buf_ok_def)
  have c0: "px_cfg p0 = px_cfg p" by (simp add: p0_def)
  obtain p1 th1 l1 r a1 where r: "c2s_client_recv p0 th l e = Some (p1, th1, l1, r, a1)" "path_ok p1 th1"
      "same_cfg p0 p1" "case r of None \<Rightarrow> True | Some ns \<Rightarrow> length ns \<le> BATCH_SIZE \<and> (\<forall>n \<in> set ns. n \<le> BUF_SIZE)"
    using c2s_client_recv_safe [OF ok0] by blast
  have c1: "px_cfg p1 = px_cfg p" using r(3) c0 by (simp add: same_cfg_def)
  show ?thesis
  proof (cases r)
    case None
    then show ?thesis using r c1 by (simp add: c2s_client_round_def p0_def [symmetric])
  next
    case (Some ns)
    define p2 where "p2 = p1\<lparr>px_last_active := True\<rparr>"
    obtain p3 new where t: "track_client p2 (cl_addr l1) (if px_gro_enabled_c2s p2 then cl_gro_namelen l1 else cl_namelen l1) = (p3, new)"
      by (rule prod.exhaust)
    have ok2: "path_ok p2 th1" using r(2) by (simp add: p2_def path_ok_def ring_ok_def junk_buf_ok_def)
    have ok3: "path_ok p3 th1" "same_cfg p2 p3"
      using track_client_ok(1) [of p2 "cl_addr l1" _ th1] track_client_ok(2) [of p2 "cl_addr l1"] t ok2
    by (metis fst_conv)+
    define pa where "pa = (if new then
              let (p, a) = follow_src_port p3 (cl_addr l1)
              in (p, proxy_log_addr ''client: '' (px_client_addr p) (ce_host e) @ a)
            else (p3, []))"
    obtain p4 a4 where pa: "pa = (p4, a4)" by (rule prod.exhaust)
    have ok4: "path_ok p4 th1" "same_cfg p3 p4"
      using ok3(1) pa by (auto simp: pa_def follow_src_port_def path_ok_def ring_ok_def junk_buf_ok_def
          same_cfg_def Let_def split: if_splits)
    have c4: "px_cfg p4 = px_cfg p" using ok4(2) ok3(2) c1 by (simp add: same_cfg_def p2_def)
    have step: "c2s_client_round p th l e = (if px_remote_fd p4 < 0 then Some (p4, th1, l1, a1 @ a4)
          else do {
            st \<leftarrow> c2s_client_packets (px_remote_fd p4) (ce_now e) 0 ns (p4, th1, [], a1 @ a4);
            (p', th', q, acts) \<leftarrow> flush_c2s (px_remote_fd p4) st;
            Some (p', th', l1, acts)
          })"
      using r(1) Some t pa unfolding c2s_client_round_def p0_def [symmetric]
      by (simp add: pa_def p2_def)
    show ?thesis
    proof (cases "px_remote_fd p4 < 0")
      case True
      then show ?thesis using step ok4 c4 by simp
    next
      case False
      have cfg: "config_ready (px_cfg p4)" and tok: "thread_ok th1" using ok4 by (simp_all add: path_ok_def)
      obtain h where h: "ptr_off (cf_s4 (px_cfg p4)) = Some h" "h + BUF_SIZE \<le> BUF_TOTAL"
        using config_ready_bounds [OF cfg] by (auto simp: ptr_off_def)
      have ns: "length ns \<le> BATCH_SIZE" "\<forall>n \<in> set ns. n \<le> BUF_SIZE" using r(4) Some by simp_all
      have rd: "\<forall>j < length ns. \<exists>d. iov_bytes th1 (PBuf (0 + j), h, ns ! j) = Some d"
        using ns h(2) by (auto intro!: readable [OF tok] add_mono [of h 1500 _ 1500, simplified])
      have le: "0 + length ns \<le> BATCH_SIZE" using ns by simp
      have pn: "pending th1 0 [] []" by simp
      obtain p5 th5 q5 a5 ms5 where s: "c2s_client_packets (px_remote_fd p4) (ce_now e) 0 ns (p4, th1, [], a1 @ a4)
            = Some (p5, th5, q5, a5)" "path_ok p5 th5" "same_cfg p4 p5" "pending th5 (0 + length ns) q5 ms5"
        using c2s_packets_safe [OF ok4(1) h(1) rd le pn] by blast
      obtain p6 th6 a6 where f: "flush_c2s (px_remote_fd p4) (p5, th5, q5, a5) = Some (p6, th6, [], a6)"
          "path_ok p6 th6" "same_cfg p5 p6"
        using flush_safe [OF s(4,2)] by blast
      then show ?thesis using step False s c4 by (simp add: same_cfg_def)
    qed
  qed
qed

lemma c2s_client_thread_safe:
  "path_ok p th \<Longrightarrow> \<exists>p' th' l' a. proxy_c2s_thread_client p th l es = Some (p', th', l', a) \<and> path_ok p' th'"
proof (induction es arbitrary: p th l)
  case (Cons e es)
  show ?case
  proof (cases "px_stopped p")
    case False
    obtain p1 th1 l1 a1 where r: "c2s_client_round p th l e = Some (p1, th1, l1, a1)" "path_ok p1 th1"
      using c2s_client_round_safe [OF Cons.prems] by blast
    obtain p2 th2 l2 a2 where "proxy_c2s_thread_client p1 th1 l1 es = Some (p2, th2, l2, a2)" "path_ok p2 th2"
      using Cons.IH [OF r(2)] by blast
    then show ?thesis using False r(1) by simp
  qed (use Cons.prems in auto)
qed simp

end
