(* ===== verification/Lifecycle_Correct.thy ===== *)
theory Lifecycle_Correct
  imports C2s_Correct
begin

text \<open>
  Dialling, start-up, reconnecting and shutdown: every socket a failed dial opens is closed, how
  often and with which pauses the start-up dials, when a run of resolver failures ends the
  process, what a reconnect resets and a clean-up releases, and what \<open>proxy_init\<close>
  establishes for the data paths.
\<close>

section \<open>Descriptors in a trace\<close>

fun opened :: "action list \<Rightarrow> int list" where
  "opened [] = []"
| "opened (Open fd # as) = fd # opened as"
| "opened (_ # as) = opened as"

fun closed :: "action list \<Rightarrow> int list" where
  "closed [] = []"
| "closed (Close fd # as) = fd # closed as"
| "closed (_ # as) = closed as"

fun bound :: "action list \<Rightarrow> (int \<times> sockaddr \<times> nat) list" where
  "bound [] = []"
| "bound (Bind fd a l # as) = (fd, a, l) # bound as"
| "bound (_ # as) = bound as"

fun sleeps :: "action list \<Rightarrow> int list" where
  "sleeps [] = []"
| "sleeps (Sleep s # as) = s # sleeps as"
| "sleeps (_ # as) = sleeps as"

lemma trace_append [simp]:
  "opened (a @ b) = opened a @ opened b" "closed (a @ b) = closed a @ closed b"
  "bound (a @ b) = bound a @ bound b" "sleeps (a @ b) = sleeps a @ sleeps b"
  by (induction a rule: opened.induct; simp)+

lemma trace_log:
  "list_all is_log a \<Longrightarrow> opened a = [] \<and> closed a = [] \<and> bound a = [] \<and> sleeps a = [] \<and> Exit c \<notin> set a"
  by (induction a rule: sent_packets.induct) auto

lemma trace_log_simps [simp]:
  "opened (log_info s # a) = opened a" "closed (log_info s # a) = closed a"
  "bound (log_info s # a) = bound a" "sleeps (log_info s # a) = sleeps a"
  "opened (log_error s # a) = opened a" "closed (log_error s # a) = closed a"
  "bound (log_error s # a) = bound a" "sleeps (log_error s # a) = sleeps a"
  "opened (log_always s # a) = opened a" "closed (log_always s # a) = closed a"
  "bound (log_always s # a) = bound a" "sleeps (log_always s # a) = sleeps a"
  "log_info s \<noteq> Exit c" "log_error s \<noteq> Exit c" "log_always s \<noteq> Exit c"
  "Exit c \<noteq> log_info s" "Exit c \<noteq> log_error s" "Exit c \<noteq> log_always s"
  by (simp_all add: log_defs)

lemma trace_addr [simp]:
  "opened (proxy_log_addr s a n) = []" "closed (proxy_log_addr s a n) = []"
  "bound (proxy_log_addr s a n) = []" "sleeps (proxy_log_addr s a n) = []"
  "Exit c \<notin> set (proxy_log_addr s a n)"
  using trace_log [of "proxy_log_addr s a n" c] by simp_all

lemma trace_opts [simp]:
  "opened (net_sock_set_buffers fd z) = []" "closed (net_sock_set_buffers fd z) = []"
  "bound (net_sock_set_buffers fd z) = []" "sleeps (net_sock_set_buffers fd z) = []"
  "opened (net_sock_set_busy_poll fd u b) = []" "closed (net_sock_set_busy_poll fd u b) = []"
  "bound (net_sock_set_busy_poll fd u b) = []" "sleeps (net_sock_set_busy_poll fd u b) = []"
  "Exit c \<notin> set (net_sock_set_buffers fd z)" "Exit c \<notin> set (net_sock_set_busy_poll fd u b)"
  by (simp_all add: net_sock_set_buffers_def net_sock_set_busy_poll_def)

section \<open>One dial\<close>

text \<open>A dial that fails leaves no socket behind; one that succeeds leaves exactly its own.\<close>

lemma dial_socket_balance:
  "case dial_socket p e of (fd, a) \<Rightarrow>
     (if fd < 0 then closed a = opened a else opened a = [fd] \<and> closed a = [] \<and> fd = de_socket e)
     \<and> sleeps a = [] \<and> Exit c \<notin> set a"
  by (auto simp: dial_socket_def net_sock_bind_any_port_def Let_def split: if_splits prod.splits)

text \<open>Which local port: none while rotating, the configured or followed one otherwise.\<close>

lemma dial_socket_bound:
  "bound (snd (dial_socket p e)) =
    (if de_socket e < 0 \<or> px_local_port p \<le> 0 \<or> px_auto_src_port p \<and> px_reconnect_drift p \<or> de_reuse e < 0
     then []
     else [(de_socket e, bind_any_addr (ss_family (px_remote_addr p)) (of_int (px_local_port p)))])"
  by (auto simp: dial_socket_def net_sock_bind_any_port_def Let_def split: if_splits prod.splits)

definition same_but_dns :: "proxy_t \<Rightarrow> proxy_t \<Rightarrow> bool" where
  "same_but_dns p p' \<longleftrightarrow> px_cfg p' = px_cfg p \<and> px_listen_fd p' = px_listen_fd p
     \<and> px_remote_fd p' = px_remote_fd p \<and> px_reconnect_needed p' = px_reconnect_needed p
     \<and> px_has_client p' = px_has_client p \<and> px_stopped p' = px_stopped p
     \<and> px_signal_fd p' = px_signal_fd p \<and> px_timer_fd p' = px_timer_fd p"

lemma note_dns_fields: "same_but_dns p (fst (proxy_note_dns_resolve_failure p host e))"
  by (simp add: same_but_dns_def proxy_note_dns_resolve_failure_def Let_def)

lemma dial_fields: "same_but_dns p (fst (snd (proxy_dial_remote p e)))"
proof (cases "net_addr_resolve_host_port (de_gai e)")
  case (Inl x)
  then show ?thesis using note_dns_fields [of p "px_remote_host p" e]
    by (simp add: proxy_dial_remote_def Let_def case_prod_beta)
next
  case (Inr al)
  then show ?thesis
    by (cases al) (simp add: proxy_dial_remote_def Let_def proxy_reset_dns_resolve_failure_window_def
        same_but_dns_def split: prod.split)
qed

lemma same_but_dns_trans: "same_but_dns a b \<Longrightarrow> same_but_dns b c \<Longrightarrow> same_but_dns a c"
  by (simp add: same_but_dns_def)

text \<open>The whole dial, as far as the trace and the resolver's failures go.\<close>

definition resolves :: "dial_env \<Rightarrow> bool" where
  "resolves e \<longleftrightarrow> (\<exists>a. net_addr_resolve_host_port (de_gai e) = Inr a)"

lemma dial_trace:
  "case proxy_dial_remote p e of (fd, p', a) \<Rightarrow>
     (if fd < 0 then closed a = opened a else opened a = [fd] \<and> closed a = [] \<and> fd = de_socket e \<and> resolves e)
     \<and> sleeps a = []"
proof (cases "net_addr_resolve_host_port (de_gai e)")
  case (Inl x)
  then show ?thesis by (simp add: proxy_dial_remote_def proxy_note_dns_resolve_failure_def Let_def)
next
  case (Inr al)
  obtain addr len where al: "al = (addr, len)" by (cases al) auto
  let ?p = "proxy_reset_dns_resolve_failure_window (p\<lparr>px_remote_addr := addr, px_remote_addr_len := len\<rparr>)"
  show ?thesis using Inr al dial_socket_balance [where p = ?p and e = e]
    by (auto simp: proxy_dial_remote_def Let_def resolves_def split: prod.splits option.split)
qed

section \<open>Resolver failures\<close>

text \<open>The process exits on a failed resolution exactly when the window, opened by the first
  failure after the last success, has reached the limit.\<close>

lemma dial_exit:
  "Exit 1 \<in> set (snd (snd (proxy_dial_remote p e))) \<longleftrightarrow>
     \<not> resolves e \<and> 0 < cf_dns_resolve_failure_timeout (px_cfg p)
     \<and> 0 < px_dns_resolve_fail_started_at p
     \<and> cf_dns_resolve_failure_timeout (px_cfg p) \<le> monotonic_now_sec (de_now e) - px_dns_resolve_fail_started_at p"
proof (cases "net_addr_resolve_host_port (de_gai e)")
  case (Inl x)
  then show ?thesis
    by (auto simp: proxy_dial_remote_def proxy_note_dns_resolve_failure_def Let_def resolves_def)
next
  case (Inr al)
  obtain addr len where al: "al = (addr, len)" by (cases al) auto
  let ?p = "proxy_reset_dns_resolve_failure_window (p\<lparr>px_remote_addr := addr, px_remote_addr_len := len\<rparr>)"
  show ?thesis using Inr al dial_socket_balance [where p = ?p and e = e and c = 1]
    by (auto simp: proxy_dial_remote_def Let_def resolves_def split: prod.splits option.split)
qed

lemma dial_window:
  "px_dns_resolve_fail_started_at (fst (snd (proxy_dial_remote p e))) =
     (if resolves e then 0
      else if cf_dns_resolve_failure_timeout (px_cfg p) \<le> 0 then px_dns_resolve_fail_started_at p
      else if px_dns_resolve_fail_started_at p \<le> 0 then monotonic_now_sec (de_now e)
      else px_dns_resolve_fail_started_at p)"
proof (cases "net_addr_resolve_host_port (de_gai e)")
  case (Inl x)
  then show ?thesis
    by (auto simp: proxy_dial_remote_def proxy_note_dns_resolve_failure_def Let_def resolves_def)
next
  case (Inr al)
  then show ?thesis
    by (cases al) (simp add: proxy_dial_remote_def Let_def resolves_def case_prod_beta
        proxy_reset_dns_resolve_failure_window_def)
qed

text \<open>A run of dials, one after the other, until the process exits; how many were made.\<close>

fun dials :: "proxy_t \<Rightarrow> dial_env list \<Rightarrow> nat \<times> bool" where
  "dials p [] = (0, False)"
| "dials p (e # es) = (case proxy_dial_remote p e of (fd, p', a) \<Rightarrow>
     if Exit 1 \<in> set a then (1, True) else (case dials p' es of (n, x) \<Rightarrow> (n + 1, x)))"

lemma dials_window:
  assumes "0 < cf_dns_resolve_failure_timeout (px_cfg p)" and "0 < px_dns_resolve_fail_started_at p"
    and "\<forall>e \<in> set es. \<not> resolves e"
  shows "dials p es =
    (let late = (\<lambda>e. cf_dns_resolve_failure_timeout (px_cfg p)
           \<le> monotonic_now_sec (de_now e) - px_dns_resolve_fail_started_at p);
         early = takeWhile (\<lambda>e. \<not> late e) es
     in if early = es then (length es, False) else (length early + 1, True))"
  using assms
proof (induction es arbitrary: p)
  case (Cons e es)
  obtain fd p' a where d: "proxy_dial_remote p e = (fd, p', a)" by (rule prod_cases3)
  have x: "Exit 1 \<in> set a \<longleftrightarrow> cf_dns_resolve_failure_timeout (px_cfg p)
           \<le> monotonic_now_sec (de_now e) - px_dns_resolve_fail_started_at p"
    using dial_exit [of p e] d Cons.prems by simp
  have w: "px_dns_resolve_fail_started_at p' = px_dns_resolve_fail_started_at p" "px_cfg p' = px_cfg p"
    using dial_window [of p e] dial_fields [of p e] d Cons.prems by (simp_all add: same_but_dns_def)
  show ?case using Cons.IH [of p'] Cons.prems x w d by (auto simp: Let_def)
qed simp

section \<open>The start-up dials\<close>

lemma delay_loop_pow: "1 \<le> d \<Longrightarrow> min 60 (delay_loop n d) = min 60 (d * 2 ^ n)"
proof (induction n arbitrary: d)
  case (Suc n)
  show ?case
  proof (cases "d < 60")
    case True
    then show ?thesis using Suc.IH [of "d * 2"] Suc.prems by (simp add: algebra_simps)
  next
    case False
    have "(1 :: int) \<le> 2 ^ Suc n" by (rule one_le_power) simp
    then have "d * 1 \<le> d * 2 ^ Suc n" using Suc.prems by (intro mult_left_mono) auto
    then have "60 \<le> d * 2 ^ Suc n" using False by linarith
    then show ?thesis using False by (simp del: power_Suc)
  qed
qed simp

lemma retry_delay_eq: "retry_delay attempt = min 60 (2 ^ (attempt - 1))"
  using delay_loop_pow [of 1 "attempt - 1"] by (simp add: retry_delay_def Let_def min_def split: if_splits)

text \<open>The dials of a start-up whose environment answers never let a dial succeed.\<close>

definition dial_fails :: "dial_env \<Rightarrow> bool" where
  "dial_fails e \<longleftrightarrow> \<not> resolves e \<or> de_socket e < 0 \<or> de_connect e < 0"

lemma dial_fails_fd: "dial_fails e \<Longrightarrow> fst (proxy_dial_remote p e) < 0"
  unfolding dial_fails_def resolves_def proxy_dial_remote_def dial_socket_def
  by (auto simp: Let_def case_prod_beta split: sum.splits)

definition pauses :: "nat \<Rightarrow> nat \<Rightarrow> int list" where
  "pauses a n = map (\<lambda>k. min 60 (2 ^ (k - 1))) [a + 1..<n]"

lemma connect_gives_up:
  assumes "cf_dns_resolve_failure_timeout (px_cfg p) \<le> 0" and "\<forall>e \<in> set es. dial_fails e"
    and "attempt < R" and "int R = cf_connect_retries (px_cfg p)" and "R \<le> attempt + length es"
  shows "\<exists>p' a. connect_loop p attempt es = (Inl True, p', a) \<and> same_but_dns p p'
    \<and> sleeps a = pauses attempt R \<and> closed a = opened a @ [px_listen_fd p]"
  using assms
proof (induction es arbitrary: p attempt)
  case (Cons e es)
  obtain fd p1 a1 where d: "proxy_dial_remote p e = (fd, p1, a1)" by (rule prod_cases3)
  have fd: "fd < 0" using dial_fails_fd [of e p] Cons.prems(2) d by simp
  have t: "closed a1 = opened a1" "sleeps a1 = []" using dial_trace [where p = p and e = e] d fd by simp_all
  have x: "Exit 1 \<notin> set a1" using dial_exit [of p e] d Cons.prems(1) by simp
  have s: "same_but_dns p p1" using dial_fields [of p e] d by simp
  have c: "px_cfg p1 = px_cfg p" "px_listen_fd p1 = px_listen_fd p" using s by (simp_all add: same_but_dns_def)
  show ?case
  proof (cases "attempt + 1 = R")
    case True
    then have "connect_loop p attempt (e # es) = (Inl True, p1,
        a1 @ [log_error (''initial connect failed after '' @ u32_to_str (of_nat (attempt + 1))
          @ '' attempts''), Close (px_listen_fd p1)])"
      using d x fd c Cons.prems(4) by (simp add: Let_def)
    then show ?thesis using t s c True by (simp add: pauses_def del: connect_loop.simps)
  next
    case False
    have more: "\<not> (cf_connect_retries (px_cfg p1) > 0 \<and> int (attempt + 1) \<ge> cf_connect_retries (px_cfg p1))"
      using False Cons.prems(3,4) c by simp
    have p': "cf_dns_resolve_failure_timeout (px_cfg p1) \<le> 0" "\<forall>e \<in> set es. dial_fails e" "attempt + 1 < R"
        "int R = cf_connect_retries (px_cfg p1)" "R \<le> attempt + 1 + length es"
      using Cons.prems False c by simp_all
    obtain p2 a2 where r: "connect_loop p1 (attempt + 1) es = (Inl True, p2, a2)" "same_but_dns p1 p2"
        "sleeps a2 = pauses (attempt + 1) R" "closed a2 = opened a2 @ [px_listen_fd p1]"
      using Cons.IH [OF p'] by blast
    have e: "connect_loop p attempt (e # es) = (Inl True, p2, a1
        @ [log_error (''initial connect failed, retrying in '' @ u32_to_str (of_int (retry_delay (attempt + 1)))),
            Sleep (retry_delay (attempt + 1))] @ a2)"
      using d x fd more r(1) by (simp add: Let_def)
    have "pauses attempt R = min 60 (2 ^ attempt) # pauses (attempt + 1) R"
      using Cons.prems(3) False by (simp add: pauses_def upt_conv_Cons)
    then show ?thesis using e t r c same_but_dns_trans [OF s r(2)]
      by (simp add: retry_delay_eq del: connect_loop.simps)
  qed
qed simp

text \<open>With no limit on the attempts the loop goes on as long as the dials fail, and ends with
  the first that succeeds.\<close>

lemma connect_endures:
  assumes "cf_dns_resolve_failure_timeout (px_cfg p) \<le> 0" and "\<forall>e \<in> set es. dial_fails e"
    and "cf_connect_retries (px_cfg p) \<le> 0 \<or> int (attempt + length es) < cf_connect_retries (px_cfg p)"
  shows "\<exists>p' a. connect_loop p attempt (es @ rest)
        = (let (r, p'', b) = connect_loop p' (attempt + length es) rest in (r, p'', a @ b))
    \<and> same_but_dns p p' \<and> sleeps a = pauses attempt (attempt + length es + 1) \<and> closed a = opened a"
  using assms
proof (induction es arbitrary: p attempt)
  case Nil
  then show ?case by (auto simp: pauses_def same_but_dns_def intro!: exI [of _ p] exI [of _ "[]"] split: prod.split)
next
  case (Cons e es)
  obtain fd p1 a1 where d: "proxy_dial_remote p e = (fd, p1, a1)" by (rule prod_cases3)
  have fd: "fd < 0" using dial_fails_fd [of e p] Cons.prems(2) d by simp
  have t: "closed a1 = opened a1" "sleeps a1 = []" using dial_trace [where p = p and e = e] d fd by simp_all
  have x: "Exit 1 \<notin> set a1" using dial_exit [of p e] d Cons.prems(1) by simp
  have s: "same_but_dns p p1" using dial_fields [of p e] d by simp
  have c: "px_cfg p1 = px_cfg p" using s by (simp add: same_but_dns_def)
  have more: "\<not> (cf_connect_retries (px_cfg p1) > 0 \<and> int (attempt + 1) \<ge> cf_connect_retries (px_cfg p1))"
    using Cons.prems(3) c by auto
  have p': "cf_dns_resolve_failure_timeout (px_cfg p1) \<le> 0" "\<forall>e \<in> set es. dial_fails e"
      "cf_connect_retries (px_cfg p1) \<le> 0 \<or> int (attempt + 1 + length es) < cf_connect_retries (px_cfg p1)"
    using Cons.prems c by auto
  obtain p2 a2 where r: "connect_loop p1 (attempt + 1) (es @ rest)
        = (let (r, p'', b) = connect_loop p2 (attempt + 1 + length es) rest in (r, p'', a2 @ b))"
      "same_but_dns p1 p2" "sleeps a2 = pauses (attempt + 1) (attempt + 1 + length es + 1)" "closed a2 = opened a2"
    using Cons.IH [OF p'] by blast
  let ?a = "a1 @ [log_error (''initial connect failed, retrying in '' @ u32_to_str (of_int (retry_delay (attempt + 1)))),
            Sleep (retry_delay (attempt + 1))] @ a2"
  have e: "connect_loop p attempt ((e # es) @ rest)
      = (let (r, p'', b) = connect_loop p2 (attempt + length (e # es)) rest in (r, p'', ?a @ b))"
    using d x fd more r(1) by (simp add: Let_def split: prod.split)
  have "pauses attempt (attempt + length (e # es) + 1)
      = min 60 (2 ^ attempt) # pauses (attempt + 1) (attempt + 1 + length es + 1)"
    by (simp add: pauses_def upt_conv_Cons del: upt_Suc)
  then show ?case
    using e t r(3,4) same_but_dns_trans [OF s r(2)]
    by (intro exI [of _ p2] exI [of _ ?a]) (simp add: retry_delay_eq del: connect_loop.simps)
qed

section \<open>Reconnecting\<close>

text \<open>The old socket is closed once; on failure there is no remote socket and the request for a
  reconnect stands, on success the new socket is the only one left open, the session flags
  start afresh, and in client mode the client has to show itself again.\<close>

lemma reconnect_outcome:
  assumes "proxy_do_reconnect p e = (fd, p', a)"
  shows "closed a = (if px_remote_fd p \<ge> 0 then [px_remote_fd p] else []) @ (if fd < 0 then opened a else [])"
    and "fd < 0 \<Longrightarrow> px_remote_fd p' < 0 \<and> px_reconnect_needed p' = px_reconnect_needed p
      \<and> px_has_client p' = px_has_client p"
    and "\<not> fd < 0 \<Longrightarrow> opened a = [fd] \<and> px_remote_fd p' = fd \<and> \<not> px_reconnect_needed p'
      \<and> px_last_active p' \<and> \<not> px_last_remote_rx p'
      \<and> px_has_client p' = (px_has_client p \<and> cf_mode (px_cfg p) \<noteq> AWG_MODE_CLIENT)
      \<and> px_dns_resolve_fail_started_at p' = 0"
proof -
  define p0 where "p0 = (if px_remote_fd p \<ge> 0 then p\<lparr>px_remote_fd := -1\<rparr> else p)"
  define a0 where "a0 = (if px_remote_fd p \<ge> 0 then [Close (px_remote_fd p)] else [])"
  obtain fd1 p1 a1 where d: "proxy_dial_remote p0 e = (fd1, p1, a1)" by (rule prod_cases3)
  have t: "if fd1 < 0 then closed a1 = opened a1 else opened a1 = [fd1] \<and> closed a1 = [] \<and> resolves e"
    using dial_trace [where p = p0 and e = e] d by simp
  have s: "same_but_dns p0 p1" using dial_fields [of p0 e] d by simp
  have w: "resolves e \<Longrightarrow> px_dns_resolve_fail_started_at p1 = 0" using dial_window [of p0 e] d by simp
  have o: "opened a0 = []" "closed a0 = (if px_remote_fd p \<ge> 0 then [px_remote_fd p] else [])"
    by (simp_all add: a0_def)
  have f: "px_remote_fd p0 < 0" "px_reconnect_needed p0 = px_reconnect_needed p" "px_has_client p0 = px_has_client p"
      "px_cfg p0 = px_cfg p" "px_remote_host p0 = px_remote_host p" by (simp_all add: p0_def)
  have a0: "(if px_remote_fd p \<ge> 0 then (p\<lparr>px_remote_fd := -1\<rparr>, [Close (px_remote_fd p)]) else (p, [])) = (p0, a0)"
    by (simp add: p0_def a0_def)
  let ?r = "proxy_do_reconnect p e"
  have neg: "?r = (-1, p1, a0 @ [log_info (''reconnecting to '' @ px_remote_host p)] @ a1)" if "fd1 < 0"
    unfolding proxy_do_reconnect_def Let_def a0 using that by (simp add: d f)
  have pos: "fst ?r = fd1 \<and> px_remote_fd (fst (snd ?r)) = fd1 \<and> \<not> px_reconnect_needed (fst (snd ?r))
      \<and> px_last_active (fst (snd ?r)) \<and> \<not> px_last_remote_rx (fst (snd ?r))
      \<and> px_has_client (fst (snd ?r)) = (px_has_client p1 \<and> cf_mode (px_cfg p1) \<noteq> AWG_MODE_CLIENT)
      \<and> px_dns_resolve_fail_started_at (fst (snd ?r)) = px_dns_resolve_fail_started_at p1
      \<and> opened (snd (snd ?r)) = opened a0 @ opened a1 \<and> closed (snd (snd ?r)) = closed a0 @ closed a1"
    if "\<not> fd1 < 0"
    unfolding proxy_do_reconnect_def Let_def a0 using that by (simp add: d f)
  have r: "fd = fst ?r" "p' = fst (snd ?r)" "a = snd (snd ?r)" using assms by simp_all
  have fd: "fd < 0 \<longleftrightarrow> fd1 < 0" unfolding r using neg pos by (cases "fd1 < 0") simp_all
  show "closed a = (if px_remote_fd p \<ge> 0 then [px_remote_fd p] else []) @ (if fd < 0 then opened a else [])"
    unfolding fd unfolding r using neg pos t o by (cases "fd1 < 0") simp_all
  show "px_remote_fd p' < 0 \<and> px_reconnect_needed p' = px_reconnect_needed p \<and> px_has_client p' = px_has_client p"
    if "fd < 0" using that neg s f unfolding fd unfolding r by (simp add: same_but_dns_def)
  show "opened a = [fd] \<and> px_remote_fd p' = fd \<and> \<not> px_reconnect_needed p'
      \<and> px_last_active p' \<and> \<not> px_last_remote_rx p'
      \<and> px_has_client p' = (px_has_client p \<and> cf_mode (px_cfg p) \<noteq> AWG_MODE_CLIENT)
      \<and> px_dns_resolve_fail_started_at p' = 0" if "\<not> fd < 0"
    using that pos t o s f w unfolding fd unfolding r by (simp add: same_but_dns_def)
qed

text \<open>The pauses of the receiving thread stay between 1 and 30 seconds.\<close>

lemma s2c_backoff:
  assumes "s2c_reconnect p l e = (p', l', a, stop)" and "1 \<le> sl_backoff l" and "sl_backoff l \<le> 30"
  shows "1 \<le> sl_backoff l' \<and> sl_backoff l' \<le> 30"
    and "\<not> stop \<Longrightarrow> px_remote_fd p' < 0 \<Longrightarrow> sl_backoff l' = min 30 (2 * sl_backoff l)"
  using assms
  by (auto simp: s2c_reconnect_def s2c_enable_gro_def Let_def min_def split: prod.splits if_splits
      dest: reconnect_outcome(3))

section \<open>Shutdown\<close>

definition released :: "proxy_t \<Rightarrow> bool" where
  "released p \<longleftrightarrow> px_remote_fd p < 0 \<and> px_listen_fd p < 0 \<and> px_signal_fd p < 0 \<and> px_timer_fd p < 0
     \<and> px_junk_buf p = None \<and> px_junk_sizes p = None"

lemma cleanup_outcome:
  "proxy_cleanup_resources p = (p', a) \<Longrightarrow> released p'
    \<and> closed a = filter (\<lambda>fd. fd \<ge> 0) [px_remote_fd p, px_listen_fd p, px_signal_fd p, px_timer_fd p]
    \<and> opened a = []"
  by (auto simp: proxy_cleanup_resources_def released_def Let_def)

lemma run_released: "proxy_run p e = (Some rc, p', a) \<Longrightarrow> released p'"
  using cleanup_outcome by (auto simp: proxy_run_def Let_def split: prod.splits option.splits if_splits)

text \<open>When the listen address cannot be bound, its socket is closed by the start-up and again by
  the clean-up, which still holds the number.\<close>

lemma run_double_close:
  assumes "0 \<le> se_socket (re_startup e)" and "\<not> se_bind_ok (re_startup e)" and "px_remote_fd p < 0"
    and "px_signal_fd p < 0" and "px_timer_fd p < 0"
  shows "case proxy_run p e of (rc, p', a) \<Rightarrow> rc = Some (-1)
     \<and> opened a = [se_socket (re_startup e)] \<and> closed a = [se_socket (re_startup e), se_socket (re_startup e)]"
  using assms by (simp add: proxy_run_def proxy_startup_network_def proxy_cleanup_resources_def Let_def)

end
