(* ===== verification/Init_Correct.thy ===== *)
theory Init_Correct
  imports Lifecycle_Correct
begin

text \<open>
  What \<open>proxy_init\<close> does with every input: the exact cases it refuses, and that a state it
  returns is one the data paths are proved for.
\<close>

lemma fill_headroom_ok:
  assumes "\<forall>b \<in> set bs. length b = BUF_TOTAL" and "h \<le> BUF_TOTAL"
  shows "length (fst (fill_headroom r h bs)) = length bs
    \<and> (\<forall>b \<in> set (fst (fill_headroom r h bs)). length b = BUF_TOTAL)"
  using assms(1)
proof (induction bs arbitrary: r)
  case (Cons b bs)
  obtain f r1 where f: "fastrand_fill r h = (f, r1)" by (rule prod.exhaust)
  have "length f = h" using length_fastrand_fill [of r h] f by simp
  then show ?case using Cons f assms(2) by (simp add: case_prod_beta)
qed simp

lemma thread_ok_bufs:
  "thread_ok th \<Longrightarrow> length bs = length (th_bufs th) \<Longrightarrow> \<forall>b \<in> set bs. length b = BUF_TOTAL
    \<Longrightarrow> thread_ok (th\<lparr>th_bufs := bs\<rparr>)"
  by (simp add: thread_ok_def)

lemma headroom_step:
  assumes "thread_ok th" and "k \<le> 1500"
  obtains bs r' where "(if 0 < k then fill_headroom r (nat k) (th_bufs th) else (th_bufs th, r)) = (bs, r')"
    and "thread_ok (th\<lparr>th_bufs := bs\<rparr>)"
proof (cases "0 < k")
  case True
  have b: "\<forall>b \<in> set (th_bufs th). length b = BUF_TOTAL" "nat k \<le> BUF_TOTAL"
    using assms by (simp_all add: thread_ok_def)
  obtain bs r' where e: "fill_headroom r (nat k) (th_bufs th) = (bs, r')" by (rule prod.exhaust)
  have "thread_ok (th\<lparr>th_bufs := bs\<rparr>)"
    using fill_headroom_ok [OF b, of r] e by (intro thread_ok_bufs [OF assms(1)]) simp_all
  with e True that show ?thesis by simp
next
  case False
  with assms(1) that show ?thesis by simp
qed

lemma init_io_ok:
  assumes "thread_ok c2s" and "thread_ok s2c" and "0 \<le> cf_s4 (px_cfg p)" and "cf_s4 (px_cfg p) \<le> 1500"
  shows "\<exists>r cb sb. proxy_init_io_state p c2s s2c = (p\<lparr>px_rng := r\<rparr>, c2s\<lparr>th_bufs := cb\<rparr>, s2c\<lparr>th_bufs := sb\<rparr>)
    \<and> thread_ok (c2s\<lparr>th_bufs := cb\<rparr>) \<and> thread_ok (s2c\<lparr>th_bufs := sb\<rparr>)"
proof -
  have h: "c2s_headroom (px_cfg p) \<le> 1500" "s2c_headroom (px_cfg p) \<le> 1500"
    using assms(3,4) by (simp_all add: c2s_headroom_def s2c_headroom_def)
  obtain cb r1 where c: "(if 0 < c2s_headroom (px_cfg p)
      then fill_headroom (px_rng p) (nat (c2s_headroom (px_cfg p))) (th_bufs c2s) else (th_bufs c2s, px_rng p)) = (cb, r1)"
      "thread_ok (c2s\<lparr>th_bufs := cb\<rparr>)" by (rule headroom_step [OF assms(1) h(1)])
  obtain sb r2 where s: "(if 0 < s2c_headroom (px_cfg p)
      then fill_headroom r1 (nat (s2c_headroom (px_cfg p))) (th_bufs s2c) else (th_bufs s2c, r1)) = (sb, r2)"
      "thread_ok (s2c\<lparr>th_bufs := sb\<rparr>)" by (rule headroom_step [OF assms(2) h(2)])
  show ?thesis using c s unfolding proxy_init_io_state_def Let_def
    by (intro exI [of _ r2] exI [of _ cb] exI [of _ sb]) simp
qed

lemma thread_zero_ok: "thread_ok thread_zero" "th_sys thread_zero = []"
  by (simp_all add: thread_ok_def thread_zero_def)

text \<open>The memory the junk packets get.\<close>

lemma alloc_junk_ok:
  assumes "config_ok (px_cfg p)" and "cf_jc (px_cfg p) < 2 ^ 31"
    and "0 < cf_jc (px_cfg p) \<and> 0 < cf_jmax (px_cfg p) \<longrightarrow> 4 \<le> cf_jc (px_cfg p) * cf_jmax (px_cfg p)"
    and "alloc_junk p mem = Some p'"
  shows "junk_buf_ok p' \<and> (\<exists>b s. p' = p\<lparr>px_junk_buf := b, px_junk_sizes := s\<rparr>)"
proof (cases "cf_jc (px_cfg p) > 0 \<and> cf_jmax (px_cfg p) > 0")
  case False
  then have "p' = p\<lparr>px_junk_buf := px_junk_buf p, px_junk_sizes := px_junk_sizes p\<rparr>"
    using assms(4) by (simp add: alloc_junk_def del: de_Morgan_conj)
  moreover from False have "junk_buf_ok p'" using assms(2,4)
    by (auto simp: alloc_junk_def junk_buf_ok_def)
  ultimately show ?thesis by blast
next
  case True
  obtain a b where j: "junk_layout_sizes (px_cfg p) = Some (a, b)"
      "unat a = nat (cf_jc (px_cfg p) * cf_jmax (px_cfg p))"
    using junk_layout_exact [of "px_cfg p"] assms(1,2) by (auto simp: config_ok_def)
  obtain m where "mem = Some m" using assms(4) True j by (auto simp: alloc_junk_def bind_eq_Some_conv)
  then have p': "p' = p\<lparr>px_junk_buf := Some (take (unat a) m @ replicate (unat a - length m) 0),
               px_junk_sizes := Some (replicate (unat b div 4) 0)\<rparr>"
    using assms(4) True j(1) by (simp add: alloc_junk_def)
  moreover have "junk_buf_ok p'"
    using assms(2,3) True j(2) by (simp add: p' junk_buf_ok_def min_def)
  ultimately show ?thesis by blast
qed

lemma alloc_junk_none:
  assumes "config_ok (px_cfg p)" and "cf_jc (px_cfg p) < 2 ^ 31"
  shows "alloc_junk p mem = None \<longleftrightarrow> 0 < cf_jc (px_cfg p) \<and> 0 < cf_jmax (px_cfg p) \<and> mem = None"
proof -
  obtain a b where j: "junk_layout_sizes (px_cfg p) = Some (a, b)"
    using junk_layout_exact [of "px_cfg p"] assms by (auto simp: config_ok_def)
  show ?thesis by (cases mem) (simp_all add: alloc_junk_def j)
qed

text \<open>The fields of the initial state the later steps do not touch.\<close>

lemma init_state_fields:
  "px_cfg (init_state p a h src seed) = px_cfg p" "px_h4_idx (init_state p a h src seed) = px_h4_idx p"
  "px_listen_fd (init_state p a h src seed) = px_listen_fd p"
  "px_remote_fd (init_state p a h src seed) = px_remote_fd p"
  "px_stopped (init_state p a h src seed) = px_stopped p"
  "px_has_client (init_state p a h src seed) = px_has_client p"
  "px_auto_src_port (init_state p a h src seed) = (src \<le> 0 \<or> px_auto_src_port p)"
  by (simp_all add: init_state_def Let_def)

lemma fill_h4_ring_fields:
  "\<exists>vs r. fill_h4_ring p = p\<lparr>px_h4_ring := vs, px_rng := r\<rparr>"
proof (cases "hr_min (cf_h4 (px_cfg p)) = hr_max (cf_h4 (px_cfg p))")
  case True
  then have "fill_h4_ring p = p\<lparr>px_h4_ring := replicate 4096 (hr_min (cf_h4 (px_cfg p))), px_rng := px_rng p\<rparr>"
    by (simp add: fill_h4_ring_def)
  then show ?thesis by blast
next
  case False
  then show ?thesis by (auto simp: fill_h4_ring_def Let_def split: prod.split)
qed

lemma init_state_ok:
  assumes cfg: "config_ready cfg" "templates_ok cfg" "cf_jc cfg < 2 ^ 31"
    and jm: "0 < cf_jc cfg \<and> 0 < cf_jmax cfg \<longrightarrow> 4 \<le> cf_jc cfg * cf_jmax cfg"
    and init: "proxy_init cfg listen remote src e = Some (Inr (p, c2s, s2c))"
  shows "path_ok p c2s \<and> path_ok p s2c \<and> th_sys c2s = [] \<and> th_sys s2c = []
    \<and> px_cfg p = cfg \<and> px_listen_fd p = -1 \<and> px_remote_fd p = -1 \<and> \<not> px_stopped p \<and> \<not> px_has_client p
    \<and> px_auto_src_port p = (src \<le> 0)"
proof -
  have ok: "config_ok cfg" and h4: "hr_min (cf_h4 cfg) \<le> hr_max (cf_h4 cfg)"
    using cfg(1) by (simp_all add: config_ready_def hranges_ordered_def)
  obtain la rh seed p1 where p1: "alloc_junk (init_state (proxy_zero cfg) la rh src seed) (ie_malloc e) = Some p1"
      "proxy_init_io_state (fill_h4_ring p1) thread_zero thread_zero = (p, c2s, s2c)"
    using init by (auto simp: proxy_init_def Let_def bind_eq_Some_conv
        split: option.splits sum.splits prod.splits)
  define p0 where "p0 = init_state (proxy_zero cfg) la rh src seed"
  have f0: "px_cfg p0 = cfg" "px_h4_idx p0 = 0" "px_listen_fd p0 = -1" "px_remote_fd p0 = -1"
      "\<not> px_stopped p0" "\<not> px_has_client p0" "px_auto_src_port p0 = (src \<le> 0)"
    by (simp_all add: p0_def init_state_fields proxy_zero_def)
  obtain b s where j: "junk_buf_ok p1" "p1 = p0\<lparr>px_junk_buf := b, px_junk_sizes := s\<rparr>"
  proof -
    have "config_ok (px_cfg p0)" "cf_jc (px_cfg p0) < 2 ^ 31"
      "0 < cf_jc (px_cfg p0) \<and> 0 < cf_jmax (px_cfg p0) \<longrightarrow> 4 \<le> cf_jc (px_cfg p0) * cf_jmax (px_cfg p0)"
      unfolding f0(1) by (fact ok cfg(3) jm)+
    from alloc_junk_ok [OF this p1(1) [folded p0_def]] that show ?thesis by blast
  qed
  have r1: "ring_ok (fill_h4_ring p1)" by (rule ring_ok_fill) (use j(2) f0 h4 in simp_all)
  obtain vs r where f: "fill_h4_ring p1 = p1\<lparr>px_h4_ring := vs, px_rng := r\<rparr>" using fill_h4_ring_fields by blast
  have pc: "px_cfg (fill_h4_ring p1) = cfg" unfolding f by (simp add: j(2) f0)
  have s4: "0 \<le> cf_s4 (px_cfg (fill_h4_ring p1))" "cf_s4 (px_cfg (fill_h4_ring p1)) \<le> 1500"
    unfolding pc using ok by (simp_all add: config_ok_def)
  obtain r2 cb sb where io: "p = (fill_h4_ring p1)\<lparr>px_rng := r2\<rparr>" "c2s = thread_zero\<lparr>th_bufs := cb\<rparr>"
      "s2c = thread_zero\<lparr>th_bufs := sb\<rparr>" "thread_ok c2s" "thread_ok s2c"
    using init_io_ok [OF thread_zero_ok(1) thread_zero_ok(1) s4] p1(2) by auto
  have "ring_ok p" using r1 by (simp add: io(1) ring_ok_def)
  moreover have "junk_buf_ok p" unfolding io(1) f using j(1) by (simp add: junk_buf_ok_def)
  moreover have "px_cfg p = cfg" "px_listen_fd p = -1" "px_remote_fd p = -1" "\<not> px_stopped p" "\<not> px_has_client p"
      "px_auto_src_port p = (src \<le> 0)" unfolding io(1) f using f0 by (simp_all add: j(2))
  moreover have "th_sys c2s = []" "th_sys s2c = []" by (simp_all add: io(2,3) thread_zero_ok(2))
  ultimately show ?thesis using cfg(1,2) io(4,5) by (simp add: path_ok_def)
qed

text \<open>The refusals: a configuration that does not validate (the only one with a message of its
  own), a listen address that does not parse or resolve, a remote address that does not parse,
  and no memory for the junk packets.\<close>

lemma init_refusals:
  assumes jc: "cf_jc cfg < 2 ^ 31" and seed: "fill_random_seed (ie_opened e) (ie_reads e) \<noteq> None"
  shows "(\<exists>a. proxy_init cfg listen remote src e = Some (Inl a)) \<longleftrightarrow>
     config_validate cfg \<noteq> None \<or> net_addr_parse_host_port listen 256 = None
     \<or> (\<exists>c. net_addr_resolve_host_port (ie_gai e) = Inl c) \<or> net_addr_parse_host_port remote 256 = None
     \<or> 0 < cf_jc cfg \<and> 0 < cf_jmax cfg \<and> ie_malloc e = None"
proof (cases "config_validate cfg")
  case (Some m)
  then show ?thesis by (simp add: proxy_init_def)
next
  case None
  then have ok: "config_ok cfg" by (simp add: config_validate_ok)
  have an: "alloc_junk (init_state (proxy_zero cfg) la rh src v) (ie_malloc e) = None \<longleftrightarrow>
      0 < cf_jc cfg \<and> 0 < cf_jmax cfg \<and> ie_malloc e = None" for la rh v
    using alloc_junk_none [of "init_state (proxy_zero cfg) la rh src v" "ie_malloc e"] ok jc
    by (simp add: init_state_fields proxy_zero_def)
  obtain s where s: "fill_random_seed (ie_opened e) (ie_reads e) = Some s" using seed by auto
  show ?thesis
  proof (cases "net_addr_parse_host_port listen 256 = None \<or> (\<exists>c. net_addr_resolve_host_port (ie_gai e) = Inl c)
      \<or> net_addr_parse_host_port remote 256 = None")
    case True
    then show ?thesis using None
      by (auto simp: proxy_init_def Let_def split: option.split sum.split)
  next
    case False
    then obtain lh lp la ll rh rp where l: "net_addr_parse_host_port listen 256 = Some (lh, lp)"
        "net_addr_resolve_host_port (ie_gai e) = Inr (la, ll)" "net_addr_parse_host_port remote 256 = Some (rh, rp)"
      by (metis old.sum.exhaust option.exhaust surj_pair)
    define v where "v = (case s of Some v \<Rightarrow> v | None \<Rightarrow> ie_self e XOR 0xDEADBEEFCAFE)"
    have i: "proxy_init cfg listen remote src e =
        (case alloc_junk (init_state (proxy_zero cfg) (la, ll) (rh, rp) src v) (ie_malloc e) of
           None \<Rightarrow> Some (Inl [])
         | Some p \<Rightarrow> Some (Inr (proxy_init_io_state (fill_h4_ring p) thread_zero thread_zero)))"
      using None l s by (simp add: proxy_init_def v_def Let_def)
    have "(\<exists>a. proxy_init cfg listen remote src e = Some (Inl a))
        \<longleftrightarrow> alloc_junk (init_state (proxy_zero cfg) (la, ll) (rh, rp) src v) (ie_malloc e) = None"
      unfolding i by (simp split: option.split)
    then show ?thesis unfolding an using None l by simp
  qed
qed

text \<open>The session table starts empty.\<close>

lemma init_table_ok:
  assumes "proxy_init cfg listen remote src e = Some (Inr (p, c2s, s2c))"
  shows "table_ok (px_sessions p)"
proof -
  obtain la rh seed p1 where p1: "alloc_junk (init_state (proxy_zero cfg) la rh src seed) (ie_malloc e) = Some p1"
      "proxy_init_io_state (fill_h4_ring p1) thread_zero thread_zero = (p, c2s, s2c)"
    using assms by (auto simp: proxy_init_def Let_def bind_eq_Some_conv
        split: option.splits sum.splits prod.splits)
  have "px_sessions p1 = replicate 4096 entry_zero"
    using p1(1) by (auto simp: alloc_junk_def bind_eq_Some_conv init_state_def proxy_zero_def Let_def split: if_splits)
  moreover obtain vs r where "fill_h4_ring p1 = p1\<lparr>px_h4_ring := vs, px_rng := r\<rparr>" using fill_h4_ring_fields by blast
  then have "px_sessions p = px_sessions p1"
    using p1(2) by (auto simp: proxy_init_io_state_def Let_def split: prod.splits)
  ultimately show ?thesis by (simp add: table_ok_empty)
qed

end
