(* ===== verification/Gateway_Correct.thy ===== *)
theory Gateway_Correct
  imports C2s_Correct
begin

text \<open>
  Gateway and server mode: what the thread towards the remote delivers, that sessions recorded
  on the way in route the replies on the way out, that neither path leaves a buffer, and what
  happens to the wrapped packets of one batch, which share the thread's \<open>obfs_buf\<close>.
\<close>

section \<open>The table under the obfuscation sessions\<close>

definition same_key :: "session_entry_t \<Rightarrow> session_entry_t \<Rightarrow> bool" where
  "same_key e e' \<longleftrightarrow> se_sender_index e' = se_sender_index e \<and> se_seq e' = se_seq e \<and> se_valid e' = se_valid e
     \<and> se_addr e' = se_addr e \<and> se_addr_len e' = se_addr_len e"

lemma same_key_at:
  assumes "same_key (tbl ! i) e"
  shows "same_key (tbl ! s) (tbl[i := e] ! s)"
  using assms by (cases "i < length tbl"; cases "s = i") (auto simp: same_key_def list_update_beyond)

lemma same_key_matches: "same_key (tbl ! i) e \<Longrightarrow> matches (tbl[i := e]) index s = matches tbl index s"
  using same_key_at [of tbl i e s] by (auto simp: matches_def same_key_def)

lemma same_key_get_entry: "same_key (tbl ! i) e \<Longrightarrow> session_get_entry (tbl[i := e]) index = session_get_entry tbl index"
  unfolding session_get_entry_def by (rule find_cong_set) (simp add: same_key_matches)

lemma same_key_map: "same_key (tbl ! i) e \<Longrightarrow> table_map (tbl[i := e]) index = table_map tbl index"
  using same_key_at [of tbl i e] by (auto simp: table_map_def same_key_get_entry same_key_def split: option.split)

lemma same_key_table_ok:
  assumes k: "same_key (tbl ! i) e" and ok: "table_ok tbl"
  shows "table_ok (tbl[i := e])"
proof -
  have at: "same_key (tbl ! s) (tbl[i := e] ! s)" for s by (rule same_key_at [OF k])
  have "entry_ok (tbl[i := e] ! s)" if "s < 4096" for s
    using entry_ok_at [OF ok that] at [of s] by (simp add: entry_ok_def same_key_def)
  then have "list_all entry_ok (tbl[i := e])" using ok by (simp add: list_all_length table_ok_def)
  moreover have "chain_ok (tbl[i := e])"
    using ok at unfolding table_ok_def chain_ok_def by (auto simp: same_key_matches [OF k] same_key_def)
  moreover have "placed_ok (tbl[i := e])"
    using ok at unfolding table_ok_def placed_ok_def by (auto simp: same_key_def)
  ultimately show ?thesis using ok by (simp add: table_ok_def)
qed

text \<open>The steps that write into an entry beside its key.\<close>

lemma same_key_intros [simp]:
  "same_key e (e\<lparr>se_obfs_c2s := x\<rparr>)" "same_key e (e\<lparr>se_obfs_s2c := x\<rparr>)" "same_key e (e\<lparr>se_peer_slot := n\<rparr>)"
  "same_key e (e\<lparr>se_obfs_c2s := x, se_obfs_s2c := y, se_obfs_ready := b\<rparr>)" "same_key e e"
  by (simp_all add: same_key_def)

definition gate_ok :: "proxy_t \<Rightarrow> thread_t \<Rightarrow> bool" where
  "gate_ok p th \<longleftrightarrow> path_ok p th \<and> table_ok (px_sessions p)"

text \<open>A step on the table that leaves its keys, and the rest of what the data paths need.\<close>

definition key_step :: "proxy_t \<Rightarrow> proxy_t \<Rightarrow> bool" where
  "key_step p p' \<longleftrightarrow> (\<forall>th. path_ok p th \<longrightarrow> path_ok p' th) \<and> same_shared p p'
     \<and> (table_ok (px_sessions p) \<longrightarrow> table_ok (px_sessions p'))
     \<and> (\<forall>index. table_map (px_sessions p') index = table_map (px_sessions p) index)"

lemma key_step_refl [simp]: "key_step p p"
  by (simp add: key_step_def same_shared_def)

lemma key_step_trans: "key_step a b \<Longrightarrow> key_step b c \<Longrightarrow> key_step a c"
  unfolding key_step_def using same_shared_trans by metis

lemma key_step_gate: "key_step p p' \<Longrightarrow> gate_ok p th \<Longrightarrow> gate_ok p' th"
  by (simp add: key_step_def gate_ok_def)

lemma ensure_obfs_step: "key_step p (ensure_obfs p i)"
  unfolding ensure_obfs_def Let_def
  by (auto simp: key_step_def path_ok_def ring_ok_def junk_buf_ok_def same_shared_def same_key_table_ok
      same_key_map split: prod.split)

lemma set_obfs_step: "key_step p (set_obfs_c2s p ref s)" "key_step p (set_obfs_s2c p ref s)"
  by (cases ref; simp add: key_step_def path_ok_def ring_ok_def junk_buf_ok_def same_shared_def
      same_key_table_ok same_key_map)+

lemma pick_obfs_tx_step: "key_step p (fst (pick_obfs_tx p d))"
  by (simp add: pick_obfs_tx_def ensure_obfs_step split: option.split)

lemma pick_obfs_rx_step:
  assumes "table_ok (px_sessions p)"
  shows "\<exists>p' ref. pick_obfs_rx p addr = Some (p', ref) \<and> key_step p p'
    \<and> (cf_mode (px_cfg p) \<noteq> AWG_MODE_SERVER \<longrightarrow> p' = p \<and> ref = ObfsProxy)"
  using session_find_by_addr_spec [OF assms, of addr]
  by (auto simp: pick_obfs_rx_def ensure_obfs_step split: option.split)

section \<open>Recording and routing\<close>

definition records :: "bytes \<Rightarrow> u32 option" where
  "records m = (if le32_of m = 1 \<and> length m = 148 \<or> le32_of m = 2 \<and> length m = 92
     then Some (le32_of (drop 4 m)) else None)"

text \<open>In server mode a handshake message from an IPv4 or IPv6 address puts that address under its
  sender index; nothing else changes the map.\<close>

lemma record_session_ok:
  assumes ok: "table_ok (px_sessions p)" and a: "length addr = 128" "alen \<le> 128" and m: "4 \<le> length m"
  shows "\<exists>p' l. record_session p m addr alen = Some (p', l) \<and> list_all is_log l
    \<and> (\<forall>th. path_ok p th \<longrightarrow> path_ok p' th) \<and> same_shared p p' \<and> table_ok (px_sessions p')
    \<and> (if cf_mode (px_cfg p) = AWG_MODE_SERVER \<and> (ss_family addr = AF_INET \<or> ss_family addr = AF_INET6)
       then case records m of None \<Rightarrow> p' = p
         | Some idx \<Rightarrow> stored_addr (px_sessions p') idx = Some (take alen addr)
       else p' = p)"
proof (cases "cf_mode (px_cfg p) = AWG_MODE_SERVER \<and> (ss_family addr = AF_INET \<or> ss_family addr = AF_INET6)")
  case False
  then have "record_session p m addr alen = Some (p, [])" by (simp add: record_session_def del: de_Morgan_conj)
  then show ?thesis using False ok by (auto simp: same_shared_def)
next
  case server: True
  have t: "rd32 m 0 = Some (le32_of m)" using m by (simp add: rd32_def slice_def le32_of_take)
  show ?thesis
  proof (cases "records m")
    case None
    then have "record_session p m addr alen = Some (p, [])"
      using server t by (auto simp: record_session_def records_def split: if_splits)
    then show ?thesis using server None ok by (simp add: same_shared_def)
  next
    case (Some idx)
    then have hs: "le32_of m = 1 \<and> length m = 148 \<or> le32_of m = 2 \<and> length m = 92" "idx = le32_of (drop 4 m)"
      by (auto simp: records_def split: if_splits)
    have l: "8 \<le> length m" using hs(1) by auto
    have i: "rd32 m 4 = Some idx" using l hs(2) by (simp add: rd32_def slice_def le32_of_take)
    let ?p = "p\<lparr>px_sessions := session_put (px_sessions p) idx addr alen\<rparr>"
    define p' where "p' = (case session_get_entry (px_sessions ?p) idx of None \<Rightarrow> ?p | Some i \<Rightarrow> ensure_obfs ?p i)"
    define l where "l = [log_debug (if le32_of m = WG_HANDSHAKE_INIT
             then ''c2s: server: recorded init sender_index''
             else ''c2s: server: recorded response sender_index'')]"
    have r: "record_session p m addr alen = Some (p', l)"
      using server t hs(1) i a(2) unfolding record_session_def p'_def l_def
      by (simp add: Let_def del: de_Morgan_disj de_Morgan_conj)
    have tok: "table_ok (px_sessions ?p)" using table_ok_put [OF ok a(1)] by simp
    have ks: "key_step ?p p'" by (simp add: p'_def ensure_obfs_step split: option.split)
    have "stored_addr (px_sessions ?p) idx = Some (take alen addr)"
      using table_map_put [OF ok a, of idx idx] a by (simp add: stored_addr_def)
    then have "stored_addr (px_sessions p') idx = Some (take alen addr)"
      using ks by (simp add: key_step_def stored_addr_def)
    moreover have "path_ok ?p th" if "path_ok p th" for th
      using that by (simp add: path_ok_def ring_ok_def junk_buf_ok_def)
    moreover have "same_shared p ?p" by (simp add: same_shared_def)
    ultimately show ?thesis
      using r server Some ks tok same_shared_trans [of p ?p p'] by (auto simp: key_step_def l_def)
  qed
qed

text \<open>In server mode a packet with a receiver index goes where that index is stored.\<close>

definition receiver_index :: "bytes \<Rightarrow> u32 option" where
  "receiver_index m =
    (if le32_of m = 4 \<and> 32 \<le> length m then Some (le32_of (drop 4 m))
     else if le32_of m = 2 \<and> length m = 92 then Some (le32_of (drop 8 m))
     else if le32_of m = 3 \<and> length m = 64 then Some (le32_of (drop 4 m)) else None)"

lemma server_route_ok:
  assumes ok: "table_ok (px_sessions p)" and m: "4 \<le> length m"
  shows "\<exists>r e l. server_route p m (le32_of m) (length m) = Some (r, e, l) \<and> list_all is_log l
    \<and> (case r of None \<Rightarrow> True | Some (i, a, al) \<Rightarrow> i < 4096)
    \<and> (case receiver_index m of
         Some idx \<Rightarrow> map_option (\<lambda>(i, a, al). (a, al)) r = table_map (px_sessions p) idx \<and> (r \<noteq> None \<longrightarrow> e = Some idx)
       | None \<Rightarrow> e = None)"
proof -
  have lk: "session_lookup (px_sessions p) idx = Some (map_option
      (\<lambda>s. (s, se_addr (px_sessions p ! s), se_addr_len (px_sessions p ! s))) (session_get_entry (px_sessions p) idx))" for idx
    by (rule session_lookup_eq(1) [OF ok])
  have ge: "s < 4096" if "session_get_entry (px_sessions p) idx = Some s" for idx s
    using find_Some_set [OF that [unfolded session_get_entry_def]] by (auto simp: probes_def)
  have rd: "rd32 m k = Some (le32_of (drop k m))" if "k + 4 \<le> length m" for k
    using that by (simp add: rd32_def slice_def le32_of_take)
  show ?thesis
  proof (cases "receiver_index m")
    case (Some idx)
    then have "server_route p m (le32_of m) (length m) = do {
           r \<leftarrow> session_lookup (px_sessions p) idx; Some (r, map_option (\<lambda>_. idx) r, []) }"
      by (auto simp: receiver_index_def server_route_def Let_def rd split: if_splits)
    then show ?thesis using Some lk [of idx] ge [of idx]
      by (auto simp: table_map_def split: option.split)
  next
    case None
    obtain r where r: "session_find_sole_entry_with_addr (px_sessions p) = Some r"
        "case r of None \<Rightarrow> True | Some (i, a, al) \<Rightarrow> i < 4096"
    proof -
      have v: "\<forall>i \<in> set (valid_slots (px_sessions p)). i < 4096" by (simp add: valid_slots_def)
      show ?thesis
        using session_find_sole_spec [OF ok] v that [of None]
          that [of "Some (entry_addr (px_sessions p) (hd (valid_slots (px_sessions p))))"]
        by (cases "valid_slots (px_sessions p)") (auto simp: entry_addr_def split: if_splits)
    qed
    show ?thesis using None r
      by (auto simp: receiver_index_def server_route_def Let_def split: if_splits)
  qed
qed

section \<open>Towards the remote\<close>

text \<open>When the shortcut is taken.\<close>

definition shortcut_taken :: "awg_config_t \<Rightarrow> bytes \<Rightarrow> bool" where
  "shortcut_taken cfg d \<longleftrightarrow> int (length d) \<ge> cf_s4 cfg + 32
     \<and> (\<not> cf_transport_size_ambiguous cfg
        \<or> (int (length d) \<noteq> cf_init_total cfg \<and> int (length d) \<noteq> cf_resp_total cfg
           \<and> int (length d) \<noteq> cf_cookie_total cfg))
     \<and> hrange_contains (cf_h4 cfg) (le32_of (drop (nat (cf_s4 cfg)) d))"

lemma transport_shortcut_taken:
  assumes cfg: "config_ready cfg" and d: "iov_bytes th (pl, off, n) = Some d"
    and r: "transport_shortcut th (pl, off, n) cfg = Some r"
  shows "r \<noteq> None \<longleftrightarrow> shortcut_taken cfg d"
proof -
  let ?k = "nat (cf_s4 cfg)" and ?b = "place_bytes th pl"
  have p: "off + n \<le> length ?b" "d = slice ?b off n" and ld: "length d = n"
    using d by (auto simp: iov_bytes_def rd_def slice_def split: if_splits)
  have s4: "0 \<le> cf_s4 cfg" using config_ready_bounds [OF cfg] by simp
  show ?thesis
  proof (cases "int n \<ge> cf_s4 cfg + WG_TRANSPORT_MIN
    \<and> (\<not> cf_transport_size_ambiguous cfg
       \<or> (int n \<noteq> cf_init_total cfg \<and> int n \<noteq> cf_resp_total cfg \<and> int n \<noteq> cf_cookie_total cfg))")
    case False
    then have "r = None" using r unfolding transport_shortcut_def
      by (auto simp del: de_Morgan_conj de_Morgan_disj)
    moreover have "\<not> shortcut_taken cfg d" using False unfolding shortcut_taken_def ld by blast
    ultimately show ?thesis by simp
  next
    case True
    then have n: "?k + 32 \<le> n" using s4 by linarith
    have h: "rd32 ?b (off + ?k) = Some (le32_of (drop ?k d))"
      using n p by (simp add: rd32_def slice_def le32_of_take drop_take min_def add.commute)
    have w: "wr32 ?b (off + ?k) 4 = Some (splice ?b (off + ?k) (le32_bytes 4))"
      using n p(1) by (simp add: wr32_def wr_def)
    have "shortcut_taken cfg d \<longleftrightarrow> hrange_contains (cf_h4 cfg) (le32_of (drop ?k d))"
      using True unfolding shortcut_taken_def ld by simp
    then show ?thesis
      using r True s4 h w unfolding transport_shortcut_def ptr_off_def
      by (auto simp del: de_Morgan_conj de_Morgan_disj split: if_splits)
  qed
qed

text \<open>What the remote is to receive for a datagram, and the session after it: a packet the
  shortcut takes is translated as it is, anything else is unwrapped first.\<close>

definition gateway_message :: "awg_config_t \<Rightarrow> obfs_session_t \<Rightarrow> bytes \<Rightarrow> obfs_session_t \<times> bytes option" where
  "gateway_message cfg s d =
    (if shortcut_taken cfg d then (s, in_spec cfg d)
     else (fst (the (obfs_unwrap s d)), s2c_message cfg s d))"

text \<open>What one packet does to the queue: it joins it, or it first empties it.\<close>

definition c2s_gateway_effect ::
  "int \<Rightarrow> c2s_state \<Rightarrow> c2s_state \<Rightarrow> nat \<Rightarrow> bytes option \<Rightarrow> bool \<Rightarrow> bool" where
  "c2s_gateway_effect fd st st' i m flushed \<longleftrightarrow>
    (case (st, st') of ((p, th, q, a), (p', th', q', a')) \<Rightarrow>
      (\<exists>th0 q0 a0 l. (if flushed then q0 = [] \<and> (\<forall>pl. place_bytes th0 pl = place_bytes th pl)
            \<and> (\<exists>pa pb. flush_c2s fd (pa, th, q, a) = Some (pb, th0, q0, a0)) else th0 = th \<and> q0 = q \<and> a0 = a)
        \<and> a' = a0 @ l \<and> list_all is_log l \<and> th_frame {PBuf i} th0 th'
        \<and> (case m of None \<Rightarrow> q' = q0
           | Some m \<Rightarrow> \<exists>v. q' = q0 @ [(v, None)] \<and> fst v = PBuf i \<and> iov_bytes th' v = Some m)))"

lemma effect_flushed:
  assumes "flush_c2s fd (pa, th, q, a) = Some (pb, th0, [], a0)" and "list_all is_log l"
    and "th_frame {PBuf i} th0 th'" and "\<forall>pl. place_bytes th0 pl = place_bytes th pl"
    and "case m of None \<Rightarrow> q' = [] | Some m \<Rightarrow> \<exists>v. q' = [(v, None)] \<and> fst v = PBuf i \<and> iov_bytes th' v = Some m"
  shows "c2s_gateway_effect fd (p, th, q, a) (p', th', q', a0 @ l) i m True"
  unfolding c2s_gateway_effect_def case_prod_conv if_True
  using assms by (intro exI [of _ th0] exI [of _ "[] :: queue"] exI [of _ a0] exI [of _ l])
    (auto simp del: split_paired_Ex place_bytes.simps split: option.splits)

text \<open>What \<open>c2s_gateway_packet\<close> does behind the shortcut, once the queue is empty: the vector it
  queues, if any, and the lines it logs.\<close>

definition gateway_slow :: "nat \<Rightarrow> nat \<Rightarrow> sockaddr \<Rightarrow> nat \<Rightarrow> awg_config_t \<Rightarrow> obfs_ref \<Rightarrow> proxy_t \<Rightarrow> thread_t
    \<Rightarrow> (proxy_t \<times> thread_t \<times> iovec option \<times> action list) option" where
  "gateway_slow i n addr addr_len cfg ref p th = do {
     let marker_seen_before = ob_marker_seen (get_obfs_c2s p ref);
     d \<leftarrow> iov_bytes th (PBuf i, 0, n);
     (s, w) \<leftarrow> obfs_unwrap (get_obfs_c2s p ref) d;
     let p = set_obfs_c2s p ref s;
     (case w of
        None \<Rightarrow>
          let (th, a1) = (if \<not> marker_seen_before then log_marker_reject_once th s ''c2s'' else (th, []));
              p = p\<lparr>px_obfs_fail_c2s := px_obfs_fail_c2s p + 1\<rparr>
          in Some (p, th, None, a1 @ log_obfs_fail ''c2s'' (px_obfs_fail_c2s p) cfg)
      | Some (off, len) \<Rightarrow> do {
          let (th, a1) = (if \<not> marker_seen_before then log_marker_accept_once th s ''c2s'' else (th, []));
          (th, out) \<leftarrow> th_transform_inbound th (PBuf i, off, len) cfg;
          (case out of
             None \<Rightarrow> Some (p, th, None, a1)
           | Some v \<Rightarrow> do {
               b \<leftarrow> iov_bytes th v;
               (p, a2) \<leftarrow> record_session p b addr addr_len;
               Some (p, th, Some v, a1 @ a2)
             })
        })
   }"

lemma gateway_slow_rejects:
  assumes ok: "gate_ok p th" and d: "iov_bytes th (PBuf i, 0, n) = Some d"
    and u: "obfs_unwrap (get_obfs_c2s p ref) d = Some (s, None)"
  shows "\<exists>p' th' l. gateway_slow i n addr alen cfg ref p th = Some (p', th', None, l) \<and> gate_ok p' th' \<and> same_cfg p p'
    \<and> th_frame {PBuf i} th th' \<and> list_all is_log l \<and> px_obfs_c2s p' = px_obfs_c2s (set_obfs_c2s p ref s)"
proof -
  have tok: "thread_ok th" using ok by (simp add: gate_ok_def path_ok_def)
  define lg where "lg = (if \<not> ob_marker_seen (get_obfs_c2s p ref) then log_marker_reject_once th s ''c2s'' else (th, []))"
  obtain th3 l where l: "lg = (th3, l)" by (rule prod.exhaust)
  have fr: "th_frame {} th th3" and ll: "list_all is_log l"
    using log_once_frame(3) [OF tok, of s "''c2s''"] th_frame_refl [OF tok, of "{}"] l
    by (auto simp: lg_def split: if_splits) (metis log_actions(10) snd_conv)
  define p3 where "p3 = set_obfs_c2s p ref s"
  have k: "key_step p p3" by (simp add: p3_def set_obfs_step)
  have g: "gate_ok p3 th3"
    using key_step_gate [OF k ok] fr by (simp add: gate_ok_def path_ok_def th_frame_def)
  let ?p = "p3\<lparr>px_obfs_fail_c2s := px_obfs_fail_c2s p3 + 1\<rparr>"
  have "gateway_slow i n addr alen cfg ref p th
      = Some (?p, th3, None, l @ log_obfs_fail ''c2s'' (px_obfs_fail_c2s p3 + 1) cfg)"
    using d u l unfolding gateway_slow_def lg_def p3_def by (simp add: Let_def)
  moreover have "gate_ok ?p th3" using g by (simp add: gate_ok_def path_ok_def ring_ok_def junk_buf_ok_def)
  moreover have "same_cfg p ?p" using k by (simp add: same_cfg_def same_shared_def key_step_def)
  moreover have "th_frame {PBuf i} th th3" by (rule th_frame_mono [OF fr]) simp
  ultimately show ?thesis using ll by (simp add: p3_def)
qed

lemma gateway_slow_accepts:
  assumes ok: "gate_ok p th" and d: "iov_bytes th (PBuf i, 0, n) = Some d" and a: "length addr = 128" "alen \<le> 128"
    and u: "obfs_unwrap (get_obfs_c2s p ref) d = Some (s, Some (off, len))"
  shows "\<exists>p' th' w l. gateway_slow i n addr alen (px_cfg p) ref p th = Some (p', th', w, l)
    \<and> gate_ok p' th' \<and> same_cfg p p' \<and> th_frame {PBuf i} th th' \<and> list_all is_log l
    \<and> (case in_spec (px_cfg p) (slice d off len) of None \<Rightarrow> w = None
       | Some m \<Rightarrow> \<exists>v. w = Some v \<and> fst v = PBuf i \<and> iov_bytes th' v = Some m)
    \<and> (cf_mode (px_cfg p) \<noteq> AWG_MODE_SERVER \<longrightarrow> px_obfs_c2s p' = px_obfs_c2s (set_obfs_c2s p ref s))"
proof -
  let ?s = "get_obfs_c2s p ref" and ?c = "px_cfg p"
  have tok: "thread_ok th" and cfg: "config_ready ?c" using ok by (simp_all add: gate_ok_def path_ok_def)
  have bd: "n \<le> length (place_bytes th (PBuf i))" "d = slice (place_bytes th (PBuf i)) 0 n"
    using d by (auto simp: iov_bytes_def rd_def split: if_splits)
  have "length d = n" using bd by (simp add: slice_def)
  then have inside: "off + len \<le> n" using obfs_unwrap_safe [of ?s d] u by auto
  define lg where "lg = (if \<not> ob_marker_seen ?s then log_marker_accept_once th s ''c2s'' else (th, []))"
  obtain th3 l where l: "lg = (th3, l)" by (rule prod.exhaust)
  have fr: "th_frame {} th th3" and ll: "list_all is_log l"
    using log_once_frame(2) [OF tok, of s "''c2s''"] th_frame_refl [OF tok, of "{}"] l
    by (auto simp: lg_def split: if_splits) (metis log_actions(9) snd_conv)
  have dm: "iov_bytes th3 (PBuf i, off, len) = Some (slice d off len)"
    using inside bd fr by (simp add: iov_bytes_def rd_def th_frame_def slice_def drop_take min_def
        add.commute del: place_bytes.simps)
  define p3 where "p3 = set_obfs_c2s p ref s"
  have k: "key_step p p3" by (simp add: p3_def set_obfs_step)
  have c3: "same_cfg p p3" "px_cfg p3 = ?c" using k by (simp_all add: same_cfg_def same_shared_def key_step_def)
  have tok3: "thread_ok th3" using fr by (simp add: th_frame_def)
  obtain th4 out where t: "th_transform_inbound th3 (PBuf i, off, len) ?c = Some (th4, out)" "th_frame {PBuf i} th3 th4"
      "case in_spec ?c (slice d off len) of None \<Rightarrow> out = None \<and> th4 = th3
       | Some m \<Rightarrow> \<exists>o'. out = Some (PBuf i, o', length m) \<and> iov_bytes th4 (PBuf i, o', length m) = Some m"
    using th_transform_inbound_ok [OF cfg tok3 dm] by blast
  have fr': "th_frame {PBuf i} th th4" using th_frame_trans [OF fr t(2)] by simp
  have g: "gate_ok p3 th4" using key_step_gate [OF k ok] t(2) by (simp add: gate_ok_def path_ok_def th_frame_def)
  have step: "gateway_slow i n addr alen ?c ref p th = (case out of
        None \<Rightarrow> Some (p3, th4, None, l)
      | Some v \<Rightarrow> do {
          b \<leftarrow> iov_bytes th4 v;
          (p, a3) \<leftarrow> record_session p3 b addr alen;
          Some (p, th4, Some v, l @ a3)
        })"
    using d u l t(1) unfolding gateway_slow_def lg_def p3_def by (simp add: Let_def split: option.split)
  show ?thesis
  proof (cases "in_spec ?c (slice d off len)")
    case None
    with step t(3) g c3(1) fr' ll show ?thesis by (simp add: p3_def)
  next
    case (Some m)
    obtain o' where o': "out = Some (PBuf i, o', length m)" "iov_bytes th4 (PBuf i, o', length m) = Some m"
      using t(3) Some by auto
    have lm: "4 \<le> length m" using in_spec_message [OF cfg Some] by (auto simp: wg_message_def)
    have tab3: "table_ok (px_sessions p3)" using g by (simp add: gate_ok_def)
    obtain p4 a4 where rs: "record_session p3 m addr alen = Some (p4, a4)" "list_all is_log a4"
        "\<forall>th. path_ok p3 th \<longrightarrow> path_ok p4 th" "same_shared p3 p4" "table_ok (px_sessions p4)"
        "if cf_mode (px_cfg p3) = AWG_MODE_SERVER \<and> (ss_family addr = AF_INET \<or> ss_family addr = AF_INET6)
         then case records m of None \<Rightarrow> p4 = p3
           | Some idx \<Rightarrow> stored_addr (px_sessions p4) idx = Some (take alen addr)
         else p4 = p3"
      using record_session_ok [OF tab3 a lm] by blast
    have "gate_ok p4 th4" using g rs(3,5) by (simp add: gate_ok_def)
    moreover have "same_cfg p p4" using c3(1) rs(4) by (simp add: same_cfg_def same_shared_def)
    moreover have "px_obfs_c2s p4 = px_obfs_c2s p3" if "cf_mode ?c \<noteq> AWG_MODE_SERVER" using rs(6) c3(2) that by simp
    ultimately show ?thesis using step o' rs(1,2) ll fr' Some by (simp add: p3_def)
  qed
qed

lemma c2s_gateway_packet_slow:
  assumes "n \<noteq> 0" "pick_obfs_rx p addr = Some (p1, ref)" "transport_shortcut th (PBuf i, 0, n) (px_cfg p) = Some None"
    and "flush_c2s fd (p1, th, q, acts) = Some (p2, th2, [], a2)"
  shows "c2s_gateway_packet fd i n addr alen (p, th, q, acts) = do {
     (p', th', w, l) \<leftarrow> gateway_slow i n addr alen (px_cfg p) ref p2 th2;
     Some (p', th', (case w of None \<Rightarrow> [] | Some v \<Rightarrow> [(v, None)]), a2 @ l)
   }"
  using assms unfolding c2s_gateway_packet_def gateway_slow_def Let_def
  by (auto simp: Option.bind_eq_None_conv split: option.split prod.split bind_splits if_splits)

lemma c2s_gateway_packet_ok:
  assumes ok: "gate_ok p th" and i: "i < BATCH_SIZE" and n: "n \<noteq> 0"
    and d: "iov_bytes th (PBuf i, 0, n) = Some d" and a: "length addr = 128" "alen \<le> 128"
    and q: "pending th i q ms"
  shows "\<exists>st' m flushed. c2s_gateway_packet fd i n addr alen (p, th, q, acts) = Some st'
    \<and> gate_ok (fst st') (fst (snd st')) \<and> same_cfg p (fst st')
    \<and> c2s_gateway_effect fd (p, th, q, acts) st' i m flushed
    \<and> (cf_mode (px_cfg p) \<noteq> AWG_MODE_SERVER \<longrightarrow>
        gateway_message (px_cfg p) (px_obfs_c2s p) d = (px_obfs_c2s (fst st'), m))"
proof -
  have pok: "path_ok p th" and tab: "table_ok (px_sessions p)" using ok by (simp_all add: gate_ok_def)
  have tok: "thread_ok th" and cfg: "config_ready (px_cfg p)" using pok by (simp_all add: path_ok_def)
  obtain p1 ref where rx: "pick_obfs_rx p addr = Some (p1, ref)" "key_step p p1"
      "cf_mode (px_cfg p) \<noteq> AWG_MODE_SERVER \<longrightarrow> p1 = p \<and> ref = ObfsProxy"
    using pick_obfs_rx_step [OF tab] by blast
  have ok1: "gate_ok p1 th" using key_step_gate [OF rx(2) ok] .
  have c1: "same_shared p p1" using rx(2) by (simp add: key_step_def)
  obtain r where r: "transport_shortcut th (PBuf i, 0, n) (px_cfg p) = Some r"
      "case r of None \<Rightarrow> True
       | Some (th', v') \<Rightarrow> th_frame {PBuf i} th th' \<and> fst v' = PBuf i
           \<and> in_spec (px_cfg p) d \<noteq> None \<and> iov_bytes th' v' = in_spec (px_cfg p) d"
    using transport_shortcut_ok [OF cfg tok d] by blast
  have taken: "r \<noteq> None \<longleftrightarrow> shortcut_taken (px_cfg p) d" by (rule transport_shortcut_taken [OF cfg d r(1)])
  show ?thesis
  proof (cases r)
    case (Some tv)
    obtain th' v where tv: "tv = (th', v)" by (rule prod.exhaust)
    obtain m where m: "in_spec (px_cfg p) d = Some m" using r(2) Some tv by auto
    let ?st = "(p1, th', q @ [(v, None)], acts)"
    have "c2s_gateway_packet fd i n addr alen (p, th, q, acts) = Some ?st"
      using n rx(1) r(1) Some tv by (simp add: c2s_gateway_packet_def)
    moreover have "gate_ok (fst ?st) (fst (snd ?st))"
      using ok1 r(2) Some tv by (auto simp: gate_ok_def path_ok_def th_frame_def)
    moreover have "same_cfg p (fst ?st)" using c1 by (simp add: same_cfg_def same_shared_def)
    moreover have "c2s_gateway_effect fd (p, th, q, acts) ?st i (Some m) False"
      using r(2) Some tv m unfolding c2s_gateway_effect_def by (simp del: split_paired_Ex)
    moreover have "cf_mode (px_cfg p) \<noteq> AWG_MODE_SERVER \<longrightarrow>
        gateway_message (px_cfg p) (px_obfs_c2s p) d = (px_obfs_c2s (fst ?st), Some m)"
      using taken Some m rx(3) by (simp add: gateway_message_def)
    ultimately show ?thesis by blast
  next
    case rn: None
    obtain p2 th2 a2 where f: "flush_c2s fd (p1, th, q, acts) = Some (p2, th2, [], a2)" "path_ok p2 th2"
        "same_cfg p1 p2" "\<forall>pl. place_bytes th2 pl = place_bytes th pl" "\<exists>g. p2 = p1\<lparr>px_gso_ok := g\<rparr>"
      using flush_safe [OF q, of p1 fd acts] ok1 unfolding gate_ok_def by blast
    then obtain g where g: "p2 = p1\<lparr>px_gso_ok := g\<rparr>" by blast
    note step = c2s_gateway_packet_slow [OF n rx(1) r(1) [unfolded rn] f(1), of alen]
    have ok2: "gate_ok p2 th2" using f(2) ok1 g by (simp add: gate_ok_def)
    have d2: "iov_bytes th2 (PBuf i, 0, n) = Some d" using d f(4) by (simp add: iov_bytes_def del: place_bytes.simps)
    let ?s = "get_obfs_c2s p2 ref"
    have c2: "px_cfg p2 = px_cfg p" "same_cfg p p2" using c1 g by (simp_all add: same_cfg_def same_shared_def)
    obtain s w where u: "obfs_unwrap ?s d = Some (s, w)" using obfs_unwrap_safe [of ?s d] by blast
    have gm: "cf_mode (px_cfg p) \<noteq> AWG_MODE_SERVER \<longrightarrow>
        gateway_message (px_cfg p) (px_obfs_c2s p) d = (px_obfs_c2s (set_obfs_c2s p2 ref s), s2c_message (px_cfg p) ?s d)"
      using taken rn rx(3) g u by (auto simp: gateway_message_def)
    obtain p' th' v l where sl: "gateway_slow i n addr alen (px_cfg p) ref p2 th2 = Some (p', th', v, l)"
        "gate_ok p' th'" "same_cfg p2 p'" "th_frame {PBuf i} th2 th'" "list_all is_log l"
        "case s2c_message (px_cfg p) ?s d of None \<Rightarrow> v = None
         | Some m \<Rightarrow> \<exists>x. v = Some x \<and> fst x = PBuf i \<and> iov_bytes th' x = Some m"
        "cf_mode (px_cfg p) \<noteq> AWG_MODE_SERVER \<longrightarrow> px_obfs_c2s p' = px_obfs_c2s (set_obfs_c2s p2 ref s)"
    proof (cases w)
      case None
      then have "s2c_message (px_cfg p) ?s d = None" using u by (simp add: s2c_message_def window_bytes_def)
      with gateway_slow_rejects [OF ok2 d2 u [unfolded None], of addr alen "px_cfg p"] that show thesis by auto
    next
      case (Some on)
      obtain off len where on: "on = (off, len)" by (rule prod.exhaust)
      have "s2c_message (px_cfg p) ?s d = in_spec (px_cfg p) (slice d off len)"
        using u Some on by (simp add: s2c_message_def window_bytes_def)
      with gateway_slow_accepts [OF ok2 d2 a u [unfolded Some on]] that show thesis unfolding c2(1) by auto
    qed
    let ?st = "(p', th', (case v of None \<Rightarrow> [] | Some v \<Rightarrow> [(v, None)]), a2 @ l)"
    have "c2s_gateway_packet fd i n addr alen (p, th, q, acts) = Some ?st" using step sl(1) by simp
    moreover have "same_cfg p (fst ?st)" using c2(2) sl(3) by (simp add: same_cfg_def)
    moreover have "c2s_gateway_effect fd (p, th, q, acts) ?st i (s2c_message (px_cfg p) ?s d) True"
      by (rule effect_flushed [OF f(1) sl(5,4) f(4)]) (use sl(6) in \<open>auto split: option.splits\<close>)
    ultimately show ?thesis using sl(2,7) gm by auto
  qed
qed

text \<open>The whole batch: never a fault; outside server mode, with a kernel that takes what it is
  given, the remote gets the messages of the datagrams in order, once each.\<close>

fun gateway_deliveries :: "awg_config_t \<Rightarrow> obfs_session_t \<Rightarrow> bytes list \<Rightarrow> bytes list" where
  "gateway_deliveries cfg s [] = []"
| "gateway_deliveries cfg s (d # ds) =
     (if d = [] then gateway_deliveries cfg s ds
      else case gateway_message cfg s d of (s', m) \<Rightarrow>
        (case m of None \<Rightarrow> [] | Some m \<Rightarrow> [m]) @ gateway_deliveries cfg s' ds)"

definition senders_ok :: "(bytes \<times> sockaddr \<times> nat) list \<Rightarrow> bool" where
  "senders_ok msgs \<longleftrightarrow> (\<forall>(d, a, l) \<in> set msgs. length a = 128 \<and> l \<le> 128)"

lemma pending_same_places:
  "pending th i q ms \<Longrightarrow> \<forall>pl. place_bytes th' pl = place_bytes th pl \<Longrightarrow> pending th' i q ms"
  unfolding pending_def by (erule list_all2_mono) (auto simp: iov_bytes_def simp del: place_bytes.simps split: prod.splits)

lemma effect_pending:
  assumes "c2s_gateway_effect fd (p, th, q, acts) (p', th', q', a') i m flushed" and "pending th i q ms"
  shows "\<exists>ms'. pending th' (i + 1) q' ms'
    \<and> (th_sys th = [] \<longrightarrow> th_sys th' = []
       \<and> sent_packets a' @ map (\<lambda>m. (fd, None, m)) ms'
          = sent_packets acts @ map (\<lambda>m. (fd, None, m)) (ms @ (case m of None \<Rightarrow> [] | Some m \<Rightarrow> [m])))"
proof -
  obtain th0 q0 a0 l where e: "if flushed then q0 = [] \<and> (\<forall>pl. place_bytes th0 pl = place_bytes th pl)
            \<and> (\<exists>pa pb. flush_c2s fd (pa, th, q, acts) = Some (pb, th0, q0, a0)) else th0 = th \<and> q0 = q \<and> a0 = acts"
        "a' = a0 @ l" "list_all is_log l" "th_frame {PBuf i} th0 th'"
        "case m of None \<Rightarrow> q' = q0
           | Some m \<Rightarrow> \<exists>v. q' = q0 @ [(v, None)] \<and> fst v = PBuf i \<and> iov_bytes th' v = Some m"
    using assms(1) unfolding c2s_gateway_effect_def case_prod_conv by blast
  obtain ms0 where m0: "pending th0 i q0 ms0" "th_sys th = [] \<longrightarrow> th_sys th0 = []
      \<and> sent_packets a0 @ map (\<lambda>m. (fd, None, m)) ms0 = sent_packets acts @ map (\<lambda>m. (fd, None, m)) ms"
  proof (cases flushed)
    case True
    then obtain pa pb where f: "flush_c2s fd (pa, th, q, acts) = Some (pb, th0, [], a0)" "q0 = []" using e(1) by auto
    have "th_sys th = [] \<longrightarrow> th0 = th \<and> a0 = acts @ map (Send fd None) ms"
      using flush_pending [OF assms(2), of fd pa acts] f(1) by auto
    then show ?thesis using that [of "[]"] f(2) by auto
  next
    case False
    then show ?thesis using that [of ms] e(1) assms(2) by simp
  qed
  have p1: "pending th' (i + 1) q0 ms0" by (rule pending_frame [OF m0(1) e(4)])
  have sys: "th_sys th' = th_sys th0" using e(4) by (simp add: th_frame_def)
  show ?thesis
  proof (cases m)
    case None
    then show ?thesis using p1 e(2,3,5) m0(2) sys by (intro exI [of _ ms0]) (auto simp: sent_packets_log)
  next
    case (Some x)
    then obtain v where v: "q' = q0 @ [(v, None)]" "fst v = PBuf i" "iov_bytes th' v = Some x" using e(5) by auto
    have "pending th' (i + 1) q' (ms0 @ [x])" unfolding v(1) by (rule pending_add [OF p1]) (simp_all add: v)
    then show ?thesis using Some e(2,3) m0(2) sys
      by (intro exI [of _ "ms0 @ [x]"]) (auto simp: sent_packets_log)
  qed
qed

lemma c2s_gateway_packets_ok:
  assumes "gate_ok p th" and "senders_ok msgs" and "i + length msgs \<le> BATCH_SIZE" and "pending th i q ms"
    and "\<forall>j < length msgs. iov_bytes th (PBuf (i + j), 0, min BUF_TOTAL (length (fst (msgs ! j))))
      = Some (take BUF_TOTAL (fst (msgs ! j)))"
  shows "\<exists>p' th' q' a ms'. c2s_gateway_packets fd i msgs (p, th, q, acts) = Some (p', th', q', a)
    \<and> gate_ok p' th' \<and> same_cfg p p' \<and> pending th' (i + length msgs) q' ms'
    \<and> (th_sys th = [] \<and> cf_mode (px_cfg p) \<noteq> AWG_MODE_SERVER \<longrightarrow> th_sys th' = []
       \<and> sent_packets a @ map (\<lambda>m. (fd, None, m)) ms' = sent_packets acts
          @ map (\<lambda>m. (fd, None, m)) (ms @ gateway_deliveries (px_cfg p) (px_obfs_c2s p) (map (take BUF_TOTAL \<circ> fst) msgs)))"
  using assms
proof (induction msgs arbitrary: p th i q ms acts)
  case Nil
  then show ?case by (auto simp: same_cfg_def)
next
  case (Cons msg msgs)
  obtain d0 addr alen where msg: "msg = (d0, addr, alen)" by (rule prod_cases3)
  define d where "d = take BUF_TOTAL d0"
  define n where "n = min BUF_TOTAL (length d0)"
  have i: "i < BATCH_SIZE" "i + 1 + length msgs \<le> BATCH_SIZE" using Cons.prems(3) by simp_all
  have a: "length addr = 128" "alen \<le> 128" "senders_ok msgs"
    using Cons.prems(2) msg by (auto simp: senders_ok_def)
  have d: "iov_bytes th (PBuf i, 0, n) = Some d" using Cons.prems(5) msg by (force simp: d_def n_def)
  have rest: "\<forall>j < length msgs. iov_bytes th (PBuf (i + 1 + j), 0, min BUF_TOTAL (length (fst (msgs ! j))))
      = Some (take BUF_TOTAL (fst (msgs ! j)))" using Cons.prems(5) by force
  have nd: "n = 0 \<longleftrightarrow> d = []" by (auto simp: n_def d_def min_def split: if_splits)
  show ?case
  proof (cases "n = 0")
    case True
    have "th_frame {PBuf i} th th" using Cons.prems(1) by (simp add: gate_ok_def path_ok_def th_frame_refl)
    from pending_frame [OF Cons.prems(4) this] have pn: "pending th (i + 1) q ms" .
    have "c2s_gateway_packets fd i (msg # msgs) (p, th, q, acts) = c2s_gateway_packets fd (i + 1) msgs (p, th, q, acts)"
      using True msg by (simp add: c2s_gateway_packet_def n_def)
    moreover have "gateway_deliveries (px_cfg p) s (map (take BUF_TOTAL \<circ> fst) (msg # msgs))
        = gateway_deliveries (px_cfg p) s (map (take BUF_TOTAL \<circ> fst) msgs)" for s
      using True nd msg by (simp add: d_def)
    moreover have "i + length (msg # msgs) = i + 1 + length msgs" by simp
    ultimately show ?thesis using Cons.IH [OF Cons.prems(1) a(3) i(2) pn rest, of acts] by (simp only:)
  next
    case False
    obtain st m flushed where s: "c2s_gateway_packet fd i n addr alen (p, th, q, acts) = Some st"
        "gate_ok (fst st) (fst (snd st))" "same_cfg p (fst st)"
        "c2s_gateway_effect fd (p, th, q, acts) st i m flushed"
        "cf_mode (px_cfg p) \<noteq> AWG_MODE_SERVER \<longrightarrow>
          gateway_message (px_cfg p) (px_obfs_c2s p) d = (px_obfs_c2s (fst st), m)"
      using c2s_gateway_packet_ok [OF Cons.prems(1) i(1) False d a(1,2) Cons.prems(4), of fd acts] by blast
    obtain p1 th1 q1 a1 where st: "st = (p1, th1, q1, a1)" by (rule prod_cases4)
    obtain ms1 where m1: "pending th1 (i + 1) q1 ms1" "th_sys th = [] \<longrightarrow> th_sys th1 = []
       \<and> sent_packets a1 @ map (\<lambda>m. (fd, None, m)) ms1
          = sent_packets acts @ map (\<lambda>m. (fd, None, m)) (ms @ (case m of None \<Rightarrow> [] | Some m \<Rightarrow> [m]))"
      using effect_pending [OF s(4) [unfolded st] Cons.prems(4)] by blast
    have g1: "gate_ok p1 th1" and c1: "same_cfg p p1" using s(2,3) st by simp_all
    have pl: "place_bytes th1 (PBuf k) = place_bytes th (PBuf k)" if "k \<noteq> i" for k
      using s(4) that unfolding st c2s_gateway_effect_def case_prod_conv
      by (auto simp: th_frame_def simp del: place_bytes.simps split: if_splits)
    have rest1: "\<forall>j < length msgs. iov_bytes th1 (PBuf (i + 1 + j), 0, min BUF_TOTAL (length (fst (msgs ! j))))
        = Some (take BUF_TOTAL (fst (msgs ! j)))"
      using rest pl unfolding iov_bytes_def case_prod_conv by simp
    obtain p2 th2 q2 a2 ms2 where r: "c2s_gateway_packets fd (i + 1) msgs (p1, th1, q1, a1) = Some (p2, th2, q2, a2)"
        "gate_ok p2 th2" "same_cfg p1 p2" "pending th2 (i + 1 + length msgs) q2 ms2"
        "th_sys th1 = [] \<and> cf_mode (px_cfg p1) \<noteq> AWG_MODE_SERVER \<longrightarrow> th_sys th2 = []
         \<and> sent_packets a2 @ map (\<lambda>m. (fd, None, m)) ms2 = sent_packets a1
          @ map (\<lambda>m. (fd, None, m)) (ms1 @ gateway_deliveries (px_cfg p1) (px_obfs_c2s p1) (map (take BUF_TOTAL \<circ> fst) msgs))"
      using Cons.IH [OF g1 a(3) i(2) m1(1) rest1, of a1] by blast
    have e: "c2s_gateway_packets fd i (msg # msgs) (p, th, q, acts) = Some (p2, th2, q2, a2)"
      using s(1) r(1) msg st by (simp add: n_def)
    have cfg: "px_cfg p1 = px_cfg p" using c1 by (simp add: same_cfg_def)
    have dl: "gateway_deliveries (px_cfg p) (px_obfs_c2s p) (map (take BUF_TOTAL \<circ> fst) (msg # msgs))
        = (case m of None \<Rightarrow> [] | Some m \<Rightarrow> [m]) @ gateway_deliveries (px_cfg p) (px_obfs_c2s p1) (map (take BUF_TOTAL \<circ> fst) msgs)"
      if "cf_mode (px_cfg p) \<noteq> AWG_MODE_SERVER"
      using s(5) that False nd msg st by (simp add: d_def)
    have "sent_packets a2 @ map (\<lambda>m. (fd, None, m)) ms2 = sent_packets acts
          @ map (\<lambda>m. (fd, None, m)) (ms @ gateway_deliveries (px_cfg p) (px_obfs_c2s p) (map (take BUF_TOTAL \<circ> fst) (msg # msgs)))"
      if "th_sys th = []" "cf_mode (px_cfg p) \<noteq> AWG_MODE_SERVER"
      using r(5) m1(2) that cfg unfolding dl [OF that(2)] by (simp add: append_assoc [symmetric] del: append_assoc)
    moreover have "th_sys th2 = []" if "th_sys th = []" "cf_mode (px_cfg p) \<noteq> AWG_MODE_SERVER"
      using r(5) m1(2) that cfg by simp
    moreover have "same_cfg p p2" using c1 r(3) by (simp add: same_cfg_def)
    moreover have "pending th2 (i + length (msg # msgs)) q2 ms2" using r(4) by simp
    ultimately show ?thesis using e r(2) by blast
  qed
qed

lemma iov_take:
  assumes "thread_ok th" and "store_datagrams 0 BUF_TOTAL 0 ds th = Some th'" and "length ds \<le> BATCH_SIZE"
  shows "thread_ok th'" "th_sys th' = th_sys th"
    "\<forall>j < length ds. iov_bytes th' (PBuf (0 + j), 0, min BUF_TOTAL (length (ds ! j))) = Some (take BUF_TOTAL (ds ! j))"
  using store_datagrams_ok [OF assms(1), of 0 ds 0 BUF_TOTAL] assms(2,3) by (auto simp: th_frame_def)

lemma track_client_fields:
  "px_cfg (fst (track_client p a l)) = px_cfg p" "px_obfs_c2s (fst (track_client p a l)) = px_obfs_c2s p"
  "px_remote_fd (fst (track_client p a l)) = px_remote_fd p" "px_sessions (fst (track_client p a l)) = px_sessions p"
  by (simp_all add: track_client_def Let_def split: prod.split)

lemma c2s_gateway_round_ok:
  assumes ok: "gate_ok p th" and senders: "senders_ok (ge_msgs e)"
  shows "\<exists>p' th' a. c2s_gateway_round p th e = Some (p', th', a) \<and> gate_ok p' th' \<and> px_cfg p' = px_cfg p
    \<and> (th_sys th = [] \<and> cf_mode (px_cfg p) \<noteq> AWG_MODE_SERVER \<and> 0 \<le> ge_remote_fd e \<longrightarrow>
        sent_packets a = map (\<lambda>m. (ge_remote_fd e, None, m))
          (gateway_deliveries (px_cfg p) (px_obfs_c2s p) (map (take BUF_TOTAL \<circ> fst) (take BATCH_SIZE (ge_msgs e)))))"
proof -
  define p0 where "p0 = p\<lparr>px_stopped := px_stopped p \<or> ge_stopped e, px_remote_fd := ge_remote_fd e\<rparr>"
  define msgs where "msgs = take BATCH_SIZE (ge_msgs e)"
  have ok0: "gate_ok p0 th" using ok by (simp add: p0_def gate_ok_def path_ok_def ring_ok_def junk_buf_ok_def)
  have c0: "px_cfg p0 = px_cfg p" "px_obfs_c2s p0 = px_obfs_c2s p" "px_remote_fd p0 = ge_remote_fd e"
    by (simp_all add: p0_def)
  have sn: "senders_ok msgs" using senders unfolding msgs_def senders_ok_def by (blast dest: in_set_takeD)
  have len: "length msgs \<le> BATCH_SIZE" by (simp add: msgs_def)
  show ?thesis
  proof (cases "msgs = []")
    case True
    then show ?thesis using ok0 c0 by (simp add: c2s_gateway_round_def p0_def [symmetric] msgs_def [symmetric])
  next
    case ne: False
    have tok: "thread_ok th" using ok by (simp add: gate_ok_def path_ok_def)
    have "0 + length (map fst msgs) \<le> BATCH_SIZE" using len by simp
    from store_datagrams_ok [OF tok this, of 0 BUF_TOTAL] obtain th1 where
      t: "store_datagrams 0 BUF_TOTAL 0 (map fst msgs) th = Some th1" by auto
    have t1: "thread_ok th1" "th_sys th1 = th_sys th"
        "\<forall>j < length (map fst msgs). iov_bytes th1 (PBuf (0 + j), 0, min BUF_TOTAL (length (map fst msgs ! j))) = Some (take BUF_TOTAL (map fst msgs ! j))"
      using iov_take [OF tok t] len by simp_all
    have bufs: "\<forall>j < length msgs. iov_bytes th1 (PBuf (0 + j), 0, min BUF_TOTAL (length (fst (msgs ! j))))
        = Some (take BUF_TOTAL (fst (msgs ! j)))"
      using t1(3) by simp
    obtain d0 addr0 len0 where hd: "hd msgs = (d0, addr0, len0)" by (rule prod_cases3)
    define p1 where "p1 = p0\<lparr>px_last_active := True\<rparr>"
    define tr where "tr = (if cf_mode (px_cfg p1) \<noteq> AWG_MODE_SERVER then track_client p1 addr0 len0 else (p1, False))"
    obtain p2 new where p2: "tr = (p2, new)" by (rule prod.exhaust)
    define a0 where "a0 = (if new then proxy_log_addr ''client: '' (px_client_addr p2) (ge_host e) else [])"
    have f2: "path_ok p2 th1" "px_cfg p2 = px_cfg p" "px_obfs_c2s p2 = px_obfs_c2s p" "px_remote_fd p2 = ge_remote_fd e"
        "px_sessions p2 = px_sessions p"
    proof -
      have ok1: "path_ok p1 th1" using ok0 t1(1) by (simp add: p1_def gate_ok_def path_ok_def ring_ok_def junk_buf_ok_def)
      have "p2 = p1 \<or> p2 = fst (track_client p1 addr0 len0)" using p2 by (cases "cf_mode (px_cfg p1) = AWG_MODE_SERVER") (simp_all add: tr_def)
      then show "path_ok p2 th1" "px_cfg p2 = px_cfg p" "px_obfs_c2s p2 = px_obfs_c2s p"
          "px_remote_fd p2 = ge_remote_fd e" "px_sessions p2 = px_sessions p"
        using ok1 track_client_ok(1) [of p1 addr0 len0 th1] track_client_fields [of p1 addr0 len0]
        by (elim disjE; simp add: p1_def p0_def)+
    qed
    have g2: "gate_ok p2 th1" using f2 ok by (simp add: gate_ok_def)
    have step: "c2s_gateway_round p th e = (if px_remote_fd p2 < 0 then Some (p2, th1, a0)
       else do {
         st \<leftarrow> c2s_gateway_packets (px_remote_fd p2) 0 msgs (p2, th1, [], a0);
         (p', th, q, acts) \<leftarrow> flush_c2s (px_remote_fd p2) st;
         Some (p', th, acts)
       })"
      using ne t hd p2 unfolding c2s_gateway_round_def Let_def p0_def [symmetric] msgs_def [symmetric] a0_def
      by (cases "cf_mode (px_cfg p1) = AWG_MODE_SERVER") (simp_all add: tr_def p1_def [symmetric])
    have sa: "sent_packets a0 = []" by (simp add: a0_def sent_packets_log)
    show ?thesis
    proof (cases "px_remote_fd p2 < 0")
      case True
      then show ?thesis using step g2 f2 by simp
    next
      case False
      have pn: "pending th1 0 [] []" by simp
      have ln: "0 + length msgs \<le> BATCH_SIZE" using len by simp
      obtain p3 th3 q3 a3 ms3 where r: "c2s_gateway_packets (px_remote_fd p2) 0 msgs (p2, th1, [], a0) = Some (p3, th3, q3, a3)"
          "gate_ok p3 th3" "same_cfg p2 p3" "pending th3 (0 + length msgs) q3 ms3"
          "th_sys th1 = [] \<and> cf_mode (px_cfg p2) \<noteq> AWG_MODE_SERVER \<longrightarrow> th_sys th3 = []
           \<and> sent_packets a3 @ map (\<lambda>m. (px_remote_fd p2, None, m)) ms3 = sent_packets a0
          @ map (\<lambda>m. (px_remote_fd p2, None, m)) ([] @ gateway_deliveries (px_cfg p2) (px_obfs_c2s p2) (map (take BUF_TOTAL \<circ> fst) msgs))"
        using c2s_gateway_packets_ok [OF g2 sn ln pn bufs, of "px_remote_fd p2" a0] by blast
      have po3: "path_ok p3 th3" using r(2) by (simp add: gate_ok_def)
      obtain p4 th4 a4 where f: "flush_c2s (px_remote_fd p2) (p3, th3, q3, a3) = Some (p4, th4, [], a4)"
          "path_ok p4 th4" "same_cfg p3 p4" "\<exists>g. p4 = p3\<lparr>px_gso_ok := g\<rparr>"
        using flush_safe [OF r(4) po3] by blast
      have g4: "gate_ok p4 th4" using f(2,4) r(2) by (auto simp: gate_ok_def)
      have "th_sys th3 = [] \<longrightarrow> a4 = a3 @ map (Send (px_remote_fd p2) None) ms3"
        using flush_pending [OF r(4), of "px_remote_fd p2" p3 a3] f(1) by auto
      then have "th_sys th = [] \<and> cf_mode (px_cfg p) \<noteq> AWG_MODE_SERVER \<longrightarrow>
          sent_packets a4 = map (\<lambda>m. (ge_remote_fd e, None, m))
            (gateway_deliveries (px_cfg p) (px_obfs_c2s p) (map (take BUF_TOTAL \<circ> fst) msgs))"
        using r(5) t1(2) f2 sa by auto
      moreover have "px_cfg p4 = px_cfg p" using f(3) r(3) f2 by (simp add: same_cfg_def)
      ultimately show ?thesis using step False r(1) f(1) g4 by (simp add: msgs_def)
    qed
  qed
qed

lemma c2s_gateway_thread_safe:
  "gate_ok p th \<Longrightarrow> \<forall>e \<in> set es. senders_ok (ge_msgs e)
    \<Longrightarrow> \<exists>p' th' a. proxy_c2s_thread_gateway p th es = Some (p', th', a) \<and> gate_ok p' th'"
proof (induction es arbitrary: p th)
  case (Cons e es)
  show ?case
  proof (cases "px_stopped p")
    case False
    obtain p1 th1 a1 where r: "c2s_gateway_round p th e = Some (p1, th1, a1)" "gate_ok p1 th1"
      using c2s_gateway_round_ok [OF Cons.prems(1), of e] Cons.prems(2) by auto
    obtain p2 th2 a2 where "proxy_c2s_thread_gateway p1 th1 es = Some (p2, th2, a2)" "gate_ok p2 th2"
      using Cons.IH [OF r(2)] Cons.prems(2) by auto
    then show ?thesis using False r(1) by simp
  qed (use Cons.prems in auto)
qed simp

end
