(* ===== verification/S2c_Gateway_Correct.thy ===== *)
theory S2c_Gateway_Correct
  imports Gateway_Correct Lifecycle_Correct
begin

text \<open>
  Gateway and server mode towards the clients: what one packet puts into the queue, that no
  batch leaves a buffer, and that the wrapped packets of a batch share one buffer.
\<close>

section \<open>Wrapping and queueing\<close>

lemma iov_len: "iov_bytes th v = Some d \<Longrightarrow> snd (snd v) = length d"
  by (cases v) (auto simp: iov_bytes_def rd_def slice_def simp del: place_bytes.simps split: if_splits)

definition tx_session :: "proxy_t \<Rightarrow> nat option \<Rightarrow> obfs_session_t" where
  "tx_session p de = (case pick_obfs_tx p de of (p', ref) \<Rightarrow> get_obfs_s2c p' ref)"

text \<open>The queue after a packet \<open>m\<close> at vector \<open>v\<close>: nothing if it is too long or does not wrap;
  otherwise its frame, which is in \<open>obfs_buf\<close> unless the profile leaves the packet where it
  was.\<close>

definition wrap_queued ::
  "proxy_t \<Rightarrow> nat option \<Rightarrow> iovec \<Rightarrow> bytes \<Rightarrow> dest \<Rightarrow> thread_t \<Rightarrow> queue \<Rightarrow> queue \<Rightarrow> bool" where
  "wrap_queued p de v m dst th' q q' \<longleftrightarrow>
    (if int (length m) > obfs_max_packet_len p then q' = q
     else case snd (obfs_wrap (tx_session p de) m) of None \<Rightarrow> q' = q
       | Some x \<Rightarrow> \<exists>u. q' = q @ [(u, dst)] \<and> iov_bytes th' u = Some (wrap_bytes x)
           \<and> (case x of WIn y \<Rightarrow> u = v | WObfsBuf fr \<Rightarrow> u = (PObfs, 0, length fr)))"

lemma sent_log_frame:
  assumes "log_marker_sent_once th s side = (th', l)" and "thread_ok th"
  shows "th_frame {} th th'" "list_all is_log l"
  using log_once_frame(1) [OF assms(2), of s side] log_actions(8) [of th s side] assms(1)
  by (metis fst_conv, metis snd_conv)

lemma wrap_and_queue_ok:
  assumes ok: "thread_ok th" and m: "iov_bytes th v = Some m" and len: "snd (snd v) = length m"
  shows "\<exists>p' th' q' a r. wrap_and_queue p th de v dest q = Some (p', th', q', a, r)
    \<and> key_step p p' \<and> th_frame {PObfs} th th' \<and> list_all is_log a \<and> wrap_queued p de v m (Some dest) th' q q'"
proof (cases "int (length m) > obfs_max_packet_len p")
  case True
  then show ?thesis using len ok
    by (simp add: wrap_and_queue_def wrap_queued_def th_frame_refl) blast
next
  case short: False
  obtain p1 ref where pk: "pick_obfs_tx p de = (p1, ref)" by (rule prod.exhaust)
  let ?s = "get_obfs_s2c p1 ref"
  have s: "tx_session p de = ?s" by (simp add: tx_session_def pk)
  have k1: "key_step p p1" using pick_obfs_tx_step [of p de] pk by simp
  obtain th1 w where w: "th_obfs_wrap ?s th v = Some (fst (obfs_wrap ?s m), th1, w)" "th_frame {PObfs} th th1"
     "case snd (obfs_wrap ?s m) of
         None \<Rightarrow> w = None \<and> th1 = th
       | Some (WIn _) \<Rightarrow> w = Some v \<and> th1 = th
       | Some (WObfsBuf fr) \<Rightarrow> w = Some (PObfs, 0, length fr) \<and> iov_bytes th1 (PObfs, 0, length fr) = Some fr"
    using th_obfs_wrap_ok [OF ok m] by blast
  define p2 where "p2 = set_obfs_s2c p1 ref (fst (obfs_wrap ?s m))"
  have k2: "key_step p p2" unfolding p2_def by (rule key_step_trans [OF k1 set_obfs_step(2)])
  have step: "wrap_and_queue p th de v dest q = (case w of
          None \<Rightarrow> Some (p2, th1, q, [], False)
        | Some v \<Rightarrow>
            let (th, a) = log_marker_sent_once th1 (fst (obfs_wrap ?s m)) ''s2c''
            in Some (p2, th, q @ [(v, Some dest)], a, True))"
    using short len pk w(1) by (simp add: wrap_and_queue_def p2_def split: option.split)
  show ?thesis
  proof (cases "snd (obfs_wrap ?s m)")
    case None
    then show ?thesis using step w k2 short ok by (auto simp: wrap_queued_def s th_frame_refl)
  next
    case (Some x)
    have ok1: "thread_ok th1" using w(2) by (simp add: th_frame_def)
    obtain th2 a where l: "log_marker_sent_once th1 (fst (obfs_wrap ?s m)) ''s2c'' = (th2, a)" by (rule prod.exhaust)
    note f2 = sent_log_frame [OF l ok1]
    have fr: "th_frame {PObfs} th th2" using th_frame_trans [OF w(2) f2(1)] by simp
    have iov: "iov_bytes th2 u = iov_bytes th1 u" for u using th_frame_iov [OF f2(1)] by simp
    have win: "x = WIn y \<Longrightarrow> y = m" for y
      using Some unfolding obfs_wrap_def in_obfs_buf_def by (auto split: awg_obfs_profile_t.splits)
    define u where "u = (case x of WIn y \<Rightarrow> v | WObfsBuf fr \<Rightarrow> (PObfs, 0, length fr))"
    have wu: "w = Some u" and ub: "iov_bytes th2 u = Some (wrap_bytes x)"
      using w(3) Some m win by (auto simp: u_def iov split: wrap_out.splits)
    have "wrap_queued p de v m (Some dest) th2 q (q @ [(u, Some dest)])"
      using short Some ub by (auto simp: wrap_queued_def s u_def split: wrap_out.splits)
    then show ?thesis using step wu l k2 fr f2(2) by auto
  qed
qed

section \<open>One packet\<close>

text \<open>The state after the header of a transport packet has been drawn.\<close>

definition next_p :: "proxy_t \<Rightarrow> proxy_t" where
  "next_p p = (if cf_h4_noop (px_cfg p) then p else snd (pick_h4 p))"

lemma pick_h4_sessions: "px_sessions (snd (pick_h4 p)) = px_sessions p" "px_obfs_s2c (snd (pick_h4 p)) = px_obfs_s2c p"
  by (auto simp: pick_h4_def fill_h4_ring_def Let_def split: prod.split)

lemma next_p_ok:
  assumes "gate_ok p th"
  shows "gate_ok (next_p p) th" "same_shared p (next_p p)" "px_sessions (next_p p) = px_sessions p"
    "px_obfs_s2c (next_p p) = px_obfs_s2c p"
proof -
  have ok: "path_ok p th" using assms by (simp add: gate_ok_def)
  have c: "same_shared p (snd (pick_h4 p))" by (rule pick_h4_frame(1))
  have "ring_ok (snd (pick_h4 p))" using pick_h4_ok [of p] ok path_ok_h4 [OF ok] by (simp add: path_ok_def)
  then have "path_ok (snd (pick_h4 p)) th"
    using ok c pick_h4_frame(3) [of p] by (simp add: path_ok_def same_shared_def)
  then show "gate_ok (next_p p) th" using assms by (simp add: next_p_def gate_ok_def pick_h4_sessions)
  show "same_shared p (next_p p)" "px_sessions (next_p p) = px_sessions p" "px_obfs_s2c (next_p p) = px_obfs_s2c p"
    using c by (simp_all add: next_p_def pick_h4_sessions same_shared_def)
qed

text \<open>A transport packet, its random padding in front.\<close>

lemma s2c_gateway_transport_ok:
  assumes ok: "gate_ok p th" and i: "i < BATCH_SIZE" and n: "4 \<le> n"
    and d: "iov_bytes th (PBuf i, h, n) = Some d"
  shows "\<exists>p' th' q' a r. s2c_gateway_transport p th i h n de dest q = Some (p', th', q', a, r)
    \<and> gate_ok p' th' \<and> same_shared p p' \<and> th_frame {PBuf i, PObfs} th th' \<and> list_all is_log a
    \<and> wrap_queued (next_p p) de (PBuf i, 0, h + n) (transport_wire p (take h (th_bufs th ! i)) d) (Some dest) th' q q'"
proof -
  let ?b = "th_bufs th ! i"
  have pok: "path_ok p th" using ok by (simp add: gate_ok_def)
  have tok: "thread_ok th" using pok by (simp add: path_ok_def)
  then have il: "i < length (th_bufs th)" "place_bytes th (PBuf i) = ?b" using i by (auto simp: thread_ok_def)
  have d': "h + n \<le> length ?b" "d = slice ?b h n"
    using d il by (auto simp: iov_bytes_def rd_def split: if_splits)
  have fin: ?thesis if s: "(if \<not> cf_h4_noop (px_cfg p) then do {
         let (h4, p) = pick_h4 p;
         b \<leftarrow> wr32 (place_bytes th (PBuf i)) h h4;
         Some (p, set_place (PBuf i) b th)
       } else Some (p, th)) = Some (next_p p, th1)"
      and f: "th_frame {PBuf i} th th1"
      and w: "iov_bytes th1 (PBuf i, 0, h + n) = Some (transport_wire p (take h ?b) d)" for th1
  proof -
    have ok1: "thread_ok th1" using f by (simp add: th_frame_def)
    have len: "snd (snd (PBuf i, 0, h + n)) = length (transport_wire p (take h ?b) d)"
      using iov_len [OF w] by simp
    obtain p' th' q' a r where q: "wrap_and_queue (next_p p) th1 de (PBuf i, 0, h + n) dest q = Some (p', th', q', a, r)"
        "key_step (next_p p) p'" "th_frame {PObfs} th1 th'" "list_all is_log a"
        "wrap_queued (next_p p) de (PBuf i, 0, h + n) (transport_wire p (take h ?b) d) (Some dest) th' q q'"
      using wrap_and_queue_ok [OF ok1 w len] by blast
    have t': "thread_ok th'" using q(3) by (simp add: th_frame_def)
    have g: "gate_ok p' th'"
      using key_step_gate [OF q(2) next_p_ok(1) [OF ok]] t' by (simp add: gate_ok_def path_ok_def)
    have "same_shared p p'" using same_shared_trans [OF next_p_ok(2) [OF ok]] q(2) by (simp add: key_step_def)
    moreover have "th_frame {PBuf i, PObfs} th th'" using th_frame_trans [OF f q(3)] by (simp add: insert_commute)
    moreover have "s2c_gateway_transport p th i h n de dest q = Some (p', th', q', a, r)"
      unfolding s2c_gateway_transport_def s using q(1) by simp
    ultimately show ?thesis using g q(4,5) by blast
  qed
  show ?thesis
  proof (cases "cf_h4_noop (px_cfg p)")
    case True
    have "iov_bytes th (PBuf i, 0, h + n) = Some (take h ?b @ d)"
      using d' il by (simp add: iov_bytes_def rd_def slice_def take_add)
    then show ?thesis using True th_frame_refl [OF tok]
      by (intro fin [of th]) (simp_all add: next_p_def transport_wire_def)
  next
    case False
    obtain h4 p1 where pk: "pick_h4 p = (h4, p1)" by (rule prod.exhaust)
    let ?b' = "splice ?b h (le32_bytes h4)"
    let ?th = "set_place (PBuf i) ?b' th"
    have len: "length ?b' = length (place_bytes th (PBuf i))" unfolding il(2) using d'(1) n by simp
    have w: "wr32 (place_bytes th (PBuf i)) h h4 = Some ?b'"
      unfolding il(2) using d'(1) n by (simp add: wr32_def wr_def)
    have fr: "th_frame {PBuf i} th ?th" by (rule th_frame_set [OF tok len])
    have "h + n \<le> length ?b'" using d'(1) len unfolding il(2) by simp
    then have "iov_bytes ?th (PBuf i, 0, h + n) = Some (take h ?b @ retype h4 d)"
      using retype_slice [OF d'(1) n, of h4]
      by (simp only: iov_bytes_def rd_def place_set_same [OF len] case_prod_conv if_True add_0 d'(2))
    then show ?thesis using False w pk fr
      by (intro fin [of ?th]) (simp_all add: next_p_def transport_wire_def del: set_place.simps place_bytes.simps)
  qed
qed

text \<open>Everything else, sent at once behind its decoys or queued.\<close>

lemma gate_ok_rng: "gate_ok (p\<lparr>px_rng := r\<rparr>) th = gate_ok p th"
  by (simp add: gate_ok_def path_ok_def ring_ok_def junk_buf_ok_def)

lemma gate_ok_thread: "gate_ok p th \<Longrightarrow> thread_ok th' \<Longrightarrow> gate_ok p th'"
  by (simp add: gate_ok_def path_ok_def)

lemma wrap_queued_cases:
  "wrap_queued p de v m dst th q q' \<Longrightarrow> q' = q \<or> (\<exists>u. q' = q @ [(u, dst)] \<and> fst u \<in> {fst v, PObfs}
    \<and> (\<exists>x. iov_bytes th u = Some x))"
proof (cases "snd (obfs_wrap (tx_session p de) m)")
  case (Some x)
  then show "wrap_queued p de v m dst th q q' \<Longrightarrow> ?thesis"
    by (cases x) (auto simp: wrap_queued_def split: if_splits)
qed (auto simp: wrap_queued_def split: if_splits)

lemma takeWhile_less: "\<exists>x \<in> set xs. \<not> P x \<Longrightarrow> length (takeWhile P xs) < length xs"
  by (induction xs) auto

lemma s2c_gateway_other_ok:
  assumes ok: "gate_ok p th" and i: "i < BATCH_SIZE" and key: "key32 key"
    and d: "iov_bytes th (PBuf i, h, n) = Some d"
  shows "\<exists>p' th' q' a r. s2c_gateway_other p th i h n key de dest now q = Some (p', th', q', a, r)
    \<and> gate_ok p' th' \<and> same_shared p p' \<and> th_frame {PBuf i, PHs, PObfs} th th'
    \<and> (q' = q \<or> (\<exists>u. q' = q @ [(u, Some dest)] \<and> fst u \<in> {PBuf i, PHs, PObfs} \<and> (\<exists>x. iov_bytes th' u = Some x)))"
proof -
  have pok: "path_ok p th" using ok by (simp add: gate_ok_def)
  have tok: "thread_ok th" and cfg: "config_ready (px_cfg p)" using pok by (simp_all add: path_ok_def)
  obtain v r where v: "fastrand_u64 (px_rng p) = (v, r)" by (rule prod.exhaust)
  let ?p = "p\<lparr>px_rng := r\<rparr>"
  obtain th1 out junk m where o: "th_transform_outbound th i h n (px_cfg p) key v = Some (th1, out, junk)"
      "iov_bytes th1 out = Some m" "fst out \<in> {PBuf i, PHs}" "th_frame {PBuf i, PHs} th th1"
    using th_transform_outbound_ok [OF cfg key tok i d, of v] by blast
  have t1: "thread_ok th1" using o(4) by (simp add: th_frame_def)
  have fr: "th_frame {PBuf i, PHs, PObfs} th x" if "th_frame {PObfs} th1 x" for x
    using th_frame_trans [OF o(4) that] by (simp add: insert_commute)
  have fr1: "th_frame {PBuf i, PHs, PObfs} th th1" by (rule th_frame_mono [OF o(4)]) auto
  have g1: "gate_ok ?p x" if "thread_ok x" for x using gate_ok_thread [OF ok that] by (simp add: gate_ok_rng)
  have s1: "same_shared p ?p" by (simp add: same_shared_def)
  show ?thesis
  proof (cases junk)
    case False
    obtain p2 ref where pk: "pick_obfs_tx ?p de = (p2, ref)" by (rule prod.exhaust)
    have k2: "key_step ?p p2" using pick_obfs_tx_step [of ?p de] pk by simp
    obtain p' th' q' a r where q: "wrap_and_queue p2 th1 de out dest q = Some (p', th', q', a, r)"
        "key_step p2 p'" "th_frame {PObfs} th1 th'" "wrap_queued p2 de out m (Some dest) th' q q'"
      using wrap_and_queue_ok [OF t1 o(2) iov_len [OF o(2)]] by blast
    have t': "thread_ok th'" using q(3) by (simp add: th_frame_def)
    have k': "key_step ?p p'" by (rule key_step_trans [OF k2 q(2)])
    have "s2c_gateway_other p th i h n key de dest now q = Some (p', th', q', a, r)"
      using v o(1) False pk q(1) by (simp add: s2c_gateway_other_def)
    moreover have "gate_ok p' th'" by (rule key_step_gate [OF k' g1 [OF t']])
    moreover have "same_shared p p'" using same_shared_trans [OF s1] k' by (simp add: key_step_def)
    moreover have "q' = q \<or> (\<exists>u. q' = q @ [(u, Some dest)] \<and> fst u \<in> {PBuf i, PHs, PObfs} \<and> (\<exists>x. iov_bytes th' u = Some x))"
      using wrap_queued_cases [OF q(4)] o(3) by auto
    ultimately show ?thesis using fr [OF q(3)] by blast
  next
    case True
    have c1: "config_ready (px_cfg ?p)" "templates_ok (px_cfg ?p)" "junk_buf_ok ?p"
      using pok by (simp_all add: path_ok_def junk_buf_ok_def)
    obtain p2 pk where e: "proxy_emit_send_junk_and_cps ?p now = Some (p2, pk)" "junk_buf_ok p2"
      using emit_ok [OF c1, of now] by blast
    have f2: "same_shared ?p p2" "ring_ok p2 = ring_ok ?p" "px_sessions p2 = px_sessions ?p"
      using emit_frame [OF e(1)] by simp_all
    have g2: "gate_ok p2 x" if "thread_ok x" for x
      using g1 [OF that] f2 e(2) by (simp add: gate_ok_def path_ok_def same_shared_def)
    obtain p3 ref where tx: "pick_obfs_tx p2 de = (p3, ref)" by (rule prod.exhaust)
    have k3: "key_step p2 p3" using pick_obfs_tx_step [of p2 de] tx by simp
    have s3: "same_shared p p3"
      using same_shared_trans [OF same_shared_trans [OF s1 f2(1)]] k3 by (simp add: key_step_def)
    let ?a = "log_debug ''s2c: gateway: handshake init, sending junk'' # map (Send (px_listen_fd p2) (Some dest)) pk"
    show ?thesis
    proof (cases "int (snd (snd out)) > obfs_max_packet_len p3")
      case long: True
      have "s2c_gateway_other p th i h n key de dest now q = Some (p3, th1, q, ?a, False)"
        using v o(1) True e(1) tx long by (simp add: s2c_gateway_other_def)
      then show ?thesis using key_step_gate [OF k3 g2 [OF t1]] s3 fr1 by blast
    next
      case False
      let ?s = "get_obfs_s2c p3 ref"
      obtain th2 w where w: "th_obfs_wrap ?s th1 out = Some (fst (obfs_wrap ?s m), th2, w)" "th_frame {PObfs} th1 th2"
          "case snd (obfs_wrap ?s m) of None \<Rightarrow> w = None
           | Some x \<Rightarrow> \<exists>v th3 l. w = Some v \<and> log_marker_sent_once th2 (fst (obfs_wrap ?s m)) ''s2c'' = (th3, l)
               \<and> list_all is_log l \<and> th_frame {PObfs} th1 th3 \<and> fst v \<in> {fst out, PObfs}
               \<and> iov_bytes th3 v = Some (wrap_bytes x)"
        using wrap_log_ok [OF t1 o(2), of ?s "''s2c''"] by blast
      define p4 where "p4 = set_obfs_s2c p3 ref (fst (obfs_wrap ?s m))"
      have k4: "key_step p2 p4" unfolding p4_def by (rule key_step_trans [OF k3 set_obfs_step(2)])
      have s4: "same_shared p p4"
        using same_shared_trans [OF same_shared_trans [OF s1 f2(1)]] k4 by (simp add: key_step_def)
      show ?thesis
      proof (cases "snd (obfs_wrap ?s m)")
        case None
        then have "s2c_gateway_other p th i h n key de dest now q = Some (p4, th2, q, ?a, True)"
          using v o(1) True e(1) tx False w(1,3) by (simp add: s2c_gateway_other_def p4_def)
        moreover have "thread_ok th2" using w(2) by (simp add: th_frame_def)
        ultimately show ?thesis using key_step_gate [OF k4 g2] s4 fr [OF w(2)] by blast
      next
        case (Some x)
        then obtain u th3 l where u: "w = Some u" "log_marker_sent_once th2 (fst (obfs_wrap ?s m)) ''s2c'' = (th3, l)"
            "th_frame {PObfs} th1 th3" "iov_bytes th3 u = Some (wrap_bytes x)"
          using w(3) by auto
        have "s2c_gateway_other p th i h n key de dest now q
            = Some (p4, th3, q, ?a @ l @ [Send (px_listen_fd p2) (Some dest) (wrap_bytes x)], True)"
          using v o(1) True e(1) tx False w(1) u by (simp add: s2c_gateway_other_def p4_def Let_def)
        moreover have "thread_ok th3" using u(3) by (simp add: th_frame_def)
        ultimately show ?thesis using key_step_gate [OF k4 g2] s4 fr [OF u(3)] by blast
      qed
    qed
  qed
qed

text \<open>The key server mode seals with is one of the configured ones.\<close>

lemma server_mac1key_ok:
  assumes "config_ready (px_cfg p)"
  shows "\<exists>p' key. server_mac1key p pkt t n de ex = (p', key) \<and> key32 key \<and> key_step p p'"
proof -
  have keys: "cf_server_peer_mac1keys (px_cfg p) = map compute_mac1_key (cf_server_peer_pubs (px_cfg p))"
    using assms by (simp add: config_ready_def)
  have len: "length (cf_server_peer_mac1keys (px_cfg p) ! k) = 32" if "k < length (cf_server_peer_mac1keys (px_cfg p))" for k
    using that unfolding keys by simp
  let ?r = "config_server_resolve_peer_for_response (px_cfg p) pkt n"
  have r: "nat ?r < length (cf_server_peer_mac1keys (px_cfg p))" if "0 \<le> ?r"
    using that by (auto simp: config_server_resolve_peer_for_response_def resolve_loop_first
        takeWhile_less split: if_splits)
  have st: "key_step p (p\<lparr>px_sessions := session_set_peer_slot_if_index (px_sessions p) de idx k\<rparr>)"
      "key_step p (p\<lparr>px_sessions := session_set_peer_slot (px_sessions p) de k\<rparr>)" for idx k
    by (auto simp: session_set_peer_slot_if_index_def session_set_peer_slot_def key_step_def path_ok_def ring_ok_def
        junk_buf_ok_def same_shared_def same_key_table_ok same_key_map split: option.split)
  show ?thesis
    using r len st by (auto simp: server_mac1key_def Let_def nat_less_iff split: option.split)
qed

lemma key_step_shared: "key_step p p' \<Longrightarrow> same_shared p p'" by (simp add: key_step_def)

text \<open>A packet in gateway or server mode: dropped, or translated for the address it is routed
  to.\<close>

definition queue_step :: "thread_t \<Rightarrow> place set \<Rightarrow> queue \<Rightarrow> queue \<Rightarrow> bool" where
  "queue_step th P q q' \<longleftrightarrow> q' = q \<or> (\<exists>u dst. q' = q @ [(u, dst)] \<and> fst u \<in> P \<and> (\<exists>x. iov_bytes th u = Some x))"

lemma s2c_process_gateway_ok:
  assumes ok: "gate_ok p th" and i: "i < BATCH_SIZE" and d: "iov_bytes th (PBuf i, h, n) = Some d"
  shows "\<exists>p' th' q' a r. proxy_s2c_process_gateway p th i h n now q = Some (p', th', q', a, r)
    \<and> gate_ok p' th' \<and> same_shared p p' \<and> th_frame {PBuf i, PHs, PObfs} th th'
    \<and> queue_step th' {PBuf i, PHs, PObfs} q q'"
proof -
  have pok: "path_ok p th" and tab: "table_ok (px_sessions p)" using ok by (simp_all add: gate_ok_def)
  have tok: "thread_ok th" and cfg: "config_ready (px_cfg p)" using pok by (simp_all add: path_ok_def)
  have ld: "length d = n" using iov_len [OF d] by simp
  let ?server = "cf_mode (px_cfg p) = AWG_MODE_SERVER"
  have drop: "(\<exists>p' th' q' a r. Some (p, th, q, b, False) = Some (p', th', q', a, r)
    \<and> gate_ok p' th' \<and> same_shared p p' \<and> th_frame {PBuf i, PHs, PObfs} th th'
    \<and> queue_step th' {PBuf i, PHs, PObfs} q q')" for b
    using ok th_frame_refl [OF tok] by (auto simp: same_shared_def queue_step_def)
  show ?thesis
  proof (cases "?server \<and> n < 4 \<or> \<not> ?server \<and> \<not> px_has_client p")
    case True
    have e: "proxy_s2c_process_gateway p th i h n now q = Some (p, th, q, [], False)"
      using True by (simp add: proxy_s2c_process_gateway_def)
    show ?thesis unfolding e by (rule drop)
  next
    case False
    define t where "t = (if ?server then le32_of d else 0)"
    have t: "(if ?server then rd32 d 0 else Some 0) = Some t"
      using False ld by (auto simp: t_def rd32_def slice_def le32_of_take)
    obtain route ex a0 where rt: "(if ?server then server_route p d t n else Some (None, None, [])) = Some (route, ex, a0)"
    proof (cases ?server)
      case True
      then show ?thesis using server_route_ok [OF tab, of d] False ld that by (auto simp: t_def)
    qed (use that in simp)
    define dest where "dest = (case route of Some (e, a, l) \<Rightarrow> (a, l)
                        | None \<Rightarrow> (px_client_addr p, px_client_addr_len p))"
    define hd where "hd = (if n \<ge> WG_TRANSPORT_MIN then le32_of d else 0)"
    have hd: "(if n \<ge> WG_TRANSPORT_MIN then rd32 d 0 else Some 0) = Some hd"
      using ld by (simp add: hd_def rd32_def slice_def le32_of_take)
    define rest where "rest = (if n \<ge> WG_TRANSPORT_MIN \<and> hd = WG_TRANSPORT_DATA then do {
              (p, th, q, a1, r) \<leftarrow> s2c_gateway_transport p th i h n (map_option fst route) dest q;
              Some (p, th, q, a0 @ a1, r)
            } else do {
              let (p, key) = (if ?server then server_mac1key p d t n (map_option fst route) ex else (p, None));
              (p, th, q, a1, r) \<leftarrow> s2c_gateway_other p th i h n key (map_option fst route) dest now q;
              Some (p, th, q, a0 @ a1, r)
            })"
    have step: "proxy_s2c_process_gateway p th i h n now q = (if ?server \<and> route = None
        then Some (p, th, q, a0 @ [log_debug ''s2c: server: no session for packet, dropping''], False) else rest)"
      using False d t rt hd unfolding proxy_s2c_process_gateway_def rest_def dest_def Let_def
      by (cases route) (auto simp del: de_Morgan_conj de_Morgan_disj)
    show ?thesis
    proof (cases "?server \<and> route = None")
      case True
      then show ?thesis unfolding step if_P [OF True] by (intro drop)
    next
      case routed: False
      show ?thesis
      proof (cases "n \<ge> WG_TRANSPORT_MIN \<and> hd = WG_TRANSPORT_DATA")
        case True
        then have n4: "4 \<le> n" by simp
        obtain p' th' q' a r where s: "s2c_gateway_transport p th i h n (map_option fst route) dest q = Some (p', th', q', a, r)"
            "gate_ok p' th'" "same_shared p p'" "th_frame {PBuf i, PObfs} th th'"
            "wrap_queued (next_p p) (map_option fst route) (PBuf i, 0, h + n)
               (transport_wire p (take h (th_bufs th ! i)) d) (Some dest) th' q q'"
          using s2c_gateway_transport_ok [OF ok i n4 d] by blast
        have "queue_step th' {PBuf i, PHs, PObfs} q q'"
          using wrap_queued_cases [OF s(5)] by (auto simp: queue_step_def)
        moreover have "th_frame {PBuf i, PHs, PObfs} th th'" by (rule th_frame_mono [OF s(4)]) auto
        moreover have "proxy_s2c_process_gateway p th i h n now q = Some (p', th', q', a0 @ a, r)"
          using step routed True s(1) by (simp add: rest_def)
        ultimately show ?thesis using s(2,3) by blast
      next
        case other: False
        obtain p1 key where k: "(if ?server then server_mac1key p d t n (map_option fst route) ex else (p, None)) = (p1, key)"
            "key32 key" "key_step p p1"
          using server_mac1key_ok [OF cfg, of d t n "map_option fst route" ex] that [of p None] that
          by (cases ?server) auto
        have ok1: "gate_ok p1 th" by (rule key_step_gate [OF k(3) ok])
        obtain p' th' q' a r where s: "s2c_gateway_other p1 th i h n key (map_option fst route) dest now q = Some (p', th', q', a, r)"
            "gate_ok p' th'" "same_shared p1 p'" "th_frame {PBuf i, PHs, PObfs} th th'"
            "q' = q \<or> (\<exists>u. q' = q @ [(u, Some dest)] \<and> fst u \<in> {PBuf i, PHs, PObfs} \<and> (\<exists>x. iov_bytes th' u = Some x))"
          using s2c_gateway_other_ok [OF ok1 i k(2) d] by blast
        have "queue_step th' {PBuf i, PHs, PObfs} q q'" using s(5) unfolding queue_step_def by blast
        moreover have "proxy_s2c_process_gateway p th i h n now q = Some (p', th', q', a0 @ a, r)"
          using step routed other k(1) s(1) by (simp add: rest_def del: de_Morgan_conj)
        moreover have "same_shared p p'" by (rule same_shared_trans [OF key_step_shared [OF k(3)] s(3)])
        ultimately show ?thesis using s(2,4) by blast
      qed
    qed
  qed
qed

section \<open>The shared buffer\<close>

text \<open>A wrapped packet overwrites the frames queued before it: whatever was in \<open>obfs_buf\<close>, a
  queued vector of that place then reads the new frame.\<close>

lemma wrap_overwrites:
  assumes ok: "thread_ok th" and m: "iov_bytes th v = Some m" and fits: "int (length m) \<le> obfs_max_packet_len p"
    and w: "snd (obfs_wrap (tx_session p de) m) = Some (WObfsBuf fr)" and k: "k \<le> length fr"
  shows "\<exists>p' th' a r. wrap_and_queue p th de v dest q = Some (p', th', q @ [((PObfs, 0, length fr), Some dest)], a, r)
    \<and> iov_bytes th' (PObfs, 0, k) = Some (take k fr)"
proof -
  obtain p' th' q' a r where q: "wrap_and_queue p th de v dest q = Some (p', th', q', a, r)"
      "wrap_queued p de v m (Some dest) th' q q'"
    using wrap_and_queue_ok [OF ok m iov_len [OF m], of p de dest q] by blast
  have e: "q' = q @ [((PObfs, 0, length fr), Some dest)]" "iov_bytes th' (PObfs, 0, length fr) = Some fr"
    using q(2) fits w by (auto simp: wrap_queued_def)
  have "iov_bytes th' (PObfs, 0, k) = Some (take k fr)"
  proof -
    have l: "length fr \<le> length (th_obfs th')" "take (length fr) (th_obfs th') = fr"
      using e(2) by (auto simp: iov_bytes_def rd_def slice_def split: if_splits)
    have "take k (th_obfs th') = take k (take (length fr) (th_obfs th'))" using k by (simp add: min_def)
    then show ?thesis unfolding l(2) using l(1) k by (simp add: iov_bytes_def rd_def slice_def)
  qed
  then show ?thesis using q(1) e(1) by blast
qed

section \<open>The thread\<close>

text \<open>Whether a vector can be read depends on the sizes of the buffers only.\<close>

definition all_readable :: "thread_t \<Rightarrow> queue \<Rightarrow> bool" where
  "all_readable th q \<longleftrightarrow> (\<forall>e \<in> set q. \<exists>x. iov_bytes th (fst e) = Some x)"

lemma readable_stable:
  assumes "thread_ok th" and "thread_ok th'" and "\<exists>x. iov_bytes th v = Some x"
  shows "\<exists>x. iov_bytes th' v = Some x"
proof -
  have "length (place_bytes th pl) = length (place_bytes th' pl)" for pl
    using assms(1,2) by (cases pl) (auto simp: thread_ok_def)
  then show ?thesis using assms(3) by (cases v) (auto simp: iov_bytes_def rd_def simp del: place_bytes.simps split: if_splits)
qed

lemma all_readable_step:
  assumes "thread_ok th" and "thread_ok th'" and "all_readable th q" and "queue_step th' P q q'"
  shows "all_readable th' q'"
proof -
  have "\<forall>e \<in> set q. \<exists>x. iov_bytes th' (fst e) = Some x"
    using assms(3) readable_stable [OF assms(1,2)] unfolding all_readable_def by blast
  then show ?thesis using assms(4) unfolding all_readable_def queue_step_def by auto
qed

lemma same_data_gate: "same_data p p' \<Longrightarrow> gate_ok p' th = gate_ok p th"
  by (simp add: same_data_def same_shared_def gate_ok_def path_ok_def ring_ok_def junk_buf_ok_def)

lemma s2c_process_client_safe:
  assumes ok: "gate_ok p th" and d: "iov_bytes th v = Some d"
  shows "\<exists>p' th' q' a r. proxy_s2c_process_client p th v q = Some (p', th', q', a, r)
    \<and> gate_ok p' th' \<and> same_shared p p' \<and> queue_step th' {fst v} q q'"
proof -
  have cfg: "config_ready (px_cfg p)" and tok: "thread_ok th" using ok by (simp_all add: gate_ok_def path_ok_def)
  obtain p' th' q' a r where s: "proxy_s2c_process_client p th v q = Some (p', th', q', a, r)" "same_data p p'"
      "queued th th' (fst v) (Some (px_client_addr p, px_client_addr_len p))
        (s2c_message (px_cfg p) (px_obfs_s2c p) d) q q' r"
    using s2c_process_client_ok [OF cfg tok d, of q] by blast
  have t': "thread_ok th'" using s(3) by (simp add: queued_def th_frame_def)
  have "queue_step th' {fst v} q q'"
    using s(3) by (auto simp: queued_def queue_step_def split: option.splits)
  then show ?thesis using s(1) same_data_shared [OF s(2)] same_data_gate [OF s(2)] gate_ok_thread [OF ok t'] by blast
qed

lemma s2c_packets_safe:
  assumes "gate_ok p th" and "i + length ns \<le> BATCH_SIZE" and "\<forall>n \<in> set ns. h + n \<le> BUF_TOTAL"
    and "all_readable th q"
  shows "\<exists>p' th' q' a. s2c_packets p th h i ns now q = Some (p', th', q', a) \<and> gate_ok p' th'
    \<and> same_shared p p' \<and> all_readable th' q'"
  using assms
proof (induction ns arbitrary: p th i q)
  case Nil
  then show ?case by (simp add: same_shared_def)
next
  case (Cons n ns)
  have tok: "thread_ok th" using Cons.prems(1) by (simp add: gate_ok_def path_ok_def)
  have i: "i < BATCH_SIZE" "i + 1 + length ns \<le> BATCH_SIZE" using Cons.prems(2) by simp_all
  obtain p1 th1 q1 a1 r where s: "(if n = 0 then Some (p, th, q, [], False)
        else if cf_mode (px_cfg p) \<noteq> AWG_MODE_CLIENT
        then proxy_s2c_process_gateway p th i h n now q
        else proxy_s2c_process_client p th (PBuf i, 0, n) q) = Some (p1, th1, q1, a1, r)"
      "gate_ok p1 th1" "same_shared p p1" "all_readable th1 q1"
  proof (cases "n = 0")
    case True
    then show ?thesis using Cons.prems(1,4) that [of p th q "[]" False] by (simp add: same_shared_def)
  next
    case False
    obtain d0 where d0: "iov_bytes th (PBuf i, h, n) = Some d0" using readable [OF tok i(1), of h n] Cons.prems(3) by auto
    obtain d1 where d1: "iov_bytes th (PBuf i, 0, n) = Some d1" using readable [OF tok i(1), of 0 n] Cons.prems(3) by auto
    show ?thesis
    proof (cases "cf_mode (px_cfg p) = AWG_MODE_CLIENT")
      case True
      obtain p1 th1 q1 a1 r where c: "proxy_s2c_process_client p th (PBuf i, 0, n) q = Some (p1, th1, q1, a1, r)"
          "gate_ok p1 th1" "same_shared p p1" "queue_step th1 {PBuf i} q q1"
        using s2c_process_client_safe [OF Cons.prems(1) d1, of q] unfolding fst_conv by blast
      have "all_readable th1 q1"
        by (rule all_readable_step [OF tok _ Cons.prems(4) c(4)]) (use c(2) in \<open>simp add: gate_ok_def path_ok_def\<close>)
      then show ?thesis using that c False True by simp
    next
      case gw: False
      obtain p1 th1 q1 a1 r where c: "proxy_s2c_process_gateway p th i h n now q = Some (p1, th1, q1, a1, r)"
          "gate_ok p1 th1" "same_shared p p1" "queue_step th1 {PBuf i, PHs, PObfs} q q1"
        using s2c_process_gateway_ok [OF Cons.prems(1) i(1) d0, of now q] by blast
      have "all_readable th1 q1"
        by (rule all_readable_step [OF tok _ Cons.prems(4) c(4)]) (use c(2) in \<open>simp add: gate_ok_def path_ok_def\<close>)
      then show ?thesis using that c False gw by simp
    qed
  qed
  have ns: "\<forall>n \<in> set ns. h + n \<le> BUF_TOTAL" using Cons.prems(3) by simp
  obtain p2 th2 q2 a2 where r: "s2c_packets p1 th1 h (i + 1) ns now q1 = Some (p2, th2, q2, a2)" "gate_ok p2 th2"
      "same_shared p1 p2" "all_readable th2 q2"
    using Cons.IH [OF s(2) i(2) ns s(4)] by blast
  have "s2c_packets p th h i (n # ns) now q = Some (p2, th2, q2, a1 @ a2)"
    unfolding s2c_packets.simps s(1) using r(1) by simp
  then show ?case using r(2,4) same_shared_trans [OF s(3) r(3)] by blast
qed

lemma s2c_gro_split_safe:
  assumes "gate_ok p th" and "n \<le> GRO_BUF_SIZE" and "all_readable th q"
  shows "\<exists>p' th' q' a. s2c_gro_split p th n seg off q = Some (p', th', q', a) \<and> gate_ok p' th'
    \<and> same_shared p p' \<and> all_readable th' q'"
  using assms
proof (induction p th n seg off q rule: s2c_gro_split.induct)
  case (1 p th n seg off q)
  have tok: "thread_ok th" using "1.prems"(1) by (simp add: gate_ok_def path_ok_def)
  show ?case
  proof (cases "off < n \<and> length q < BATCH_SIZE \<and> 0 < seg")
    case False
    then show ?thesis using "1.prems" by (subst s2c_gro_split.simps) (simp add: same_shared_def del: de_Morgan_conj)
  next
    case True
    have "off + (min (off + seg) n - off) \<le> length (th_gro th)"
      using True "1.prems"(2) tok by (simp add: thread_ok_def min_def)
    then obtain d where d: "iov_bytes th (PGro, off, min (off + seg) n - off) = Some d"
      by (simp add: iov_bytes_def rd_def)
    obtain p1 th1 q1 a1 r where c: "proxy_s2c_process_client p th (PGro, off, min (off + seg) n - off) q = Some (p1, th1, q1, a1, r)"
        "gate_ok p1 th1" "same_shared p p1" "queue_step th1 {PGro} q q1"
      using s2c_process_client_safe [OF "1.prems"(1) d, of q] unfolding fst_conv by blast
    have rd: "all_readable th1 q1"
      by (rule all_readable_step [OF tok _ "1.prems"(3) c(4)]) (use c(2) in \<open>simp add: gate_ok_def path_ok_def\<close>)
    obtain p2 th2 q2 a2 where s: "s2c_gro_split p1 th1 n seg (off + seg) q1 = Some (p2, th2, q2, a2)" "gate_ok p2 th2"
        "same_shared p1 p2" "all_readable th2 q2"
      using "1.IH" [OF True c(1) refl refl refl refl c(2) "1.prems"(2) rd] by blast
    have "s2c_gro_split p th n seg off q = Some (p2, th2, q2, a1 @ a2)"
      using True c(1) s(1) by (subst s2c_gro_split.simps) simp
    then show ?thesis using s(2,4) same_shared_trans [OF c(3) s(3)] by blast
  qed
qed

lemma those_readable: "all_readable th q \<Longrightarrow> \<exists>ms. those (map (\<lambda>e. iov_bytes th (fst e)) q) = Some ms"
  by (induction q) (auto simp: all_readable_def)

lemma s2c_flush_safe:
  assumes ok: "gate_ok p th" and q: "all_readable th q"
  shows "\<exists>p' th' a. s2c_flush p th q = Some (p', th', a) \<and> gate_ok p' th' \<and> px_cfg p' = px_cfg p"
proof (cases "q = []")
  case True
  then show ?thesis using ok by (simp add: s2c_flush_def)
next
  case False
  obtain ms where m: "those (map (\<lambda>e. iov_bytes th (fst e)) q) = Some ms" using those_readable [OF q] by blast
  define ga where "ga = (if cf_mode (px_cfg p) = AWG_MODE_SERVER then None else snd (hd q))"
  obtain g rs th' where n: "next_sys th (length ms) = ((g, rs), th')" by (metis prod.exhaust)
  obtain p' gso rest where b: "proxy_io_send_batch_gso p (px_listen_fd p) ms (ga \<noteq> None) g rs = (p', gso, rest)"
    by (rule prod_cases3)
  have t: "thread_ok th'"
    using n ok by (auto simp: next_sys_def gate_ok_def path_ok_def split: list.splits)
  have "p' = p \<or> p' = p\<lparr>px_gso_ok := False\<rparr>"
    using b by (auto simp: proxy_io_send_batch_gso_def Let_def split: if_splits)
  then have "gate_ok p' th' \<and> px_cfg p' = px_cfg p"
    using gate_ok_thread [OF ok t] by (auto simp: gate_ok_def path_ok_def ring_ok_def junk_buf_ok_def)
  moreover have "s2c_flush p th q = Some (p', th', map (Send (px_listen_fd p) ga) gso
       @ map2 (Send (px_listen_fd p)) (drop (length gso) (map snd q)) rest)"
    using False m n b by (simp add: s2c_flush_def send_queue_def ga_def)
  ultimately show ?thesis by blast
qed

text \<open>One receive, in each of its two forms, and a reconnect.\<close>

lemma s2c_received_gate:
  "gate_ok (fst (s2c_received p l n)) th = gate_ok p th" "px_cfg (fst (s2c_received p l n)) = px_cfg p"
  by (simp_all add: s2c_received_def gate_ok_def path_ok_def ring_ok_def junk_buf_ok_def)

lemma s2c_recv_failed_gate:
  "gate_ok (fst (s2c_recv_failed p n c err)) th = gate_ok p th"
  by (simp add: s2c_recv_failed_def gate_ok_def path_ok_def ring_ok_def junk_buf_ok_def)

lemma s2c_recv_batch_safe:
  assumes ok: "gate_ok p th"
  shows "\<exists>p' th' l' a. s2c_recv_batch p th l e = Some (p', th', l', a) \<and> gate_ok p' th'"
proof -
  have tok: "thread_ok th" and cfg: "config_ready (px_cfg p)" using ok by (simp_all add: gate_ok_def path_ok_def)
  have failed: "\<exists>p' th' l' a. (let (p, a) = s2c_recv_failed p n c err in Some (p, th, l, a)) = Some (p', th', l', a)
      \<and> gate_ok p' th'" for n c err
    using s2c_recv_failed_gate [of p n c err th] ok by (simp add: case_prod_beta)
  show ?thesis
  proof (cases "xe_recv e")
    case (Inl c)
    then show ?thesis using failed by (simp add: s2c_recv_batch_def)
  next
    case (Inr msgs0)
    define msgs where "msgs = take BATCH_SIZE msgs0"
    show ?thesis
    proof (cases "msgs = []")
      case True
      then show ?thesis using failed Inr by (simp add: s2c_recv_batch_def msgs_def [symmetric])
    next
      case ne: False
      define h where "h = nat (s2c_headroom (px_cfg p))"
      define cap where "cap = nat (s2c_recv_len (px_cfg p))"
      have hr: "0 \<le> s2c_headroom (px_cfg p)" "s2c_headroom (px_cfg p) \<le> 1500"
        using config_ready_bounds [OF cfg] by (simp_all add: s2c_headroom_def)
      then have b: "ptr_off (s2c_headroom (px_cfg p)) = Some h" "ptr_off (s2c_recv_len (px_cfg p)) = Some cap"
          "h + cap \<le> BUF_TOTAL"
        by (simp_all add: ptr_off_def s2c_recv_len_def h_def cap_def)
      have "0 + length msgs \<le> BATCH_SIZE" by (simp add: msgs_def)
      from store_datagrams_ok [OF tok this b(3)] obtain th1 where
        t: "store_datagrams h cap 0 msgs th = Some th1" "thread_ok th1" by (auto simp: th_frame_def)
      define ns where "ns = map (\<lambda>d. min cap (length d)) msgs"
      obtain p1 l1 a1 where rc: "s2c_received p l (hd ns) = (p1, l1, a1)" by (rule prod_cases3)
      have g1: "gate_ok p1 th1" "px_cfg p1 = px_cfg p"
        using s2c_received_gate [of p l "hd ns"] rc gate_ok_thread [OF ok t(2)] by simp_all
      have step: "s2c_recv_batch p th l e = (if cf_mode (px_cfg p1) = AWG_MODE_CLIENT \<and> \<not> px_has_client p1
          then Some (p1, th1, l1, a1)
          else do {
           (p, th, q, a2) \<leftarrow> s2c_packets p1 th1 h 0 ns (xe_now e) [];
           (p, th, a3) \<leftarrow> s2c_flush p th q;
           Some (p, th, l1, a1 @ a2 @ a3) })"
        using Inr ne b t(1) rc unfolding s2c_recv_batch_def by (simp add: msgs_def [symmetric] ns_def [symmetric] Let_def)
      show ?thesis
      proof (cases "cf_mode (px_cfg p1) = AWG_MODE_CLIENT \<and> \<not> px_has_client p1")
        case True
        then show ?thesis using step g1 by simp
      next
        case False
        have ln: "0 + length ns \<le> BATCH_SIZE" by (simp add: ns_def msgs_def)
        have nb: "\<forall>n \<in> set ns. h + n \<le> BUF_TOTAL" using b(3) by (auto simp: ns_def)
        have re: "all_readable th1 []" by (simp add: all_readable_def)
        obtain p2 th2 q2 a2 where s: "s2c_packets p1 th1 h 0 ns (xe_now e) [] = Some (p2, th2, q2, a2)"
            "gate_ok p2 th2" "all_readable th2 q2"
          using s2c_packets_safe [OF g1(1) ln nb re] by blast
        obtain p3 th3 a3 where "s2c_flush p2 th2 q2 = Some (p3, th3, a3)" "gate_ok p3 th3"
          using s2c_flush_safe [OF s(2,3)] by blast
        then show ?thesis using step False s(1) by simp
      qed
    qed
  qed
qed

lemma gate_ok_flag: "gate_ok (p\<lparr>px_gro_enabled := b\<rparr>) th = gate_ok p th"
  by (simp add: gate_ok_def path_ok_def ring_ok_def junk_buf_ok_def)

lemma s2c_recv_gro_safe:
  assumes ok: "gate_ok p th"
  shows "\<exists>p' th' l' a. s2c_recv_gro p th l e = Some (p', th', l', a) \<and> gate_ok p' th'"
proof -
  obtain n seg th1 where r: "proxy_io_recv_gro th (xe_gro e) = (n, seg, th1)" by (rule prod_cases3)
  have tok: "thread_ok th" using ok by (simp add: gate_ok_def path_ok_def)
  have t1: "thread_ok th1" "n \<le> int GRO_BUF_SIZE"
    using r tok by (auto simp: proxy_io_recv_gro_def thread_ok_def Let_def split: recv_result.splits if_splits)
  have g0: "gate_ok p th1" by (rule gate_ok_thread [OF ok t1(1)])
  show ?thesis
  proof (cases "n \<le> 0")
    case True
    then show ?thesis using r g0 by (simp add: s2c_recv_gro_def Let_def case_prod_beta s2c_recv_failed_gate)
  next
    case pos: False
    obtain p1 l1 a1 where rc: "s2c_received p l (nat n) = (p1, l1, a1)" by (rule prod_cases3)
    have g1: "gate_ok p1 th1" using s2c_received_gate(1) [of p l "nat n" th1] rc g0 by simp
    define inner where "inner = (if seg > 0 \<and> nat n > seg then do {
              (p, th, q, a) \<leftarrow> s2c_gro_split p1 th1 (nat n) seg 0 [];
              Some (p, th, l1\<lparr>sl_no_coalesce := 0\<rparr>, q,
                log_debug (''s2c: GRO recv bytes='' @ u32_to_str (of_int n) @ u32_to_str (of_nat seg)) # a)
            } else do {
              let l = l1\<lparr>sl_no_coalesce := sl_no_coalesce l1 + 1\<rparr>;
              let fall_back = (sl_no_coalesce l \<ge> 8);
              let p = (if fall_back then p1\<lparr>px_gro_enabled := False\<rparr> else p1);
              (p, th, q, a, r) \<leftarrow> proxy_s2c_process_client p th1 (PGro, 0, nat n) [];
              Some (p, th, l, q,
                (if fall_back then [log_info ''GRO not coalescing, falling back to recvmmsg''] else []) @ a)
            })"
    have re: "all_readable th1 []" by (simp add: all_readable_def)
    have "\<exists>p' th' l' q' a. inner = Some (p', th', l', q', a) \<and> gate_ok p' th' \<and> all_readable th' q'"
    proof (cases "seg > 0 \<and> nat n > seg")
      case True
      have "nat n \<le> GRO_BUF_SIZE" using t1(2) by simp
      from s2c_gro_split_safe [OF g1 this re, of seg 0] True show ?thesis by (auto simp: inner_def)
    next
      case False
      have "nat n \<le> length (th_gro th1)" using t1 by (simp add: thread_ok_def)
      then obtain d where d: "iov_bytes th1 (PGro, 0, nat n) = Some d" by (simp add: iov_bytes_def rd_def)
      define p2 where "p2 = (if sl_no_coalesce l1 + 1 \<ge> 8 then p1\<lparr>px_gro_enabled := False\<rparr> else p1)"
      have g2: "gate_ok p2 th1" using g1 by (simp add: p2_def gate_ok_flag)
      obtain p3 th3 q3 a3 r where c: "proxy_s2c_process_client p2 th1 (PGro, 0, nat n) [] = Some (p3, th3, q3, a3, r)"
          "gate_ok p3 th3" "queue_step th3 {PGro} [] q3"
        using s2c_process_client_safe [OF g2 d, of "[]"] unfolding fst_conv by blast
      have t3: "thread_ok th3" using c(2) by (simp add: gate_ok_def path_ok_def)
      have "all_readable th3 q3" by (rule all_readable_step [OF t1(1) t3 re c(3)])
      then show ?thesis using False c(1) [unfolded p2_def] c(2) unfolding inner_def
        by (cases "7 \<le> sl_no_coalesce l1") (simp_all add: Let_def del: de_Morgan_conj)
    qed
    then obtain p2 th2 l2 q2 a2 where i: "inner = Some (p2, th2, l2, q2, a2)" "gate_ok p2 th2" "all_readable th2 q2" by blast
    obtain p3 th3 a3 where f: "s2c_flush p2 th2 q2 = Some (p3, th3, a3)" "gate_ok p3 th3"
      using s2c_flush_safe [OF i(2,3)] by blast
    have "s2c_recv_gro p th l e = (if \<not> px_has_client p1 then Some (p1, th1, l1, a1)
        else do { (p, th, l, q, a2) \<leftarrow> inner; (p, th, a3) \<leftarrow> s2c_flush p th q; Some (p, th, l, a1 @ a2 @ a3) })"
      unfolding s2c_recv_gro_def r Let_def case_prod_conv rc inner_def using pos by simp
    then show ?thesis using i(1) f g1 by simp
  qed
qed

lemma dial_gate: "gate_ok (fst (snd (proxy_dial_remote p e))) th = gate_ok p th"
proof (cases "net_addr_resolve_host_port (de_gai e)")
  case (Inl x)
  then show ?thesis
    by (simp add: proxy_dial_remote_def Let_def case_prod_beta proxy_note_dns_resolve_failure_def gate_ok_def
        path_ok_def ring_ok_def junk_buf_ok_def)
next
  case (Inr al)
  then show ?thesis
    by (cases al) (simp add: proxy_dial_remote_def Let_def proxy_reset_dns_resolve_failure_window_def
        case_prod_beta gate_ok_def path_ok_def ring_ok_def junk_buf_ok_def)
qed

lemma reconnect_gate: "gate_ok (fst (snd (proxy_do_reconnect p e))) th = gate_ok p th"
proof -
  define p0 where "p0 = (if px_remote_fd p \<ge> 0 then p\<lparr>px_remote_fd := -1\<rparr> else p)"
  obtain fd p1 a1 where d: "proxy_dial_remote p0 e = (fd, p1, a1)" by (rule prod_cases3)
  have g: "gate_ok p1 th = gate_ok p th"
    using dial_gate [of p0 e th] d by (simp add: p0_def gate_ok_def path_ok_def ring_ok_def junk_buf_ok_def)
  have "gate_ok (fst (snd (proxy_do_reconnect p e))) th = gate_ok p1 th"
    using d by (simp add: proxy_do_reconnect_def Let_def p0_def gate_ok_def path_ok_def ring_ok_def junk_buf_ok_def
        split: prod.split if_splits)
  then show ?thesis using g by simp
qed

text \<open>What the other threads may do between two rounds: anything that keeps the invariant.\<close>

definition others_ok :: "s2c_env \<Rightarrow> bool" where
  "others_ok e \<longleftrightarrow> (\<forall>p th. gate_ok p th \<longrightarrow> gate_ok (xe_others e p) th \<and> gate_ok (xe_sleep_others e p) th)"

lemma s2c_reconnect_gate:
  assumes "others_ok e" and "gate_ok p th"
  shows "gate_ok (fst (s2c_reconnect p l e)) th"
proof -
  define p0 where "p0 = xe_sleep_others e p"
  have g0: "gate_ok p0 th" using assms by (simp add: others_ok_def p0_def)
  obtain fd p1 a1 where d: "proxy_do_reconnect p0 (xe_dial e) = (fd, p1, a1)" by (rule prod_cases3)
  have g1: "gate_ok p1 th" using reconnect_gate [of p0 "xe_dial e" th] d g0 by simp
  show ?thesis using g0 g1 d
    by (simp add: s2c_reconnect_def s2c_enable_gro_def Let_def p0_def [symmetric] gate_ok_flag)
qed

lemma s2c_thread_safe:
  assumes "gate_ok p th" and "\<forall>e \<in> set es. others_ok e"
  shows "\<exists>p' th' l' a. s2c_thread p th l es = Some (p', th', l', a) \<and> gate_ok p' th'"
  using assms
proof (induction es arbitrary: p th l)
  case (Cons e es)
  have es: "\<forall>e \<in> set es. others_ok e" and e: "others_ok e" using Cons.prems(2) by simp_all
  show ?case
  proof (cases "px_stopped p")
    case True
    then show ?thesis using Cons.prems(1) by simp
  next
    case run: False
    define p0 where "p0 = xe_others e p"
    have g0: "gate_ok p0 th" using e Cons.prems(1) by (simp add: others_ok_def p0_def)
    show ?thesis
    proof (cases "px_remote_fd p0 < 0 \<or> px_reconnect_needed p0")
      case True
      obtain p1 l1 a1 stop where r: "s2c_reconnect p0 l e = (p1, l1, a1, stop)" by (rule prod_cases4)
      have g1: "gate_ok p1 th" using s2c_reconnect_gate [OF e g0, of l] r by simp
      obtain p2 th2 l2 a2 where "s2c_thread p1 th l1 es = Some (p2, th2, l2, a2)" "gate_ok p2 th2"
        using Cons.IH [OF g1 es] by blast
      then show ?thesis using run True r g1 by (simp add: Let_def p0_def [symmetric] del: de_Morgan_disj)
    next
      case False
      obtain p1 th1 l1 a1 where r: "(if px_gro_enabled p0 \<and> cf_mode (px_cfg p0) = AWG_MODE_CLIENT
             then s2c_recv_gro p0 th l e else s2c_recv_batch p0 th l e) = Some (p1, th1, l1, a1)" "gate_ok p1 th1"
        proof (cases "px_gro_enabled p0 \<and> cf_mode (px_cfg p0) = AWG_MODE_CLIENT")
        case True
        then show ?thesis using s2c_recv_gro_safe [OF g0, of l e] that by auto
      next
        case False
        then show ?thesis using s2c_recv_batch_safe [OF g0, of l e] that by (auto simp del: de_Morgan_conj)
      qed
      obtain p2 th2 l2 a2 where s: "s2c_thread p1 th1 l1 es = Some (p2, th2, l2, a2)" "gate_ok p2 th2"
        using Cons.IH [OF r(2) es] by blast
      have "s2c_thread p th l (e # es) = Some (p2, th2, l2, a1 @ a2)"
        unfolding s2c_thread.simps Let_def p0_def [symmetric] if_not_P [OF run] if_not_P [OF False] r(1)
        using s(1) by simp
      then show ?thesis using s(2) by blast
    qed
  qed
qed simp

end
