(* ===== verification/Config_Values.thy ===== *)
theory Config_Values
  imports Obfs Net_Io
begin

text \<open>
  The values of a configuration as text: the number, range, mode, level and port parsers of
  \<open>src/config_runtime.c\<close> and the number and range parsers of \<open>src/config_file.c\<close>.  A
  nullable \<open>char *\<close> is a \<open>string option\<close>, a failed parse (\<open>-1\<close>) is \<open>None\<close>.
  \<open>strtol\<close> and \<open>strtoul\<close> are those of the C standard for a 64-bit \<open>long\<close>.
\<close>

section \<open>The C library's number conversions\<close>

definition is_space_c :: "char \<Rightarrow> bool" where
  "is_space_c c \<longleftrightarrow> c = CHR '' '' \<or> (9 \<le> (of_char c :: nat) \<and> (of_char c :: nat) \<le> 13)"

text \<open>White space, an optional sign, digits, the rest.\<close>

definition strto_scan :: "string \<Rightarrow> bool \<times> string \<times> string" where
  "strto_scan s =
    (let t = dropWhile is_space_c s;
         neg = (t \<noteq> [] \<and> hd t = CHR ''-'');
         u = (if t \<noteq> [] \<and> (hd t = CHR ''-'' \<or> hd t = CHR ''+'') then tl t else t)
     in (neg, takeWhile is_digit_c u, dropWhile is_digit_c u))"

text \<open>The value, whether \<open>errno\<close> is \<open>ERANGE\<close>, and \<open>*end\<close>: \<open>None\<close> is
  \<open>end == s\<close>, nothing converted.\<close>

definition strtol :: "string \<Rightarrow> int \<times> bool \<times> string option" where
  "strtol s =
    (let (neg, ds, rest) = strto_scan s; v = (if neg then - int (dec_val ds) else int (dec_val ds)) in
     if ds = [] then (0, False, None)
     else if v < - (2 ^ 63) then (- (2 ^ 63), True, Some rest)
     else if v \<ge> 2 ^ 63 then (2 ^ 63 - 1, True, Some rest)
     else (v, False, Some rest))"

text \<open>A minus sign negates in the unsigned type.\<close>

definition strtoul :: "string \<Rightarrow> nat \<times> bool \<times> string option" where
  "strtoul s =
    (let (neg, ds, rest) = strto_scan s; v = dec_val ds in
     if ds = [] then (0, False, None)
     else if v \<ge> 2 ^ 64 then (2 ^ 64 - 1, True, Some rest)
     else (if neg then (2 ^ 64 - v) mod 2 ^ 64 else v, False, Some rest))"

section \<open>\<open>config_runtime.c\<close>\<close>

definition parse_uint32_str :: "string \<Rightarrow> u32 option" where
  "parse_uint32_str s =
    (if s = [] then None
     else let (v, erange, end_p) = strtoul s in
       if erange \<or> end_p \<noteq> Some [] then None
       else if v > 4294967295 then None
       else Some (of_nat v))"

definition parse_awg_mode :: "string option \<Rightarrow> awg_mode option" where
  "parse_awg_mode s =
    (if s = None \<or> s = Some [] then None
     else if streqi_loop (the s) ''client'' then Some AWG_MODE_CLIENT
     else if streqi_loop (the s) ''gateway'' then Some AWG_MODE_GATEWAY
     else if streqi_loop (the s) ''server'' then Some AWG_MODE_SERVER
     else None)"

definition parse_log_level :: "string option \<Rightarrow> log_level option" where
  "parse_log_level s =
    (if s = None \<or> s = Some [] then None
     else let c = hd (the s) in
       if c = CHR ''n'' \<or> c = CHR ''N'' then Some LOG_NONE
       else if c = CHR ''e'' \<or> c = CHR ''E'' then Some LOG_ERROR
       else if c = CHR ''i'' \<or> c = CHR ''I'' then Some LOG_INFO
       else if c = CHR ''d'' \<or> c = CHR ''D'' then Some LOG_DEBUG
       else None)"

definition parse_int_strict :: "string option \<Rightarrow> int option" where
  "parse_int_strict s =
    (if s = None \<or> s = Some [] then None
     else let (v, erange, end_p) = strtol (the s) in
       if erange \<or> end_p \<noteq> Some [] then None
       else if v < -2147483648 \<or> v > 2147483647 then None
       else Some v)"

definition parse_src_port :: "string option \<Rightarrow> int option" where
  "parse_src_port s =
    (if s = None \<or> s = Some [] then None
     else if streqi_loop (the s) ''auto'' then Some 0
     else parse_int_strict s)"

text \<open>The text before the first \<open>'-'\<close> and the text after it.\<close>

definition split_dash :: "string \<Rightarrow> (string \<times> string) option" where
  "split_dash s =
    (if CHR ''-'' \<in> set s
     then Some (takeWhile (\<lambda>c. c \<noteq> CHR ''-'') s, tl (dropWhile (\<lambda>c. c \<noteq> CHR ''-'') s))
     else None)"

definition parse_hrange_str :: "string option \<Rightarrow> hrange_t option" where
  "parse_hrange_str s =
    (if s = None \<or> s = Some [] then None
     else case split_dash (the s) of
         None \<Rightarrow> map_option (\<lambda>v. \<lparr>hr_min = v, hr_max = v\<rparr>) (parse_uint32_str (the s))
       | Some (left, right) \<Rightarrow>
           if length left = 0 \<or> length left \<ge> 32 then None
           else if CHR ''-'' \<in> set right then None
           else case parse_uint32_str left of None \<Rightarrow> None
           | Some lo \<Rightarrow> (case parse_uint32_str right of None \<Rightarrow> None
             | Some hi \<Rightarrow> if lo > hi then None else Some \<lparr>hr_min = lo, hr_max = hi\<rparr>))"

section \<open>\<open>config_file.c\<close>\<close>

text \<open>Its parsers take a line's value, which is not \<open>NULL\<close>; \<open>errno\<close> is set by
  \<open>ERANGE\<close> only.\<close>

definition parse_int_file :: "string \<Rightarrow> int option" where
  "parse_int_file s =
    (if s = [] then None
     else let (v, erange, end_p) = strtol s in
       if erange \<or> end_p \<noteq> Some [] then None
       else if v < -2147483648 \<or> v > 2147483647 then None
       else Some v)"

definition parse_uint32 :: "string \<Rightarrow> u32 option" where
  "parse_uint32 s =
    (if s = [] then None
     else let (v, erange, end_p) = strtoul s in
       if erange \<or> end_p \<noteq> Some [] then None
       else if v > 0xFFFFFFFF then None
       else Some (of_nat v))"

definition parse_hrange :: "string \<Rightarrow> hrange_t option" where
  "parse_hrange s =
    (case split_dash s of
       None \<Rightarrow> map_option (\<lambda>v. \<lparr>hr_min = v, hr_max = v\<rparr>) (parse_uint32 s)
     | Some (left, right) \<Rightarrow>
         if length left = 0 \<or> length left \<ge> 32 then None
         else case parse_uint32 left of None \<Rightarrow> None
         | Some lo \<Rightarrow> (case parse_uint32 right of None \<Rightarrow> None
           | Some hi \<Rightarrow> if lo > hi then None else Some \<lparr>hr_min = lo, hr_max = hi\<rparr>))"

text \<open>\<open>keq\<close>, the endless loop over both strings; the NUL of a string that has ended is not
  any character of the other.\<close>

fun keq :: "string \<Rightarrow> string \<Rightarrow> bool" where
  "keq (a # as) (b # bs) = (if lower_c a \<noteq> lower_c b then False else keq as bs)"
| "keq [] [] = True"
| "keq [] (b # bs) = False"
| "keq (a # as) [] = False"

section \<open>What the number parsers accept\<close>

lemma digit_not_space: "is_digit_c c \<Longrightarrow> \<not> is_space_c c \<and> c \<noteq> CHR ''-'' \<and> c \<noteq> CHR ''+''"
  by (auto simp: is_digit_c_def is_space_c_def)

text \<open>A plain decimal text: digits only.\<close>

lemma strto_scan_digits:
  assumes "list_all is_digit_c ds" and "ds \<noteq> []"
  shows "strto_scan ds = (False, ds, [])" "strto_scan (CHR ''-'' # ds) = (True, ds, [])"
proof -
  have "is_digit_c (hd ds)" using assms by (cases ds) simp_all
  then have h: "\<not> is_space_c (hd ds)" "hd ds \<noteq> CHR ''-''" "hd ds \<noteq> CHR ''+''"
    using digit_not_space by blast+
  have d: "dropWhile is_space_c ds = ds" "takeWhile is_digit_c ds = ds" "dropWhile is_digit_c ds = []"
    using h assms by (auto simp: dropWhile_eq_self_iff list_all_iff)
  show "strto_scan ds = (False, ds, [])" "strto_scan (CHR ''-'' # ds) = (True, ds, [])"
    using d h assms(2) by (simp_all add: strto_scan_def is_space_c_def)
qed

text \<open>An integer in decimal, the text both \<open>parse_int\<close>s are meant for.\<close>

definition int_text :: "int \<Rightarrow> string" where
  "int_text v = (if v < 0 then CHR ''-'' # u32_to_str (word_of_int (- v)) else u32_to_str (word_of_int v))"

lemma u32_text:
  "list_all is_digit_c (u32_to_str v)" "u32_to_str v \<noteq> []" "dec_val (u32_to_str v) = unat v"
  "length (u32_to_str v) \<le> 10"
  using u32_to_str_correct [of v] by auto

lemma unat_word_of_int_u32:
  assumes "0 \<le> v" and "v \<le> 4294967295"
  shows "unat (word_of_int v :: u32) = nat v"
proof -
  have "uint (word_of_int v :: u32) = v" using assms by (simp add: uint_word_of_int take_bit_eq_mod)
  then show ?thesis by (metis nat_uint_eq)
qed

lemma parse_int_text:
  assumes "-2147483648 \<le> v" and "v \<le> 2147483647"
  shows "parse_int_file (int_text v) = Some v"
proof (cases "v < 0")
  case True
  then have u: "unat (word_of_int (- v) :: u32) = nat (- v)" using assms by (intro unat_word_of_int_u32) auto
  have "strto_scan (int_text v) = (True, u32_to_str (word_of_int (- v)), [])"
    using strto_scan_digits(2) [OF u32_text(1,2)] True by (simp add: int_text_def)
  then show ?thesis
    using True assms u u32_text(2) by (simp add: parse_int_file_def strtol_def u32_text(3) int_text_def)
next
  case False
  then have u: "unat (word_of_int v :: u32) = nat v" using assms by (intro unat_word_of_int_u32) auto
  have "strto_scan (int_text v) = (False, u32_to_str (word_of_int v), [])"
    using strto_scan_digits(1) [OF u32_text(1,2)] False by (simp add: int_text_def)
  then show ?thesis
    using False assms u u32_text(2) by (simp add: parse_int_file_def strtol_def u32_text(3) int_text_def)
qed

lemma parse_int_bounds:
  "parse_int_file s = Some v \<Longrightarrow> -2147483648 \<le> v \<and> v \<le> 2147483647"
  by (auto simp: parse_int_file_def split: if_splits prod.splits)

text \<open>The two files' integer and word parsers are the same functions.\<close>

lemma parse_int_same:
  "parse_int_strict (Some s) = parse_int_file s" "parse_int_strict None = None" "parse_uint32_str = parse_uint32"
  by (simp_all add: parse_int_strict_def parse_int_file_def parse_uint32_str_def parse_uint32_def fun_eq_iff)

lemma parse_uint32_text: "parse_uint32 (u32_to_str v) = Some v"
proof -
  have "strto_scan (u32_to_str v) = (False, u32_to_str v, [])"
    by (rule strto_scan_digits(1) [OF u32_text(1,2)])
  moreover have "unat v < 2 ^ 32" using unsigned_less [of v] by simp
  ultimately show ?thesis
    using u32_text(2) [of v] by (simp add: parse_uint32_def strtoul_def u32_text(3))
qed

section \<open>Ranges\<close>

text \<open>What the two range parsers share, over the word parser they call: the interface they
  rely on is that a decimal text reads back and that no digit is a dash.\<close>

locale word_reader =
  fixes read :: "string \<Rightarrow> u32 option" and shown :: "u32 \<Rightarrow> string"
  assumes read_shown: "read (shown v) = Some v"
    and shown_dash: "CHR ''-'' \<notin> set (shown v)"
    and shown_length: "shown v \<noteq> []" "length (shown v) < 32"
begin

definition range_text :: "hrange_t \<Rightarrow> string" where
  "range_text r = (if hr_min r = hr_max r then shown (hr_min r)
     else shown (hr_min r) @ CHR ''-'' # shown (hr_max r))"

definition read_range :: "string \<Rightarrow> hrange_t option" where
  "read_range s =
    (case split_dash s of
       None \<Rightarrow> map_option (\<lambda>v. \<lparr>hr_min = v, hr_max = v\<rparr>) (read s)
     | Some (left, right) \<Rightarrow>
         if length left = 0 \<or> length left \<ge> 32 then None
         else case read left of None \<Rightarrow> None
         | Some lo \<Rightarrow> (case read right of None \<Rightarrow> None
           | Some hi \<Rightarrow> if lo > hi then None else Some \<lparr>hr_min = lo, hr_max = hi\<rparr>))"

lemma split_range:
  "split_dash (shown v) = None" "split_dash (shown v @ CHR ''-'' # shown w) = Some (shown v, shown w)"
proof -
  show "split_dash (shown v) = None" by (simp add: split_dash_def shown_dash)
  have "takeWhile (\<lambda>c. c \<noteq> CHR ''-'') (shown v) = shown v" "dropWhile (\<lambda>c. c \<noteq> CHR ''-'') (shown v) = []"
    using shown_dash [of v] by (auto simp: takeWhile_eq_all_conv)
  then show "split_dash (shown v @ CHR ''-'' # shown w) = Some (shown v, shown w)"
    using shown_dash [of v] by (simp add: split_dash_def takeWhile_append dropWhile_append)
qed

lemma read_range_text: "hr_min r \<le> hr_max r \<Longrightarrow> read_range (range_text r) = Some r"
  using shown_length [of "hr_min r"]
  by (cases r) (auto simp: read_range_def range_text_def split_range read_shown not_less not_le)

lemma read_range_ordered: "read_range s = Some r \<Longrightarrow> hr_min r \<le> hr_max r"
  by (auto simp: read_range_def split: option.splits if_splits)

end

interpretation decimal: word_reader parse_uint32 u32_to_str
proof
  fix v :: u32
  show "parse_uint32 (u32_to_str v) = Some v" by (rule parse_uint32_text)
  show "CHR ''-'' \<notin> set (u32_to_str v)" using u32_text(1) [of v] digit_not_space by (auto simp: list_all_iff)
  show "u32_to_str v \<noteq> []" "length (u32_to_str v) < 32" using u32_text(2,4) [of v] by auto
qed

text \<open>A header range in decimal: one value, or the two ends joined by a dash.\<close>

definition hrange_text :: "hrange_t \<Rightarrow> string" where
  "hrange_text r = (if hr_min r = hr_max r then u32_to_str (hr_min r)
     else u32_to_str (hr_min r) @ CHR ''-'' # u32_to_str (hr_max r))"

lemma parse_hrange_eq: "parse_hrange = decimal.read_range"
  by (simp add: fun_eq_iff parse_hrange_def decimal.read_range_def)

lemma hrange_text_eq: "hrange_text = decimal.range_text"
  by (simp add: fun_eq_iff hrange_text_def decimal.range_text_def)

lemma parse_hrange_text: "hr_min r \<le> hr_max r \<Longrightarrow> parse_hrange (hrange_text r) = Some r"
  unfolding parse_hrange_eq hrange_text_eq by (rule decimal.read_range_text)

lemma parse_hrange_ordered: "parse_hrange s = Some r \<Longrightarrow> hr_min r \<le> hr_max r"
  unfolding parse_hrange_eq by (rule decimal.read_range_ordered)

text \<open>The parser of the environment refuses a second dash; on every other text it is the
  parser of the file.\<close>

lemma split_dash_empty: "split_dash [] = None"
  by (simp add: split_dash_def)

lemma parse_hrange_str_eq:
  "parse_hrange_str (Some s) =
    (case split_dash s of
       Some (left, right) \<Rightarrow> if CHR ''-'' \<in> set right then None else parse_hrange s
     | None \<Rightarrow> parse_hrange s)"
  by (auto simp: parse_hrange_str_def parse_hrange_def parse_int_same(3) split_dash_empty parse_uint32_def
      split: option.split)

lemma parse_hrange_str_ordered: "parse_hrange_str s = Some r \<Longrightarrow> hr_min r \<le> hr_max r"
  using parse_hrange_ordered by (cases s) (auto simp: parse_hrange_str_eq parse_hrange_str_def split: option.splits if_splits)

lemma parse_hrange_str_text:
  assumes "hr_min r \<le> hr_max r"
  shows "parse_hrange_str (Some (hrange_text r)) = Some r"
proof -
  have "\<forall>l q. split_dash (hrange_text r) = Some (l, q) \<longrightarrow> CHR ''-'' \<notin> set q"
    using decimal.split_range decimal.shown_dash by (simp add: hrange_text_def)
  then show ?thesis
    using parse_hrange_text [OF assms] by (auto simp: parse_hrange_str_eq split: option.split)
qed

text \<open>A text the file's parser takes and the environment's refuses: the upper end negated in
  64 bits.\<close>

lemma parse_hrange_wraps:
  "parse_hrange ''5--18446744073709551609'' = Some \<lparr>hr_min = 5, hr_max = 7\<rparr>"
  "parse_hrange_str (Some ''5--18446744073709551609'') = None"
  by (simp_all add: parse_hrange_str_eq split_dash_def parse_hrange_def parse_uint32_def strtoul_def
      strto_scan_def is_space_c_def is_digit_c_def dec_val_def digit_val_def)

section \<open>Modes and keys\<close>

lemma keq_lower: "keq as bs \<longleftrightarrow> map lower_c as = map lower_c bs"
  by (induction as bs rule: keq.induct) auto

end
