(* ===== verification/Config_Runtime.thy ===== *)
theory Config_Runtime
  imports Config_Values Base64 Cps Proxy_Control
begin

text \<open>
  \<open>src/config_runtime.c\<close>: filling the configuration from the environment, the list of peer
  keys, and the merge with a configuration file.  \<open>getenv\<close> is a parameter, a map from names
  to texts; a loader returns \<open>Inl\<close> of its \<open>*err_msg\<close> or \<open>Inr\<close> of the
  configuration it leaves (the caller of a failed loader ends the process, so what it left behind
  is not seen).  A field with its \<open>have_\<close> flag in \<open>awg_file_config_t\<close> is an option.
\<close>

type_synonym environment = "string \<Rightarrow> string option"

section \<open>Sequences of steps that can fail\<close>

text \<open>The loaders are sequences of blocks; the first that fails decides the error.\<close>

fun run_steps :: "('c \<Rightarrow> 'e + 'c) list \<Rightarrow> 'c \<Rightarrow> 'e + 'c" where
  "run_steps [] c = Inr c"
| "run_steps (f # fs) c = (case f c of Inl e \<Rightarrow> Inl e | Inr c \<Rightarrow> run_steps fs c)"

section \<open>The environment\<close>

text \<open>The block \<open>cfg->x = default; v = getenv(name); if (v && v[0]) ...\<close>.\<close>

definition env_int ::
  "environment \<Rightarrow> string \<Rightarrow> int \<Rightarrow> (int \<Rightarrow> awg_config_t \<Rightarrow> awg_config_t) \<Rightarrow> awg_config_t \<Rightarrow> string + awg_config_t" where
  "env_int env name dflt put cfg =
    (let v = env name in
     if v = None \<or> v = Some [] then Inr (put dflt cfg)
     else case parse_int_strict v of
         None \<Rightarrow> Inl (name @ '': invalid integer'')
       | Some iv \<Rightarrow> Inr (put iv cfg))"

text \<open>The same block with the test \<open>iv < 0\<close>.\<close>

definition env_nat ::
  "environment \<Rightarrow> string \<Rightarrow> int \<Rightarrow> (int \<Rightarrow> awg_config_t \<Rightarrow> awg_config_t) \<Rightarrow> awg_config_t \<Rightarrow> string + awg_config_t" where
  "env_nat env name dflt put cfg =
    (let v = env name in
     if v = None \<or> v = Some [] then Inr (put dflt cfg)
     else case parse_int_strict v of
         None \<Rightarrow> Inl (name @ '': invalid integer'')
       | Some iv \<Rightarrow> if iv < 0 then Inl (name @ '': must be >= 0'') else Inr (put iv cfg))"

definition load_operational_env :: "environment \<Rightarrow> awg_config_t \<Rightarrow> string + awg_config_t" where
  "load_operational_env env = run_steps [
     env_int env ''AWG_TIMEOUT'' 180 (\<lambda>iv cfg. cfg\<lparr>cf_timeout := iv\<rparr>),
     env_int env ''AWG_REMOTE_SILENT_TIMEOUT'' 0 (\<lambda>iv cfg. cfg\<lparr>cf_remote_silent_timeout := iv\<rparr>),
     env_nat env ''AWG_REMOTE_SILENT_EXIT_TIMEOUT'' 600 (\<lambda>iv cfg. cfg\<lparr>cf_remote_silent_exit_timeout := iv\<rparr>),
     env_nat env ''AWG_CONNECT_RETRIES'' 0 (\<lambda>iv cfg. cfg\<lparr>cf_connect_retries := iv\<rparr>),
     env_nat env ''AWG_DNS_RESOLVE_FAILURE_TIMEOUT'' (12 * 60)
       (\<lambda>iv cfg. cfg\<lparr>cf_dns_resolve_failure_timeout := iv\<rparr>),
     env_int env ''AWG_SOCKET_BUF'' (16 * 1024 * 1024) (\<lambda>iv cfg. cfg\<lparr>cf_socket_buf := iv\<rparr>)]"

text \<open>\<open>AWG_SRC_PORT\<close> has its own parser.\<close>

definition env_src_port :: "environment \<Rightarrow> awg_config_t \<Rightarrow> string + awg_config_t" where
  "env_src_port env cfg =
    (let v = env ''AWG_SRC_PORT'' in
     if v = None \<or> v = Some [] then Inr (cfg\<lparr>cf_src_port := 0\<rparr>)
     else case parse_src_port v of
         None \<Rightarrow> Inl ''AWG_SRC_PORT: invalid integer''
       | Some iv \<Rightarrow> Inr (cfg\<lparr>cf_src_port := iv\<rparr>))"

definition load_network_perf_env :: "environment \<Rightarrow> awg_config_t \<Rightarrow> string + awg_config_t" where
  "load_network_perf_env env = run_steps [
     env_src_port env,
     env_int env ''AWG_SRC_PORT_DRIFT'' 1 (\<lambda>iv cfg. cfg\<lparr>cf_src_port_drift := (if iv \<noteq> 0 then 1 else 0)\<rparr>),
     env_int env ''AWG_CPU_C2S'' (-1) (\<lambda>iv cfg. cfg\<lparr>cf_cpu_c2s := iv\<rparr>),
     env_int env ''AWG_CPU_S2C'' (-1) (\<lambda>iv cfg. cfg\<lparr>cf_cpu_s2c := iv\<rparr>),
     env_int env ''AWG_BUSY_POLL'' 0 (\<lambda>iv cfg. cfg\<lparr>cf_busy_poll := iv\<rparr>),
     env_int env ''AWG_NO_GRO'' 0 (\<lambda>iv cfg. cfg\<lparr>cf_no_gro := iv\<rparr>)]"

text \<open>\<open>parse_int_strict(getenv(name) ? getenv(name) : "0", ...)\<close>: a variable that is set but
  empty is an error here.\<close>

definition env_param ::
  "environment \<Rightarrow> string \<Rightarrow> (int \<Rightarrow> awg_config_t \<Rightarrow> awg_config_t) \<Rightarrow> awg_config_t \<Rightarrow> string + awg_config_t" where
  "env_param env name put cfg =
    (case parse_int_strict (case env name of Some v \<Rightarrow> Some v | None \<Rightarrow> Some ''0'') of
       None \<Rightarrow> Inl (name @ '': invalid integer'')
     | Some iv \<Rightarrow> Inr (put iv cfg))"

definition env_range ::
  "environment \<Rightarrow> string \<Rightarrow> string \<Rightarrow> (hrange_t \<Rightarrow> awg_config_t \<Rightarrow> awg_config_t) \<Rightarrow> awg_config_t
    \<Rightarrow> string + awg_config_t" where
  "env_range env name dflt put cfg =
    (case parse_hrange_str (case env name of Some v \<Rightarrow> Some v | None \<Rightarrow> Some dflt) of
       None \<Rightarrow> Inl (name @ '': invalid range'')
     | Some r \<Rightarrow> Inr (put r cfg))"

definition load_obfuscation_env :: "environment \<Rightarrow> awg_config_t \<Rightarrow> string + awg_config_t" where
  "load_obfuscation_env env = run_steps [
     env_param env ''AWG_JC'' (\<lambda>iv cfg. cfg\<lparr>cf_jc := iv\<rparr>),
     env_param env ''AWG_JMIN'' (\<lambda>iv cfg. cfg\<lparr>cf_jmin := iv\<rparr>),
     env_param env ''AWG_JMAX'' (\<lambda>iv cfg. cfg\<lparr>cf_jmax := iv\<rparr>),
     env_param env ''AWG_S1'' (\<lambda>iv cfg. cfg\<lparr>cf_s1 := iv\<rparr>),
     env_param env ''AWG_S2'' (\<lambda>iv cfg. cfg\<lparr>cf_s2 := iv\<rparr>),
     env_range env ''AWG_H1'' ''1'' (\<lambda>r cfg. cfg\<lparr>cf_h1 := r\<rparr>),
     env_range env ''AWG_H2'' ''2'' (\<lambda>r cfg. cfg\<lparr>cf_h2 := r\<rparr>),
     env_range env ''AWG_H3'' ''3'' (\<lambda>r cfg. cfg\<lparr>cf_h3 := r\<rparr>),
     env_range env ''AWG_H4'' ''4'' (\<lambda>r cfg. cfg\<lparr>cf_h4 := r\<rparr>),
     env_int env ''AWG_S3'' 0 (\<lambda>iv cfg. cfg\<lparr>cf_s3 := iv\<rparr>),
     env_int env ''AWG_S4'' 0 (\<lambda>iv cfg. cfg\<lparr>cf_s4 := iv\<rparr>)]"

definition load_obfs_profile_env :: "environment \<Rightarrow> awg_config_t \<Rightarrow> awg_config_t" where
  "load_obfs_profile_env env cfg = cfg\<lparr>cf_obfs_profile := parse_obfs_profile (env ''AWG_OBFS_PROFILE'')\<rparr>"

text \<open>One iteration; the error is the name of the variable.\<close>

definition env_cps :: "environment \<Rightarrow> string \<Rightarrow> nat \<Rightarrow> awg_config_t \<Rightarrow> string + awg_config_t" where
  "env_cps env name i cfg =
    (case env name of
       None \<Rightarrow> Inr cfg
     | Some v \<Rightarrow> if v = [] then Inr cfg
         else case cps_parse v of
             None \<Rightarrow> Inl name
           | Some t \<Rightarrow> Inr (cfg\<lparr>cf_cps := (cf_cps cfg)[i := Some t]\<rparr>))"

definition load_cps_env :: "environment \<Rightarrow> awg_config_t \<Rightarrow> string + awg_config_t" where
  "load_cps_env env = run_steps
     [env_cps env ''AWG_I1'' 0, env_cps env ''AWG_I2'' 1, env_cps env ''AWG_I3'' 2,
      env_cps env ''AWG_I4'' 3, env_cps env ''AWG_I5'' 4]"

section \<open>Peer keys\<close>

definition is_pub_sep :: "char \<Rightarrow> bool" where
  "is_pub_sep c \<longleftrightarrow> c = CHR '','' \<or> c = CHR '';'' \<or> c = CHR '' '' \<or> c = CHR 0x09 \<or> c = CHR 0x0D
     \<or> c = CHR 0x0A"

definition add_server_peer_pub_unique :: "awg_config_t \<Rightarrow> bytes \<Rightarrow> awg_config_t option" where
  "add_server_peer_pub_unique cfg pub =
    (if pub \<in> set (cf_server_peer_pubs cfg) then Some cfg
     else if length (cf_server_peer_pubs cfg) \<ge> AWG_MAX_SERVER_PEERS then None
     else Some (cfg\<lparr>cf_server_peer_pubs := cf_server_peer_pubs cfg @ [pub]\<rparr>))"

text \<open>The scan for the next token: the token and what follows it.\<close>

definition next_token :: "(char \<Rightarrow> bool) \<Rightarrow> string \<Rightarrow> (string \<times> string) option" where
  "next_token sep p =
    (let p = dropWhile sep p in
     if p = [] then None
     else Some (takeWhile (\<lambda>c. \<not> sep c) p, dropWhile (\<lambda>c. \<not> sep c) p))"

lemma next_token_shorter: "next_token sep p = Some (t, q) \<Longrightarrow> length q < length p"
proof -
  assume n: "next_token sep p = Some (t, q)"
  then obtain c cs where d: "dropWhile sep p = c # cs"
    by (cases "dropWhile sep p") (simp_all add: next_token_def)
  then have "\<not> sep c" using hd_dropWhile [of sep p] by simp
  with n d have "q = dropWhile (\<lambda>c. \<not> sep c) cs" by (simp add: next_token_def)
  then have "length q \<le> length cs" by (simp add: length_dropWhile_le)
  also have "\<dots> < length (dropWhile sep p)" using d by simp
  also have "\<dots> \<le> length p" by (rule length_dropWhile_le)
  finally show ?thesis .
qed

function parse_server_peer_list :: "awg_config_t \<Rightarrow> string \<Rightarrow> awg_config_t option" where
  "parse_server_peer_list cfg p =
    (case next_token is_pub_sep p of
       None \<Rightarrow> Some cfg
     | Some (token, q) \<Rightarrow>
         if length token \<ge> 128 then None
         else case base64_decode token 32 of None \<Rightarrow> None
         | Some pub \<Rightarrow> if length pub \<noteq> 32 then None
           else case add_server_peer_pub_unique cfg pub of None \<Rightarrow> None
           | Some cfg \<Rightarrow> parse_server_peer_list cfg q)"
  by pat_completeness auto
termination
  by (relation "measure (length \<circ> snd)") (auto dest: next_token_shorter)

declare parse_server_peer_list.simps [simp del]

text \<open>What the file calls of \<open>load_server_peer_file\<close> return: whether \<open>fopen\<close>, the two
  \<open>fseek\<close>s and \<open>malloc\<close> succeed, \<open>ftell\<close>'s result, and the bytes \<open>fread\<close> stores,
  whose number it returns.\<close>

record file_env =
  fe_open :: bool
  fe_seek_end :: bool
  fe_tell :: int
  fe_seek_set :: bool
  fe_malloc :: bool
  fe_read :: string

definition load_server_peer_file :: "awg_config_t \<Rightarrow> string \<Rightarrow> file_env \<Rightarrow> awg_config_t option" where
  "load_server_peer_file cfg path e =
    (if path = [] then None
     else if \<not> fe_open e then None
     else if \<not> fe_seek_end e then None
     else let size = fe_tell e in
       if size < 0 \<or> size > 1024 * 1024 then None
       else if \<not> fe_seek_set e then None
       else if \<not> fe_malloc e then None
       else if size > 0 \<and> int (length (fe_read e)) \<noteq> size then None
       else let buf = (if size > 0 then fe_read e else []) @ [CHR 0x00] in
         parse_server_peer_list cfg (c_str buf))"

section \<open>Merging with the file\<close>

text \<open>\<open>strncpy(out, s, sz - 1); out[sz - 1] = 0\<close> as a C string.\<close>

definition copy_text :: "string \<Rightarrow> nat \<Rightarrow> string" where
  "copy_text s sz = take (sz - 1) s"

definition merge_endpoint_values ::
  "string option \<Rightarrow> string option \<Rightarrow> string option \<Rightarrow> bool \<Rightarrow> string option \<Rightarrow> bool \<Rightarrow> nat \<Rightarrow> nat
    \<Rightarrow> (string \<times> string) option" where
  "merge_endpoint_values env_listen env_remote file_listen file_have_listen file_remote file_have_remote
      listen_out_sz remote_out_sz =
    (if listen_out_sz = 0 \<or> remote_out_sz = 0 then None
     else
       let given = (\<lambda>v. v \<noteq> None \<and> v \<noteq> Some []);
           listen_out = [];
           remote_out = [];
           listen_out = (if given env_listen then copy_text (the env_listen) listen_out_sz else listen_out);
           remote_out = (if given env_remote then copy_text (the env_remote) remote_out_sz else remote_out);
           listen_out = (if file_have_listen \<and> given file_listen then copy_text (the file_listen) listen_out_sz
             else listen_out);
           remote_out = (if file_have_remote \<and> given file_remote then copy_text (the file_remote) remote_out_sz
             else remote_out)
       in Some (listen_out, remote_out))"

definition select_dns_value :: "string option \<Rightarrow> string option \<Rightarrow> bool \<Rightarrow> string option" where
  "select_dns_value env_dns file_dns file_have_dns =
    (if file_have_dns \<and> file_dns \<noteq> None \<and> file_dns \<noteq> Some [] then file_dns
     else if env_dns \<noteq> None \<and> env_dns \<noteq> Some [] then env_dns
     else None)"

record awg_file_config_t =
  fc_jc :: "int option"
  fc_jmin :: "int option"
  fc_jmax :: "int option"
  fc_s1 :: "int option"
  fc_s2 :: "int option"
  fc_s3 :: "int option"
  fc_s4 :: "int option"
  fc_h1 :: "hrange_t option"
  fc_h2 :: "hrange_t option"
  fc_h3 :: "hrange_t option"
  fc_h4 :: "hrange_t option"
  fc_cps :: "cps_template_t option list"
  fc_client_pub :: "bytes option"
  fc_listen :: "string option"
  fc_dns :: "string option"
  fc_server_pub :: "bytes option"
  fc_endpoint :: "string option"
  fc_keepalive :: "int option"
  fc_peer_pubs :: "bytes list"

text \<open>\<open>if (file_cfg->have_x) cfg->x = file_cfg->x;\<close>\<close>

definition override :: "'a option \<Rightarrow> ('a \<Rightarrow> 'c \<Rightarrow> 'c) \<Rightarrow> 'c \<Rightarrow> 'c" where
  "override v put cfg = (case v of Some x \<Rightarrow> put x cfg | None \<Rightarrow> cfg)"

definition apply_file_obfuscation_overrides :: "awg_config_t \<Rightarrow> awg_file_config_t \<Rightarrow> awg_config_t" where
  "apply_file_obfuscation_overrides cfg fc =
    (let cfg = override (fc_jc fc) (\<lambda>v c. c\<lparr>cf_jc := v\<rparr>) cfg;
         cfg = override (fc_jmin fc) (\<lambda>v c. c\<lparr>cf_jmin := v\<rparr>) cfg;
         cfg = override (fc_jmax fc) (\<lambda>v c. c\<lparr>cf_jmax := v\<rparr>) cfg;
         cfg = override (fc_s1 fc) (\<lambda>v c. c\<lparr>cf_s1 := v\<rparr>) cfg;
         cfg = override (fc_s2 fc) (\<lambda>v c. c\<lparr>cf_s2 := v\<rparr>) cfg;
         cfg = override (fc_s3 fc) (\<lambda>v c. c\<lparr>cf_s3 := v\<rparr>) cfg;
         cfg = override (fc_s4 fc) (\<lambda>v c. c\<lparr>cf_s4 := v\<rparr>) cfg;
         cfg = override (fc_h1 fc) (\<lambda>v c. c\<lparr>cf_h1 := v\<rparr>) cfg;
         cfg = override (fc_h2 fc) (\<lambda>v c. c\<lparr>cf_h2 := v\<rparr>) cfg;
         cfg = override (fc_h3 fc) (\<lambda>v c. c\<lparr>cf_h3 := v\<rparr>) cfg
     in override (fc_h4 fc) (\<lambda>v c. c\<lparr>cf_h4 := v\<rparr>) cfg)"

section \<open>The resolver file\<close>

definition is_dns_sep :: "char \<Rightarrow> bool" where
  "is_dns_sep c \<longleftrightarrow> c = CHR '' '' \<or> c = CHR 0x09 \<or> c = CHR '',''"

function nameserver_lines :: "string \<Rightarrow> string" where
  "nameserver_lines p =
    (case next_token is_dns_sep p of
       None \<Rightarrow> []
     | Some (start, q) \<Rightarrow>
         (if length start > 0 \<and> length start < 64 then ''nameserver '' @ start @ [CHR 0x0A] else [])
           @ nameserver_lines q)"
  by pat_completeness auto
termination
  by (relation "measure length") (auto dest: next_token_shorter)

declare nameserver_lines.simps [simp del]

text \<open>The result is the return value and, when the file was opened, what is printed to it.\<close>

definition write_dns_resolv_conf :: "string option \<Rightarrow> string option \<Rightarrow> bool \<Rightarrow> bool \<Rightarrow> int \<times> string option" where
  "write_dns_resolv_conf path dns_str opened closed_ok =
    (if path = None \<or> path = Some [] \<or> dns_str = None \<or> dns_str = Some [] then (-1, None)
     else if \<not> opened then (-1, None)
     else if \<not> closed_ok then (-1, Some (nameserver_lines (the dns_str)))
     else (0, Some (nameserver_lines (the dns_str))))"

end
