(* ===== verification/X25519.thy ===== *)
theory X25519
  imports AWG_Base
begin

text \<open>
  The X25519 function of RFC 7748, the specification of \<open>curve25519_public_key\<close>: the
  Montgomery ladder over the integers modulo \<open>2 ^ 255 - 19\<close>, written as the RFC's pseudocode.
  Beside it the facts both implementations (curve25519.c for compilers with a 128-bit integer,
  curve25519_fiat32.c for the others) share: congruence modulo the prime, exact arithmetic of
  machine words with tracked bounds, and the laws of a limb arithmetic as a locale, with the
  addition chain of the inversion proved in it.
\<close>

section \<open>The field\<close>

definition p25519 :: int where
  "p25519 = 2 ^ 255 - 19"

lemma p25519_pos [simp]: "0 < p25519"
  by (simp add: p25519_def)

definition eqm :: "int \<Rightarrow> int \<Rightarrow> bool" where
  "eqm a b \<longleftrightarrow> a mod p25519 = b mod p25519"

named_theorems eqm_intros \<open>congruence modulo the prime\<close>

lemma eqm_refl [simp, eqm_intros]: "eqm a a"
  by (simp add: eqm_def)

lemma eqm_sym: "eqm a b \<Longrightarrow> eqm b a"
  by (simp add: eqm_def)

lemma eqm_trans: "eqm a b \<Longrightarrow> eqm b c \<Longrightarrow> eqm a c"
  by (simp add: eqm_def)

lemma eqm_add [eqm_intros]: "eqm a b \<Longrightarrow> eqm c d \<Longrightarrow> eqm (a + c) (b + d)"
  unfolding eqm_def by (metis mod_add_eq)

lemma eqm_diff [eqm_intros]: "eqm a b \<Longrightarrow> eqm c d \<Longrightarrow> eqm (a - c) (b - d)"
  unfolding eqm_def by (metis mod_diff_eq)

lemma eqm_mult [eqm_intros]: "eqm a b \<Longrightarrow> eqm c d \<Longrightarrow> eqm (a * c) (b * d)"
  unfolding eqm_def by (metis mod_mult_eq)

lemma eqm_power [eqm_intros]: "eqm a b \<Longrightarrow> eqm (a ^ n) (b ^ n)"
  unfolding eqm_def by (metis power_mod)

lemma eqm_mod [simp]: "eqm (a mod p25519) b = eqm a b" "eqm a (b mod p25519) = eqm a b"
  by (simp_all add: eqm_def)

lemma eqm_multiple: "a = b + p25519 * k \<Longrightarrow> eqm a b"
  by (simp add: eqm_def)

section \<open>The function of RFC 7748\<close>

text \<open>One iteration of the ladder, on \<open>(x_2, z_2, x_3, z_3)\<close>; \<open>a24\<close> is 121665.\<close>

type_synonym ladder = "int \<times> int \<times> int \<times> int"

fun rfc_step :: "int \<Rightarrow> ladder \<Rightarrow> ladder" where
  "rfc_step x1 (x2, z2, x3, z3) =
    (let A = x2 + z2; AA = A ^ 2; B = x2 - z2; BB = B ^ 2; E = AA - BB;
         C = x3 + z3; D = x3 - z3; DA = D * A; CB = C * B
     in ((AA * BB) mod p25519, (E * (AA + 121665 * E)) mod p25519,
         ((DA + CB) ^ 2) mod p25519, (x1 * (DA - CB) ^ 2) mod p25519))"

fun rfc_cswap :: "bool \<Rightarrow> ladder \<Rightarrow> ladder" where
  "rfc_cswap s (x2, z2, x3, z3) = (if s then (x3, z3, x2, z2) else (x2, z2, x3, z3))"

text \<open>The bits \<open>t - 1\<close> down to \<open>0\<close> of the scalar; \<open>swap\<close> is the pending exchange.\<close>

primrec rfc_loop :: "int \<Rightarrow> nat \<Rightarrow> nat \<Rightarrow> ladder \<Rightarrow> bool \<Rightarrow> ladder" where
  "rfc_loop x1 k 0 s swap = rfc_cswap swap s"
| "rfc_loop x1 k (Suc t) s swap =
     rfc_loop x1 k t (rfc_step x1 (rfc_cswap (swap \<noteq> bit k t) s)) (bit k t)"

definition rfc_ladder :: "nat \<Rightarrow> nat \<Rightarrow> int \<Rightarrow> ladder" where
  "rfc_ladder bits k u = rfc_loop u k bits (1, 0, u, 1) False"

definition rfc_quotient :: "ladder \<Rightarrow> int" where
  "rfc_quotient s = (case s of (x2, z2, _) \<Rightarrow> (x2 * z2 ^ (2 ^ 255 - 21)) mod p25519)"

text \<open>\<open>decodeScalar25519\<close> makes the private key a multiple of 8 between \<open>2 ^ 254\<close> and
  \<open>2 ^ 255\<close>, \<open>decodeUCoordinate\<close> ignores the top bit of the coordinate.\<close>

definition rfc_decode_scalar :: "bytes \<Rightarrow> nat" where
  "rfc_decode_scalar k = 2 ^ 254 + 8 * (le_val k div 8 mod 2 ^ 251)"

definition rfc_decode_u :: "bytes \<Rightarrow> int" where
  "rfc_decode_u bs = int (le_val bs mod 2 ^ 255)"

definition rfc_encode_u :: "int \<Rightarrow> bytes" where
  "rfc_encode_u x = le_bytes 32 (nat (x mod p25519))"

definition x25519 :: "bytes \<Rightarrow> bytes \<Rightarrow> bytes" where
  "x25519 k u = rfc_encode_u (rfc_quotient
     (rfc_ladder 255 (rfc_decode_scalar k) (rfc_decode_u u)))"

text \<open>\<open>curve25519_clamp_secret\<close> of \<open>src/curve25519.c\<close>, which both implementations call.\<close>

definition curve25519_clamp_secret :: "bytes \<Rightarrow> bytes" where
  "curve25519_clamp_secret s =
     (let s = s[0 := s ! 0 AND 248]; s = s[31 := s ! 31 AND 127]
      in s[31 := s ! 31 OR 64])"

section \<open>The ladder modulo the prime\<close>

text \<open>Two ladders are the same modulo the prime; exchanging before and after every step is
  the RFC's delayed exchange.\<close>

fun eqm_ladder :: "ladder \<Rightarrow> ladder \<Rightarrow> bool" where
  "eqm_ladder (a, b, c, d) (a', b', c', d') \<longleftrightarrow> eqm a a' \<and> eqm b b' \<and> eqm c c' \<and> eqm d d'"

lemma eqm_ladder_refl [simp]: "eqm_ladder s s"
  by (cases s) simp

lemma eqm_ladder_trans: "eqm_ladder a b \<Longrightarrow> eqm_ladder b c \<Longrightarrow> eqm_ladder a c"
  by (cases a; cases b; cases c) (auto intro: eqm_trans)

lemma eqm_cswap: "eqm_ladder s s' \<Longrightarrow> eqm_ladder (rfc_cswap b s) (rfc_cswap b s')"
  by (cases s; cases s') auto

lemma eqm_step:
  assumes "eqm x1 x1'" and "eqm_ladder s s'"
  shows "eqm_ladder (rfc_step x1 s) (rfc_step x1' s')"
  using assms by (cases s; cases s') (auto simp: Let_def intro!: eqm_intros)

lemma rfc_cswap_twice [simp]: "rfc_cswap a (rfc_cswap b s) = rfc_cswap (a \<noteq> b) s"
  by (cases s) auto

lemma rfc_cswap_False [simp]: "rfc_cswap False s = s"
  by (cases s) auto

definition ladder_bit :: "int \<Rightarrow> bool \<Rightarrow> ladder \<Rightarrow> ladder" where
  "ladder_bit x1 b s = rfc_cswap b (rfc_step x1 (rfc_cswap b s))"

primrec ladder_bits :: "int \<Rightarrow> nat \<Rightarrow> nat \<Rightarrow> ladder \<Rightarrow> ladder" where
  "ladder_bits x1 k 0 s = s"
| "ladder_bits x1 k (Suc t) s = ladder_bits x1 k t (ladder_bit x1 (bit k t) s)"

lemma rfc_loop_bits: "rfc_loop x1 k t s swap = ladder_bits x1 k t (rfc_cswap swap s)"
proof (induction t arbitrary: s swap)
  case (Suc t)
  have "(swap \<noteq> bit k t) = (bit k t \<noteq> swap)" by auto
  then show ?case by (simp add: Suc ladder_bit_def)
qed simp

lemma eqm_ladder_bit: "eqm x1 x1' \<Longrightarrow> eqm_ladder s s' \<Longrightarrow> eqm_ladder (ladder_bit x1 b s) (ladder_bit x1' b s')"
  unfolding ladder_bit_def by (intro eqm_cswap eqm_step)

lemma eqm_ladder_bits:
  "eqm x1 x1' \<Longrightarrow> eqm_ladder s s' \<Longrightarrow> eqm_ladder (ladder_bits x1 k t s) (ladder_bits x1' k t s')"
  by (induction t arbitrary: s s') (simp_all add: eqm_ladder_bit)

lemma rfc_quotient_cong: "eqm_ladder s s' \<Longrightarrow> rfc_quotient s = rfc_quotient s'"
  by (cases s; cases s') (simp add: rfc_quotient_def eqm_mult eqm_power flip: eqm_def)

section \<open>Words with tracked bounds\<close>

text \<open>\<open>rep w x B\<close>: the word \<open>w\<close> holds the integer \<open>x\<close>, which is at most \<open>B\<close>.  The rules
  compute value and bound of an expression; a rule applies only where the operation does not
  wrap, so a derivation is also the proof that nothing overflows.\<close>

definition rep :: "'a::len word \<Rightarrow> int \<Rightarrow> int \<Rightarrow> bool" where
  "rep w x B \<longleftrightarrow> uint w = x \<and> x \<le> B"

named_theorems reps \<open>value and bound of a word expression\<close>

lemma repD: "rep w x B \<Longrightarrow> uint w = x" "rep w x B \<Longrightarrow> 0 \<le> x" "rep w x B \<Longrightarrow> x \<le> B"
  by (auto simp: rep_def)

lemma rep_uint: "uint w \<le> B \<Longrightarrow> rep w (uint w) B"
  by (simp add: rep_def)

lemma rep_mono: "rep w x B \<Longrightarrow> B \<le> B' \<Longrightarrow> rep w x B'"
  by (simp add: rep_def)

lemma rep_add [reps]:
  fixes a :: "'a::len word"
  assumes "rep a x A" "rep b y B" "A + B < 2 ^ LENGTH('a)"
  shows "rep (a + b) (x + y) (A + B)"
proof -
  have "uint a + uint b < 2 ^ LENGTH('a)" using assms by (simp add: rep_def)
  then have "uint (a + b) = uint a + uint b" by (simp add: uint_word_ariths)
  with assms show ?thesis by (simp add: rep_def)
qed

lemma rep_mult [reps]:
  fixes a :: "'a::len word"
  assumes "rep a x A" "rep b y B" "A * B < 2 ^ LENGTH('a)"
  shows "rep (a * b) (x * y) (A * B)"
proof -
  have m: "x * y \<le> A * B" using repD [OF assms(1)] repD [OF assms(2)] by (intro mult_mono) auto
  moreover have "0 \<le> x * y" using repD(2) [OF assms(1)] repD(2) [OF assms(2)] by simp
  ultimately have "uint (a * b) = x * y" using assms by (simp add: uint_word_ariths rep_def)
  with m show ?thesis by (simp add: rep_def)
qed

lemma rep_diff:
  fixes a :: "'a::len word"
  assumes "rep a x A" "rep b y B" "y \<le> x"
  shows "rep (a - b) (x - y) A"
proof -
  have "uint (a - b) = uint a - uint b"
    using assms by (intro uint_sub_lem [THEN iffD1]) (simp add: rep_def)
  with assms show ?thesis using repD(2) [OF assms(2)] by (simp add: rep_def)
qed

lemma rep_numeral [reps]:
  "numeral n < (2 :: int) ^ LENGTH('a::len) \<Longrightarrow> rep (numeral n :: 'a word) (numeral n) (numeral n)"
  by (simp add: rep_def uint_numeral take_bit_int_eq_self)

lemma rep_0 [reps]: "rep 0 0 0" and rep_1 [reps]: "rep 1 1 1"
  by (simp_all add: rep_def)

lemma rep_drop [reps]: "rep a x A \<Longrightarrow> rep (drop_bit n a) (x div 2 ^ n) (A div 2 ^ n)"
proof -
  assume a: "rep a x A"
  have "uint (drop_bit n a) = uint a div 2 ^ n"
    unfolding unsigned_drop_bit_eq by (simp add: drop_bit_eq_div take_bit_int_eq_self)
  with a show ?thesis by (auto simp: rep_def intro: zdiv_mono1)
qed

lemma rep_mask [reps]: "rep a x A \<Longrightarrow> m = mask n \<Longrightarrow> rep (a AND m) (x mod 2 ^ n) (2 ^ n - 1)"
proof -
  assume a: "rep a x A" and m: "m = mask n"
  have "uint (a AND m) = take_bit n (uint a)"
    by (simp add: m unsigned_take_bit_eq flip: take_bit_eq_mask)
  with a show ?thesis by (simp add: rep_def take_bit_eq_mod)
qed

lemma rep_ucast_up [reps]:
  fixes a :: "'a::len word"
  shows "rep a x A \<Longrightarrow> A < 2 ^ LENGTH('b) \<Longrightarrow> rep (ucast a :: 'b::len word) x A"
  using repD(2) [of a x A] by (auto simp: rep_def unsigned_ucast_eq take_bit_int_eq_self)

lemma rep_push [reps]:
  fixes a :: "'a::len word"
  assumes "rep a x A" "A * 2 ^ n < 2 ^ LENGTH('a)"
  shows "rep (push_bit n a) (x * 2 ^ n) (A * 2 ^ n)"
proof -
  have "x * 2 ^ n \<le> A * 2 ^ n" using assms by (simp add: rep_def)
  with assms show ?thesis
    using repD(2) [OF assms(1)]
    by (auto simp: rep_def unsigned_push_bit_eq push_bit_eq_mult take_bit_int_eq_self simp flip: push_bit_eq_mult)
qed

text \<open>A local variable of the code keeps its value and bound.\<close>

lemma rep_let:
  "rep e x B \<Longrightarrow> (\<And>v y. rep v y B \<Longrightarrow> y = x \<Longrightarrow> P (f v)) \<Longrightarrow> P (let v = e in f v)"
  by simp

section \<open>The laws of a limb arithmetic\<close>

text \<open>What both implementations promise of their field elements: products, squares and small
  multiples of loose elements are tight, sums and differences of tight ones are loose, and every
  operation is the field operation modulo the prime.\<close>

locale limb_field =
  fixes val :: "'f \<Rightarrow> int" and tight loose :: "'f \<Rightarrow> bool"
    and mul add sub :: "'f \<Rightarrow> 'f \<Rightarrow> 'f" and sqr scale :: "'f \<Rightarrow> 'f" and c :: int
  assumes tight_loose: "tight a \<Longrightarrow> loose a"
    and mul_tight: "loose a \<Longrightarrow> loose b \<Longrightarrow> tight (mul a b)"
    and mul_val: "loose a \<Longrightarrow> loose b \<Longrightarrow> eqm (val (mul a b)) (val a * val b)"
    and sqr_tight: "loose a \<Longrightarrow> tight (sqr a)"
    and sqr_val: "loose a \<Longrightarrow> eqm (val (sqr a)) (val a * val a)"
    and scale_tight: "loose a \<Longrightarrow> tight (scale a)"
    and scale_val: "loose a \<Longrightarrow> eqm (val (scale a)) (c * val a)"
    and add_loose: "tight a \<Longrightarrow> tight b \<Longrightarrow> loose (add a b)"
    and add_val: "tight a \<Longrightarrow> tight b \<Longrightarrow> eqm (val (add a b)) (val a + val b)"
    and sub_loose: "tight a \<Longrightarrow> tight b \<Longrightarrow> loose (sub a b)"
    and sub_val: "tight a \<Longrightarrow> tight b \<Longrightarrow> eqm (val (sub a b)) (val a - val b)"
begin

lemmas bounds = tight_loose mul_tight sqr_tight scale_tight add_loose sub_loose

lemma mul_eqm: "loose a \<Longrightarrow> loose b \<Longrightarrow> eqm (val a) x \<Longrightarrow> eqm (val b) y \<Longrightarrow> eqm (val (mul a b)) (x * y)"
  by (rule eqm_trans [OF mul_val]) (simp_all add: eqm_mult)

lemma sqr_eqm: "loose a \<Longrightarrow> eqm (val a) x \<Longrightarrow> eqm (val (sqr a)) (x * x)"
  by (rule eqm_trans [OF sqr_val]) (simp_all add: eqm_mult)

lemma scale_eqm: "loose a \<Longrightarrow> eqm (val a) x \<Longrightarrow> eqm (val (scale a)) (c * x)"
  by (rule eqm_trans [OF scale_val]) (simp_all add: eqm_mult)

lemma add_eqm: "tight a \<Longrightarrow> tight b \<Longrightarrow> eqm (val a) x \<Longrightarrow> eqm (val b) y \<Longrightarrow> eqm (val (add a b)) (x + y)"
  by (rule eqm_trans [OF add_val]) (simp_all add: eqm_add)

lemma sub_eqm: "tight a \<Longrightarrow> tight b \<Longrightarrow> eqm (val a) x \<Longrightarrow> eqm (val b) y \<Longrightarrow> eqm (val (sub a b)) (x - y)"
  by (rule eqm_trans [OF sub_val]) (simp_all add: eqm_diff)

lemmas eqms = mul_eqm sqr_eqm scale_eqm add_eqm sub_eqm

text \<open>Powers: \<open>pow z k x\<close> in the proofs below is \<open>eqm (val x) (val z ^ k)\<close>.\<close>

lemma power_mul:
  assumes "loose a" "loose b" "eqm (val a) (v ^ m)" "eqm (val b) (v ^ n)" "k = m + n"
  shows "tight (mul a b) \<and> eqm (val (mul a b)) (v ^ k)"
  using mul_eqm [OF assms(1-4)] assms(5) mul_tight [OF assms(1,2)] by (simp add: power_add)

lemma power_squares:
  assumes "loose a" "eqm (val a) (v ^ m)" "k = m * 2 ^ n"
  shows "loose ((sqr ^^ n) a) \<and> eqm (val ((sqr ^^ n) a)) (v ^ k)"
  using assms(3)
proof (induction n arbitrary: k)
  case 0
  with assms show ?case by simp
next
  case (Suc n)
  from Suc.IH [OF refl] have l: "loose ((sqr ^^ n) a)" "eqm (val ((sqr ^^ n) a)) (v ^ (m * 2 ^ n))" by auto
  have "k = m * 2 ^ n + m * 2 ^ n" by (simp add: Suc.prems)
  then show ?case
    using sqr_eqm [OF l] sqr_tight [OF l(1)] by (simp only: funpow.simps comp_apply power_add tight_loose)
qed

lemma squares_tight: "loose a \<Longrightarrow> 0 < n \<Longrightarrow> tight ((sqr ^^ n) a)"
  using power_squares [of a "val a" 1 _ "n - 1"] by (cases n) (auto intro: sqr_tight)

text \<open>The addition chain for \<open>z ^ (p - 2)\<close>: the exponents are 2, 8, 9, 11, 22, 31 and then
  \<open>2 ^ 10 - 1\<close>, \<open>2 ^ 20 - 1\<close>, \<open>2 ^ 40 - 1\<close>, \<open>2 ^ 50 - 1\<close>, \<open>2 ^ 100 - 1\<close>,
  \<open>2 ^ 200 - 1\<close>, \<open>2 ^ 250 - 1\<close>.\<close>

lemma inversion_chain:
  assumes z: "loose z"
    and a: "a = sqr z" and e9: "e9 = mul ((sqr ^^ 2) a) z \<or> e9 = mul z ((sqr ^^ 2) a)"
    and e11: "e11 = mul e9 a \<or> e11 = mul a e9"
    and e31: "e31 = mul (sqr e11) e9 \<or> e31 = mul e9 (sqr e11)"
    and e10: "e10 = mul ((sqr ^^ 5) e31) e31" and e20: "e20 = mul ((sqr ^^ 10) e10) e10"
    and e40: "e40 = mul ((sqr ^^ 20) e20) e20" and e50: "e50 = mul ((sqr ^^ 10) e40) e10"
    and e100: "e100 = mul ((sqr ^^ 50) e50) e50" and e200: "e200 = mul ((sqr ^^ 100) e100) e100"
    and e250: "e250 = mul ((sqr ^^ 50) e200) e50"
  shows "tight (mul ((sqr ^^ 5) e250) e11)
    \<and> eqm (val (mul ((sqr ^^ 5) e250) e11)) (val z ^ (2 ^ 255 - 21))"
proof -
  let ?P = "\<lambda>k x. loose x \<and> eqm (val x) (val z ^ k)"
  have mul: "?P (m + n) (mul x y)" if "?P m x" "?P n y" for m n x y
    using power_mul [of x y "val z" m n] that tight_loose by auto
  have sq: "?P (m * 2 ^ n) ((sqr ^^ n) x)" if "?P m x" for m n x
    using power_squares [of x "val z" m] that by auto
  have z1: "?P 1 z" using z by simp
  have 2: "?P 2 a" using sq [OF z1, of 1] by (simp add: a)
  have 9: "?P 9 e9" using mul [OF sq [OF 2, of 2] z1] mul [OF z1 sq [OF 2, of 2]] e9 by auto
  have 11: "?P 11 e11" using mul [OF 9 2] mul [OF 2 9] e11 by auto
  have 31: "?P 31 e31" using mul [OF sq [OF 11, of 1] 9] mul [OF 9 sq [OF 11, of 1]] e31 by auto
  have 10: "?P (2 ^ 10 - 1) e10" using mul [OF sq [OF 31, of 5] 31] by (simp add: e10)
  have 20: "?P (2 ^ 20 - 1) e20" using mul [OF sq [OF 10, of 10] 10] by (simp add: e20)
  have 40: "?P (2 ^ 40 - 1) e40" using mul [OF sq [OF 20, of 20] 20] by (simp add: e40)
  have 50: "?P (2 ^ 50 - 1) e50" using mul [OF sq [OF 40, of 10] 10] by (simp add: e50)
  have 100: "?P (2 ^ 100 - 1) e100" using mul [OF sq [OF 50, of 50] 50] by (simp add: e100)
  have 200: "?P (2 ^ 200 - 1) e200" using mul [OF sq [OF 100, of 100] 100] by (simp add: e200)
  have 250: "?P (2 ^ 250 - 1) e250" using mul [OF sq [OF 200, of 50] 50] by (simp add: e250)
  have l: "loose ((sqr ^^ 5) e250)" "loose e11" using sq [OF 250] 11 by auto
  have "?P ((2 ^ 250 - 1) * 2 ^ 5 + 11) (mul ((sqr ^^ 5) e250) e11)" by (rule mul [OF sq [OF 250] 11])
  moreover have "(2 ^ 250 - 1) * 2 ^ 5 + 11 = (2 ^ 255 - 21 :: nat)" by simp
  ultimately show ?thesis using mul_tight [OF l] by simp
qed

text \<open>One iteration of the ladder.  The implementations differ in the order of some operands and in
  the constant: \<open>AA + 121665 E\<close> is \<open>BB + 121666 E\<close>.\<close>

lemma ladder_step:
  assumes t: "tight x" "tight z" "tight xp" "tight zp" "tight q"
    and A: "A = add x z" and B: "B = sub x z" and C: "C = add xp zp" and D: "D = sub xp zp"
    and CB: "CB = mul C B" and DA: "DA = mul D A \<or> DA = mul A D"
    and S: "S = add DA CB \<or> S = add CB DA" and T: "T = sub DA CB \<or> T = sub CB DA"
    and AA: "AA = sqr A" and BB: "BB = sqr B" and E: "E = sub AA BB"
    and F: "c = 121665 \<and> F = add (scale E) AA \<or> c = 121666 \<and> F = add BB (scale E)"
    and G: "G = mul F E \<or> G = mul E F" and H: "H = mul (sqr T) q \<or> H = mul q (sqr T)"
  shows "tight (mul AA BB) \<and> tight G \<and> tight (sqr S) \<and> tight H"
    and "eqm_ladder (val (mul AA BB), val G, val (sqr S), val H) (rfc_step (val q) (val x, val z, val xp, val zp))"
proof -
  let ?a = "val x + val z" let ?b = "val x - val z" let ?c = "val xp + val zp" let ?d = "val xp - val zp"
  let ?P = "\<lambda>f v. tight f \<and> eqm (val f) v" let ?L = "\<lambda>f v. loose f \<and> eqm (val f) v"
  have mul: "?P (mul f g) (v * w)" if "?L f v" "?L g w" for f g v w using that mul_tight mul_eqm by blast
  have sqr: "?P (sqr f) (v\<^sup>2)" if "?L f v" for f v using that sqr_tight sqr_eqm by (auto simp: power2_eq_square)
  have scale: "?P (scale f) (c * v)" if "?L f v" for f v using that scale_tight scale_eqm by blast
  have add: "?L (add f g) (v + w)" if "?P f v" "?P g w" for f g v w using that add_loose add_eqm by blast
  have sub: "?L (sub f g) (v - w)" if "?P f v" "?P g w" for f g v w using that sub_loose sub_eqm by blast
  have L: "?L f v" if "?P f v" for f v using that tight_loose by blast
  have P: "?P f (val f)" if "tight f" for f using that by simp
  have v: "?L A ?a" "?L B ?b" "?L C ?c" "?L D ?d" unfolding A B C D by (intro add sub P t)+
  have cb: "?P CB (?c * ?b)" unfolding CB by (rule mul [OF v(3,2)])
  have da: "?P DA (?d * ?a)" using DA mul [OF v(4,1)] mul [OF v(1,4)] by (auto simp: mult.commute)
  have s: "?L S (?d * ?a + ?c * ?b)" using S add [OF da cb] add [OF cb da] by (auto simp: add.commute)
  have aa: "?P AA (?a\<^sup>2)" and bb: "?P BB (?b\<^sup>2)" unfolding AA BB by (rule sqr [OF v(1)], rule sqr [OF v(2)])
  have e: "?L E (?a\<^sup>2 - ?b\<^sup>2)" unfolding E by (rule sub [OF aa bb])
  have f: "?L F (?a\<^sup>2 + 121665 * (?a\<^sup>2 - ?b\<^sup>2))"
    using F
  proof
    assume "c = 121665 \<and> F = add (scale E) AA"
    then show ?thesis using add [OF scale [OF e] aa] by (simp add: add.commute)
  next
    assume "c = 121666 \<and> F = add BB (scale E)"
    then show ?thesis using add [OF bb scale [OF e]] by (simp add: algebra_simps)
  qed
  have g: "?P G ((?a\<^sup>2 - ?b\<^sup>2) * (?a\<^sup>2 + 121665 * (?a\<^sup>2 - ?b\<^sup>2)))" using G mul [OF e f] mul [OF f e] by (auto simp: mult.commute)
  have t2: "?L (sqr T) ((?d * ?a - ?c * ?b)\<^sup>2)"
    using T L [OF sqr [OF sub [OF da cb]]] L [OF sqr [OF sub [OF cb da]]] by (auto simp: power2_commute)
  have h: "?P H (val q * (?d * ?a - ?c * ?b)\<^sup>2)"
    using H
  proof
    assume "H = mul (sqr T) q"
    then show ?thesis using mul [OF t2 L [OF P [OF t(5)]]] by (simp only: mult.commute)
  next
    assume "H = mul q (sqr T)"
    then show ?thesis using mul [OF L [OF P [OF t(5)]] t2] by simp
  qed
  note o = mul [OF L [OF aa] L [OF bb]] g sqr [OF s] h
  then show "tight (mul AA BB) \<and> tight G \<and> tight (sqr S) \<and> tight H" by blast
  show "eqm_ladder (val (mul AA BB), val G, val (sqr S), val H) (rfc_step (val q) (val x, val z, val xp, val zp))"
    unfolding rfc_step.simps Let_def eqm_ladder.simps eqm_mod using o by blast
qed

end

end
