(* ===== verification/Curve25519.thy ===== *)
theory Curve25519
  imports X25519
begin

text \<open>
  src/curve25519.c with a 128-bit integer: field elements of five 51-bit limbs in 64-bit
  words, products in 128-bit words.  An array \<open>u64[5]\<close> is a \<open>five\<close>; a function that writes
  through a pointer returns the new value.  Every caller passes disjoint buffers or the output
  as an input that has been copied before the first write, and the scratch buffers are
  overwritten before they are read, so no value flows through an alias.  \<open>memzero_explicit\<close>
  only clears dead locals.  A name that ends in an underscore in C loses it here
  (\<open>fsquare_fsquare_wide\<close> is \<open>fsquare_fsquare__\<close>).
\<close>

type_synonym u128 = "128 word"

datatype 'a five = Five 'a 'a 'a 'a 'a

type_synonym felem = "u64 five"

section \<open>Masks\<close>

definition u64_eq_mask :: "u64 \<Rightarrow> u64 \<Rightarrow> u64" where
  "u64_eq_mask a b =
    (let x = a XOR b;
         minus_x = NOT x + 1;
         x_or_minus_x = x OR minus_x;
         xnx = drop_bit 63 x_or_minus_x
     in xnx - 1)"

definition u64_gte_mask :: "u64 \<Rightarrow> u64 \<Rightarrow> u64" where
  "u64_gte_mask a b =
    (let x = a; y = b;
         x_xor_y = x XOR y;
         x_sub_y = x - y;
         x_sub_y_xor_y = x_sub_y XOR y;
         q = x_xor_y OR x_sub_y_xor_y;
         x_xor_q = x XOR q;
         x_xor_q' = drop_bit 63 x_xor_q
     in x_xor_q' - 1)"

section \<open>Field arithmetic\<close>

fun modulo_carry_top :: "felem \<Rightarrow> felem" where
  "modulo_carry_top (Five b0 b1 b2 b3 b4) =
    Five (b0 + 19 * drop_bit 51 b4) b1 b2 b3 (b4 AND 0x7ffffffffffff)"

fun fproduct_copy_from_wide :: "u128 five \<Rightarrow> felem" where
  "fproduct_copy_from_wide (Five t0 t1 t2 t3 t4) =
    Five (ucast t0) (ucast t1) (ucast t2) (ucast t3) (ucast t4)"

fun fproduct_sum_scalar_multiplication :: "u128 five \<Rightarrow> felem \<Rightarrow> u64 \<Rightarrow> u128 five" where
  "fproduct_sum_scalar_multiplication (Five o0 o1 o2 o3 o4) (Five i0 i1 i2 i3 i4) s =
    Five (o0 + ucast i0 * ucast s) (o1 + ucast i1 * ucast s) (o2 + ucast i2 * ucast s)
      (o3 + ucast i3 * ucast s) (o4 + ucast i4 * ucast s)"

fun fproduct_carry_wide :: "u128 five \<Rightarrow> u128 five" where
  "fproduct_carry_wide (Five t0 t1 t2 t3 t4) =
    (let r0 = (ucast t0 :: u64) AND 0x7ffffffffffff; c = drop_bit 51 t0; t0 = ucast r0; t1 = t1 + c;
         r0 = (ucast t1 :: u64) AND 0x7ffffffffffff; c = drop_bit 51 t1; t1 = ucast r0; t2 = t2 + c;
         r0 = (ucast t2 :: u64) AND 0x7ffffffffffff; c = drop_bit 51 t2; t2 = ucast r0; t3 = t3 + c;
         r0 = (ucast t3 :: u64) AND 0x7ffffffffffff; c = drop_bit 51 t3; t3 = ucast r0; t4 = t4 + c
     in Five t0 t1 t2 t3 t4)"

fun fmul_shift_reduce :: "felem \<Rightarrow> felem" where
  "fmul_shift_reduce (Five o0 o1 o2 o3 o4) = Five (19 * o4) o0 o1 o2 o3"

fun fmul_mul_shift_reduce :: "u128 five \<Rightarrow> felem \<Rightarrow> felem \<Rightarrow> u128 five" where
  "fmul_mul_shift_reduce out inp (Five s0 s1 s2 s3 s4) =
    (let out = fproduct_sum_scalar_multiplication out inp s0; inp = fmul_shift_reduce inp;
         out = fproduct_sum_scalar_multiplication out inp s1; inp = fmul_shift_reduce inp;
         out = fproduct_sum_scalar_multiplication out inp s2; inp = fmul_shift_reduce inp;
         out = fproduct_sum_scalar_multiplication out inp s3; inp = fmul_shift_reduce inp
     in fproduct_sum_scalar_multiplication out inp s4)"

text \<open>The statements that \<open>fmul_fmul\<close>, \<open>fsquare_fsquare\<close> and \<open>fscalar\<close> share: the carry of
  the top limb of the wide product, and the carry of the lowest limb after the copy.\<close>

fun wide_carry_top :: "u128 five \<Rightarrow> u128 five" where
  "wide_carry_top (Five t0 t1 t2 t3 t4) =
    (let b4' = t4 AND 0x7ffffffffffff;
         b0' = t0 + 19 * ucast (ucast (drop_bit 51 t4) :: u64)
     in Five b0' t1 t2 t3 b4')"

fun carry_low :: "felem \<Rightarrow> felem" where
  "carry_low (Five i0 i1 i2 i3 i4) =
    Five (i0 AND 0x7ffffffffffff) (i1 + drop_bit 51 i0) i2 i3 i4"

definition fmul_fmul :: "felem \<Rightarrow> felem \<Rightarrow> felem" where
  "fmul_fmul input input21 =
    (let t = fmul_mul_shift_reduce (Five 0 0 0 0 0) input input21;
         t = fproduct_carry_wide t;
         t = wide_carry_top t
     in carry_low (fproduct_copy_from_wide t))"

fun fsquare_fsquare_wide :: "felem \<Rightarrow> u128 five" where
  "fsquare_fsquare_wide (Five r0 r1 r2 r3 r4) =
    (let d0 = r0 * 2;
         d1 = r1 * 2;
         d2 = r2 * 2 * 19;
         d419 = r4 * 19;
         d4 = d419 * 2;
         s0 = ucast r0 * ucast r0 + ucast d4 * ucast r1 + ucast d2 * ucast r3;
         s1 = ucast d0 * ucast r1 + ucast d4 * ucast r2 + ucast (r3 * 19) * ucast r3;
         s2 = ucast d0 * ucast r2 + ucast r1 * ucast r1 + ucast d4 * ucast r3;
         s3 = ucast d0 * ucast r3 + ucast d1 * ucast r2 + ucast r4 * ucast d419;
         s4 = ucast d0 * ucast r4 + ucast d1 * ucast r3 + ucast r2 * ucast r2
     in Five s0 s1 s2 s3 s4)"

definition fsquare_fsquare :: "felem \<Rightarrow> felem" where
  "fsquare_fsquare out =
    (let t = fproduct_carry_wide (fsquare_fsquare_wide out);
         t = wide_carry_top t
     in carry_low (fproduct_copy_from_wide t))"

text \<open>\<open>for (i = 1; i < count1; ++i)\<close> after a first squaring; the in-place form is the same on
  its own output.\<close>

definition fsquare_fsquare_times :: "felem \<Rightarrow> nat \<Rightarrow> felem" where
  "fsquare_fsquare_times input count1 = (fsquare_fsquare ^^ (count1 - 1)) (fsquare_fsquare input)"

definition crecip_crecip :: "felem \<Rightarrow> felem" where
  "crecip_crecip z =
    (let a = fsquare_fsquare_times z 1;
         t = fsquare_fsquare_times a 2;
         b = fmul_fmul t z;
         a = fmul_fmul b a;
         t = fsquare_fsquare_times a 1;
         b = fmul_fmul t b;
         t = fsquare_fsquare_times b 5;
         b = fmul_fmul t b;
         t = fsquare_fsquare_times b 10;
         c = fmul_fmul t b;
         t = fsquare_fsquare_times c 20;
         t = fmul_fmul t c;
         t = fsquare_fsquare_times t 10;
         b = fmul_fmul t b;
         t = fsquare_fsquare_times b 50;
         c = fmul_fmul t b;
         t = fsquare_fsquare_times c 100;
         t = fmul_fmul t c;
         t = fsquare_fsquare_times t 50;
         t = fmul_fmul t b;
         t = fsquare_fsquare_times t 5
     in fmul_fmul t a)"

fun fsum :: "felem \<Rightarrow> felem \<Rightarrow> felem" where
  "fsum (Five a0 a1 a2 a3 a4) (Five b0 b1 b2 b3 b4) =
    Five (a0 + b0) (a1 + b1) (a2 + b2) (a3 + b3) (a4 + b4)"

text \<open>\<open>fdifference(a, b)\<close> stores \<open>b - a\<close> in \<open>a\<close>, eight times the prime added.\<close>

fun fdifference :: "felem \<Rightarrow> felem \<Rightarrow> felem" where
  "fdifference (Five a0 a1 a2 a3 a4) (Five b0 b1 b2 b3 b4) =
    Five (b0 + 0x3fffffffffff68 - a0) (b1 + 0x3ffffffffffff8 - a1) (b2 + 0x3ffffffffffff8 - a2)
      (b3 + 0x3ffffffffffff8 - a3) (b4 + 0x3ffffffffffff8 - a4)"

fun fscalar :: "felem \<Rightarrow> u64 \<Rightarrow> felem" where
  "fscalar (Five b0 b1 b2 b3 b4) s =
    (let t = Five (ucast b0 * ucast s) (ucast b1 * ucast s) (ucast b2 * ucast s)
               (ucast b3 * ucast s) (ucast b4 * ucast s);
         t = fproduct_carry_wide t
     in fproduct_copy_from_wide (wide_carry_top t))"

section \<open>The ladder\<close>

text \<open>A point is the array \<open>u64[10]\<close> of its two coordinates.\<close>

type_synonym fpoint = "felem \<times> felem"

definition point_swap_conditional_step :: "u64 \<Rightarrow> u64 \<Rightarrow> u64 \<Rightarrow> u64 \<times> u64" where
  "point_swap_conditional_step ai bi swap1 =
    (let x = swap1 AND (ai XOR bi) in (ai XOR x, bi XOR x))"

fun point_swap_conditional5 :: "felem \<Rightarrow> felem \<Rightarrow> u64 \<Rightarrow> felem \<times> felem" where
  "point_swap_conditional5 (Five a0 a1 a2 a3 a4) (Five b0 b1 b2 b3 b4) swap1 =
    (let (a4, b4) = point_swap_conditional_step a4 b4 swap1;
         (a3, b3) = point_swap_conditional_step a3 b3 swap1;
         (a2, b2) = point_swap_conditional_step a2 b2 swap1;
         (a1, b1) = point_swap_conditional_step a1 b1 swap1;
         (a0, b0) = point_swap_conditional_step a0 b0 swap1
     in (Five a0 a1 a2 a3 a4, Five b0 b1 b2 b3 b4))"

definition point_swap_conditional :: "fpoint \<Rightarrow> fpoint \<Rightarrow> u64 \<Rightarrow> fpoint \<times> fpoint" where
  "point_swap_conditional a b iswap =
    (let swap1 = 0 - iswap;
         (ax, bx) = point_swap_conditional5 (fst a) (fst b) swap1;
         (az, bz) = point_swap_conditional5 (snd a) (snd b) swap1
     in ((ax, az), (bx, bz)))"

definition addanddouble_fmonty :: "fpoint \<Rightarrow> fpoint \<Rightarrow> felem \<Rightarrow> fpoint \<times> fpoint" where
  "addanddouble_fmonty p pq qx =
    (let (x, z) = p; (xprime, zprime) = pq;
         origx = x;
         x = fsum x z;
         z = fdifference z origx;
         origxprime = xprime;
         xprime = fsum xprime zprime;
         zprime = fdifference zprime origxprime;
         xxprime = fmul_fmul xprime z;
         zzprime = fmul_fmul x zprime;
         origxprime = xxprime;
         xxprime = fsum xxprime zzprime;
         zzprime = fdifference zzprime origxprime;
         x3 = fsquare_fsquare_times xxprime 1;
         zzzprime = fsquare_fsquare_times zzprime 1;
         z3 = fmul_fmul zzzprime qx;
         xx = fsquare_fsquare_times x 1;
         zz = fsquare_fsquare_times z 1;
         x2 = fmul_fmul xx zz;
         zz = fdifference zz xx;
         zzz = fscalar zz 121665;
         zzz = fsum zzz xx;
         z2 = fmul_fmul zzz zz
     in ((x2, z2), (x3, z3)))"

definition ladder_smallloop_cmult_small_loop_step ::
  "fpoint \<Rightarrow> fpoint \<Rightarrow> felem \<Rightarrow> u8 \<Rightarrow> fpoint \<times> fpoint" where
  "ladder_smallloop_cmult_small_loop_step nq nqpq q byt =
    (let bit0 = ucast (drop_bit 7 byt);
         (nq, nqpq) = point_swap_conditional nq nqpq bit0;
         (nq2, nqpq2) = addanddouble_fmonty nq nqpq q;
         bit1 = ucast (drop_bit 7 byt)
     in point_swap_conditional nq2 nqpq2 bit1)"

definition ladder_smallloop_cmult_small_loop_double_step ::
  "fpoint \<Rightarrow> fpoint \<Rightarrow> felem \<Rightarrow> u8 \<Rightarrow> fpoint \<times> fpoint" where
  "ladder_smallloop_cmult_small_loop_double_step nq nqpq q byt =
    (let (nq2, nqpq2) = ladder_smallloop_cmult_small_loop_step nq nqpq q byt;
         byt1 = push_bit 1 byt
     in ladder_smallloop_cmult_small_loop_step nq2 nqpq2 q byt1)"

primrec ladder_smallloop_cmult_small_loop ::
  "nat \<Rightarrow> fpoint \<Rightarrow> fpoint \<Rightarrow> felem \<Rightarrow> u8 \<Rightarrow> fpoint \<times> fpoint" where
  "ladder_smallloop_cmult_small_loop 0 nq nqpq q byt = (nq, nqpq)"
| "ladder_smallloop_cmult_small_loop (Suc i) nq nqpq q byt =
    (let (nq, nqpq) = ladder_smallloop_cmult_small_loop_double_step nq nqpq q byt
     in ladder_smallloop_cmult_small_loop i nq nqpq q (push_bit 2 byt))"

primrec ladder_bigloop_cmult_big_loop ::
  "nat \<Rightarrow> bytes \<Rightarrow> fpoint \<Rightarrow> fpoint \<Rightarrow> felem \<Rightarrow> fpoint \<times> fpoint" where
  "ladder_bigloop_cmult_big_loop 0 n1 nq nqpq q = (nq, nqpq)"
| "ladder_bigloop_cmult_big_loop (Suc i) n1 nq nqpq q =
    (let (nq, nqpq) = ladder_smallloop_cmult_small_loop 4 nq nqpq q (n1 ! i)
     in ladder_bigloop_cmult_big_loop i n1 nq nqpq q)"

definition ladder_cmult :: "bytes \<Rightarrow> fpoint \<Rightarrow> fpoint" where
  "ladder_cmult n1 q =
    fst (ladder_bigloop_cmult_big_loop 32 n1 (Five 1 0 0 0 0, Five 0 0 0 0 0) q (fst q))"

section \<open>Bytes\<close>

definition get_unaligned_le64 :: "bytes \<Rightarrow> u64" where
  "get_unaligned_le64 p =
    (((((((ucast (p ! 0) OR push_bit 8 (ucast (p ! 1))) OR push_bit 16 (ucast (p ! 2))) OR
      push_bit 24 (ucast (p ! 3))) OR push_bit 32 (ucast (p ! 4))) OR push_bit 40 (ucast (p ! 5))) OR
      push_bit 48 (ucast (p ! 6))) OR push_bit 56 (ucast (p ! 7)))"

definition put_unaligned_le64 :: "u64 \<Rightarrow> bytes" where
  "put_unaligned_le64 v =
    [ucast v, ucast (drop_bit 8 v), ucast (drop_bit 16 v), ucast (drop_bit 24 v),
     ucast (drop_bit 32 v), ucast (drop_bit 40 v), ucast (drop_bit 48 v), ucast (drop_bit 56 v)]"

definition format_fexpand :: "bytes \<Rightarrow> felem" where
  "format_fexpand input =
    (let i0 = get_unaligned_le64 input;
         i1 = get_unaligned_le64 (drop 6 input);
         i2 = get_unaligned_le64 (drop 12 input);
         i3 = get_unaligned_le64 (drop 19 input);
         i4 = get_unaligned_le64 (drop 24 input)
     in Five (i0 AND 0x7ffffffffffff) (drop_bit 3 i1 AND 0x7ffffffffffff)
          (drop_bit 6 i2 AND 0x7ffffffffffff) (drop_bit 1 i3 AND 0x7ffffffffffff)
          (drop_bit 12 i4 AND 0x7ffffffffffff))"

text \<open>\<open>format_fcontract_second_carry_pass\<close> has the same body.\<close>

fun format_fcontract_first_carry_pass :: "felem \<Rightarrow> felem" where
  "format_fcontract_first_carry_pass (Five t0 t1 t2 t3 t4) =
    (let t1' = t1 + drop_bit 51 t0; t0' = t0 AND 0x7ffffffffffff;
         t2' = t2 + drop_bit 51 t1'; t1'' = t1' AND 0x7ffffffffffff;
         t3' = t3 + drop_bit 51 t2'; t2'' = t2' AND 0x7ffffffffffff;
         t4' = t4 + drop_bit 51 t3'; t3'' = t3' AND 0x7ffffffffffff
     in Five t0' t1'' t2'' t3'' t4')"

definition format_fcontract_first_carry_full :: "felem \<Rightarrow> felem" where
  "format_fcontract_first_carry_full input = modulo_carry_top (format_fcontract_first_carry_pass input)"

fun format_fcontract_second_carry_pass :: "felem \<Rightarrow> felem" where
  "format_fcontract_second_carry_pass (Five t0 t1 t2 t3 t4) =
    (let t1' = t1 + drop_bit 51 t0; t0' = t0 AND 0x7ffffffffffff;
         t2' = t2 + drop_bit 51 t1'; t1'' = t1' AND 0x7ffffffffffff;
         t3' = t3 + drop_bit 51 t2'; t2'' = t2' AND 0x7ffffffffffff;
         t4' = t4 + drop_bit 51 t3'; t3'' = t3' AND 0x7ffffffffffff
     in Five t0' t1'' t2'' t3'' t4')"

definition format_fcontract_second_carry_full :: "felem \<Rightarrow> felem" where
  "format_fcontract_second_carry_full input =
    carry_low (modulo_carry_top (format_fcontract_second_carry_pass input))"

fun format_fcontract_trim :: "felem \<Rightarrow> felem" where
  "format_fcontract_trim (Five a0 a1 a2 a3 a4) =
    (let mask0 = u64_gte_mask a0 0x7ffffffffffed;
         mask1 = u64_eq_mask a1 0x7ffffffffffff;
         mask2 = u64_eq_mask a2 0x7ffffffffffff;
         mask3 = u64_eq_mask a3 0x7ffffffffffff;
         mask4 = u64_eq_mask a4 0x7ffffffffffff;
         m = (((mask0 AND mask1) AND mask2) AND mask3) AND mask4
     in Five (a0 - (0x7ffffffffffed AND m)) (a1 - (0x7ffffffffffff AND m))
          (a2 - (0x7ffffffffffff AND m)) (a3 - (0x7ffffffffffff AND m))
          (a4 - (0x7ffffffffffff AND m)))"

fun format_fcontract_store :: "felem \<Rightarrow> bytes" where
  "format_fcontract_store (Five t0 t1 t2 t3 t4) =
    (let o0 = push_bit 51 t1 OR t0;
         o1 = push_bit 38 t2 OR drop_bit 13 t1;
         o2 = push_bit 25 t3 OR drop_bit 26 t2;
         o3 = push_bit 12 t4 OR drop_bit 39 t3
     in put_unaligned_le64 o0 @ put_unaligned_le64 o1 @ put_unaligned_le64 o2 @ put_unaligned_le64 o3)"

definition format_fcontract :: "felem \<Rightarrow> bytes" where
  "format_fcontract input =
    format_fcontract_store (format_fcontract_trim
      (format_fcontract_second_carry_full (format_fcontract_first_carry_full input)))"

definition format_scalar_of_point :: "fpoint \<Rightarrow> bytes" where
  "format_scalar_of_point point =
    (let (x, z) = point;
         zmone = crecip_crecip z;
         sc = fmul_fmul x zmone
     in format_fcontract sc)"

section \<open>The public key\<close>

definition curve25519_generic :: "bytes \<Rightarrow> bytes \<Rightarrow> bytes" where
  "curve25519_generic secret basepoint =
    (let x0 = format_fexpand basepoint;
         q = (x0, Five 1 0 0 0 0);
         e = curve25519_clamp_secret secret
     in format_scalar_of_point (ladder_cmult e q))"

definition curve25519_basepoint :: bytes where
  "curve25519_basepoint = 9 # replicate 31 0"

definition curve25519_public_key :: "bytes \<Rightarrow> bytes" where
  "curve25519_public_key sk = curve25519_generic sk curve25519_basepoint"

end
