(* ===== verification/Config_File.thy ===== *)
theory Config_File
  imports Config_Runtime Curve25519
begin

text \<open>
  \<open>src/config_file.c\<close>: the INI-style configuration file.  \<open>fgets\<close> on a 1024-byte buffer
  cuts the file into lines; each line drives the parser's local variables, the record
  \<open>file_parser\<close>.  A value with its \<open>cur_has_\<close> flag is an option.  A failed parse is
  \<open>Inl\<close> of the message it logs.
\<close>

section \<open>Lines\<close>

text \<open>\<open>fgets(line, sz, f)\<close> on the rest of the file: what it stores and what is left; at the
  end of the file it returns \<open>NULL\<close>.\<close>

definition fgets :: "nat \<Rightarrow> string \<Rightarrow> string \<times> string" where
  "fgets sz s =
    (let n = min (sz - 1) (length (takeWhile (\<lambda>c. c \<noteq> CHR 0x0A) s) + 1) in (take n s, drop n s))"

function file_lines :: "string \<Rightarrow> string list" where
  "file_lines s = (if s = [] then [] else let (line, rest) = fgets 1024 s in line # file_lines rest)"
  by pat_completeness auto
termination
  by (relation "measure length") (auto simp: fgets_def Let_def)

declare file_lines.simps [simp del]

definition is_blank :: "char \<Rightarrow> bool" where
  "is_blank c \<longleftrightarrow> c = CHR '' '' \<or> c = CHR 0x09"

definition is_tail :: "char \<Rightarrow> bool" where
  "is_tail c \<longleftrightarrow> c = CHR '' '' \<or> c = CHR 0x09 \<or> c = CHR 0x0D \<or> c = CHR 0x0A"

definition trim :: "string \<Rightarrow> string" where
  "trim s = rev (dropWhile is_tail (rev (dropWhile is_blank s)))"

definition strip_comment :: "string \<Rightarrow> string" where
  "strip_comment line = takeWhile (\<lambda>c. c \<noteq> CHR ''#'' \<and> c \<noteq> CHR '';'') line"

text \<open>\<open>strchr(line, '=')\<close>: the text before the first \<open>'='\<close> and after it.\<close>

definition split_eq :: "string \<Rightarrow> (string \<times> string) option" where
  "split_eq s =
    (if CHR ''='' \<in> set s
     then Some (takeWhile (\<lambda>c. c \<noteq> CHR ''='') s, tl (dropWhile (\<lambda>c. c \<noteq> CHR ''='') s))
     else None)"

section \<open>The parser's state\<close>

datatype section_t = SEC_NONE | SEC_INTERFACE | SEC_PEER

record file_parser =
  fp_section :: section_t
  fp_first_peer :: bool
  fp_pub :: "bytes option"
  fp_ep :: "string option"
  fp_ka :: "int option"
  fp_out :: awg_file_config_t

definition file_config_zero :: awg_file_config_t where
  "file_config_zero = \<lparr>
     fc_jc = None, fc_jmin = None, fc_jmax = None, fc_s1 = None, fc_s2 = None, fc_s3 = None,
     fc_s4 = None, fc_h1 = None, fc_h2 = None, fc_h3 = None, fc_h4 = None,
     fc_cps = replicate 5 None, fc_client_pub = None, fc_listen = None, fc_dns = None,
     fc_server_pub = None, fc_endpoint = None, fc_keepalive = None, fc_peer_pubs = []\<rparr>"

definition parser_start :: file_parser where
  "parser_start = \<lparr>fp_section = SEC_NONE, fp_first_peer = True, fp_pub = None, fp_ep = None,
     fp_ka = None, fp_out = file_config_zero\<rparr>"

definition decode_key32 :: "string \<Rightarrow> string \<Rightarrow> string + bytes" where
  "decode_key32 val field =
    (case base64_decode val 32 of
       Some k \<Rightarrow> if length k \<noteq> 32 then Inl (''config: '' @ field @ '': invalid base64 key'') else Inr k
     | None \<Rightarrow> Inl (''config: '' @ field @ '': invalid base64 key''))"

text \<open>The results are \<open>*out\<close> and \<open>*first_peer\<close>.\<close>

definition flush_peer ::
  "awg_file_config_t \<Rightarrow> bool \<Rightarrow> bytes option \<Rightarrow> string option \<Rightarrow> int option \<Rightarrow> awg_file_config_t \<times> bool" where
  "flush_peer out first_peer pub ep ka =
    (if pub = None \<and> ep = None \<and> ka = None then (out, first_peer)
     else
       let out = (case pub of None \<Rightarrow> out
                  | Some k \<Rightarrow>
                     let out = (if first_peer then out\<lparr>fc_server_pub := Some k\<rparr> else out) in
                     if length (fc_peer_pubs out) < AWG_MAX_SERVER_PEERS
                     then out\<lparr>fc_peer_pubs := fc_peer_pubs out @ [k]\<rparr> else out);
           out = (case ep of Some t \<Rightarrow> if first_peer then out\<lparr>fc_endpoint := Some (copy_text t 256)\<rparr> else out
                  | None \<Rightarrow> out);
           out = (case ka of Some v \<Rightarrow> if first_peer then out\<lparr>fc_keepalive := Some v\<rparr> else out
                  | None \<Rightarrow> out)
       in (out, False))"

definition flush_section :: "file_parser \<Rightarrow> file_parser" where
  "flush_section ps =
    (if fp_section ps = SEC_PEER
     then let (out, first) = flush_peer (fp_out ps) (fp_first_peer ps) (fp_pub ps) (fp_ep ps) (fp_ka ps)
          in ps\<lparr>fp_out := out, fp_first_peer := first\<rparr>
     else ps)"

section \<open>Keys\<close>

text \<open>The two shapes the \<open>[Interface]\<close> branches for numbers and ranges share.\<close>

definition set_int :: "string \<Rightarrow> string \<Rightarrow> (int \<Rightarrow> awg_file_config_t \<Rightarrow> awg_file_config_t)
    \<Rightarrow> awg_file_config_t \<Rightarrow> string + awg_file_config_t" where
  "set_int name val put out = (case parse_int_file val of
     None \<Rightarrow> Inl (''config: '' @ name @ '': invalid value'') | Some v \<Rightarrow> Inr (put v out))"

definition set_range :: "string \<Rightarrow> string \<Rightarrow> (hrange_t \<Rightarrow> awg_file_config_t \<Rightarrow> awg_file_config_t)
    \<Rightarrow> awg_file_config_t \<Rightarrow> string + awg_file_config_t" where
  "set_range name val put out = (case parse_hrange val of
     None \<Rightarrow> Inl (''config: '' @ name @ '': invalid value'') | Some r \<Rightarrow> Inr (put r out))"

definition set_listen :: "string \<Rightarrow> awg_file_config_t \<Rightarrow> string + awg_file_config_t" where
  "set_listen val out = (case parse_int_file val of
     None \<Rightarrow> Inl ''config: ListenPort: invalid port number''
   | Some port \<Rightarrow> if port < 1 \<or> port > 65535 then Inl ''config: ListenPort: invalid port number''
       else Inr (out\<lparr>fc_listen := Some (''0.0.0.0:'' @ int_text port)\<rparr>))"

definition set_cps :: "string \<Rightarrow> string \<Rightarrow> awg_file_config_t \<Rightarrow> string + awg_file_config_t" where
  "set_cps key val out =
    (let idx = of_char (key ! 1) - (of_char CHR ''1'' :: int) in
     if idx < 0 \<or> idx \<ge> 5 then Inl (''config: '' @ key @ '': invalid CPS template'')
     else case cps_parse val of
         None \<Rightarrow> Inl (''config: '' @ key @ '': invalid CPS template'')
       | Some t \<Rightarrow> Inr (out\<lparr>fc_cps := (fc_cps out)[nat idx := Some t]\<rparr>))"

definition interface_key ::
  "string \<Rightarrow> string \<Rightarrow> awg_file_config_t \<Rightarrow> string + awg_file_config_t" where
  "interface_key key val out =
    (if keq key ''PrivateKey'' then
       (case decode_key32 val ''PrivateKey'' of Inl e \<Rightarrow> Inl e
        | Inr sk \<Rightarrow> Inr (out\<lparr>fc_client_pub := Some (curve25519_public_key sk)\<rparr>))
     else if keq key ''ListenPort'' then set_listen val out
     else if keq key ''DNS'' then Inr (out\<lparr>fc_dns := Some (copy_text val 256)\<rparr>)
     else if keq key ''Jc'' then set_int ''Jc'' val (\<lambda>v out. out\<lparr>fc_jc := Some v\<rparr>) out
     else if keq key ''Jmin'' then set_int ''Jmin'' val (\<lambda>v out. out\<lparr>fc_jmin := Some v\<rparr>) out
     else if keq key ''Jmax'' then set_int ''Jmax'' val (\<lambda>v out. out\<lparr>fc_jmax := Some v\<rparr>) out
     else if keq key ''S1'' then set_int ''S1'' val (\<lambda>v out. out\<lparr>fc_s1 := Some v\<rparr>) out
     else if keq key ''S2'' then set_int ''S2'' val (\<lambda>v out. out\<lparr>fc_s2 := Some v\<rparr>) out
     else if keq key ''S3'' then set_int ''S3'' val (\<lambda>v out. out\<lparr>fc_s3 := Some v\<rparr>) out
     else if keq key ''S4'' then set_int ''S4'' val (\<lambda>v out. out\<lparr>fc_s4 := Some v\<rparr>) out
     else if keq key ''H1'' then set_range ''H1'' val (\<lambda>r out. out\<lparr>fc_h1 := Some r\<rparr>) out
     else if keq key ''H2'' then set_range ''H2'' val (\<lambda>r out. out\<lparr>fc_h2 := Some r\<rparr>) out
     else if keq key ''H3'' then set_range ''H3'' val (\<lambda>r out. out\<lparr>fc_h3 := Some r\<rparr>) out
     else if keq key ''H4'' then set_range ''H4'' val (\<lambda>r out. out\<lparr>fc_h4 := Some r\<rparr>) out
     else if keq key ''I1'' \<or> keq key ''I2'' \<or> keq key ''I3'' \<or> keq key ''I4'' \<or> keq key ''I5''
       then set_cps key val out
     else Inr out)"

definition peer_key :: "string \<Rightarrow> string \<Rightarrow> file_parser \<Rightarrow> string + file_parser" where
  "peer_key key val ps =
    (if keq key ''PublicKey'' then
       (case decode_key32 val ''[Peer] PublicKey'' of Inl e \<Rightarrow> Inl e | Inr k \<Rightarrow> Inr (ps\<lparr>fp_pub := Some k\<rparr>))
     else if keq key ''Endpoint'' then Inr (ps\<lparr>fp_ep := Some (copy_text val 256)\<rparr>)
     else if keq key ''PersistentKeepalive'' then
       (case parse_int_file val of
          Some ka \<Rightarrow> if ka > 0 then Inr (ps\<lparr>fp_ka := Some ka\<rparr>) else Inr ps
        | None \<Rightarrow> Inr ps)
     else Inr ps)"

section \<open>\<open>config_file_parse\<close>\<close>

definition section_of :: "string \<Rightarrow> section_t" where
  "section_of line =
    (let line = (if length line > 2 \<and> last line = CHR '']'' then butlast line else line);
         sec = trim (tl line) in
     if keq sec ''Interface'' then SEC_INTERFACE
     else if keq sec ''Peer'' then SEC_PEER
     else SEC_NONE)"

definition parse_line :: "string \<Rightarrow> file_parser \<Rightarrow> string + file_parser" where
  "parse_line buf ps =
    (let line = trim (strip_comment (c_str buf)) in
     if line = [] then Inr ps
     else if hd line = CHR ''['' then
       Inr ((flush_section ps)\<lparr>fp_pub := None, fp_ep := None, fp_ka := None, fp_section := section_of line\<rparr>)
     else case split_eq line of
         None \<Rightarrow> Inr ps
       | Some (key, val) \<Rightarrow>
           let key = trim key; val = trim val in
           if key = [] \<or> val = [] then Inr ps
           else (case fp_section ps of
               SEC_INTERFACE \<Rightarrow>
                 (case interface_key key val (fp_out ps) of
                    Inl e \<Rightarrow> Inl e | Inr out \<Rightarrow> Inr (ps\<lparr>fp_out := out\<rparr>))
             | SEC_PEER \<Rightarrow> peer_key key val ps
             | SEC_NONE \<Rightarrow> Inr ps))"

text \<open>\<open>contents\<close> is what can be read from the file, \<open>None\<close> when it cannot be opened.\<close>

definition config_file_parse ::
  "string \<Rightarrow> string option \<Rightarrow> string + awg_file_config_t" where
  "config_file_parse path contents =
    (case contents of
       None \<Rightarrow> Inl (''cannot open config file: '' @ path)
     | Some s \<Rightarrow>
         (case run_steps (map parse_line (file_lines s)) parser_start of
            Inl e \<Rightarrow> Inl e
          | Inr ps \<Rightarrow> Inr (fp_out (flush_section ps))))"

end
