(* ===== verification/Main_Program.thy ===== *)
theory Main_Program
  imports Config_File Init_Correct
begin

text \<open>
  \<open>src/main.c\<close>: the command line, the steps that make the configuration out of the
  defaults, the environment, the configuration file and the flags, the lines logged at the start
  and the call of \<open>proxy_init\<close> and \<open>proxy_run\<close>.  What \<open>fatal\<close> is called with is
  \<open>Inl\<close> of the lines logged before the process ends with status 1.
\<close>

section \<open>The command line\<close>

record cli_flags =
  cl_config :: "string option"
  cl_log_level :: "string option"
  cl_mode :: "string option"
  cl_listen :: "string option"
  cl_remote :: "string option"
  cl_src_port :: "string option"

datatype cli_result = Cli cli_flags | Show_help | Show_version | Unknown_option string

text \<open>The loop over \<open>argv[1]\<close>...: an option that needs a value and is the last argument is
  not recognised.\<close>

function parse_args :: "string list \<Rightarrow> cli_flags \<Rightarrow> cli_result" where
  "parse_args [] c = Cli c"
| "parse_args (a # as) c =
    (if (a = ''-c'' \<or> a = ''--config'') \<and> as \<noteq> [] then parse_args (tl as) (c\<lparr>cl_config := Some (hd as)\<rparr>)
     else if take 9 a = ''--config='' then parse_args as (c\<lparr>cl_config := Some (drop 9 a)\<rparr>)
     else if (a = ''-l'' \<or> a = ''--log-level'') \<and> as \<noteq> []
       then parse_args (tl as) (c\<lparr>cl_log_level := Some (hd as)\<rparr>)
     else if take 12 a = ''--log-level='' then parse_args as (c\<lparr>cl_log_level := Some (drop 12 a)\<rparr>)
     else if (a = ''-m'' \<or> a = ''--mode'') \<and> as \<noteq> [] then parse_args (tl as) (c\<lparr>cl_mode := Some (hd as)\<rparr>)
     else if take 7 a = ''--mode='' then parse_args as (c\<lparr>cl_mode := Some (drop 7 a)\<rparr>)
     else if (a = ''-L'' \<or> a = ''--listen'') \<and> as \<noteq> [] then parse_args (tl as) (c\<lparr>cl_listen := Some (hd as)\<rparr>)
     else if take 9 a = ''--listen='' then parse_args as (c\<lparr>cl_listen := Some (drop 9 a)\<rparr>)
     else if (a = ''-r'' \<or> a = ''--remote'') \<and> as \<noteq> [] then parse_args (tl as) (c\<lparr>cl_remote := Some (hd as)\<rparr>)
     else if take 9 a = ''--remote='' then parse_args as (c\<lparr>cl_remote := Some (drop 9 a)\<rparr>)
     else if (a = ''-s'' \<or> a = ''--src-port'') \<and> as \<noteq> []
       then parse_args (tl as) (c\<lparr>cl_src_port := Some (hd as)\<rparr>)
     else if take 11 a = ''--src-port='' then parse_args as (c\<lparr>cl_src_port := Some (drop 11 a)\<rparr>)
     else if a = ''-h'' \<or> a = ''--help'' then Show_help
     else if a = ''-v'' \<or> a = ''--version'' then Show_version
     else Unknown_option a)"
  by pat_completeness auto
termination
  by (relation "measure (length \<circ> fst)") auto

section \<open>The configuration\<close>

text \<open>\<open>v && v[0]\<close>.\<close>

definition given :: "string option \<Rightarrow> bool" where
  "given v \<longleftrightarrow> v \<noteq> None \<and> v \<noteq> Some []"

definition main_log_level :: "environment \<Rightarrow> cli_flags \<Rightarrow> awg_config_t \<Rightarrow> awg_config_t" where
  "main_log_level env c cfg =
    (let cfg = cfg\<lparr>cf_log_level := LOG_INFO\<rparr>;
         ll = (if cl_log_level c \<noteq> None then cl_log_level c else env ''AWG_LOG_LEVEL'')
     in case parse_log_level ll of Some l \<Rightarrow> cfg\<lparr>cf_log_level := l\<rparr> | None \<Rightarrow> cfg)"

definition main_mode :: "environment \<Rightarrow> cli_flags \<Rightarrow> awg_config_t \<Rightarrow> string + awg_config_t" where
  "main_mode env c = run_steps [
     (\<lambda>cfg. Inr (cfg\<lparr>cf_mode := AWG_MODE_CLIENT\<rparr>)),
     (\<lambda>cfg. if given (env ''AWG_MODE'') then
              (case parse_awg_mode (env ''AWG_MODE'') of
                 None \<Rightarrow> Inl ''AWG_MODE: expected client|gateway|server'' | Some m \<Rightarrow> Inr (cfg\<lparr>cf_mode := m\<rparr>))
            else Inr cfg),
     (\<lambda>cfg. if given (cl_mode c) then
              (case parse_awg_mode (cl_mode c) of
                 None \<Rightarrow> Inl ''--mode: expected client|gateway|server'' | Some m \<Rightarrow> Inr (cfg\<lparr>cf_mode := m\<rparr>))
            else Inr cfg)]"

text \<open>The two 256-byte buffers; \<open>None\<close> would be the failure of the merge.\<close>

definition main_endpoints ::
  "environment \<Rightarrow> cli_flags \<Rightarrow> awg_file_config_t option \<Rightarrow> (string \<times> string) option" where
  "main_endpoints env c file =
    (case merge_endpoint_values (env ''AWG_LISTEN'') (env ''AWG_REMOTE'')
       (case file of Some fc \<Rightarrow> Some (case fc_listen fc of Some s \<Rightarrow> s | None \<Rightarrow> []) | None \<Rightarrow> None)
       (case file of Some fc \<Rightarrow> fc_listen fc \<noteq> None | None \<Rightarrow> False)
       (case file of Some fc \<Rightarrow> Some (case fc_endpoint fc of Some s \<Rightarrow> s | None \<Rightarrow> []) | None \<Rightarrow> None)
       (case file of Some fc \<Rightarrow> fc_endpoint fc \<noteq> None | None \<Rightarrow> False) 256 256 of
       None \<Rightarrow> None
     | Some (listen, remote) \<Rightarrow>
         Some (if given (cl_listen c) then copy_text (the (cl_listen c)) 256 else listen,
               if given (cl_remote c) then copy_text (the (cl_remote c)) 256 else remote))"

definition main_obfuscation ::
  "environment \<Rightarrow> awg_file_config_t option \<Rightarrow> awg_config_t \<Rightarrow> string + awg_config_t" where
  "main_obfuscation env file cfg =
    (case load_obfuscation_env env cfg of
       Inl err \<Rightarrow> Inl err
     | Inr cfg \<Rightarrow>
        let cfg = load_obfs_profile_env env cfg;
            cfg = (case file of Some fc \<Rightarrow> apply_file_obfuscation_overrides cfg fc | None \<Rightarrow> cfg)
        in Inr (if cf_jc cfg > 0 \<and> cf_jmin cfg = cf_jmax cfg \<and> cf_jmax cfg < 65535
                then cfg\<lparr>cf_jmax := cf_jmax cfg + 1\<rparr> else cfg))"

text \<open>\<open>if (v && v[0]) if (base64_decode(v, slen(v), key, 32) != 32) fatal(...)\<close>.\<close>

definition key_env ::
  "environment \<Rightarrow> string \<Rightarrow> (bytes \<Rightarrow> awg_config_t \<Rightarrow> awg_config_t) \<Rightarrow> awg_config_t \<Rightarrow> string + awg_config_t" where
  "key_env env name put cfg =
    (if given (env name) then
       (case base64_decode (the (env name)) 32 of
          Some k \<Rightarrow> if length k \<noteq> 32 then Inl (name @ '': must decode to 32 bytes'') else Inr (put k cfg)
        | None \<Rightarrow> Inl (name @ '': must decode to 32 bytes''))
     else Inr cfg)"

definition add_file_peers :: "bytes list \<Rightarrow> awg_config_t \<Rightarrow> string + awg_config_t" where
  "add_file_peers pubs = run_steps (map (\<lambda>pub cfg.
     case add_server_peer_pub_unique cfg pub of
       None \<Rightarrow> Inl ''config [Peer]: too many peers (max 256)'' | Some cfg \<Rightarrow> Inr cfg) pubs)"

definition main_server_peers ::
  "environment \<Rightarrow> awg_file_config_t option \<Rightarrow> file_env \<Rightarrow> awg_config_t \<Rightarrow> string + awg_config_t" where
  "main_server_peers env file pubs_file cfg =
    (if cf_mode cfg = AWG_MODE_SERVER then
       run_steps [
         (\<lambda>cfg. if given (env ''AWG_CLIENT_PUBS'') then
            (case parse_server_peer_list cfg (the (env ''AWG_CLIENT_PUBS'')) of
               None \<Rightarrow> Inl ''AWG_CLIENT_PUBS: invalid client public key list'' | Some cfg \<Rightarrow> Inr cfg)
            else Inr cfg),
         (\<lambda>cfg. if given (env ''AWG_CLIENT_PUBS_FILE'') then
            (case load_server_peer_file cfg (the (env ''AWG_CLIENT_PUBS_FILE'')) pubs_file of
               None \<Rightarrow> Inl ''AWG_CLIENT_PUBS_FILE: cannot parse public key list file'' | Some cfg \<Rightarrow> Inr cfg)
            else Inr cfg),
         (\<lambda>cfg. case file of Some fc \<Rightarrow> add_file_peers (fc_peer_pubs fc) cfg | None \<Rightarrow> Inr cfg)] cfg
     else Inr cfg)"

definition main_keys ::
  "environment \<Rightarrow> awg_file_config_t option \<Rightarrow> file_env \<Rightarrow> awg_config_t
    \<Rightarrow> string + awg_config_t" where
  "main_keys env file pubs_file = run_steps [
     key_env env ''AWG_SERVER_PUB'' (\<lambda>k cfg. cfg\<lparr>cf_server_pub := k\<rparr>),
     (\<lambda>cfg. Inr (case file of Some fc \<Rightarrow> override (fc_server_pub fc) (\<lambda>k cfg. cfg\<lparr>cf_server_pub := k\<rparr>) cfg
                 | None \<Rightarrow> cfg)),
     key_env env ''AWG_PRIVATE_KEY'' (\<lambda>k cfg. cfg\<lparr>cf_client_pub := curve25519_public_key k\<rparr>),
     key_env env ''AWG_CLIENT_PUB'' (\<lambda>k cfg. cfg\<lparr>cf_client_pub := k\<rparr>),
     (\<lambda>cfg. Inr (case file of Some fc \<Rightarrow> override (fc_client_pub fc) (\<lambda>k cfg. cfg\<lparr>cf_client_pub := k\<rparr>) cfg
                 | None \<Rightarrow> cfg)),
     main_server_peers env file pubs_file]"

text \<open>The lines of the required-field checks.\<close>

definition missing_fields :: "awg_config_t \<Rightarrow> string \<Rightarrow> string \<Rightarrow> string list" where
  "missing_fields cfg listen_str remote_str =
    (if listen_str = [] then [''listen address not set (AWG_LISTEN or ListenPort in config)''] else [])
    @ (if remote_str = [] then [''remote address not set (AWG_REMOTE or [Peer] Endpoint in config)''] else [])
    @ (if \<not> cf_has_server_pub cfg
       then [''server public key not set (AWG_SERVER_PUB or [Peer] PublicKey in config)''] else [])
    @ (if cf_mode cfg \<noteq> AWG_MODE_SERVER \<and> \<not> cf_has_client_pub cfg
       then [''client public key not set (AWG_CLIENT_PUB or PrivateKey in config)''] else [])
    @ (if cf_mode cfg = AWG_MODE_SERVER \<and> \<not> cf_has_client_pub cfg \<and> cf_server_peer_pubs cfg = []
       then [''server mode requires client public key(s) (AWG_CLIENT_PUB / AWG_CLIENT_PUBS / [Peer] in config)'']
       else [])"

definition main_cps :: "environment \<Rightarrow> awg_file_config_t option \<Rightarrow> awg_config_t \<Rightarrow> string + awg_config_t" where
  "main_cps env file cfg =
    (case load_cps_env env cfg of
       Inl name \<Rightarrow> Inl (name @ '': invalid CPS template'')
     | Inr cfg \<Rightarrow> Inr (case file of
           Some fc \<Rightarrow> cfg\<lparr>cf_cps := map2 (\<lambda>own t. if t \<noteq> None then t else own) (cf_cps cfg) (fc_cps fc)\<rparr>
         | None \<Rightarrow> cfg))"

text \<open>The silence timeout; the outer \<open>None\<close> is the signed overflow of
  \<open>compute_remote_silent_timeout\<close>.\<close>

definition main_silent_timeout :: "awg_file_config_t option \<Rightarrow> awg_config_t \<Rightarrow> awg_config_t option" where
  "main_silent_timeout file cfg =
    map_option (\<lambda>t. cfg\<lparr>cf_remote_silent_timeout := t\<rparr>)
      (compute_remote_silent_timeout (cf_remote_silent_timeout cfg)
         (case file of Some fc \<Rightarrow> fc_keepalive fc \<noteq> None | None \<Rightarrow> False)
         (case file of Some fc \<Rightarrow> (case fc_keepalive fc of Some k \<Rightarrow> k | None \<Rightarrow> 0) | None \<Rightarrow> 0)
         (cf_remote_silent_exit_timeout cfg))"

definition main_src_port :: "cli_flags \<Rightarrow> awg_config_t \<Rightarrow> string + awg_config_t" where
  "main_src_port c cfg =
    (if given (cl_src_port c) then
       (case parse_src_port (cl_src_port c) of
          None \<Rightarrow> Inl ''--src-port: expected auto or integer'' | Some v \<Rightarrow> Inr (cfg\<lparr>cf_src_port := v\<rparr>))
     else Inr cfg)"

definition main_dns :: "environment \<Rightarrow> awg_file_config_t option \<Rightarrow> string option" where
  "main_dns env file = select_dns_value (env ''AWG_DNS'')
     (case file of Some fc \<Rightarrow> Some (case fc_dns fc of Some s \<Rightarrow> s | None \<Rightarrow> []) | None \<Rightarrow> None)
     (case file of Some fc \<Rightarrow> fc_dns fc \<noteq> None | None \<Rightarrow> False)"

text \<open>Steps 2 to 9 for a file that has been read, if any: the configuration and the two
  addresses.\<close>

definition main_config ::
  "environment \<Rightarrow> file_env \<Rightarrow> cli_flags \<Rightarrow> awg_file_config_t option
    \<Rightarrow> (string list + awg_config_t \<times> string \<times> string) option" where
  "main_config env pubs_file c file =
    (let cfg = main_log_level env c config_zero in
     case main_mode env c cfg of Inl e \<Rightarrow> Some (Inl [e]) | Inr cfg \<Rightarrow>
    (case main_endpoints env c file of None \<Rightarrow> Some (Inl [''failed to merge listen/remote config''])
     | Some (listen_str, remote_str) \<Rightarrow>
    (case main_obfuscation env file cfg of Inl e \<Rightarrow> Some (Inl [e]) | Inr cfg \<Rightarrow>
    (case main_keys env file pubs_file cfg of Inl e \<Rightarrow> Some (Inl [e]) | Inr cfg \<Rightarrow>
    (case config_validate cfg of Some e \<Rightarrow> Some (Inl [e]) | None \<Rightarrow>
     let cfg = config_compute cfg; errs = missing_fields cfg listen_str remote_str in
     if errs \<noteq> [] then Some (Inl errs) else
    (case main_cps env file cfg of Inl e \<Rightarrow> Some (Inl [e]) | Inr cfg \<Rightarrow>
    (case load_operational_env env cfg of Inl e \<Rightarrow> Some (Inl [e]) | Inr cfg \<Rightarrow>
    (case main_silent_timeout file cfg of None \<Rightarrow> None | Some cfg \<Rightarrow>
    (case load_network_perf_env env cfg of Inl e \<Rightarrow> Some (Inl [e]) | Inr cfg \<Rightarrow>
    (case main_src_port c cfg of Inl e \<Rightarrow> Some (Inl [e]) | Inr cfg \<Rightarrow>
     Some (Inr (cfg, listen_str, remote_str))))))))))))"

section \<open>The lines of the start\<close>

definition num :: "int \<Rightarrow> string" where
  "num v = u32_to_str (word_of_int v)"

definition proto_name :: "awg_config_t \<Rightarrow> string" where
  "proto_name cfg =
    (if cf_s3 cfg > 0 \<or> cf_s4 cfg > 0 \<or> hr_min (cf_h1 cfg) \<noteq> hr_max (cf_h1 cfg)
        \<or> hr_min (cf_h2 cfg) \<noteq> hr_max (cf_h2 cfg) \<or> hr_min (cf_h3 cfg) \<noteq> hr_max (cf_h3 cfg)
        \<or> hr_min (cf_h4 cfg) \<noteq> hr_max (cf_h4 cfg)
     then ''v2''
     else if list_ex (\<lambda>t. t \<noteq> None) (cf_cps cfg) then ''v1.5'' else ''v1'')"

definition mode_name :: "awg_mode \<Rightarrow> string" where
  "mode_name m = (if m = AWG_MODE_GATEWAY then ''gateway'' else if m = AWG_MODE_SERVER then ''server'' else ''client'')"

definition header_line :: "awg_config_t \<Rightarrow> string" where
  "header_line cfg =
    (let h1 = cf_h1 cfg; h2 = cf_h2 cfg; h3 = cf_h3 cfg; h4 = cf_h4 cfg in
     if hr_min h1 = hr_max h1 \<and> hr_min h2 = hr_max h2 \<and> hr_min h3 = hr_max h3 \<and> hr_min h4 = hr_max h4
     then concat [''config: H1='', u32_to_str (hr_min h1), '' H2='', u32_to_str (hr_min h2),
            '' H3='', u32_to_str (hr_min h3), '' H4='', u32_to_str (hr_min h4)]
     else concat [''config: H1='', u32_to_str (hr_min h1), ''-'', u32_to_str (hr_max h1),
            '' H2='', u32_to_str (hr_min h2), ''-'', u32_to_str (hr_max h2),
            '' H3='', u32_to_str (hr_min h3), ''-'', u32_to_str (hr_max h3),
            '' H4='', u32_to_str (hr_min h4), ''-'', u32_to_str (hr_max h4)])"

text \<open>The lines of steps 10 and 11.\<close>

definition startup_lines ::
  "string \<Rightarrow> awg_config_t \<Rightarrow> string \<Rightarrow> string \<Rightarrow> string option \<Rightarrow> string option \<Rightarrow> string list" where
  "startup_lines version cfg listen_str remote_str config_file dns =
    (case dns of Some d \<Rightarrow> [''DNS: '' @ d] | None \<Rightarrow> [])
    @ [concat [''wg2awg '', version, '' linux/c proto='', proto_name cfg, '' awg_mode='', mode_name (cf_mode cfg),
         '' obfs='', obfs_profile_name (cf_obfs_profile cfg)]]
    @ (case config_file of Some path \<Rightarrow> [''config file: '' @ path] | None \<Rightarrow> [])
    @ [concat [''listen='', listen_str, '' remote='', remote_str, '' src_port='',
         (if cf_src_port cfg > 0 then num (cf_src_port cfg) else ''auto'')],
       concat [''config: JC='', num (cf_jc cfg), '' JMIN='', num (cf_jmin cfg), '' JMAX='', num (cf_jmax cfg)],
       concat [''config: S1='', num (cf_s1 cfg), '' S2='', num (cf_s2 cfg), '' S3='', num (cf_s3 cfg),
         '' S4='', num (cf_s4 cfg)],
       header_line cfg]
    @ (if cf_no_gro cfg \<noteq> 0 then [''config: UDP GRO disabled (AWG_NO_GRO=1)''] else [])
    @ (if cf_cpu_c2s cfg \<ge> 0 \<or> cf_cpu_s2c cfg \<ge> 0 \<or> cf_busy_poll cfg > 0
       then [concat [''perf: cpu_c2s='', (if cf_cpu_c2s cfg \<ge> 0 then num (cf_cpu_c2s cfg) else ''auto''),
               '' cpu_s2c='', (if cf_cpu_s2c cfg \<ge> 0 then num (cf_cpu_s2c cfg) else ''auto''),
               '' busy_poll='', (if cf_busy_poll cfg > 0 then num (cf_busy_poll cfg) else ''off'')]]
       else [])"

section \<open>\<open>main\<close>\<close>

text \<open>What \<open>main\<close> reads from the system: the environment, the file at a path, the file of
  peer keys, whether \<open>/etc/resolv.conf\<close> can be opened and closed, the calls of \<open>proxy_init\<close> and those of \<open>proxy_run\<close>.\<close>

record main_env =
  me_env :: environment
  me_file :: "string \<Rightarrow> string option"
  me_pubs_file :: file_env
  me_resolv_open :: bool
  me_resolv_closed :: bool
  me_init :: init_env
  me_run :: run_env

definition fatal :: "string \<Rightarrow> action" where
  "fatal msg = Log LOG_NONE ''FATAL: '' msg"

text \<open>Before \<open>proxy_init\<close>: the process has ended with a status, or the arguments of
  \<open>proxy_init\<close>, what was written to \<open>/etc/resolv.conf\<close> and the lines logged.\<close>

definition main_start ::
  "string \<Rightarrow> main_env \<Rightarrow> string list
    \<Rightarrow> (int \<times> action list + (awg_config_t \<times> string \<times> string) \<times> string option \<times> action list) option" where
  "main_start version e argv =
    (case parse_args argv \<lparr>cl_config = me_env e ''AWG_CONFIG'', cl_log_level = None, cl_mode = None,
        cl_listen = None, cl_remote = None, cl_src_port = None\<rparr> of
       Show_help \<Rightarrow> Some (Inl (0, []))
     | Show_version \<Rightarrow> Some (Inl (0, []))
     | Unknown_option a \<Rightarrow> Some (Inl (1, [fatal (''unknown option: '' @ a)]))
     | Cli c \<Rightarrow>
         (case (if given (cl_config c)
                then map_sum id Some (config_file_parse (the (cl_config c))
                       (me_file e (the (cl_config c))))
                else Inr None) of
            Inl msg \<Rightarrow> Some (Inl (1, [fatal msg]))
          | Inr file \<Rightarrow>
              (case main_config (me_env e) (me_pubs_file e) c file of
                 None \<Rightarrow> None
               | Some (Inl msgs) \<Rightarrow> Some (Inl (1, map fatal msgs))
               | Some (Inr (cfg, listen_str, remote_str)) \<Rightarrow>
                   let dns_str = main_dns (me_env e) file;
                       resolv = (if dns_str = None then None
                         else snd (write_dns_resolv_conf (Some ''/etc/resolv.conf'') dns_str
                                (me_resolv_open e) (me_resolv_closed e)))
                   in Some (Inr ((cfg, listen_str, remote_str), resolv,
                     map log_info (startup_lines version cfg listen_str remote_str
                       (if file = None then None else cl_config c) dns_str))))))"

text \<open>The exit status (\<open>None\<close> when \<open>proxy_run\<close> does not return), what was written to
  \<open>/etc/resolv.conf\<close> and the actions.\<close>

definition main_prog ::
  "string \<Rightarrow> main_env \<Rightarrow> string list
    \<Rightarrow> (int option \<times> string option \<times> action list) option" where
  "main_prog version e argv =
    (case main_start version e argv of
       None \<Rightarrow> None
     | Some (Inl (rc, acts)) \<Rightarrow> Some (Some rc, None, acts)
     | Some (Inr ((cfg, listen_str, remote_str), resolv, acts)) \<Rightarrow>
         (case proxy_init cfg listen_str remote_str (cf_src_port cfg) (me_init e) of
            None \<Rightarrow> None
          | Some (Inl a) \<Rightarrow> Some (Some 1, resolv, acts @ a @ [fatal ''proxy init failed''])
          | Some (Inr (p, c2s, s2c)) \<Rightarrow>
              (let (rc, p, a) = proxy_run p (me_run e) in Some (rc, resolv, acts @ a))))"

end
