(* ===== verification/Main_Correct.thy ===== *)
theory Main_Correct
  imports Main_Program
begin

text \<open>
  What every configuration that \<open>main\<close> hands to \<open>proxy_init\<close> satisfies, and which of
  its sources each value comes from.
\<close>

section \<open>Steps\<close>

text \<open>\<open>keeps P f\<close>: a step that succeeds keeps \<open>P\<close>.\<close>

definition keeps :: "('c \<Rightarrow> bool) \<Rightarrow> ('c \<Rightarrow> 'e + 'c) \<Rightarrow> bool" where
  "keeps P f \<longleftrightarrow> (\<forall>c c'. P c \<longrightarrow> f c = Inr c' \<longrightarrow> P c')"

named_theorems keeps_intros \<open>steps that keep a property of the configuration\<close>

lemma keepsD: "keeps P f \<Longrightarrow> P c \<Longrightarrow> f c = Inr c' \<Longrightarrow> P c'"
  by (auto simp: keeps_def)

lemma keeps_run_steps [keeps_intros]: "(\<forall>f \<in> set fs. keeps P f) \<Longrightarrow> keeps P (run_steps fs)"
proof (induction fs)
  case (Cons f fs)
  then have "keeps P f" "keeps P (run_steps fs)" by simp_all
  show ?case
    unfolding keeps_def
  proof (intro allI impI)
    fix c c' assume "P c" and r: "run_steps (f # fs) c = Inr c'"
    then obtain d where "f c = Inr d" "run_steps fs d = Inr c'" by (cases "f c") simp_all
    then show "P c'" using keepsD [OF \<open>keeps P f\<close> \<open>P c\<close>] keepsD [OF \<open>keeps P (run_steps fs)\<close>] by blast
  qed
qed (simp add: keeps_def)

lemma keeps_if [keeps_intros]:
  "(b \<Longrightarrow> keeps P f) \<Longrightarrow> (\<not> b \<Longrightarrow> keeps P g) \<Longrightarrow> keeps P (\<lambda>c. if b then f c else g c)"
  by (cases b) simp_all

lemma keeps_env_int [keeps_intros]: "(\<And>v c. P c \<Longrightarrow> P (put v c)) \<Longrightarrow> keeps P (env_int env name d put)"
  by (auto simp: keeps_def env_int_def Let_def split: option.splits if_splits)

lemma keeps_env_nat [keeps_intros]: "(\<And>v c. P c \<Longrightarrow> P (put v c)) \<Longrightarrow> keeps P (env_nat env name d put)"
  by (auto simp: keeps_def env_nat_def Let_def split: option.splits if_splits)

lemma keeps_env_param [keeps_intros]:
  "(\<And>v c. v \<le> 2147483647 \<Longrightarrow> P c \<Longrightarrow> P (put v c)) \<Longrightarrow> keeps P (env_param env name put)"
  by (auto simp: keeps_def env_param_def parse_int_same dest: parse_int_bounds split: option.splits if_splits)

lemma keeps_env_range [keeps_intros]:
  "(\<And>r c. hr_min r \<le> hr_max r \<Longrightarrow> P c \<Longrightarrow> P (put r c)) \<Longrightarrow> keeps P (env_range env name d put)"
  by (auto simp: keeps_def env_range_def dest: parse_hrange_str_ordered split: option.splits if_splits)

lemma keeps_key_env [keeps_intros]: "(\<And>k c. P c \<Longrightarrow> P (put k c)) \<Longrightarrow> keeps P (key_env env name put)"
  by (auto simp: keeps_def key_env_def split: option.splits if_splits)

lemma keeps_Inr [keeps_intros]: "(\<And>c. P c \<Longrightarrow> P (f c)) \<Longrightarrow> keeps P (\<lambda>c. Inr (f c))"
  by (auto simp: keeps_def)

section \<open>The configuration file\<close>

text \<open>What the data path needs of a file's values.\<close>

definition range_ok :: "hrange_t option \<Rightarrow> bool" where
  "range_ok r \<longleftrightarrow> (case r of Some r \<Rightarrow> hr_min r \<le> hr_max r | None \<Rightarrow> True)"

definition tmpl_ok :: "cps_template_t option \<Rightarrow> bool" where
  "tmpl_ok t \<longleftrightarrow> (case t of Some t \<Rightarrow> template_ok t | None \<Rightarrow> True)"

definition file_ok :: "awg_file_config_t \<Rightarrow> bool" where
  "file_ok fc \<longleftrightarrow> range_ok (fc_h1 fc) \<and> range_ok (fc_h2 fc) \<and> range_ok (fc_h3 fc) \<and> range_ok (fc_h4 fc)
     \<and> length (fc_cps fc) = 5 \<and> list_all tmpl_ok (fc_cps fc)
     \<and> (case fc_jc fc of Some v \<Rightarrow> v \<le> 2147483647 | None \<Rightarrow> True)
     \<and> length (fc_peer_pubs fc) \<le> 256"

lemma file_ok_zero: "file_ok file_config_zero"
  by (simp add: file_ok_def file_config_zero_def range_ok_def list_all_iff tmpl_ok_def)

lemma list_all_update: "list_all P xs \<Longrightarrow> P x \<Longrightarrow> list_all P (xs[i := x])"
  by (auto simp: list_all_iff dest: set_update_subset_insert [THEN subsetD])

lemma file_ok_put:
  assumes "file_ok out"
  shows "v \<le> 2147483647 \<Longrightarrow> file_ok (out\<lparr>fc_jc := Some v\<rparr>)"
    and "file_ok (out\<lparr>fc_jmin := i\<rparr>)" "file_ok (out\<lparr>fc_jmax := i\<rparr>)" "file_ok (out\<lparr>fc_s1 := i\<rparr>)"
      "file_ok (out\<lparr>fc_s2 := i\<rparr>)" "file_ok (out\<lparr>fc_s3 := i\<rparr>)" "file_ok (out\<lparr>fc_s4 := i\<rparr>)"
      "file_ok (out\<lparr>fc_client_pub := k\<rparr>)" "file_ok (out\<lparr>fc_listen := t\<rparr>)" "file_ok (out\<lparr>fc_dns := t\<rparr>)"
    and "hr_min r \<le> hr_max r \<Longrightarrow> file_ok (out\<lparr>fc_h1 := Some r\<rparr>)"
      "hr_min r \<le> hr_max r \<Longrightarrow> file_ok (out\<lparr>fc_h2 := Some r\<rparr>)"
      "hr_min r \<le> hr_max r \<Longrightarrow> file_ok (out\<lparr>fc_h3 := Some r\<rparr>)"
      "hr_min r \<le> hr_max r \<Longrightarrow> file_ok (out\<lparr>fc_h4 := Some r\<rparr>)"
  using assms by (simp_all add: file_ok_def range_ok_def)

lemma keeps_set_int [keeps_intros]:
  "(\<And>v c. v \<le> 2147483647 \<Longrightarrow> P c \<Longrightarrow> P (put v c)) \<Longrightarrow> keeps P (set_int name val put)"
  by (auto simp: keeps_def set_int_def dest: parse_int_bounds split: option.splits)

lemma keeps_set_range [keeps_intros]:
  "(\<And>r c. hr_min r \<le> hr_max r \<Longrightarrow> P c \<Longrightarrow> P (put r c)) \<Longrightarrow> keeps P (set_range name val put)"
  by (auto simp: keeps_def set_range_def dest: parse_hrange_ordered split: option.splits)

lemma keeps_set_listen: "keeps file_ok (set_listen val)"
  by (auto simp: keeps_def set_listen_def file_ok_put split: option.splits if_splits)

lemma keeps_set_cps: "keeps file_ok (set_cps key val)"
  using cps_parse_ok [of val]
  by (auto simp: keeps_def set_cps_def Let_def file_ok_def tmpl_ok_def intro!: list_all_update
      split: option.splits if_splits)

lemma keeps_private_key:
  "keeps file_ok (\<lambda>out. case decode_key32 val name of Inl e \<Rightarrow> Inl e | Inr sk \<Rightarrow> Inr (out\<lparr>fc_client_pub := Some (f sk)\<rparr>))"
  by (auto simp: keeps_def file_ok_put split: sum.splits)

lemma keeps_interface_key: "keeps file_ok (interface_key key val)"
  unfolding interface_key_def
  by (intro keeps_intros keeps_private_key keeps_set_listen keeps_set_cps) (auto intro: file_ok_put)

lemma file_ok_flush:
  "file_ok (fp_out ps) \<Longrightarrow> file_ok (fp_out (flush_section ps))"
  by (auto simp: flush_section_def flush_peer_def file_ok_def Let_def split: option.splits prod.splits)

lemma keeps_peer_key: "keeps (\<lambda>ps. file_ok (fp_out ps)) (peer_key key val)"
  by (auto simp: keeps_def peer_key_def split: if_splits sum.splits option.splits)

lemma keeps_parse_line: "keeps (\<lambda>ps. file_ok (fp_out ps)) (parse_line buf)"
  unfolding keeps_def
proof (intro allI impI)
  fix ps ps' assume ok: "file_ok (fp_out ps)" and p: "parse_line buf ps = Inr ps'"
  have i: "file_ok out" if "interface_key key val (fp_out ps) = Inr out" for key val out
    using keepsD [OF keeps_interface_key ok that] .
  from p show "file_ok (fp_out ps')"
    unfolding parse_line_def Let_def
    using file_ok_flush [OF ok] ok
    by (auto split: if_splits option.splits section_t.splits sum.splits) (erule i, erule keepsD [OF keeps_peer_key ok])
qed

lemma config_file_parse_ok:
  assumes "config_file_parse path contents = Inr fc"
  shows "file_ok fc"
proof -
  obtain s ps where s: "run_steps (map parse_line (file_lines s)) parser_start = Inr ps"
      and fc: "fc = fp_out (flush_section ps)"
    using assms by (auto simp: config_file_parse_def split: option.splits sum.splits)
  have "keeps (\<lambda>ps. file_ok (fp_out ps)) (run_steps (map parse_line (file_lines s)))"
    using keeps_parse_line by (intro keeps_run_steps) auto
  from keepsD [OF this _ s] have "file_ok (fp_out ps)" by (simp add: parser_start_def file_ok_zero)
  then show ?thesis unfolding fc by (rule file_ok_flush)
qed

section \<open>The merged configuration\<close>

text \<open>What holds of the configuration while it is being filled.\<close>

definition source_ok :: "awg_config_t \<Rightarrow> bool" where
  "source_ok cfg \<longleftrightarrow> hranges_ordered cfg \<and> templates_ok cfg \<and> length (cf_cps cfg) = 5
     \<and> cf_jc cfg \<le> 2147483647
     \<and> distinct (cf_server_peer_pubs cfg) \<and> length (cf_server_peer_pubs cfg) \<le> 256"

lemma source_ok_zero: "source_ok config_zero"
  by (simp add: source_ok_def config_zero_def hranges_ordered_def templates_ok_def list_all_iff)

lemma source_ok_put:
  assumes "source_ok c"
  shows "v \<le> 2147483647 \<Longrightarrow> source_ok (c\<lparr>cf_jc := v\<rparr>)"
    and "source_ok (c\<lparr>cf_jmin := v\<rparr>)" "source_ok (c\<lparr>cf_jmax := v\<rparr>)" "source_ok (c\<lparr>cf_s1 := v\<rparr>)"
      "source_ok (c\<lparr>cf_s2 := v\<rparr>)" "source_ok (c\<lparr>cf_s3 := v\<rparr>)" "source_ok (c\<lparr>cf_s4 := v\<rparr>)"
      "source_ok (c\<lparr>cf_mode := m\<rparr>)" "source_ok (c\<lparr>cf_log_level := l\<rparr>)" "source_ok (c\<lparr>cf_obfs_profile := o'\<rparr>)"
      "source_ok (c\<lparr>cf_server_pub := k\<rparr>)" "source_ok (c\<lparr>cf_client_pub := k\<rparr>)"
    and "hr_min r \<le> hr_max r \<Longrightarrow> source_ok (c\<lparr>cf_h1 := r\<rparr>)"
      "hr_min r \<le> hr_max r \<Longrightarrow> source_ok (c\<lparr>cf_h2 := r\<rparr>)"
      "hr_min r \<le> hr_max r \<Longrightarrow> source_ok (c\<lparr>cf_h3 := r\<rparr>)"
      "hr_min r \<le> hr_max r \<Longrightarrow> source_ok (c\<lparr>cf_h4 := r\<rparr>)"
  using assms by (simp_all add: source_ok_def hranges_ordered_def templates_ok_def)

lemma keeps_obfuscation_env: "keeps source_ok (load_obfuscation_env env)"
  unfolding load_obfuscation_env_def
  by (rule keeps_run_steps) (auto intro!: keeps_intros intro: source_ok_put)

lemma keeps_mode: "keeps source_ok (main_mode env c)"
  unfolding main_mode_def
  by (rule keeps_run_steps) (auto simp: keeps_def source_ok_put split: option.splits if_splits)

lemma override_keeps:
  "P c \<Longrightarrow> (\<And>x c. v = Some x \<Longrightarrow> P c \<Longrightarrow> P (put x c)) \<Longrightarrow> P (override v put c)"
  by (cases v) (simp_all add: override_def)

lemma source_ok_overrides:
  assumes "source_ok cfg" and "file_ok fc"
  shows "source_ok (apply_file_obfuscation_overrides cfg fc)"
  unfolding apply_file_obfuscation_overrides_def Let_def
  using assms(2)
  by (intro override_keeps [where P = source_ok] assms(1)) (auto intro!: source_ok_put simp: file_ok_def range_ok_def)

definition file_opt_ok :: "awg_file_config_t option \<Rightarrow> bool" where
  "file_opt_ok file \<longleftrightarrow> (case file of Some fc \<Rightarrow> file_ok fc | None \<Rightarrow> True)"

lemma keeps_obfuscation:
  assumes "file_opt_ok file"
  shows "keeps source_ok (main_obfuscation env file)"
proof -
  have "source_ok c'" if c: "source_ok c" and m: "main_obfuscation env file c = Inr c'" for c c'
  proof -
    obtain d where d: "load_obfuscation_env env c = Inr d" using m by (auto simp: main_obfuscation_def split: sum.splits)
    have "source_ok (load_obfs_profile_env env d)"
      using keepsD [OF keeps_obfuscation_env c d] by (simp add: load_obfs_profile_env_def source_ok_put)
    then have "source_ok (case file of Some fc \<Rightarrow> apply_file_obfuscation_overrides (load_obfs_profile_env env d) fc
        | None \<Rightarrow> load_obfs_profile_env env d)"
      using assms by (auto simp: file_opt_ok_def source_ok_overrides split: option.split)
    then show ?thesis using m d by (auto simp: main_obfuscation_def Let_def source_ok_put split: if_splits)
  qed
  then show ?thesis by (auto simp: keeps_def)
qed

section \<open>Peer keys\<close>

lemma source_ok_add_peer:
  "source_ok cfg \<Longrightarrow> add_server_peer_pub_unique cfg pub = Some cfg' \<Longrightarrow> source_ok cfg'"
  by (auto simp: add_server_peer_pub_unique_def source_ok_def hranges_ordered_def templates_ok_def split: if_splits)

lemma source_ok_peer_list:
  "source_ok cfg \<Longrightarrow> parse_server_peer_list cfg p = Some cfg' \<Longrightarrow> source_ok cfg'"
proof (induction cfg p rule: parse_server_peer_list.induct)
  case (1 cfg p)
  from "1.prems"(2) show ?case
    unfolding parse_server_peer_list.simps [of cfg p]
    using "1.prems"(1) by (auto split: option.splits prod.splits if_splits intro: "1.IH" source_ok_add_peer)
qed

lemma source_ok_peer_file:
  "source_ok cfg \<Longrightarrow> load_server_peer_file cfg path e = Some cfg' \<Longrightarrow> source_ok cfg'"
  by (auto simp: load_server_peer_file_def Let_def dest: source_ok_peer_list split: if_splits)

lemma keeps_file_peers: "keeps source_ok (add_file_peers pubs)"
  unfolding add_file_peers_def
  by (rule keeps_run_steps) (auto simp: keeps_def dest: source_ok_add_peer split: option.splits)

lemma keeps_opt: "keeps P Inr" "(\<And>x. v = Some x \<Longrightarrow> keeps P (f x)) \<Longrightarrow> keeps P (\<lambda>c. case v of Some x \<Rightarrow> f x c | None \<Rightarrow> Inr c)"
  by (simp add: keeps_def) (cases v, simp_all add: keeps_def)

lemma keeps_when: "keeps P f \<Longrightarrow> keeps P (\<lambda>c. if b c then f c else Inr c)"
  by (simp add: keeps_def)

lemma keeps_server_peers: "keeps source_ok (main_server_peers env file pubs_file)"
  unfolding main_server_peers_def
proof (rule keeps_when, rule keeps_run_steps, unfold list.set ball_simps, intro conjI)
  show "keeps source_ok (\<lambda>cfg. case file of Some fc \<Rightarrow> add_file_peers (fc_peer_pubs fc) cfg | None \<Rightarrow> Inr cfg)"
    by (rule keeps_opt(2)) (rule keeps_file_peers)
qed (auto simp: keeps_def dest: source_ok_peer_list source_ok_peer_file split: option.splits if_splits)

lemma keeps_keys: "keeps source_ok (main_keys env file pubs_file)"
  unfolding main_keys_def
  by (rule keeps_run_steps)
    (auto intro!: keeps_intros keeps_server_peers source_ok_put simp: override_def split: option.split)

section \<open>The finished configuration\<close>

lemma templates_tmpl: "templates_ok cfg \<longleftrightarrow> list_all tmpl_ok (cf_cps cfg)"
  by (auto simp: templates_ok_def tmpl_ok_def list_all_iff)

text \<open>Once validated, completed and found to have every required field.\<close>

definition late_ok :: "string \<Rightarrow> string \<Rightarrow> awg_config_t \<Rightarrow> bool" where
  "late_ok l r cfg \<longleftrightarrow> config_ready cfg \<and> source_ok cfg \<and> missing_fields cfg l r = []"

lemma late_ok_put:
  assumes "late_ok l r c"
  shows "late_ok l r (c\<lparr>cf_timeout := v\<rparr>)" "late_ok l r (c\<lparr>cf_remote_silent_timeout := v\<rparr>)"
    "late_ok l r (c\<lparr>cf_remote_silent_exit_timeout := v\<rparr>)" "late_ok l r (c\<lparr>cf_connect_retries := v\<rparr>)"
    "late_ok l r (c\<lparr>cf_dns_resolve_failure_timeout := v\<rparr>)" "late_ok l r (c\<lparr>cf_socket_buf := v\<rparr>)"
    "late_ok l r (c\<lparr>cf_src_port := v\<rparr>)" "late_ok l r (c\<lparr>cf_src_port_drift := v\<rparr>)"
    "late_ok l r (c\<lparr>cf_cpu_c2s := v\<rparr>)" "late_ok l r (c\<lparr>cf_cpu_s2c := v\<rparr>)"
    "late_ok l r (c\<lparr>cf_busy_poll := v\<rparr>)" "late_ok l r (c\<lparr>cf_no_gro := v\<rparr>)"
    "length ts = 5 \<Longrightarrow> list_all tmpl_ok ts \<Longrightarrow> late_ok l r (c\<lparr>cf_cps := ts\<rparr>)"
  using assms
  by (simp_all add: late_ok_def config_ready_def config_ok_def source_ok_def hranges_ordered_def missing_fields_def
      templates_tmpl)

lemma late_ok_cps: "late_ok l r c \<Longrightarrow> list_all tmpl_ok (cf_cps c) \<and> length (cf_cps c) = 5"
  by (simp add: late_ok_def source_ok_def templates_tmpl)

lemma late_ok_compute:
  assumes "source_ok cfg" and "config_validate cfg = None" and "missing_fields (config_compute cfg) l r = []"
  shows "late_ok l r (config_compute cfg)"
proof -
  have "source_ok (config_compute cfg)"
    using assms(1) by (simp add: source_ok_def config_compute_def hranges_ordered_def templates_ok_def Let_def)
  then show ?thesis
    using assms config_ready_compute [of cfg] by (simp add: late_ok_def config_validate_ok source_ok_def)
qed

lemma keeps_env_cps: "keeps (late_ok l r) (env_cps env name i)"
  using late_ok_cps cps_parse_ok
  by (auto simp: keeps_def env_cps_def tmpl_ok_def intro!: late_ok_put list_all_update split: option.splits if_splits)

lemma keeps_cps:
  assumes "file_opt_ok file"
  shows "keeps (late_ok l r) (main_cps env file)"
proof -
  have "late_ok l r c'" if c: "late_ok l r c" and m: "main_cps env file c = Inr c'" for c c'
  proof -
    obtain d where d: "load_cps_env env c = Inr d" using m by (auto simp: main_cps_def split: sum.splits)
    have "keeps (late_ok l r) (load_cps_env env)"
      unfolding load_cps_env_def by (rule keeps_run_steps) (auto intro: keeps_env_cps)
    from keepsD [OF this c d] have ok: "late_ok l r d" .
    have "late_ok l r (d\<lparr>cf_cps := map2 (\<lambda>own t. if t \<noteq> None then t else own) (cf_cps d) (fc_cps fc)\<rparr>)"
      if "file_ok fc" for fc
    proof (rule late_ok_put(13) [OF ok])
      have s: "list_all tmpl_ok (cf_cps d)" "length (cf_cps d) = 5" using late_ok_cps [OF ok] by simp_all
      show "length (map2 (\<lambda>own t. if t \<noteq> None then t else own) (cf_cps d) (fc_cps fc)) = 5"
        using s that by (simp add: file_ok_def)
      show "list_all tmpl_ok (map2 (\<lambda>own t. if t \<noteq> None then t else own) (cf_cps d) (fc_cps fc))"
        using s(1) that by (auto simp: list_all_iff file_ok_def elim!: in_set_zipE)
    qed
    then show ?thesis using m d ok assms by (auto simp: main_cps_def file_opt_ok_def split: option.splits)
  qed
  then show ?thesis by (auto simp: keeps_def)
qed

lemma keeps_operational: "keeps (late_ok l r) (load_operational_env env)"
  unfolding load_operational_env_def by (rule keeps_run_steps) (auto intro!: keeps_intros late_ok_put)

lemma silent_timeout_ok:
  "late_ok l r c \<Longrightarrow> main_silent_timeout file c = Some c' \<Longrightarrow> late_ok l r c' \<and> 0 < cf_remote_silent_timeout c'"
  by (auto simp: main_silent_timeout_def compute_remote_silent_timeout_def Let_def late_ok_put split: if_splits)

text \<open>The last steps keep the silence timeout.\<close>

definition timed_ok :: "string \<Rightarrow> string \<Rightarrow> awg_config_t \<Rightarrow> bool" where
  "timed_ok l r cfg \<longleftrightarrow> late_ok l r cfg \<and> 0 < cf_remote_silent_timeout cfg"

lemma keeps_network: "keeps (timed_ok l r) (load_network_perf_env env)"
  unfolding load_network_perf_env_def
proof (rule keeps_run_steps, unfold list.set ball_simps, intro conjI)
  show "keeps (timed_ok l r) (env_src_port env)"
    by (auto simp: keeps_def env_src_port_def timed_ok_def late_ok_put Let_def split: option.splits if_splits)
qed (auto intro!: keeps_env_int simp: timed_ok_def late_ok_put)

lemma keeps_src_port: "keeps (timed_ok l r) (main_src_port c)"
  by (auto simp: keeps_def main_src_port_def timed_ok_def late_ok_put split: option.splits if_splits)

lemma endpoints_bounded:
  "main_endpoints env c file = Some (l, r) \<Longrightarrow> length l \<le> 255 \<and> length r \<le> 255"
  by (auto simp: main_endpoints_def merge_endpoint_values_def copy_text_def Let_def split: option.splits if_splits)

lemma main_config_timed_ok:
  assumes "main_config env pf c file = Some (Inr (cfg, l, r))" and "file_opt_ok file"
  shows "timed_ok l r cfg \<and> length l \<le> 255 \<and> length r \<le> 255"
proof -
  have s0: "source_ok (main_log_level env c config_zero)"
    using source_ok_zero by (auto simp: main_log_level_def source_ok_put Let_def split: option.split)
  obtain c1 where c1: "main_mode env c (main_log_level env c config_zero) = Inr c1"
      and e: "main_endpoints env c file = Some (l, r)"
    using assms(1) by (auto simp: main_config_def Let_def split: sum.splits option.splits if_splits)
  obtain c2 where c2: "main_obfuscation env file c1 = Inr c2"
    using assms(1) c1 e by (auto simp: main_config_def Let_def split: sum.splits)
  obtain c3 where c3: "main_keys env file pf c2 = Inr c3"
    using assms(1) c1 e c2 by (auto simp: main_config_def Let_def split: sum.splits)
  have v: "config_validate c3 = None" "missing_fields (config_compute c3) l r = []"
    using assms(1) c1 e c2 c3 by (auto simp: main_config_def Let_def split: option.splits if_splits)
  obtain c4 where c4: "main_cps env file (config_compute c3) = Inr c4"
    using assms(1) c1 e c2 c3 v by (auto simp: main_config_def Let_def split: sum.splits)
  obtain c5 where c5: "load_operational_env env c4 = Inr c5"
    using assms(1) c1 e c2 c3 v c4 by (auto simp: main_config_def Let_def split: sum.splits)
  obtain c6 where c6: "main_silent_timeout file c5 = Some c6"
    using assms(1) c1 e c2 c3 v c4 c5 by (auto simp: main_config_def Let_def split: option.splits)
  obtain c7 where c7: "load_network_perf_env env c6 = Inr c7"
    using assms(1) c1 e c2 c3 v c4 c5 c6 by (auto simp: main_config_def Let_def split: sum.splits)
  have c8: "main_src_port c c7 = Inr cfg"
    using assms(1) c1 e c2 c3 v c4 c5 c6 c7 by (auto simp: main_config_def Let_def split: sum.splits)
  have "source_ok c3"
    using keepsD [OF keeps_mode s0 c1] keepsD [OF keeps_obfuscation [OF assms(2)] _ c2] keepsD [OF keeps_keys _ c3]
    by blast
  from late_ok_compute [OF this v] have "late_ok l r c5"
    using keepsD [OF keeps_cps [OF assms(2)] _ c4] keepsD [OF keeps_operational _ c5] by blast
  from silent_timeout_ok [OF this c6] have "timed_ok l r c6" by (simp add: timed_ok_def)
  then have "timed_ok l r cfg"
    using keepsD [OF keeps_network _ c7] keepsD [OF keeps_src_port _ c8] by blast
  then show ?thesis using endpoints_bounded [OF e] by blast
qed

lemma main_start_timed_ok:
  assumes "main_start v e argv = Some (Inr ((cfg, l, r), resolv, acts))"
  shows "timed_ok l r cfg \<and> length l \<le> 255 \<and> length r \<le> 255"
proof -
  obtain c fo where f: "(if given (cl_config c)
      then map_sum id Some (config_file_parse (the (cl_config c)) (me_file e (the (cl_config c))))
      else Inr None) = Inr fo"
    and m: "main_config (me_env e) (me_pubs_file e) c fo = Some (Inr (cfg, l, r))"
    using assms unfolding main_start_def Let_def by (auto split: cli_result.splits sum.splits option.splits)
  have "file_opt_ok fo"
    using f config_file_parse_ok
    by (cases "config_file_parse (the (cl_config c)) (me_file e (the (cl_config c)))")
      (auto simp: file_opt_ok_def split: if_splits)
  from main_config_timed_ok [OF m this] show ?thesis .
qed

end
