(* ===== verification/Config_Sources.thy ===== *)
theory Config_Sources
  imports Main_Correct
begin

text \<open>
  Where each value of the configuration comes from: a flag goes before the configuration file,
  the file before the environment, the environment before the default; and the peer keys of
  server mode in the order of their sources, each once.
\<close>

section \<open>Peer keys\<close>

text \<open>The tokens of a list, the key of a token, and a list of keys added one by one.\<close>

function tokens :: "(char \<Rightarrow> bool) \<Rightarrow> string \<Rightarrow> string list" where
  "tokens sep p = (case next_token sep p of None \<Rightarrow> [] | Some (t, q) \<Rightarrow> t # tokens sep q)"
  by pat_completeness auto
termination
  by (relation "measure (length \<circ> snd)") (auto dest: next_token_shorter)

declare tokens.simps [simp del]

definition token_key :: "string \<Rightarrow> bytes option" where
  "token_key t = (if length t \<ge> 128 then None
     else case base64_decode t 32 of Some k \<Rightarrow> if length k = 32 then Some k else None | None \<Rightarrow> None)"

fun add_all :: "bytes list \<Rightarrow> awg_config_t \<Rightarrow> awg_config_t option" where
  "add_all [] cfg = Some cfg"
| "add_all (k # ks) cfg = (case add_server_peer_pub_unique cfg k of None \<Rightarrow> None | Some cfg \<Rightarrow> add_all ks cfg)"

lemma peer_list_eq:
  "parse_server_peer_list cfg p = (case those (map token_key (tokens is_pub_sep p)) of None \<Rightarrow> None
     | Some ks \<Rightarrow> add_all ks cfg)"
proof (induction cfg p rule: parse_server_peer_list.induct)
  case (1 cfg p)
  show ?case
  proof (cases "next_token is_pub_sep p")
    case None
    then show ?thesis by (simp add: parse_server_peer_list.simps [of cfg p] tokens.simps [of _ p])
  next
    case (Some tq)
    obtain t q where n: "next_token is_pub_sep p = Some (t, q)" using Some by (cases tq) simp
    show ?thesis
    proof (cases "token_key t")
      case None
      then show ?thesis using n
        by (auto simp: parse_server_peer_list.simps [of cfg p] tokens.simps [of _ p] token_key_def
            split: option.splits if_splits)
    next
      case (Some k)
      then have k: "\<not> 128 \<le> length t" "base64_decode t 32 = Some k" "length k = 32"
        by (auto simp: token_key_def split: if_splits option.splits)
      then have ih: "add_server_peer_pub_unique cfg k = Some d \<Longrightarrow> parse_server_peer_list d q =
          (case those (map token_key (tokens is_pub_sep q)) of None \<Rightarrow> None | Some ks \<Rightarrow> add_all ks d)" for d
        using 1 [OF n refl k(1,2), of d] by simp
      show ?thesis using n k Some ih
        by (cases "add_server_peer_pub_unique cfg k"; cases "those (map token_key (tokens is_pub_sep q))")
          (simp_all add: parse_server_peer_list.simps [of cfg p] tokens.simps [of _ p])
    qed
  qed
qed

text \<open>The keys of two lists in order, each at its first place.\<close>

definition firsts :: "'a list \<Rightarrow> 'a list" where
  "firsts xs = rev (remdups (rev xs))"

lemma firsts_snoc: "firsts (xs @ [x]) = (if x \<in> set xs then firsts xs else firsts xs @ [x])"
  by (simp add: firsts_def)

lemma firsts_props: "distinct (firsts xs)" "set (firsts xs) = set xs" "distinct xs \<Longrightarrow> firsts xs = xs"
  by (simp_all add: firsts_def distinct_remdups_id)

lemma firsts_prefix: "length (firsts xs) \<le> length (firsts (xs @ ys))"
proof (induction ys rule: rev_induct)
  case (snoc y ys)
  then show ?case by (simp add: firsts_snoc flip: append_assoc)
qed simp

lemma firsts_firsts: "firsts (firsts xs @ ys) = firsts (xs @ ys)"
proof (induction ys rule: rev_induct)
  case Nil
  show ?case by (simp add: firsts_props)
next
  case (snoc y ys)
  then show ?case by (simp add: firsts_snoc firsts_props flip: append_assoc)
qed

lemma add_all_eq:
  assumes "distinct (cf_server_peer_pubs cfg)" and "length (cf_server_peer_pubs cfg) \<le> 256"
  shows "add_all ks cfg = (let all = firsts (cf_server_peer_pubs cfg @ ks) in
    if length all \<le> 256 then Some (cfg\<lparr>cf_server_peer_pubs := all\<rparr>) else None)"
  using assms
proof (induction ks arbitrary: cfg)
  case Nil
  then show ?case by (simp add: firsts_props)
next
  case (Cons k ks)
  let ?o = "cf_server_peer_pubs cfg"
  show ?case
  proof (cases "k \<in> set ?o")
    case True
    then have "firsts (?o @ [k]) = ?o" using Cons.prems by (simp add: firsts_snoc firsts_props)
    then show ?thesis using Cons True firsts_firsts [of "?o @ [k]" ks] by (simp add: add_server_peer_pub_unique_def)
  next
    case new: False
    then have n: "firsts (?o @ [k]) = ?o @ [k]" using Cons.prems by (simp add: firsts_snoc firsts_props)
    show ?thesis
    proof (cases "length ?o \<ge> 256")
      case True
      then have "256 < length (firsts (?o @ k # ks))" using firsts_prefix [of "?o @ [k]" ks] n by simp
      then show ?thesis using True new by (simp add: add_server_peer_pub_unique_def)
    next
      case False
      then show ?thesis using new Cons.IH [of "cfg\<lparr>cf_server_peer_pubs := ?o @ [k]\<rparr>"] Cons.prems(1)
        by (simp add: add_server_peer_pub_unique_def Let_def)
    qed
  qed
qed

section \<open>Fields a step leaves alone\<close>

type_synonym obf_params = "int \<times> int \<times> int \<times> int \<times> int \<times> int \<times> int \<times> hrange_t \<times> hrange_t \<times> hrange_t \<times> hrange_t"

definition obf_params :: "awg_config_t \<Rightarrow> obf_params" where
  "obf_params c = (cf_jc c, cf_jmin c, cf_jmax c, cf_s1 c, cf_s2 c, cf_s3 c, cf_s4 c, cf_h1 c, cf_h2 c, cf_h3 c, cf_h4 c)"

definition identity :: "awg_config_t \<Rightarrow> awg_mode \<times> bytes \<times> bytes \<times> bytes list" where
  "identity c = (cf_mode c, cf_server_pub c, cf_client_pub c, cf_server_peer_pubs c)"

definition but_peers :: "awg_config_t \<Rightarrow> obf_params \<times> awg_mode \<times> bytes \<times> bytes" where
  "but_peers c = (obf_params c, cf_mode c, cf_server_pub c, cf_client_pub c)"

lemma key_fields [simp]:
  "obf_params (c\<lparr>cf_server_pub := k\<rparr>) = obf_params c" "obf_params (c\<lparr>cf_client_pub := k\<rparr>) = obf_params c"
  "obf_params (c\<lparr>cf_server_peer_pubs := ks\<rparr>) = obf_params c" "obf_params (c\<lparr>cf_mode := m\<rparr>) = obf_params c"
  by (simp_all add: obf_params_def)

lemma add_peer_fields: "add_server_peer_pub_unique c pub = Some c' \<Longrightarrow> but_peers c' = but_peers c"
  by (auto simp: add_server_peer_pub_unique_def but_peers_def split: if_splits)

lemma add_all_fields: "add_all ks c = Some c' \<Longrightarrow> but_peers c' = but_peers c"
proof (induction ks arbitrary: c)
  case (Cons k ks)
  then obtain d where d: "add_server_peer_pub_unique c k = Some d" "add_all ks d = Some c'"
    by (cases "add_server_peer_pub_unique c k") simp_all
  show ?case using Cons.IH [OF d(2)] add_peer_fields [OF d(1)] by simp
qed simp

lemma peer_list_fields: "parse_server_peer_list c p = Some c' \<Longrightarrow> but_peers c' = but_peers c"
  by (auto simp: peer_list_eq dest: add_all_fields split: option.splits)

lemma keeps_peers: "keeps (\<lambda>c. but_peers c = x) (main_server_peers env fo pubs_file)"
  unfolding main_server_peers_def
proof (rule keeps_when, rule keeps_run_steps, unfold list.set ball_simps, intro conjI)
  show "keeps (\<lambda>c. but_peers c = x) (\<lambda>cfg. case fo of Some fc \<Rightarrow> add_file_peers (fc_peer_pubs fc) cfg | None \<Rightarrow> Inr cfg)"
    by (rule keeps_opt(2), unfold add_file_peers_def, rule keeps_run_steps)
      (auto simp: keeps_def dest!: add_peer_fields split: option.splits)
qed (auto simp: keeps_def load_server_peer_file_def Let_def dest!: peer_list_fields split: option.splits if_splits)

lemma keeps_obf_keys: "keeps (\<lambda>c. obf_params c = x \<and> cf_mode c = m) (main_keys env fo pubs_file)"
  unfolding main_keys_def
proof (rule keeps_run_steps, unfold list.set ball_simps, intro conjI)
  show "keeps (\<lambda>c. obf_params c = x \<and> cf_mode c = m) (main_server_peers env fo pubs_file)"
    unfolding keeps_def
  proof (intro allI impI)
    fix c c' assume "obf_params c = x \<and> cf_mode c = m" and "main_server_peers env fo pubs_file c = Inr c'"
    with keepsD [OF keeps_peers refl, of env fo pubs_file c c'] show "obf_params c' = x \<and> cf_mode c' = m"
      by (simp add: but_peers_def)
  qed
  show "keeps (\<lambda>c. obf_params c = x \<and> cf_mode c = m) (\<lambda>cfg. Inr (case fo of
      Some fc \<Rightarrow> override (fc_server_pub fc) (\<lambda>k cfg. cfg\<lparr>cf_server_pub := k\<rparr>) cfg | None \<Rightarrow> cfg))"
    by (rule keeps_Inr) (simp add: override_def split: option.split)
  show "keeps (\<lambda>c. obf_params c = x \<and> cf_mode c = m) (\<lambda>cfg. Inr (case fo of
      Some fc \<Rightarrow> override (fc_client_pub fc) (\<lambda>k cfg. cfg\<lparr>cf_client_pub := k\<rparr>) cfg | None \<Rightarrow> cfg))"
    by (rule keeps_Inr) (simp add: override_def split: option.split)
qed ((rule keeps_key_env, simp)+, rule TrueI)

lemma compute_fields: "obf_params (config_compute c) = obf_params c" "identity (config_compute c) = identity c"
  by (simp_all add: obf_params_def identity_def config_compute_def Let_def)

definition fixed :: "obf_params \<times> awg_mode \<times> bytes \<times> bytes \<times> bytes list \<Rightarrow> awg_config_t \<Rightarrow> bool" where
  "fixed x c \<longleftrightarrow> (obf_params c, identity c) = x"

lemma fixed_put:
  "fixed x c \<Longrightarrow> fixed x (c\<lparr>cf_timeout := v\<rparr>)" "fixed x c \<Longrightarrow> fixed x (c\<lparr>cf_remote_silent_timeout := v\<rparr>)"
  "fixed x c \<Longrightarrow> fixed x (c\<lparr>cf_remote_silent_exit_timeout := v\<rparr>)" "fixed x c \<Longrightarrow> fixed x (c\<lparr>cf_connect_retries := v\<rparr>)"
  "fixed x c \<Longrightarrow> fixed x (c\<lparr>cf_dns_resolve_failure_timeout := v\<rparr>)" "fixed x c \<Longrightarrow> fixed x (c\<lparr>cf_socket_buf := v\<rparr>)"
  "fixed x c \<Longrightarrow> fixed x (c\<lparr>cf_src_port := v\<rparr>)" "fixed x c \<Longrightarrow> fixed x (c\<lparr>cf_src_port_drift := v\<rparr>)"
  "fixed x c \<Longrightarrow> fixed x (c\<lparr>cf_cpu_c2s := v\<rparr>)" "fixed x c \<Longrightarrow> fixed x (c\<lparr>cf_cpu_s2c := v\<rparr>)"
  "fixed x c \<Longrightarrow> fixed x (c\<lparr>cf_busy_poll := v\<rparr>)" "fixed x c \<Longrightarrow> fixed x (c\<lparr>cf_no_gro := v\<rparr>)"
  "fixed x c \<Longrightarrow> fixed x (c\<lparr>cf_cps := ts\<rparr>)"
  by (simp_all add: fixed_def obf_params_def identity_def)

lemma keeps_late:
  "keeps (fixed x) (main_cps env fo)" "keeps (fixed x) (load_operational_env env)"
  "keeps (fixed x) (load_network_perf_env env)" "keeps (fixed x) (main_src_port c)"
proof -
  have "keeps (fixed x) (load_cps_env env)"
    unfolding load_cps_env_def
    by (rule keeps_run_steps) (auto simp: keeps_def env_cps_def fixed_put split: option.splits if_splits)
  then show "keeps (fixed x) (main_cps env fo)"
    by (auto simp: keeps_def main_cps_def fixed_put split: sum.splits option.splits)
  show "keeps (fixed x) (load_operational_env env)"
    unfolding load_operational_env_def by (rule keeps_run_steps) (auto intro!: keeps_intros fixed_put)
  show "keeps (fixed x) (load_network_perf_env env)"
    unfolding load_network_perf_env_def
  proof (rule keeps_run_steps, unfold list.set ball_simps, intro conjI)
    show "keeps (fixed x) (env_src_port env)"
      by (auto simp: keeps_def env_src_port_def fixed_put Let_def split: option.splits if_splits)
  qed (auto intro!: keeps_env_int simp: fixed_put)
  show "keeps (fixed x) (main_src_port c)"
    by (auto simp: keeps_def main_src_port_def fixed_put split: option.splits if_splits)
qed

section \<open>The stages of \<open>main_config\<close>\<close>

lemma main_configE:
  assumes "main_config env pf c fo = Some (Inr (cfg, l, r))"
  obtains c1 c2 c3 c4 c5 c6 c7 where "main_mode env c (main_log_level env c config_zero) = Inr c1"
    "main_endpoints env c fo = Some (l, r)" "main_obfuscation env fo c1 = Inr c2" "main_keys env fo pf c2 = Inr c3"
    "config_validate c3 = None" "missing_fields (config_compute c3) l r = []"
    "main_cps env fo (config_compute c3) = Inr c4" "load_operational_env env c4 = Inr c5"
    "main_silent_timeout fo c5 = Some c6" "load_network_perf_env env c6 = Inr c7" "main_src_port c c7 = Inr cfg"
proof -
  obtain c1 where c1: "main_mode env c (main_log_level env c config_zero) = Inr c1"
      and e: "main_endpoints env c fo = Some (l, r)"
    using assms(1) by (auto simp: main_config_def Let_def split: sum.splits option.splits if_splits)
  obtain c2 where c2: "main_obfuscation env fo c1 = Inr c2"
    using assms(1) c1 e by (auto simp: main_config_def Let_def split: sum.splits)
  obtain c3 where c3: "main_keys env fo pf c2 = Inr c3"
    using assms(1) c1 e c2 by (auto simp: main_config_def Let_def split: sum.splits)
  have v: "config_validate c3 = None" "missing_fields (config_compute c3) l r = []"
    using assms(1) c1 e c2 c3 by (auto simp: main_config_def Let_def split: option.splits if_splits)
  obtain c4 where c4: "main_cps env fo (config_compute c3) = Inr c4"
    using assms(1) c1 e c2 c3 v by (auto simp: main_config_def Let_def split: sum.splits)
  obtain c5 where c5: "load_operational_env env c4 = Inr c5"
    using assms(1) c1 e c2 c3 v c4 by (auto simp: main_config_def Let_def split: sum.splits)
  obtain c6 where c6: "main_silent_timeout fo c5 = Some c6"
    using assms(1) c1 e c2 c3 v c4 c5 by (auto simp: main_config_def Let_def split: option.splits)
  obtain c7 where c7: "load_network_perf_env env c6 = Inr c7"
    using assms(1) c1 e c2 c3 v c4 c5 c6 by (auto simp: main_config_def Let_def split: sum.splits)
  have "main_src_port c c7 = Inr cfg"
    using assms(1) c1 e c2 c3 v c4 c5 c6 c7 by (auto simp: main_config_def Let_def split: sum.splits)
  with that c1 e c2 c3 v c4 c5 c6 c7 show ?thesis by blast
qed

lemma main_config_fixed:
  assumes "main_config env pf c fo = Some (Inr (cfg, l, r))"
  obtains c1 c2 c3 where "main_mode env c (main_log_level env c config_zero) = Inr c1"
    "main_endpoints env c fo = Some (l, r)" "main_obfuscation env fo c1 = Inr c2" "main_keys env fo pf c2 = Inr c3"
    "obf_params cfg = obf_params c3" "identity cfg = identity c3"
    "obf_params c3 = obf_params c2" "cf_mode c3 = cf_mode c2"
proof (rule main_configE [OF assms])
  fix c1 c2 c3 c4 c5 c6 c7
  assume st: "main_mode env c (main_log_level env c config_zero) = Inr c1"
    "main_endpoints env c fo = Some (l, r)" "main_obfuscation env fo c1 = Inr c2" "main_keys env fo pf c2 = Inr c3"
    "main_cps env fo (config_compute c3) = Inr c4" "load_operational_env env c4 = Inr c5"
    "main_silent_timeout fo c5 = Some c6" "load_network_perf_env env c6 = Inr c7" "main_src_port c c7 = Inr cfg"
  define x where "x = (obf_params c3, identity c3)"
  have "fixed x (config_compute c3)" by (simp add: fixed_def x_def compute_fields)
  then have "fixed x c5" using keepsD [OF keeps_late(1) _ st(5)] keepsD [OF keeps_late(2) _ st(6)] by blast
  then have "fixed x c6" using st(7) by (auto simp: main_silent_timeout_def fixed_put)
  then have "fixed x cfg" using keepsD [OF keeps_late(3) _ st(8)] keepsD [OF keeps_late(4) _ st(9)] by blast
  moreover have "obf_params c3 = obf_params c2 \<and> cf_mode c3 = cf_mode c2"
    using keepsD [OF keeps_obf_keys _ st(4)] by blast
  ultimately show thesis using that st by (simp add: fixed_def x_def)
qed

section \<open>Precedence\<close>

text \<open>A value with a fallback; a value of the file, if one was read; a variable that is set, or
  set and not empty.\<close>

definition or_else :: "'a option \<Rightarrow> 'a option \<Rightarrow> 'a option" where
  "or_else a b = (case a of Some x \<Rightarrow> Some x | None \<Rightarrow> b)"

definition from_file :: "awg_file_config_t option \<Rightarrow> (awg_file_config_t \<Rightarrow> 'a option) \<Rightarrow> 'a option" where
  "from_file fo get = (case fo of Some fc \<Rightarrow> get fc | None \<Rightarrow> None)"

definition if_given :: "string option \<Rightarrow> string option" where
  "if_given v = (if given v then v else None)"

lemma or_else_simps [simp]: "or_else (Some x) b = Some x" "or_else None b = b"
  by (simp_all add: or_else_def)

definition env_number :: "environment \<Rightarrow> string \<Rightarrow> int option" where
  "env_number env name = parse_int_strict (or_else (env name) (Some ''0''))"

definition env_given_number :: "environment \<Rightarrow> string \<Rightarrow> int option" where
  "env_given_number env name = parse_int_strict (or_else (if_given (env name)) (Some ''0''))"

definition env_header :: "environment \<Rightarrow> string \<Rightarrow> string \<Rightarrow> hrange_t option" where
  "env_header env name d = parse_hrange_str (or_else (env name) (Some d))"

lemma env_param_Inr:
  "env_param env name put c = Inr c' \<Longrightarrow> \<exists>v. env_number env name = Some v \<and> c' = put v c"
  by (auto simp: env_param_def env_number_def or_else_def split: option.splits)

lemma env_range_Inr:
  "env_range env name d put c = Inr c' \<Longrightarrow> \<exists>r. env_header env name d = Some r \<and> c' = put r c"
  by (auto simp: env_range_def env_header_def or_else_def split: option.splits)

lemma parse_int_zero: "parse_int_strict (Some ''0'') = Some 0"
  by (simp add: parse_int_strict_def strtol_def strto_scan_def is_space_c_def is_digit_c_def dec_val_def digit_val_def)

lemma env_int_Inr:
  "env_int env name 0 put c = Inr c' \<Longrightarrow> \<exists>v. env_given_number env name = Some v \<and> c' = put v c"
  by (auto simp: env_int_def env_given_number_def if_given_def given_def or_else_def parse_int_zero Let_def
      split: option.splits if_splits)

lemma run_steps_Cons_Inr: "run_steps (f # fs) c = Inr c' \<longleftrightarrow> (\<exists>d. f c = Inr d \<and> run_steps fs d = Inr c')"
  by (simp split: sum.split)

lemma obfuscation_env_sources:
  assumes "load_obfuscation_env env c = Inr d"
  shows "env_number env ''AWG_JC'' = Some (cf_jc d) \<and> env_number env ''AWG_JMIN'' = Some (cf_jmin d)
    \<and> env_number env ''AWG_JMAX'' = Some (cf_jmax d) \<and> env_number env ''AWG_S1'' = Some (cf_s1 d)
    \<and> env_number env ''AWG_S2'' = Some (cf_s2 d) \<and> env_given_number env ''AWG_S3'' = Some (cf_s3 d)
    \<and> env_given_number env ''AWG_S4'' = Some (cf_s4 d) \<and> env_header env ''AWG_H1'' ''1'' = Some (cf_h1 d)
    \<and> env_header env ''AWG_H2'' ''2'' = Some (cf_h2 d) \<and> env_header env ''AWG_H3'' ''3'' = Some (cf_h3 d)
    \<and> env_header env ''AWG_H4'' ''4'' = Some (cf_h4 d) \<and> cf_mode d = cf_mode c"
  using assms unfolding load_obfuscation_env_def run_steps_Cons_Inr
  by (auto dest!: env_param_Inr env_range_Inr env_int_Inr)

definition value_or :: "'a \<Rightarrow> 'a option \<Rightarrow> 'a" where
  "value_or d v = (case v of Some x \<Rightarrow> x | None \<Rightarrow> d)"

lemma override_put:
  "override v (\<lambda>x c. c\<lparr>cf_jc := x\<rparr>) cfg = cfg\<lparr>cf_jc := value_or (cf_jc cfg) v\<rparr>"
  "override v (\<lambda>x c. c\<lparr>cf_jmin := x\<rparr>) cfg = cfg\<lparr>cf_jmin := value_or (cf_jmin cfg) v\<rparr>"
  "override v (\<lambda>x c. c\<lparr>cf_jmax := x\<rparr>) cfg = cfg\<lparr>cf_jmax := value_or (cf_jmax cfg) v\<rparr>"
  "override v (\<lambda>x c. c\<lparr>cf_s1 := x\<rparr>) cfg = cfg\<lparr>cf_s1 := value_or (cf_s1 cfg) v\<rparr>"
  "override v (\<lambda>x c. c\<lparr>cf_s2 := x\<rparr>) cfg = cfg\<lparr>cf_s2 := value_or (cf_s2 cfg) v\<rparr>"
  "override v (\<lambda>x c. c\<lparr>cf_s3 := x\<rparr>) cfg = cfg\<lparr>cf_s3 := value_or (cf_s3 cfg) v\<rparr>"
  "override v (\<lambda>x c. c\<lparr>cf_s4 := x\<rparr>) cfg = cfg\<lparr>cf_s4 := value_or (cf_s4 cfg) v\<rparr>"
  "override w (\<lambda>x c. c\<lparr>cf_h1 := x\<rparr>) cfg = cfg\<lparr>cf_h1 := value_or (cf_h1 cfg) w\<rparr>"
  "override w (\<lambda>x c. c\<lparr>cf_h2 := x\<rparr>) cfg = cfg\<lparr>cf_h2 := value_or (cf_h2 cfg) w\<rparr>"
  "override w (\<lambda>x c. c\<lparr>cf_h3 := x\<rparr>) cfg = cfg\<lparr>cf_h3 := value_or (cf_h3 cfg) w\<rparr>"
  "override w (\<lambda>x c. c\<lparr>cf_h4 := x\<rparr>) cfg = cfg\<lparr>cf_h4 := value_or (cf_h4 cfg) w\<rparr>"
  by (cases v; cases w; simp add: override_def value_or_def)+

lemma overrides_eq:
  "apply_file_obfuscation_overrides cfg fc = cfg\<lparr>
     cf_jc := value_or (cf_jc cfg) (fc_jc fc), cf_jmin := value_or (cf_jmin cfg) (fc_jmin fc),
     cf_jmax := value_or (cf_jmax cfg) (fc_jmax fc), cf_s1 := value_or (cf_s1 cfg) (fc_s1 fc),
     cf_s2 := value_or (cf_s2 cfg) (fc_s2 fc), cf_s3 := value_or (cf_s3 cfg) (fc_s3 fc),
     cf_s4 := value_or (cf_s4 cfg) (fc_s4 fc), cf_h1 := value_or (cf_h1 cfg) (fc_h1 fc),
     cf_h2 := value_or (cf_h2 cfg) (fc_h2 fc), cf_h3 := value_or (cf_h3 cfg) (fc_h3 fc),
     cf_h4 := value_or (cf_h4 cfg) (fc_h4 fc)\<rparr>"
  unfolding apply_file_obfuscation_overrides_def Let_def by (simp add: override_put)

lemma overrides_fields:
  "cf_jc (apply_file_obfuscation_overrides cfg fc) = value_or (cf_jc cfg) (fc_jc fc)"
  "cf_jmin (apply_file_obfuscation_overrides cfg fc) = value_or (cf_jmin cfg) (fc_jmin fc)"
  "cf_jmax (apply_file_obfuscation_overrides cfg fc) = value_or (cf_jmax cfg) (fc_jmax fc)"
  "cf_s1 (apply_file_obfuscation_overrides cfg fc) = value_or (cf_s1 cfg) (fc_s1 fc)"
  "cf_s2 (apply_file_obfuscation_overrides cfg fc) = value_or (cf_s2 cfg) (fc_s2 fc)"
  "cf_s3 (apply_file_obfuscation_overrides cfg fc) = value_or (cf_s3 cfg) (fc_s3 fc)"
  "cf_s4 (apply_file_obfuscation_overrides cfg fc) = value_or (cf_s4 cfg) (fc_s4 fc)"
  "cf_h1 (apply_file_obfuscation_overrides cfg fc) = value_or (cf_h1 cfg) (fc_h1 fc)"
  "cf_h2 (apply_file_obfuscation_overrides cfg fc) = value_or (cf_h2 cfg) (fc_h2 fc)"
  "cf_h3 (apply_file_obfuscation_overrides cfg fc) = value_or (cf_h3 cfg) (fc_h3 fc)"
  "cf_h4 (apply_file_obfuscation_overrides cfg fc) = value_or (cf_h4 cfg) (fc_h4 fc)"
  "cf_mode (apply_file_obfuscation_overrides cfg fc) = cf_mode cfg"
  by (simp_all add: overrides_eq)

lemma profile_fields:
  "cf_jc (load_obfs_profile_env env cfg) = cf_jc cfg"
  "cf_jmin (load_obfs_profile_env env cfg) = cf_jmin cfg"
  "cf_jmax (load_obfs_profile_env env cfg) = cf_jmax cfg"
  "cf_s1 (load_obfs_profile_env env cfg) = cf_s1 cfg"
  "cf_s2 (load_obfs_profile_env env cfg) = cf_s2 cfg"
  "cf_s3 (load_obfs_profile_env env cfg) = cf_s3 cfg"
  "cf_s4 (load_obfs_profile_env env cfg) = cf_s4 cfg"
  "cf_h1 (load_obfs_profile_env env cfg) = cf_h1 cfg"
  "cf_h2 (load_obfs_profile_env env cfg) = cf_h2 cfg"
  "cf_h3 (load_obfs_profile_env env cfg) = cf_h3 cfg"
  "cf_h4 (load_obfs_profile_env env cfg) = cf_h4 cfg"
  "cf_mode (load_obfs_profile_env env cfg) = cf_mode cfg"
  by (simp_all add: load_obfs_profile_env_def)

lemma or_else_Some: "or_else v (Some x) = Some (value_or x v)"
  by (cases v) (simp_all add: value_or_def)

lemma obfuscation_sources:
  assumes "main_obfuscation env fo c = Inr d"
  shows "or_else (from_file fo fc_jc) (env_number env ''AWG_JC'') = Some (cf_jc d)"
    "or_else (from_file fo fc_jmin) (env_number env ''AWG_JMIN'') = Some (cf_jmin d)"
    "\<exists>m. or_else (from_file fo fc_jmax) (env_number env ''AWG_JMAX'') = Some m
      \<and> cf_jmax d = (if cf_jc d > 0 \<and> cf_jmin d = m \<and> m < 65535 then m + 1 else m)"
    "or_else (from_file fo fc_s1) (env_number env ''AWG_S1'') = Some (cf_s1 d)"
    "or_else (from_file fo fc_s2) (env_number env ''AWG_S2'') = Some (cf_s2 d)"
    "or_else (from_file fo fc_s3) (env_given_number env ''AWG_S3'') = Some (cf_s3 d)"
    "or_else (from_file fo fc_s4) (env_given_number env ''AWG_S4'') = Some (cf_s4 d)"
    "or_else (from_file fo fc_h1) (env_header env ''AWG_H1'' ''1'') = Some (cf_h1 d)"
    "or_else (from_file fo fc_h2) (env_header env ''AWG_H2'' ''2'') = Some (cf_h2 d)"
    "or_else (from_file fo fc_h3) (env_header env ''AWG_H3'' ''3'') = Some (cf_h3 d)"
    "or_else (from_file fo fc_h4) (env_header env ''AWG_H4'' ''4'') = Some (cf_h4 d)"
    "cf_mode d = cf_mode c"
proof -
  obtain e where e: "load_obfuscation_env env c = Inr e" using assms by (auto simp: main_obfuscation_def split: sum.splits)
  note src = obfuscation_env_sources [OF e]
  define g where "g = (case fo of Some fc \<Rightarrow> apply_file_obfuscation_overrides (load_obfs_profile_env env e) fc
    | None \<Rightarrow> load_obfs_profile_env env e)"
  have d: "d = (if cf_jc g > 0 \<and> cf_jmin g = cf_jmax g \<and> cf_jmax g < 65535 then g\<lparr>cf_jmax := cf_jmax g + 1\<rparr> else g)"
    using assms unfolding main_obfuscation_def e sum.case Let_def g_def [symmetric] sum.inject by (rule sym)
  have g: "or_else (from_file fo fc_jc) (Some (cf_jc e)) = Some (cf_jc g)
      \<and> or_else (from_file fo fc_jmin) (Some (cf_jmin e)) = Some (cf_jmin g)
      \<and> or_else (from_file fo fc_jmax) (Some (cf_jmax e)) = Some (cf_jmax g)
      \<and> or_else (from_file fo fc_s1) (Some (cf_s1 e)) = Some (cf_s1 g)
      \<and> or_else (from_file fo fc_s2) (Some (cf_s2 e)) = Some (cf_s2 g)
      \<and> or_else (from_file fo fc_s3) (Some (cf_s3 e)) = Some (cf_s3 g)
      \<and> or_else (from_file fo fc_s4) (Some (cf_s4 e)) = Some (cf_s4 g)
      \<and> or_else (from_file fo fc_h1) (Some (cf_h1 e)) = Some (cf_h1 g)
      \<and> or_else (from_file fo fc_h2) (Some (cf_h2 e)) = Some (cf_h2 g)
      \<and> or_else (from_file fo fc_h3) (Some (cf_h3 e)) = Some (cf_h3 g)
      \<and> or_else (from_file fo fc_h4) (Some (cf_h4 e)) = Some (cf_h4 g)
      \<and> cf_mode g = cf_mode e"
  proof (cases fo)
    case None
    then show ?thesis by (simp add: g_def from_file_def profile_fields)
  next
    case (Some fc)
    then show ?thesis by (simp add: g_def from_file_def overrides_fields profile_fields or_else_Some)
  qed
  have f: "cf_jc d = cf_jc g" "cf_jmin d = cf_jmin g" "cf_s1 d = cf_s1 g" "cf_s2 d = cf_s2 g" "cf_s3 d = cf_s3 g"
    "cf_s4 d = cf_s4 g" "cf_h1 d = cf_h1 g" "cf_h2 d = cf_h2 g" "cf_h3 d = cf_h3 g" "cf_h4 d = cf_h4 g"
    "cf_mode d = cf_mode g"
    "cf_jmax d = (if cf_jc g > 0 \<and> cf_jmin g = cf_jmax g \<and> cf_jmax g < 65535 then cf_jmax g + 1 else cf_jmax g)"
    by (simp_all add: d)
  show "or_else (from_file fo fc_jc) (env_number env ''AWG_JC'') = Some (cf_jc d)"
    "or_else (from_file fo fc_jmin) (env_number env ''AWG_JMIN'') = Some (cf_jmin d)"
    "or_else (from_file fo fc_s1) (env_number env ''AWG_S1'') = Some (cf_s1 d)"
    "or_else (from_file fo fc_s2) (env_number env ''AWG_S2'') = Some (cf_s2 d)"
    "or_else (from_file fo fc_s3) (env_given_number env ''AWG_S3'') = Some (cf_s3 d)"
    "or_else (from_file fo fc_s4) (env_given_number env ''AWG_S4'') = Some (cf_s4 d)"
    "or_else (from_file fo fc_h1) (env_header env ''AWG_H1'' ''1'') = Some (cf_h1 d)"
    "or_else (from_file fo fc_h2) (env_header env ''AWG_H2'' ''2'') = Some (cf_h2 d)"
    "or_else (from_file fo fc_h3) (env_header env ''AWG_H3'' ''3'') = Some (cf_h3 d)"
    "or_else (from_file fo fc_h4) (env_header env ''AWG_H4'' ''4'') = Some (cf_h4 d)"
    "cf_mode d = cf_mode c"
    by (simp_all add: src g f)
  show "\<exists>m. or_else (from_file fo fc_jmax) (env_number env ''AWG_JMAX'') = Some m
      \<and> cf_jmax d = (if cf_jc d > 0 \<and> cf_jmin d = m \<and> m < 65535 then m + 1 else m)"
    by (simp add: src g f)
qed

text \<open>The addresses, the mode and the keys.\<close>

lemma endpoint_sources:
  assumes "main_endpoints env c fo = Some (l, r)"
  shows "l = (case or_else (if_given (cl_listen c)) (or_else (if_given (from_file fo fc_listen)) (if_given (env ''AWG_LISTEN'')))
      of Some s \<Rightarrow> take 255 s | None \<Rightarrow> [])"
    "r = (case or_else (if_given (cl_remote c)) (or_else (if_given (from_file fo fc_endpoint)) (if_given (env ''AWG_REMOTE'')))
      of Some s \<Rightarrow> take 255 s | None \<Rightarrow> [])"
proof -
  define file_part where "file_part = (\<lambda>get (e :: string option).
    if (case fo of Some fc \<Rightarrow> get fc \<noteq> None | None \<Rightarrow> False)
       \<and> given (case fo of Some fc \<Rightarrow> Some (case get fc of Some s \<Rightarrow> s | None \<Rightarrow> []) | None \<Rightarrow> None)
    then take 255 (the (case fo of Some fc \<Rightarrow> Some (case get fc of Some s \<Rightarrow> s | None \<Rightarrow> []) | None \<Rightarrow> None))
    else if given e then take 255 (the e) else [])"
  have part: "file_part get e = (case or_else (if_given (from_file fo get)) (if_given e) of Some s \<Rightarrow> take 255 s | None \<Rightarrow> [])"
    for get e
    by (cases fo) (auto simp: file_part_def from_file_def if_given_def given_def split: option.split)
  have "l = (if given (cl_listen c) then take 255 (the (cl_listen c)) else file_part fc_listen (env ''AWG_LISTEN''))"
    "r = (if given (cl_remote c) then take 255 (the (cl_remote c)) else file_part fc_endpoint (env ''AWG_REMOTE''))"
    using assms unfolding main_endpoints_def merge_endpoint_values_def copy_text_def Let_def file_part_def given_def
    by (auto cong: if_cong split del: if_split)
  then show "l = (case or_else (if_given (cl_listen c)) (or_else (if_given (from_file fo fc_listen)) (if_given (env ''AWG_LISTEN'')))
      of Some s \<Rightarrow> take 255 s | None \<Rightarrow> [])"
    "r = (case or_else (if_given (cl_remote c)) (or_else (if_given (from_file fo fc_endpoint)) (if_given (env ''AWG_REMOTE'')))
      of Some s \<Rightarrow> take 255 s | None \<Rightarrow> [])"
    by (auto simp: part if_given_def given_def)
qed

lemma mode_sources:
  assumes "main_mode env c cfg = Inr d"
  shows "(case or_else (if_given (cl_mode c)) (if_given (env ''AWG_MODE'')) of
      Some s \<Rightarrow> parse_awg_mode (Some s) | None \<Rightarrow> Some AWG_MODE_CLIENT) = Some (cf_mode d)"
proof -
  define step where "step = (\<lambda>v msg (cfg :: awg_config_t). if given v then
      (case parse_awg_mode v of None \<Rightarrow> Inl (msg :: string) | Some m \<Rightarrow> Inr (cfg\<lparr>cf_mode := m\<rparr>)) else Inr cfg)"
  have step: "(if given v then parse_awg_mode v else Some (cf_mode b)) = Some (cf_mode b')"
    if "step v msg b = Inr b'" for v msg b b'
    using that by (auto simp: step_def split: if_splits option.splits)
  obtain b where b: "step (env ''AWG_MODE'') ''AWG_MODE: expected client|gateway|server'' (cfg\<lparr>cf_mode := AWG_MODE_CLIENT\<rparr>) = Inr b"
      and d: "step (cl_mode c) ''--mode: expected client|gateway|server'' b = Inr d"
    using assms unfolding main_mode_def run_steps_Cons_Inr step_def by auto
  show ?thesis
    using step [OF b] step [OF d]
    by (cases "given (cl_mode c)"; cases "given (env ''AWG_MODE'')") (auto simp: if_given_def given_def)
qed

section \<open>The peers of server mode\<close>

text \<open>The keys of the variable, of the key file and of the configuration file.\<close>

definition peer_keys :: "string \<Rightarrow> bytes list option" where
  "peer_keys s = those (map token_key (tokens is_pub_sep s))"

definition env_peers :: "environment \<Rightarrow> bytes list option" where
  "env_peers env = (case if_given (env ''AWG_CLIENT_PUBS'') of Some s \<Rightarrow> peer_keys s | None \<Rightarrow> Some [])"

definition key_file_text :: "file_env \<Rightarrow> string option" where
  "key_file_text e =
    (if fe_open e \<and> fe_seek_end e \<and> 0 \<le> fe_tell e \<and> fe_tell e \<le> 1048576 \<and> fe_seek_set e \<and> fe_malloc e
        \<and> (fe_tell e > 0 \<longrightarrow> int (length (fe_read e)) = fe_tell e)
     then Some (c_str ((if fe_tell e > 0 then fe_read e else []) @ [CHR 0x00])) else None)"

definition key_file_peers :: "environment \<Rightarrow> file_env \<Rightarrow> bytes list option" where
  "key_file_peers env e = (if given (env ''AWG_CLIENT_PUBS_FILE'')
     then (case key_file_text e of Some s \<Rightarrow> peer_keys s | None \<Rightarrow> None) else Some [])"

definition config_peers :: "awg_file_config_t option \<Rightarrow> bytes list" where
  "config_peers fo = (case fo of Some fc \<Rightarrow> fc_peer_pubs fc | None \<Rightarrow> [])"

lemma load_server_peer_file_eq:
  "path \<noteq> [] \<Longrightarrow> load_server_peer_file cfg path e =
    (case key_file_text e of Some s \<Rightarrow> parse_server_peer_list cfg s | None \<Rightarrow> None)"
  by (simp add: load_server_peer_file_def key_file_text_def Let_def)

lemma add_file_peers_eq:
  "add_file_peers ks cfg = (case add_all ks cfg of Some c \<Rightarrow> Inr c | None \<Rightarrow> Inl ''config [Peer]: too many peers (max 256)'')"
  unfolding add_file_peers_def by (induction ks arbitrary: cfg) (simp_all split: option.split)

lemma add_all_append:
  "add_all (xs @ ys) c = Some d \<longleftrightarrow> (\<exists>e. add_all xs c = Some e \<and> add_all ys e = Some d)"
  by (induction xs arbitrary: c) (simp_all split: option.split)

lemma server_peers_eq:
  assumes "cf_mode cfg = AWG_MODE_SERVER"
  shows "main_server_peers env fo e cfg = Inr cfg' \<longleftrightarrow>
    (\<exists>a b. env_peers env = Some a \<and> key_file_peers env e = Some b \<and> add_all (a @ b @ config_peers fo) cfg = Some cfg')"
proof -
  have 1: "(if given (env ''AWG_CLIENT_PUBS'') then
        (case parse_server_peer_list c (the (env ''AWG_CLIENT_PUBS'')) of
           None \<Rightarrow> Inl ''AWG_CLIENT_PUBS: invalid client public key list'' | Some c \<Rightarrow> Inr c) else Inr c) = Inr d
      \<longleftrightarrow> (\<exists>a. env_peers env = Some a \<and> add_all a c = Some d)" for c d
    by (auto simp: env_peers_def if_given_def given_def peer_keys_def peer_list_eq split: option.splits)
  have 2: "(if given (env ''AWG_CLIENT_PUBS_FILE'') then
        (case load_server_peer_file c (the (env ''AWG_CLIENT_PUBS_FILE'')) e of
           None \<Rightarrow> Inl ''AWG_CLIENT_PUBS_FILE: cannot parse public key list file'' | Some c \<Rightarrow> Inr c) else Inr c) = Inr d
      \<longleftrightarrow> (\<exists>b. key_file_peers env e = Some b \<and> add_all b c = Some d)" for c d
    by (auto simp: key_file_peers_def given_def load_server_peer_file_eq peer_keys_def peer_list_eq split: option.splits)
  have 3: "(case fo of Some fc \<Rightarrow> add_file_peers (fc_peer_pubs fc) c | None \<Rightarrow> Inr c) = Inr d
      \<longleftrightarrow> add_all (config_peers fo) c = Some d" for c d
    by (auto simp: config_peers_def add_file_peers_eq split: option.splits)
  have "main_server_peers env fo e cfg = Inr cfg' \<longleftrightarrow>
      (\<exists>c1. (\<exists>a. env_peers env = Some a \<and> add_all a cfg = Some c1) \<and>
        (\<exists>c2. (\<exists>b. key_file_peers env e = Some b \<and> add_all b c1 = Some c2) \<and> add_all (config_peers fo) c2 = Some cfg'))"
    unfolding main_server_peers_def if_P [OF assms] run_steps_Cons_Inr 1 2 3 by simp
  then show ?thesis unfolding add_all_append by blast
qed

lemma peers_empty_before:
  assumes "main_mode env c (main_log_level env c config_zero) = Inr c1" and "main_obfuscation env fo c1 = Inr c2"
  shows "cf_server_peer_pubs c2 = []"
proof -
  have z: "cf_server_peer_pubs (main_log_level env c config_zero) = []"
    by (simp add: main_log_level_def config_zero_def Let_def split: option.split)
  have "keeps (\<lambda>c. cf_server_peer_pubs c = []) (main_mode env c)"
    unfolding main_mode_def
    by (rule keeps_run_steps) (auto simp: keeps_def split: option.splits if_splits)
  from keepsD [OF this z assms(1)] have 1: "cf_server_peer_pubs c1 = []" .
  obtain e where e: "load_obfuscation_env env c1 = Inr e"
    using assms(2) by (auto simp: main_obfuscation_def split: sum.splits)
  have "keeps (\<lambda>c. cf_server_peer_pubs c = []) (load_obfuscation_env env)"
    unfolding load_obfuscation_env_def
    by (rule keeps_run_steps) (auto intro!: keeps_intros)
  from keepsD [OF this 1 e] have "cf_server_peer_pubs e = []" .
  then show ?thesis
    using assms(2) e by (cases fo) (auto simp: main_obfuscation_def load_obfs_profile_env_def overrides_eq Let_def split: if_splits)
qed

lemma keeps_keys_before:
  "keeps (\<lambda>c. cf_server_peer_pubs c = x \<and> cf_mode c = m) (key_env env name (\<lambda>k cfg. cfg\<lparr>cf_server_pub := k\<rparr>))"
  "keeps (\<lambda>c. cf_server_peer_pubs c = x \<and> cf_mode c = m) (key_env env name (\<lambda>k cfg. cfg\<lparr>cf_client_pub := f k\<rparr>))"
  by (auto intro!: keeps_key_env)

text \<open>In server mode the peers are the keys of the three sources in this order, each once, and
  never more than 256.\<close>

lemma main_keys_peers:
  assumes "main_keys env fo e c2 = Inr c3" and "cf_server_peer_pubs c2 = []" and "cf_mode c2 = AWG_MODE_SERVER"
  shows "\<exists>a b. env_peers env = Some a \<and> key_file_peers env e = Some b
    \<and> cf_server_peer_pubs c3 = firsts (a @ b @ config_peers fo) \<and> length (cf_server_peer_pubs c3) \<le> 256"
proof -
  let ?P = "\<lambda>c. cf_server_peer_pubs c = [] \<and> cf_mode c = AWG_MODE_SERVER"
  have k: "keeps ?P (\<lambda>cfg. Inr (case fo of
        Some fc \<Rightarrow> override (fc_server_pub fc) (\<lambda>k cfg. cfg\<lparr>cf_server_pub := k\<rparr>) cfg | None \<Rightarrow> cfg))"
      "keeps ?P (\<lambda>cfg. Inr (case fo of
        Some fc \<Rightarrow> override (fc_client_pub fc) (\<lambda>k cfg. cfg\<lparr>cf_client_pub := k\<rparr>) cfg | None \<Rightarrow> cfg))"
    by (rule keeps_Inr, simp add: override_def split: option.split)+
  obtain d1 d2 d3 d4 d where s: "key_env env ''AWG_SERVER_PUB'' (\<lambda>k cfg. cfg\<lparr>cf_server_pub := k\<rparr>) c2 = Inr d1"
      "Inr (case fo of Some fc \<Rightarrow> override (fc_server_pub fc) (\<lambda>k cfg. cfg\<lparr>cf_server_pub := k\<rparr>) d1 | None \<Rightarrow> d1) = (Inr d2 :: string + _)"
      "key_env env ''AWG_PRIVATE_KEY'' (\<lambda>k cfg. cfg\<lparr>cf_client_pub := curve25519_public_key k\<rparr>) d2 = Inr d3"
      "key_env env ''AWG_CLIENT_PUB'' (\<lambda>k cfg. cfg\<lparr>cf_client_pub := k\<rparr>) d3 = Inr d4"
      "Inr (case fo of Some fc \<Rightarrow> override (fc_client_pub fc) (\<lambda>k cfg. cfg\<lparr>cf_client_pub := k\<rparr>) d4 | None \<Rightarrow> d4) = (Inr d :: string + _)"
      "main_server_peers env fo e d = Inr c3"
    using assms(1) unfolding main_keys_def run_steps_Cons_Inr by auto
  have "?P d1" using keepsD [OF keeps_keys_before(1) _ s(1)] assms(2,3) by simp
  from keepsD [OF k(1) this s(2)] have "?P d2" .
  from keepsD [OF keeps_keys_before(2) this s(3)] have "?P d3" .
  from keepsD [OF keeps_keys_before(2) this s(4)] have "?P d4" .
  from keepsD [OF k(2) this s(5)] have d: "?P d" .
  obtain a b where ab: "env_peers env = Some a" "key_file_peers env e = Some b" "add_all (a @ b @ config_peers fo) d = Some c3"
    using s(6) d server_peers_eq [of d env fo e c3] by auto
  have "cf_server_peer_pubs c3 = firsts (a @ b @ config_peers fo)" "length (cf_server_peer_pubs c3) \<le> 256"
    using ab(3) d add_all_eq [of d "a @ b @ config_peers fo"] by (auto simp: Let_def split: if_splits)
  with ab(1,2) show ?thesis by blast
qed

lemma main_config_peers:
  assumes "main_config env pf c fo = Some (Inr (cfg, l, r))" and "cf_mode cfg = AWG_MODE_SERVER"
  shows "\<exists>a b. env_peers env = Some a \<and> key_file_peers env pf = Some b
    \<and> cf_server_peer_pubs cfg = firsts (a @ b @ config_peers fo)"
proof (rule main_config_fixed [OF assms(1)])
  fix c1 c2 c3
  assume m: "main_mode env c (main_log_level env c config_zero) = Inr c1" and o: "main_obfuscation env fo c1 = Inr c2"
    and k: "main_keys env fo pf c2 = Inr c3" and i: "identity cfg = identity c3" and s: "cf_mode c3 = cf_mode c2"
  have "cf_mode c2 = AWG_MODE_SERVER" using i s assms(2) by (simp add: identity_def)
  from main_keys_peers [OF k peers_empty_before [OF m o] this] i show ?thesis by (auto simp: identity_def)
qed

end
