(* ===== verification/Curve25519_Correct.thy ===== *)
theory Curve25519_Correct
  imports Curve25519
begin

text \<open>
  Correctness of the 64-bit Curve25519: no 64-bit or 128-bit operation of the field arithmetic
  wraps on the operands the ladder gives it, and every field operation is the operation modulo
  \<open>2 ^ 255 - 19\<close>; the interpretation \<open>c64\<close> of the laws of a limb arithmetic.
\<close>

section \<open>Values and bounds of limbs\<close>

fun val5 :: "'a::len word five \<Rightarrow> int" where
  "val5 (Five a0 a1 a2 a3 a4) =
    uint a0 + 2 ^ 51 * uint a1 + 2 ^ 102 * uint a2 + 2 ^ 153 * uint a3 + 2 ^ 204 * uint a4"

text \<open>Tight limbs are at most \<open>2 ^ 51 + 2 ^ 26\<close>, loose ones at most \<open>2 ^ 54\<close> more.\<close>

fun limbs_le :: "int \<Rightarrow> 'a::len word five \<Rightarrow> bool" where
  "limbs_le B (Five a0 a1 a2 a3 a4) \<longleftrightarrow>
    uint a0 \<le> B \<and> uint a1 \<le> B \<and> uint a2 \<le> B \<and> uint a3 \<le> B \<and> uint a4 \<le> B"

definition tight5 :: "felem \<Rightarrow> bool" where
  "tight5 = limbs_le (2 ^ 51 + 2 ^ 26)"

definition loose5 :: "felem \<Rightarrow> bool" where
  "loose5 = limbs_le (2 ^ 54 + 2 ^ 51 + 2 ^ 26)"

lemma limbs_le_mono: "limbs_le B a \<Longrightarrow> B \<le> B' \<Longrightarrow> limbs_le B' a"
  by (cases a) auto

lemma tight5_loose5: "tight5 a \<Longrightarrow> loose5 a"
  unfolding tight5_def loose5_def by (erule limbs_le_mono) simp

lemma mask51: "(0x7ffffffffffff :: 'a::len word) = mask 51"
  by (simp add: mask_eq_exp_minus_1)

lemmas rep_mask51 = rep_mask [OF _ mask51]

lemma rep_ucast_mask:
  assumes "rep (a :: u128) x A"
  shows "rep ((ucast a :: u64) AND 0x7ffffffffffff) (x mod 2 ^ 51) (2 ^ 51 - 1)"
proof -
  have "uint (ucast a :: u64) = uint a mod 2 ^ 64" by (simp add: unsigned_ucast_eq take_bit_eq_mod)
  then have "rep (ucast a :: u64) (x mod 2 ^ 64) (2 ^ 64)" using assms by (simp add: rep_def)
  from rep_mask51 [OF this] show ?thesis by (simp add: mod_mod_cancel)
qed

lemma split_limb:
  fixes x :: int
  shows "(\<And>d m. x div 2 ^ k = d \<Longrightarrow> x mod 2 ^ k = m \<Longrightarrow> x = 2 ^ k * d + m \<Longrightarrow> P) \<Longrightarrow> P"
  using mult_div_mod_eq [of "2 ^ k" x] by metis

text \<open>The wide carries keep the value and leave four limbs of 51 bits.\<close>

lemma carry_wide_step:
  fixes t t' :: u128
  assumes "uint t \<le> 2 ^ 120 + 2 ^ 70" "uint t' \<le> B" "B \<le> 2 ^ 120"
  shows "uint (t' + drop_bit 51 t) = uint t' + uint t div 2 ^ 51"
    and "uint (t' + drop_bit 51 t) \<le> B + 2 ^ 70"
    and "uint (ucast ((ucast t :: u64) AND 0x7ffffffffffff) :: u128) = uint t mod 2 ^ 51"
proof -
  have "rep (drop_bit 51 t) (uint t div 2 ^ 51) (2 ^ 70)"
    by (rule rep_mono [OF rep_drop [OF rep_uint [OF assms(1)]]]) simp
  then have "rep (t' + drop_bit 51 t) (uint t' + uint t div 2 ^ 51) (B + 2 ^ 70)"
    by (rule rep_add [OF rep_uint [OF assms(2)]]) (use assms(3) in simp)
  then show "uint (t' + drop_bit 51 t) = uint t' + uint t div 2 ^ 51"
    and "uint (t' + drop_bit 51 t) \<le> B + 2 ^ 70" by (simp_all add: rep_def)
  show "uint (ucast ((ucast t :: u64) AND 0x7ffffffffffff) :: u128) = uint t mod 2 ^ 51"
    using rep_ucast_up [OF rep_ucast_mask [OF rep_uint [OF assms(1)]], where 'b = 128] by (simp add: rep_def)
qed

lemma carry_wide:
  fixes t0 :: u128
  assumes A: "uint t0 \<le> 2 ^ 120" "uint t1 \<le> 2 ^ 120" "uint t2 \<le> 2 ^ 120" "uint t3 \<le> 2 ^ 120"
    and B: "uint t4 \<le> B" "B \<le> 2 ^ 120"
  shows "\<exists>r0 r1 r2 r3 r4. fproduct_carry_wide (Five t0 t1 t2 t3 t4) = Five r0 r1 r2 r3 r4
    \<and> uint r0 < 2 ^ 51 \<and> uint r1 < 2 ^ 51 \<and> uint r2 < 2 ^ 51 \<and> uint r3 < 2 ^ 51 \<and> uint r4 \<le> B + 2 ^ 70
    \<and> val5 (Five r0 r1 r2 r3 r4) = val5 (Five t0 t1 t2 t3 t4)"
proof -
  define s1 where "s1 = t1 + drop_bit 51 t0"
  define s2 where "s2 = t2 + drop_bit 51 s1"
  define s3 where "s3 = t3 + drop_bit 51 s2"
  define s4 where "s4 = t4 + drop_bit 51 s3"
  define m where "m t = (ucast ((ucast t :: u64) AND 0x7ffffffffffff) :: u128)" for t :: u128
  have w: "x \<le> 2 ^ 120 \<Longrightarrow> x \<le> 2 ^ 120 + 2 ^ 70" for x :: int by simp
  note a = carry_wide_step [OF w [OF A(1)] A(2) order_refl, folded s1_def m_def]
  note b = carry_wide_step [OF a(2) A(3) order_refl, folded s2_def m_def]
  note c = carry_wide_step [OF b(2) A(4) order_refl, folded s3_def m_def]
  note d = carry_wide_step [OF c(2) B(1,2), folded s4_def m_def]
  have "fproduct_carry_wide (Five t0 t1 t2 t3 t4) = Five (m t0) (m s1) (m s2) (m s3) s4"
    by (simp only: fproduct_carry_wide.simps Let_def s1_def s2_def s3_def s4_def m_def)
  moreover have "uint (m t0) < 2 ^ 51 \<and> uint (m s1) < 2 ^ 51 \<and> uint (m s2) < 2 ^ 51 \<and> uint (m s3) < 2 ^ 51"
    by (simp add: a(3) b(3) c(3) d(3))
  moreover have "val5 (Five (m t0) (m s1) (m s2) (m s3) s4) = val5 (Five t0 t1 t2 t3 t4)"
  proof -
    obtain d0 m0 where 0: "uint t0 div 2 ^ 51 = d0" "uint t0 mod 2 ^ 51 = m0" "uint t0 = 2 ^ 51 * d0 + m0"
      by (rule split_limb)
    obtain d1 m1 where 1: "uint s1 div 2 ^ 51 = d1" "uint s1 mod 2 ^ 51 = m1" "uint s1 = 2 ^ 51 * d1 + m1"
      by (rule split_limb)
    obtain d2 m2 where 2: "uint s2 div 2 ^ 51 = d2" "uint s2 mod 2 ^ 51 = m2" "uint s2 = 2 ^ 51 * d2 + m2"
      by (rule split_limb)
    obtain d3 m3 where 3: "uint s3 div 2 ^ 51 = d3" "uint s3 mod 2 ^ 51 = m3" "uint s3 = 2 ^ 51 * d3 + m3"
      by (rule split_limb)
    have "uint t1 = 2 ^ 51 * d1 + m1 - d0" "uint t2 = 2 ^ 51 * d2 + m2 - d1" "uint t3 = 2 ^ 51 * d3 + m3 - d2"
      "uint s4 = uint t4 + d3" using a(1) b(1) c(1) d(1) 0 1 2 3 by linarith+
    then show ?thesis unfolding val5.simps a(3) b(3) c(3) d(3) 0(2) 1(2) 2(2) 3(2) by (simp add: 0(3) algebra_simps)
  qed
  ultimately show ?thesis using d(2) by blast
qed

text \<open>The carry of the top limb and the copy reduce modulo the prime.  The one tight spot of
  the whole arithmetic: 19 times the carry still fits a 64-bit word.\<close>

lemma reduce_wide:
  fixes r0 :: u128
  assumes r: "uint r0 < 2 ^ 51" "uint r1 < 2 ^ 51" "uint r2 < 2 ^ 51" "uint r3 < 2 ^ 51"
    and r4: "uint r4 \<le> B" "19 * (B div 2 ^ 51) < 2 ^ 64 - 2 ^ 51"
  shows "\<exists>i0 i1 i2 i3 i4. fproduct_copy_from_wide (wide_carry_top (Five r0 r1 r2 r3 r4)) = Five i0 i1 i2 i3 i4
    \<and> uint i0 \<le> 2 ^ 51 + 19 * (B div 2 ^ 51) \<and> uint i1 < 2 ^ 51 \<and> uint i2 < 2 ^ 51 \<and> uint i3 < 2 ^ 51 \<and> uint i4 < 2 ^ 51
    \<and> eqm (val5 (Five i0 i1 i2 i3 i4)) (val5 (Five r0 r1 r2 r3 r4))"
proof -
  have r4': "uint r4 div 2 ^ 51 \<le> B div 2 ^ 51" using r4(1) by (rule zdiv_mono1) simp
  have n: "B div 2 ^ 51 < 2 ^ 64" "B div 2 ^ 51 < 2 ^ 128" using r4(2) by auto
  have top: "rep (19 * ucast (ucast (drop_bit 51 r4) :: u64) :: u128) (19 * (uint r4 div 2 ^ 51)) (19 * (B div 2 ^ 51))"
    by (intro rep_mult rep_numeral rep_ucast_up [OF rep_ucast_up [OF rep_drop [OF rep_uint [OF r4(1)]]]])
       (use r4(2) n in simp_all)
  have 0: "rep (r0 + 19 * ucast (ucast (drop_bit 51 r4) :: u64)) (uint r0 + 19 * (uint r4 div 2 ^ 51))
      (2 ^ 51 + 19 * (B div 2 ^ 51))"
    by (rule rep_add [OF rep_uint top]) (use r(1) r4(2) in simp_all)
  have cp: "uint (ucast x :: u64) = uint x" if "uint x < 2 ^ 64" for x :: u128
    using that by (simp add: unsigned_ucast_eq take_bit_int_eq_self)
  have m: "uint (r4 AND 0x7ffffffffffff) = uint r4 mod 2 ^ 51"
    using rep_mask51 [OF rep_uint [OF r4(1)]] by (simp add: rep_def)
  have lim: "uint (ucast (r0 + 19 * ucast (ucast (drop_bit 51 r4) :: u64)) :: u64) = uint r0 + 19 * (uint r4 div 2 ^ 51)"
    "uint (ucast (r4 AND 0x7ffffffffffff) :: u64) = uint r4 mod 2 ^ 51"
    using repD [OF 0] r4(2) by (simp_all add: cp m)
  have "val5 (Five r0 r1 r2 r3 r4) = val5 (Five (ucast (r0 + 19 * ucast (ucast (drop_bit 51 r4) :: u64)) :: u64)
      (ucast r1) (ucast r2) (ucast r3) (ucast (r4 AND 0x7ffffffffffff))) + p25519 * (uint r4 div 2 ^ 51)"
  proof -
    obtain d m where e: "uint r4 div 2 ^ 51 = d" "uint r4 mod 2 ^ 51 = m" "uint r4 = 2 ^ 51 * d + m"
      by (rule split_limb)
    have "uint r1 < 2 ^ 64" "uint r2 < 2 ^ 64" "uint r3 < 2 ^ 64" using r by auto
    then show ?thesis
      unfolding val5.simps lim e(1,2) p25519_def by (simp only: cp) (simp add: e(3) algebra_simps)
  qed
  then have "eqm (val5 (Five r0 r1 r2 r3 r4)) (val5 (Five (ucast (r0 + 19 * ucast (ucast (drop_bit 51 r4) :: u64)) :: u64)
      (ucast r1) (ucast r2) (ucast r3) (ucast (r4 AND 0x7ffffffffffff))))" by (rule eqm_multiple)
  moreover have "uint r0 + 19 * (uint r4 div 2 ^ 51) \<le> 2 ^ 51 + 19 * (B div 2 ^ 51)"
    using repD(3) [OF 0] .
  ultimately show ?thesis
    using r by (simp add: Let_def cp lim eqm_sym)
qed

lemma carry_low_tight:
  fixes i0 :: u64
  assumes "uint i1 < 2 ^ 51" "uint i2 < 2 ^ 51" "uint i3 < 2 ^ 51" "uint i4 < 2 ^ 51"
  shows "tight5 (carry_low (Five i0 i1 i2 i3 i4))"
    and "val5 (carry_low (Five i0 i1 i2 i3 i4)) = val5 (Five i0 i1 i2 i3 i4)"
proof -
  have b: "uint i0 \<le> 2 ^ 64 - 1" using uint_lt2p [of i0] by simp
  have m: "uint (i0 AND 0x7ffffffffffff) = uint i0 mod 2 ^ 51"
    using rep_mask51 [OF rep_uint [OF b]] by (simp add: rep_def)
  have "rep (i1 + drop_bit 51 i0) (uint i1 + uint i0 div 2 ^ 51) (2 ^ 51 + (2 ^ 64 - 1) div 2 ^ 51)"
    by (rule rep_add [OF rep_uint rep_drop [OF rep_uint [OF b]]]) (use assms(1) in simp_all)
  then have a: "uint (i1 + drop_bit 51 i0) = uint i1 + uint i0 div 2 ^ 51" "uint (i1 + drop_bit 51 i0) \<le> 2 ^ 51 + 2 ^ 13"
    by (simp_all add: rep_def)
  have "uint i0 mod 2 ^ 51 < 2 ^ 51" by simp
  then show "tight5 (carry_low (Five i0 i1 i2 i3 i4))"
    unfolding tight5_def carry_low.simps limbs_le.simps m using a(2) assms by auto
  obtain d m' where e: "uint i0 div 2 ^ 51 = d" "uint i0 mod 2 ^ 51 = m'" "uint i0 = 2 ^ 51 * d + m'"
    by (rule split_limb)
  show "val5 (carry_low (Five i0 i1 i2 i3 i4)) = val5 (Five i0 i1 i2 i3 i4)"
    unfolding carry_low.simps val5.simps m a(1) e(1,2) by (simp add: e(3) algebra_simps)
qed

section \<open>Products and squares\<close>

lemma rep_iff: "rep w x B \<longleftrightarrow> uint w = x \<and> uint w \<le> B"
  by (auto simp: rep_def)

lemma rep_eq: "rep w x B \<Longrightarrow> x = y \<Longrightarrow> B \<le> C \<Longrightarrow> rep w y C"
  by (simp add: rep_def)

text \<open>The columns of a product: a limb that passes the top is multiplied by 19.\<close>

lemma fmul_columns:
  assumes "loose5 (Five a0 a1 a2 a3 a4)" "loose5 (Five b0 b1 b2 b3 b4)"
  shows "\<exists>t0 t1 t2 t3 t4. fmul_mul_shift_reduce (Five 0 0 0 0 0) (Five a0 a1 a2 a3 a4) (Five b0 b1 b2 b3 b4) = Five t0 t1 t2 t3 t4
    \<and> rep t0 (uint a0 * uint b0 + 19 * (uint a4 * uint b1 + uint a3 * uint b2 + uint a2 * uint b3 + uint a1 * uint b4)) (2 ^ 120)
    \<and> rep t1 (uint a1 * uint b0 + uint a0 * uint b1 + 19 * (uint a4 * uint b2 + uint a3 * uint b3 + uint a2 * uint b4)) (2 ^ 120)
    \<and> rep t2 (uint a2 * uint b0 + uint a1 * uint b1 + uint a0 * uint b2 + 19 * (uint a4 * uint b3 + uint a3 * uint b4)) (2 ^ 120)
    \<and> rep t3 (uint a3 * uint b0 + uint a2 * uint b1 + uint a1 * uint b2 + uint a0 * uint b3 + 19 * (uint a4 * uint b4)) (2 ^ 120)
    \<and> rep t4 (uint a4 * uint b0 + uint a3 * uint b1 + uint a2 * uint b2 + uint a1 * uint b3 + uint a0 * uint b4) (5 * (2 ^ 54 + 2 ^ 51 + 2 ^ 26) ^ 2)"
proof -
  have a: "rep a0 (uint a0) 20266198390276096" "rep a1 (uint a1) 20266198390276096" "rep a2 (uint a2) 20266198390276096"
      "rep a3 (uint a3) 20266198390276096" "rep a4 (uint a4) 20266198390276096"
    and b: "rep b0 (uint b0) 20266198390276096" "rep b1 (uint b1) 20266198390276096" "rep b2 (uint b2) 20266198390276096"
      "rep b3 (uint b3) 20266198390276096" "rep b4 (uint b4) 20266198390276096"
    using assms by (simp_all add: loose5_def rep_def)
  note rs = rep_add rep_mult rep_ucast_up rep_numeral rep_0 a b
  show ?thesis
    unfolding fmul_mul_shift_reduce.simps Let_def fmul_shift_reduce.simps fproduct_sum_scalar_multiplication.simps
    by (intro exI, rule conjI, rule refl, intro conjI; rule rep_eq, (rule rs | simp)+) 
qed

text \<open>The common tail of the three operations that go through a wide product.\<close>

lemma wide_tail:
  fixes t0 :: u128
  assumes "uint t0 \<le> 2 ^ 120" "uint t1 \<le> 2 ^ 120" "uint t2 \<le> 2 ^ 120" "uint t3 \<le> 2 ^ 120"
    and B: "uint t4 \<le> B" "B \<le> 2 ^ 120" "19 * ((B + 2 ^ 70) div 2 ^ 51) < 2 ^ 64 - 2 ^ 51"
  shows "\<exists>i0 i1 i2 i3 i4. fproduct_copy_from_wide (wide_carry_top (fproduct_carry_wide (Five t0 t1 t2 t3 t4)))
      = Five i0 i1 i2 i3 i4
    \<and> uint i0 \<le> 2 ^ 51 + 19 * ((B + 2 ^ 70) div 2 ^ 51)
    \<and> uint i1 < 2 ^ 51 \<and> uint i2 < 2 ^ 51 \<and> uint i3 < 2 ^ 51 \<and> uint i4 < 2 ^ 51
    \<and> eqm (val5 (Five i0 i1 i2 i3 i4)) (val5 (Five t0 t1 t2 t3 t4))"
proof -
  from carry_wide [OF assms(1-6)] obtain r0 r1 r2 r3 r4
    where r: "fproduct_carry_wide (Five t0 t1 t2 t3 t4) = Five r0 r1 r2 r3 r4" "uint r0 < 2 ^ 51" "uint r1 < 2 ^ 51"
      "uint r2 < 2 ^ 51" "uint r3 < 2 ^ 51" "uint r4 \<le> B + 2 ^ 70" "val5 (Five r0 r1 r2 r3 r4) = val5 (Five t0 t1 t2 t3 t4)"
    by blast
  from reduce_wide [OF r(2-6) B(3)] show ?thesis unfolding r(1,7) .
qed

lemma fmul_correct:
  assumes "loose5 a" "loose5 b"
  shows "tight5 (fmul_fmul a b)" and "eqm (val5 (fmul_fmul a b)) (val5 a * val5 b)"
proof -
  obtain a0 a1 a2 a3 a4 where a: "a = Five a0 a1 a2 a3 a4" by (cases a)
  obtain b0 b1 b2 b3 b4 where b: "b = Five b0 b1 b2 b3 b4" by (cases b)
  from fmul_columns [OF assms [unfolded a b]] obtain t0 t1 t2 t3 t4
    where m: "fmul_mul_shift_reduce (Five 0 0 0 0 0) (Five a0 a1 a2 a3 a4) (Five b0 b1 b2 b3 b4) = Five t0 t1 t2 t3 t4"
      and t: "uint t0 = uint a0 * uint b0 + 19 * (uint a4 * uint b1 + uint a3 * uint b2 + uint a2 * uint b3 + uint a1 * uint b4)"
        "uint t1 = uint a1 * uint b0 + uint a0 * uint b1 + 19 * (uint a4 * uint b2 + uint a3 * uint b3 + uint a2 * uint b4)"
        "uint t2 = uint a2 * uint b0 + uint a1 * uint b1 + uint a0 * uint b2 + 19 * (uint a4 * uint b3 + uint a3 * uint b4)"
        "uint t3 = uint a3 * uint b0 + uint a2 * uint b1 + uint a1 * uint b2 + uint a0 * uint b3 + 19 * (uint a4 * uint b4)"
        "uint t4 = uint a4 * uint b0 + uint a3 * uint b1 + uint a2 * uint b2 + uint a1 * uint b3 + uint a0 * uint b4"
      and le: "uint t0 \<le> 2 ^ 120" "uint t1 \<le> 2 ^ 120" "uint t2 \<le> 2 ^ 120" "uint t3 \<le> 2 ^ 120"
        "uint t4 \<le> 5 * (2 ^ 54 + 2 ^ 51 + 2 ^ 26) ^ 2"
    unfolding rep_iff by blast
  from wide_tail [OF le] obtain i0 i1 i2 i3 i4
    where i: "fproduct_copy_from_wide (wide_carry_top (fproduct_carry_wide (Five t0 t1 t2 t3 t4))) = Five i0 i1 i2 i3 i4"
      "uint i1 < 2 ^ 51" "uint i2 < 2 ^ 51" "uint i3 < 2 ^ 51" "uint i4 < 2 ^ 51"
      "eqm (val5 (Five i0 i1 i2 i3 i4)) (val5 (Five t0 t1 t2 t3 t4))"
    by (auto simp: eqm_def)
  have f: "fmul_fmul a b = carry_low (Five i0 i1 i2 i3 i4)"
    by (simp only: fmul_fmul_def a b m Let_def i(1))
  show "tight5 (fmul_fmul a b)" unfolding f by (rule carry_low_tight [OF i(2-5)])
  have "val5 a * val5 b = val5 (Five t0 t1 t2 t3 t4) + p25519 * (uint a4 * uint b1 + uint a3 * uint b2 + uint a2 * uint b3
      + uint a1 * uint b4 + 2 ^ 51 * (uint a4 * uint b2 + uint a3 * uint b3 + uint a2 * uint b4)
      + 2 ^ 102 * (uint a4 * uint b3 + uint a3 * uint b4) + 2 ^ 153 * (uint a4 * uint b4))"
    unfolding a b val5.simps t p25519_def by (simp add: algebra_simps)
  then have "eqm (val5 (Five t0 t1 t2 t3 t4)) (val5 a * val5 b)" by (rule eqm_sym [OF eqm_multiple])
  with i(6) show "eqm (val5 (fmul_fmul a b)) (val5 a * val5 b)"
    unfolding f carry_low_tight(2) [OF i(2-5)] by (rule eqm_trans)
qed

lemma fsquare_columns:
  assumes "loose5 (Five a0 a1 a2 a3 a4)"
  shows "\<exists>t0 t1 t2 t3 t4. fsquare_fsquare_wide (Five a0 a1 a2 a3 a4) = Five t0 t1 t2 t3 t4
    \<and> rep t0 (uint a0 * uint a0 + 38 * (uint a4 * uint a1 + uint a2 * uint a3)) (2 ^ 120)
    \<and> rep t1 (2 * (uint a0 * uint a1) + 38 * (uint a4 * uint a2) + 19 * (uint a3 * uint a3)) (2 ^ 120)
    \<and> rep t2 (2 * (uint a0 * uint a2) + uint a1 * uint a1 + 38 * (uint a4 * uint a3)) (2 ^ 120)
    \<and> rep t3 (2 * (uint a0 * uint a3 + uint a1 * uint a2) + 19 * (uint a4 * uint a4)) (2 ^ 120)
    \<and> rep t4 (2 * (uint a0 * uint a4 + uint a1 * uint a3) + uint a2 * uint a2) (5 * (2 ^ 54 + 2 ^ 51 + 2 ^ 26) ^ 2)"
proof -
  have a: "rep a0 (uint a0) 20266198390276096" "rep a1 (uint a1) 20266198390276096" "rep a2 (uint a2) 20266198390276096"
      "rep a3 (uint a3) 20266198390276096" "rep a4 (uint a4) 20266198390276096"
    using assms by (simp_all add: loose5_def rep_def)
  note rs = rep_add rep_mult rep_ucast_up rep_numeral a
  show ?thesis
    unfolding fsquare_fsquare_wide.simps Let_def
    by (intro exI, rule conjI, rule refl, intro conjI; rule rep_eq, (rule rs | simp)+)
qed

lemma fsquare_correct:
  assumes "loose5 a"
  shows "tight5 (fsquare_fsquare a)" and "eqm (val5 (fsquare_fsquare a)) (val5 a * val5 a)"
proof -
  obtain a0 a1 a2 a3 a4 where a: "a = Five a0 a1 a2 a3 a4" by (cases a)
  from fsquare_columns [OF assms [unfolded a]] obtain t0 t1 t2 t3 t4
    where m: "fsquare_fsquare_wide (Five a0 a1 a2 a3 a4) = Five t0 t1 t2 t3 t4"
      and t: "uint t0 = uint a0 * uint a0 + 38 * (uint a4 * uint a1 + uint a2 * uint a3)"
        "uint t1 = 2 * (uint a0 * uint a1) + 38 * (uint a4 * uint a2) + 19 * (uint a3 * uint a3)"
        "uint t2 = 2 * (uint a0 * uint a2) + uint a1 * uint a1 + 38 * (uint a4 * uint a3)"
        "uint t3 = 2 * (uint a0 * uint a3 + uint a1 * uint a2) + 19 * (uint a4 * uint a4)"
        "uint t4 = 2 * (uint a0 * uint a4 + uint a1 * uint a3) + uint a2 * uint a2"
      and le: "uint t0 \<le> 2 ^ 120" "uint t1 \<le> 2 ^ 120" "uint t2 \<le> 2 ^ 120" "uint t3 \<le> 2 ^ 120"
        "uint t4 \<le> 5 * (2 ^ 54 + 2 ^ 51 + 2 ^ 26) ^ 2"
    unfolding rep_iff by blast
  from wide_tail [OF le] obtain i0 i1 i2 i3 i4
    where i: "fproduct_copy_from_wide (wide_carry_top (fproduct_carry_wide (Five t0 t1 t2 t3 t4))) = Five i0 i1 i2 i3 i4"
      "uint i1 < 2 ^ 51" "uint i2 < 2 ^ 51" "uint i3 < 2 ^ 51" "uint i4 < 2 ^ 51"
      "eqm (val5 (Five i0 i1 i2 i3 i4)) (val5 (Five t0 t1 t2 t3 t4))"
    by (auto simp: eqm_def)
  have f: "fsquare_fsquare a = carry_low (Five i0 i1 i2 i3 i4)"
    by (simp only: fsquare_fsquare_def a m Let_def i(1))
  show "tight5 (fsquare_fsquare a)" unfolding f by (rule carry_low_tight [OF i(2-5)])
  have "val5 a * val5 a = val5 (Five t0 t1 t2 t3 t4) + p25519 * (2 * (uint a4 * uint a1 + uint a2 * uint a3)
      + 2 ^ 51 * (2 * (uint a4 * uint a2) + uint a3 * uint a3) + 2 ^ 102 * (2 * (uint a4 * uint a3))
      + 2 ^ 153 * (uint a4 * uint a4))"
    unfolding a val5.simps t p25519_def by (simp add: algebra_simps)
  then have "eqm (val5 (Five t0 t1 t2 t3 t4)) (val5 a * val5 a)" by (rule eqm_sym [OF eqm_multiple])
  with i(6) show "eqm (val5 (fsquare_fsquare a)) (val5 a * val5 a)"
    unfolding f carry_low_tight(2) [OF i(2-5)] by (rule eqm_trans)
qed

lemma fscalar_correct:
  assumes "loose5 a"
  shows "tight5 (fscalar a 121665)" and "eqm (val5 (fscalar a 121665)) (121665 * val5 a)"
proof -
  obtain a0 a1 a2 a3 a4 where a: "a = Five a0 a1 a2 a3 a4" by (cases a)
  have r: "rep (ucast x * ucast (121665 :: u64) :: u128) (uint x * 121665) 2465687027152941219840"
    if "uint x \<le> 20266198390276096" for x :: u64
    by (rule rep_mono [OF rep_mult [OF rep_ucast_up [OF rep_uint [OF that]] rep_ucast_up [OF rep_numeral]]]) simp_all
  define t where "t x = (ucast x * ucast (121665 :: u64) :: u128)" for x :: u64
  have t: "uint (t x) = uint x * 121665" "uint (t x) \<le> 2 ^ 72" if "uint x \<le> 20266198390276096" for x
    using r [OF that] by (simp_all add: rep_def t_def)
  have l: "uint a0 \<le> 20266198390276096" "uint a1 \<le> 20266198390276096" "uint a2 \<le> 20266198390276096"
      "uint a3 \<le> 20266198390276096" "uint a4 \<le> 20266198390276096"
    using assms by (simp_all add: a loose5_def)
  have w: "x \<le> 2 ^ 72 \<Longrightarrow> x \<le> 2 ^ 120" for x :: int by simp
  from wide_tail [OF w [OF t(2) [OF l(1)]] w [OF t(2) [OF l(2)]] w [OF t(2) [OF l(3)]] w [OF t(2) [OF l(4)]] t(2) [OF l(5)]]
  obtain i0 i1 i2 i3 i4
    where i: "fproduct_copy_from_wide (wide_carry_top (fproduct_carry_wide (Five (t a0) (t a1) (t a2) (t a3) (t a4)))) = Five i0 i1 i2 i3 i4"
      "uint i0 \<le> 2 ^ 51 + 19 * ((2 ^ 72 + 2 ^ 70) div 2 ^ 51)" "uint i1 < 2 ^ 51" "uint i2 < 2 ^ 51" "uint i3 < 2 ^ 51" "uint i4 < 2 ^ 51"
      "eqm (val5 (Five i0 i1 i2 i3 i4)) (val5 (Five (t a0) (t a1) (t a2) (t a3) (t a4)))"
    by (auto simp: eqm_def)
  have f: "fscalar a 121665 = Five i0 i1 i2 i3 i4"
    by (simp only: a fscalar.simps Let_def i(1) flip: t_def)
  show "tight5 (fscalar a 121665)" using i(2-6) by (simp add: f tight5_def)
  have "val5 (Five (t a0) (t a1) (t a2) (t a3) (t a4)) = 121665 * val5 a"
    by (simp add: a t(1) l)
  with i(7) show "eqm (val5 (fscalar a 121665)) (121665 * val5 a)" by (simp only: f)
qed

section \<open>Sums and differences\<close>

lemma fsum_correct:
  assumes "tight5 a" "tight5 b"
  shows "loose5 (fsum a b)" and "eqm (val5 (fsum a b)) (val5 a + val5 b)"
proof -
  obtain a0 a1 a2 a3 a4 where a: "a = Five a0 a1 a2 a3 a4" by (cases a)
  obtain b0 b1 b2 b3 b4 where b: "b = Five b0 b1 b2 b3 b4" by (cases b)
  have s: "uint (x + y) = uint x + uint y" if "uint x \<le> 2251799880794112" "uint y \<le> 2251799880794112" for x y :: u64
    using rep_add [OF rep_uint [OF that(1)] rep_uint [OF that(2)]] by (simp add: rep_def)
  show "loose5 (fsum a b)" "eqm (val5 (fsum a b)) (val5 a + val5 b)"
    using assms by (auto simp: a b tight5_def loose5_def s algebra_simps)
qed

lemma fdifference_correct:
  assumes "tight5 a" "tight5 b"
  shows "loose5 (fdifference a b)" and "eqm (val5 (fdifference a b)) (val5 b - val5 a)"
proof -
  obtain a0 a1 a2 a3 a4 where a: "a = Five a0 a1 a2 a3 a4" by (cases a)
  obtain b0 b1 b2 b3 b4 where b: "b = Five b0 b1 b2 b3 b4" by (cases b)
  have s: "uint (y + c - x) = uint y + uint c - uint x" "uint (y + c - x) \<le> 20266198390276096"
    if "uint x \<le> 2251799880794112" "uint y \<le> 2251799880794112" "uint c \<le> 18014398509481976" "2251799880794112 \<le> uint c"
    for x y c :: u64
  proof -
    have "rep (y + c) (uint y + uint c) (2251799880794112 + 18014398509481976)"
      by (rule rep_add [OF rep_uint [OF that(2)] rep_uint [OF that(3)]]) simp
    moreover have "uint x \<le> uint y + uint c" using that uint_ge_0 [of y] by linarith
    ultimately have "rep (y + c - x) (uint y + uint c - uint x) (2251799880794112 + 18014398509481976)"
      by (rule rep_diff [OF _ rep_uint [OF that(1)]])
    then show "uint (y + c - x) = uint y + uint c - uint x" "uint (y + c - x) \<le> 20266198390276096"
      by (simp_all add: rep_def)
  qed
  have le: "uint a0 \<le> 2251799880794112" "uint a1 \<le> 2251799880794112" "uint a2 \<le> 2251799880794112"
      "uint a3 \<le> 2251799880794112" "uint a4 \<le> 2251799880794112" "uint b0 \<le> 2251799880794112"
      "uint b1 \<le> 2251799880794112" "uint b2 \<le> 2251799880794112" "uint b3 \<le> 2251799880794112" "uint b4 \<le> 2251799880794112"
    using assms by (simp_all add: a b tight5_def)
  show "loose5 (fdifference a b)" using le by (simp add: a b loose5_def s(2))
  have e: "uint (b0 + 0x3fffffffffff68 - a0) = uint b0 + 18014398509481832 - uint a0"
    "uint (b1 + 0x3ffffffffffff8 - a1) = uint b1 + 18014398509481976 - uint a1"
    "uint (b2 + 0x3ffffffffffff8 - a2) = uint b2 + 18014398509481976 - uint a2"
    "uint (b3 + 0x3ffffffffffff8 - a3) = uint b3 + 18014398509481976 - uint a3"
    "uint (b4 + 0x3ffffffffffff8 - a4) = uint b4 + 18014398509481976 - uint a4"
    using le by (simp_all add: s(1))
  have "val5 (fdifference a b) = val5 b - val5 a + p25519 * 8"
    unfolding a b fdifference.simps val5.simps e by (simp add: p25519_def)
  then show "eqm (val5 (fdifference a b)) (val5 b - val5 a)" by (rule eqm_multiple)
qed

interpretation c64: limb_field val5 tight5 loose5 fmul_fmul fsum "\<lambda>a b. fdifference b a" fsquare_fsquare
  "\<lambda>a. fscalar a 121665" 121665
  by unfold_locales (simp_all add: tight5_loose5 fmul_correct fsquare_correct fscalar_correct fsum_correct fdifference_correct)

end
