(* ===== verification/Curve25519_Key.thy ===== *)
theory Curve25519_Key
  imports Curve25519_Correct
begin

text \<open>
  Inversion and ladder of the 64-bit Curve25519, over the laws of its field arithmetic: the
  loops over the 32 bytes of the scalar are the RFC's loop over 256 bits.
\<close>

section \<open>Inversion\<close>

lemma fsquare_times: "0 < n \<Longrightarrow> fsquare_fsquare_times a n = (fsquare_fsquare ^^ n) a"
  by (cases n) (simp_all add: fsquare_fsquare_times_def funpow_swap1)

lemma crecip_correct:
  assumes "loose5 z"
  shows "tight5 (crecip_crecip z)" and "eqm (val5 (crecip_crecip z)) (val5 z ^ (2 ^ 255 - 21))"
proof -
  define a where "a = fsquare_fsquare z"
  define e9 where "e9 = fmul_fmul ((fsquare_fsquare ^^ 2) a) z"
  define e11 where "e11 = fmul_fmul e9 a"
  define e31 where "e31 = fmul_fmul (fsquare_fsquare e11) e9"
  define e10 where "e10 = fmul_fmul ((fsquare_fsquare ^^ 5) e31) e31"
  define e20 where "e20 = fmul_fmul ((fsquare_fsquare ^^ 10) e10) e10"
  define e40 where "e40 = fmul_fmul ((fsquare_fsquare ^^ 20) e20) e20"
  define e50 where "e50 = fmul_fmul ((fsquare_fsquare ^^ 10) e40) e10"
  define e100 where "e100 = fmul_fmul ((fsquare_fsquare ^^ 50) e50) e50"
  define e200 where "e200 = fmul_fmul ((fsquare_fsquare ^^ 100) e100) e100"
  define e250 where "e250 = fmul_fmul ((fsquare_fsquare ^^ 50) e200) e50"
  have one: "fsquare_fsquare_times x 1 = fsquare_fsquare x" for x by (simp add: fsquare_times)
  have "crecip_crecip z = fmul_fmul ((fsquare_fsquare ^^ 5) e250) e11"
    unfolding crecip_crecip_def Let_def one e250_def e200_def e100_def e50_def e40_def e20_def e10_def
      e31_def e11_def e9_def a_def by (simp only: fsquare_times zero_less_numeral)
  then show "tight5 (crecip_crecip z)" and "eqm (val5 (crecip_crecip z)) (val5 z ^ (2 ^ 255 - 21))"
    using c64.inversion_chain [OF assms a_def disjI1 [OF e9_def] disjI1 [OF e11_def] disjI1 [OF e31_def]
        e10_def e20_def e40_def e50_def e100_def e200_def e250_def] by simp_all
qed

section \<open>The ladder\<close>

text \<open>The pair of points as the ladder of the RFC.\<close>

fun lad :: "fpoint \<times> fpoint \<Rightarrow> ladder" where
  "lad ((x2, z2), (x3, z3)) = (val5 x2, val5 z2, val5 x3, val5 z3)"

fun tight_pts :: "fpoint \<times> fpoint \<Rightarrow> bool" where
  "tight_pts ((x2, z2), (x3, z3)) \<longleftrightarrow> tight5 x2 \<and> tight5 z2 \<and> tight5 x3 \<and> tight5 z3"

lemma swap_off: "point_swap_conditional a b 0 = (a, b)"
  by (cases a; cases b; cases "fst a"; cases "snd a"; cases "fst b"; cases "snd b")
     (simp add: point_swap_conditional_def point_swap_conditional_step_def)

lemma swap_on: "point_swap_conditional a b 1 = (b, a)"
proof -
  have *: "point_swap_conditional_step x y (- 1) = (y, x)" for x y
    by (simp add: point_swap_conditional_step_def xor.left_commute)
  have "point_swap_conditional5 x y (- 1) = (y, x)" for x y
    by (cases x; cases y) (simp add: *)
  then show ?thesis by (cases a; cases b) (simp add: point_swap_conditional_def)
qed

lemma swap_lad:
  assumes "point_swap_conditional a b (of_bool c) = r"
  shows "lad r = rfc_cswap c (lad (a, b))" and "tight_pts r = tight_pts (a, b)"
  using assms by (cases a; cases b; cases c; auto simp: swap_off swap_on)+

lemma fmonty_step:
  assumes t: "tight_pts (p, pq)" and q: "tight5 q"
  shows "tight_pts (addanddouble_fmonty p pq q)"
    and "eqm_ladder (lad (addanddouble_fmonty p pq q)) (rfc_step (val5 q) (lad (p, pq)))"
proof -
  obtain x z xp zp where p: "p = (x, z)" "pq = (xp, zp)" by (cases p; cases pq)
  have t': "tight5 x" "tight5 z" "tight5 xp" "tight5 zp" using t by (simp_all add: p)
  define A where "A = fsum x z"
  define B where "B = fdifference z x"
  define C where "C = fsum xp zp"
  define D where "D = fdifference zp xp"
  define CB where "CB = fmul_fmul C B"
  define DA where "DA = fmul_fmul A D"
  define S where "S = fsum CB DA"
  define T where "T = fdifference DA CB"
  define AA where "AA = fsquare_fsquare A"
  define BB where "BB = fsquare_fsquare B"
  define E where "E = fdifference BB AA"
  define F where "F = fsum (fscalar E 121665) AA"
  have one: "fsquare_fsquare_times x 1 = fsquare_fsquare x" for x by (simp add: fsquare_times)
  have r: "addanddouble_fmonty p pq q
      = ((fmul_fmul AA BB, fmul_fmul F E), (fsquare_fsquare S, fmul_fmul (fsquare_fsquare T) q))"
    unfolding addanddouble_fmonty_def p Let_def prod.case one F_def E_def AA_def BB_def T_def S_def DA_def CB_def
      A_def B_def C_def D_def ..
  note step = c64.ladder_step [OF t' q A_def B_def C_def D_def CB_def disjI2 [OF DA_def] disjI2 [OF S_def] disjI2 [OF T_def] AA_def
      BB_def E_def disjI1 [OF conjI [OF refl F_def]] disjI1 [OF refl] disjI1 [OF refl]]
  show "tight_pts (addanddouble_fmonty p pq q)" using step(1) unfolding r tight_pts.simps by blast
  show "eqm_ladder (lad (addanddouble_fmonty p pq q)) (rfc_step (val5 q) (lad (p, pq)))"
    unfolding r unfolding p lad.simps by (rule step(2))
qed

lemma small_step:
  fixes byt :: u8
  assumes t: "tight_pts (nq, nqpq)" and q: "tight5 q"
  defines "r \<equiv> ladder_smallloop_cmult_small_loop_step nq nqpq q byt"
  shows "tight_pts r" and "eqm_ladder (lad r) (ladder_bit (val5 q) (bit byt 7) (lad (nq, nqpq)))"
proof -
  have b: "(ucast (drop_bit 7 byt) :: u64) = of_bool (bit byt 7)"
  proof (rule bit_word_eqI)
    fix n assume "n < LENGTH(64)"
    then show "bit (ucast (drop_bit 7 byt) :: u64) n = bit (of_bool (bit byt 7) :: u64) n"
      by (cases n) (simp_all add: bit_simps u8_bit_ge)
  qed
  obtain p1 p2 where s: "point_swap_conditional nq nqpq (of_bool (bit byt 7)) = (p1, p2)" by (cases "point_swap_conditional nq nqpq (of_bool (bit byt 7))")
  obtain d1 d2 where d: "addanddouble_fmonty p1 p2 q = (d1, d2)" by (cases "addanddouble_fmonty p1 p2 q")
  have r: "point_swap_conditional d1 d2 (of_bool (bit byt 7)) = r"
    by (simp add: r_def ladder_smallloop_cmult_small_loop_step_def Let_def b s d)
  have t1: "tight_pts (p1, p2)" using swap_lad(2) [OF s] t by simp
  note m = fmonty_step [OF t1 q, unfolded d swap_lad(1) [OF s]]
  show "tight_pts r" using swap_lad(2) [OF r] m(1) by simp
  show "eqm_ladder (lad r) (ladder_bit (val5 q) (bit byt 7) (lad (nq, nqpq)))"
    unfolding swap_lad(1) [OF r] ladder_bit_def by (rule eqm_cswap [OF m(2)])
qed

lemma double_step:
  fixes byt :: u8
  assumes t: "tight_pts (nq, nqpq)" and q: "tight5 q"
  defines "r \<equiv> ladder_smallloop_cmult_small_loop_double_step nq nqpq q byt"
  shows "tight_pts r"
    and "eqm_ladder (lad r) (ladder_bit (val5 q) (bit byt 6) (ladder_bit (val5 q) (bit byt 7) (lad (nq, nqpq))))"
proof -
  obtain p1 p2 where p: "ladder_smallloop_cmult_small_loop_step nq nqpq q byt = (p1, p2)" by (cases "ladder_smallloop_cmult_small_loop_step nq nqpq q byt")
  note s = small_step [OF t q, of byt, unfolded p]
  have r: "r = ladder_smallloop_cmult_small_loop_step p1 p2 q (push_bit 1 byt)"
    by (simp add: r_def ladder_smallloop_cmult_small_loop_double_step_def p)
  note s' = small_step [OF s(1) q, of "push_bit 1 byt", folded r]
  show "tight_pts r" by (rule s'(1))
  have "bit (push_bit 1 byt) 7 = bit byt 6" by (simp only: bit_push_bit_iff) simp
  then show "eqm_ladder (lad r) (ladder_bit (val5 q) (bit byt 6) (ladder_bit (val5 q) (bit byt 7) (lad (nq, nqpq))))"
    using eqm_ladder_trans [OF s'(2) eqm_ladder_bit [OF eqm_refl s(2)]] by simp
qed

text \<open>The bits of a byte, top first, are the next bits of the scalar.\<close>

lemma small_loop:
  assumes "tight_pts (nq, nqpq)" and q: "tight5 q" and "i \<le> 4" and "\<forall>j < 2 * i. bit byt (7 - j) = bit k (2 * i + t - 1 - j)"
  shows "tight_pts (ladder_smallloop_cmult_small_loop i nq nqpq q byt)
    \<and> eqm_ladder (ladder_bits (val5 q) k t (lad (ladder_smallloop_cmult_small_loop i nq nqpq q byt)))
        (ladder_bits (val5 q) k (2 * i + t) (lad (nq, nqpq)))"
  using assms(1,3,4)
proof (induction i arbitrary: nq nqpq byt)
  case (Suc i)
  obtain p1 p2 where p: "ladder_smallloop_cmult_small_loop_double_step nq nqpq q byt = (p1, p2)" by (cases "ladder_smallloop_cmult_small_loop_double_step nq nqpq q byt")
  note d = double_step [OF Suc.prems(1) q, of byt, unfolded p]
  have b: "bit byt 7 = bit k (Suc (2 * i + t))" "bit byt 6 = bit k (2 * i + t)"
    using Suc.prems(3) [rule_format, of 0] Suc.prems(3) [rule_format, of 1] by simp_all
  have "\<forall>j < 2 * i. bit (push_bit 2 byt) (7 - j) = bit k (2 * i + t - 1 - j)"
  proof (intro allI impI)
    fix j assume j: "j < 2 * i"
    then have "bit (push_bit 2 byt) (7 - j) = bit byt (7 - (j + 2))"
      using Suc.prems(2) by (simp only: bit_push_bit_iff possible_bit_word) auto
    also have "\<dots> = bit k (2 * Suc i + t - 1 - (j + 2))"
      by (rule Suc.prems(3) [rule_format]) (use j in simp)
    finally show "bit (push_bit 2 byt) (7 - j) = bit k (2 * i + t - 1 - j)" by simp
  qed
  note ih = Suc.IH [OF d(1) _ this]
  have l: "eqm_ladder (ladder_bits (val5 q) k (2 * i + t) (lad (p1, p2))) (ladder_bits (val5 q) k (2 * Suc i + t) (lad (nq, nqpq)))"
    using eqm_ladder_bits [OF eqm_refl d(2), of "val5 q" k "2 * i + t"] by (simp add: b)
  have e: "ladder_smallloop_cmult_small_loop (Suc i) nq nqpq q byt = ladder_smallloop_cmult_small_loop i p1 p2 q (push_bit 2 byt)"
    by (simp add: p)
  show ?case unfolding e using ih Suc.prems(2) eqm_ladder_trans [OF _ l] by simp
qed simp

lemma bit_le_val: "i < length bs \<Longrightarrow> j < 8 \<Longrightarrow> bit (le_val bs) (8 * i + j) = bit (bs ! i) j"
proof (induction bs arbitrary: i)
  case (Cons b bs)
  have lt: "unat b < 2 ^ 8" using u8_less [of b] by simp
  have e: "le_val (b # bs) = unat b + le_val bs * 2 ^ 8" by simp
  show ?case
  proof (cases i)
    case 0
    have "bit (unat b + le_val bs * 2 ^ 8) j = bit (unat b) j"
    proof -
      have "take_bit 8 (unat b + le_val bs * 2 ^ 8) = unat b" using lt by (simp add: take_bit_eq_mod)
      then show ?thesis using Cons.prems(2) by (metis bit_take_bit_iff)
    qed
    then show ?thesis by (simp add: 0 bit_unsigned_iff mult.commute)
  next
    case (Suc i')
    have "drop_bit 8 (unat b + le_val bs * 2 ^ 8) = le_val bs" using lt by (simp add: drop_bit_eq_div)
    then have "bit (le_val (b # bs)) (8 + (8 * i' + j)) = bit (le_val bs) (8 * i' + j)"
      unfolding e by (metis bit_drop_bit_eq comp_apply)
    then show ?thesis using Cons Suc by (simp add: add.assoc)
  qed
qed simp

lemma big_loop:
  assumes "tight_pts (nq, nqpq)" and q: "tight5 q" and "i \<le> length n1"
  shows "tight_pts (ladder_bigloop_cmult_big_loop i n1 nq nqpq q)
    \<and> eqm_ladder (lad (ladder_bigloop_cmult_big_loop i n1 nq nqpq q))
        (ladder_bits (val5 q) (le_val n1) (8 * i) (lad (nq, nqpq)))"
  using assms(1,3)
proof (induction i arbitrary: nq nqpq)
  case (Suc i)
  obtain p1 p2 where p: "ladder_smallloop_cmult_small_loop 4 nq nqpq q (n1 ! i) = (p1, p2)" by (cases "ladder_smallloop_cmult_small_loop 4 nq nqpq q (n1 ! i)")
  have "\<forall>j < 2 * 4. bit (n1 ! i) (7 - j) = bit (le_val n1) (2 * 4 + 8 * i - 1 - j)"
  proof (intro allI impI)
    fix j :: nat assume j: "j < 2 * 4"
    then have "2 * 4 + 8 * i - 1 - j = 8 * i + (7 - j)" by simp
    then show "bit (n1 ! i) (7 - j) = bit (le_val n1) (2 * 4 + 8 * i - 1 - j)"
      using bit_le_val [of i n1 "7 - j"] Suc.prems(2) by simp
  qed
  note s = small_loop [OF Suc.prems(1) q order_refl this, unfolded p]
  have e: "ladder_bigloop_cmult_big_loop (Suc i) n1 nq nqpq q = ladder_bigloop_cmult_big_loop i n1 p1 p2 q"
    by (simp add: p)
  have "2 * 4 + 8 * i = 8 * Suc i" by simp
  with s Suc.IH [OF conjunct1 [OF s]] Suc.prems(2) show ?case unfolding e by (auto intro: eqm_ladder_trans)
qed simp

lemma ladder_cmult_correct:
  assumes "tight5 x" "length e = 32" and "ladder_cmult e (x, Five 1 0 0 0 0) = (a, b)"
  shows "tight5 a \<and> tight5 b \<and> (\<exists>r. eqm_ladder (val5 a, val5 b, r) (rfc_ladder 256 (le_val e) (val5 x)))"
proof -
  let ?r = "ladder_bigloop_cmult_big_loop 32 e (Five 1 0 0 0 0, Five 0 0 0 0 0) (x, Five 1 0 0 0 0) x"
  have "tight_pts ((Five 1 0 0 0 0, Five 0 0 0 0 0), (x, Five 1 0 0 0 0))"
    using assms(1) by (simp add: tight5_def)
  from big_loop [OF this assms(1), of 32 e] assms(2)
  have r: "tight_pts ?r" "eqm_ladder (lad ?r) (ladder_bits (val5 x) (le_val e) 256 (1, 0, val5 x, 1))" by simp_all
  obtain c d where "?r = ((a, b), (c, d))" using assms(3) by (cases ?r) (auto simp: ladder_cmult_def)
  with r show ?thesis by (auto simp: rfc_ladder_def rfc_loop_bits)
qed

end
