(* ===== verification/Curve25519_Format.thy ===== *)
theory Curve25519_Format
  imports Curve25519_Key
begin

text \<open>
  Bytes of the 64-bit Curve25519: decoding a coordinate, the constant-time reduction to the
  canonical representative and its encoding.
\<close>

section \<open>Disjoint bits add\<close>

lemma uint_or_push:
  fixes a b :: "'a::len word"
  assumes "uint b < 2 ^ n" "n \<le> LENGTH('a)"
  shows "uint (b OR push_bit n a) = (uint b + uint a * 2 ^ n) mod 2 ^ LENGTH('a)"
    and "uint (push_bit n a OR b) = (uint b + uint a * 2 ^ n) mod 2 ^ LENGTH('a)"
proof -
  have "b AND push_bit n a = 0"
  proof (rule bit_word_eqI)
    fix m
    have "take_bit n b = b"
      using assms(1) by (simp add: word_uint_eq_iff unsigned_take_bit_eq take_bit_int_eq_self)
    then have "\<not> bit b m" if "n \<le> m" using that by (metis bit_take_bit_iff not_le)
    then show "bit (b AND push_bit n a) m = bit (0 :: 'a word) m" by (auto simp: bit_simps)
  qed
  then have "b OR push_bit n a = b + push_bit n a"
    using word_plus_and_or [of b "push_bit n a"] by simp
  moreover have "uint (push_bit n a) = uint a * 2 ^ n mod 2 ^ LENGTH('a)"
    by (simp only: unsigned_push_bit_eq) (simp only: take_bit_eq_mod push_bit_eq_mult)
  ultimately show "uint (b OR push_bit n a) = (uint b + uint a * 2 ^ n) mod 2 ^ LENGTH('a)"
    by (simp only: uint_word_ariths mod_add_right_eq)
  then show "uint (push_bit n a OR b) = (uint b + uint a * 2 ^ n) mod 2 ^ LENGTH('a)"
    by (simp add: or.commute)
qed

lemma rep_or_push:
  fixes a b :: "'a::len word"
  assumes "rep b y B" "rep a x A" "B < 2 ^ n" "n \<le> LENGTH('a)" "B + A * 2 ^ n < 2 ^ LENGTH('a)"
  shows "rep (b OR push_bit n a) (y + x * 2 ^ n) (B + A * 2 ^ n)"
proof -
  have le: "y + x * 2 ^ n \<le> B + A * 2 ^ n" using assms(1,2) by (simp add: rep_def add_mono)
  have "0 \<le> y + x * 2 ^ n" using repD(2) [OF assms(1)] repD(2) [OF assms(2)] by simp
  with le assms show ?thesis using uint_or_push(1) [of b n a] by (simp add: rep_def)
qed

section \<open>Reading a coordinate\<close>

lemma rep_byte: "rep (ucast (b :: u8) :: u64) (int (unat b)) 255"
proof -
  have "rep b (int (unat b)) 255" using uint_lt2p [of b] by (simp add: rep_def)
  then show ?thesis by (rule rep_ucast_up) simp
qed

lemma get_le64:
  assumes "8 \<le> length p"
  shows "uint (get_unaligned_le64 p) = int (le_val (take 8 p))"
proof -
  have "take 8 p = [p ! 0, p ! 1, p ! 2, p ! 3, p ! 4, p ! 5, p ! 6, p ! 7]"
    using assms by (intro nth_equalityI) (auto simp: less_Suc_eq numeral_eq_Suc)
  then have v: "le_val (take 8 p) = unat (p ! 0) + unat (p ! 1) * 2 ^ 8 + unat (p ! 2) * 2 ^ 16 + unat (p ! 3) * 2 ^ 24
      + unat (p ! 4) * 2 ^ 32 + unat (p ! 5) * 2 ^ 40 + unat (p ! 6) * 2 ^ 48 + unat (p ! 7) * 2 ^ 56"
    by simp
  have "rep (get_unaligned_le64 p) (int (unat (p ! 0)) + int (unat (p ! 1)) * 2 ^ 8 + int (unat (p ! 2)) * 2 ^ 16
      + int (unat (p ! 3)) * 2 ^ 24 + int (unat (p ! 4)) * 2 ^ 32 + int (unat (p ! 5)) * 2 ^ 40
      + int (unat (p ! 6)) * 2 ^ 48 + int (unat (p ! 7)) * 2 ^ 56) (2 ^ 64 - 1)"
    unfolding get_unaligned_le64_def
    by (rule rep_mono, (rule rep_or_push rep_byte | simp)+)
  then show ?thesis unfolding v by (simp add: rep_def)
qed

lemma le_val_drop_take: "le_val (take n (drop k bs)) = le_val bs div 256 ^ k mod 256 ^ n"
proof -
  have drop: "le_val (drop k bs) = le_val bs div 256 ^ k" for k bs
  proof (induction k arbitrary: bs)
    case (Suc k)
    then show ?case by (cases bs) (simp_all add: div_mult2_eq)
  qed simp
  have take: "le_val (take n bs) = le_val bs mod 256 ^ n" for n bs
  proof (induction n arbitrary: bs)
    case (Suc n)
    then show ?case by (cases bs) (simp_all add: mod_mult2_eq)
  qed simp
  show ?thesis by (simp add: drop take)
qed

lemma limb_of_word:
  fixes w :: u64
  assumes "uint w = v div 2 ^ k mod 2 ^ 64" "s \<le> 13"
  shows "uint (drop_bit s w AND 0x7ffffffffffff) = v div 2 ^ (k + s) mod 2 ^ 51"
proof -
  have "uint (drop_bit s w AND 0x7ffffffffffff) = uint w div 2 ^ s mod 2 ^ 51"
    using rep_mask51 [OF rep_drop [OF rep_uint [OF order_refl]], of s w] by (simp add: rep_def)
  also have "\<dots> = take_bit 51 (drop_bit s (take_bit 64 (drop_bit k v)))"
    by (simp only: assms(1) take_bit_eq_mod drop_bit_eq_div)
  also have "\<dots> = take_bit 51 (drop_bit (k + s) v)"
  proof -
    have "51 \<le> 64 - s" using assms(2) by simp
    then show ?thesis by (simp add: drop_bit_take_bit min_def add.commute)
  qed
  finally show ?thesis by (simp only: take_bit_eq_mod drop_bit_eq_div)
qed

lemma fexpand_correct:
  assumes "length bs = 32"
  shows "tight5 (format_fexpand bs)" and "val5 (format_fexpand bs) = rfc_decode_u bs"
proof -
  let ?v = "int (le_val bs)"
  have w: "uint (get_unaligned_le64 (drop k bs)) = ?v div 2 ^ (8 * k) mod 2 ^ 64" if "k \<le> 24" for k
    using get_le64 [of "drop k bs"] that assms
    by (simp add: le_val_drop_take zdiv_int zmod_int power_mult)
  have L: "uint (drop_bit j (get_unaligned_le64 (drop k bs)) AND 0x7ffffffffffff) = ?v div 2 ^ i mod 2 ^ 51"
    if "k \<le> 24" "j \<le> 13" "i = 8 * k + j" for i j k
    using limb_of_word [OF w [OF that(1)] that(2)] by (simp only: that(3))
  have l: "uint (get_unaligned_le64 bs AND 0x7ffffffffffff) = ?v mod 2 ^ 51"
    "uint (drop_bit 3 (get_unaligned_le64 (drop 6 bs)) AND 0x7ffffffffffff) = ?v div 2 ^ 51 mod 2 ^ 51"
    "uint (drop_bit 6 (get_unaligned_le64 (drop 12 bs)) AND 0x7ffffffffffff) = ?v div 2 ^ 102 mod 2 ^ 51"
    "uint (drop_bit 1 (get_unaligned_le64 (drop 19 bs)) AND 0x7ffffffffffff) = ?v div 2 ^ 153 mod 2 ^ 51"
    "uint (drop_bit 12 (get_unaligned_le64 (drop 24 bs)) AND 0x7ffffffffffff) = ?v div 2 ^ 204 mod 2 ^ 51"
    by (rule L [of 0 0 0, unfolded drop_bit_0 drop_0 id_apply power_0 div_by_1] L; simp)+
  have b: "x mod 2 ^ 51 \<le> 2 ^ 51 + 2 ^ 26" for x :: int
    using pos_mod_bound [of "2 ^ 51" x] by simp
  show "tight5 (format_fexpand bs)"
    unfolding tight5_def format_fexpand_def Let_def limbs_le.simps l by (intro conjI b)
  have s: "x div 2 ^ j mod 2 ^ m = x div 2 ^ j mod 2 ^ 51 + 2 ^ 51 * (x div 2 ^ i mod 2 ^ n)"
    if "i = j + 51" "m = 51 + n" for x :: int and i j m n
  proof -
    have "x div 2 ^ j mod (2 ^ 51 * 2 ^ n) = 2 ^ 51 * (x div 2 ^ j div 2 ^ 51 mod 2 ^ n) + x div 2 ^ j mod 2 ^ 51"
      by (rule zmod_zmult2_eq) simp
    moreover have "x div (2 ^ j * 2 ^ 51) = x div 2 ^ j div 2 ^ 51" by (rule zdiv_zmult2_eq) simp
    ultimately show ?thesis unfolding power_add that by (simp only: add.commute)
  qed
  have x: "?v div 2 ^ 0 mod 2 ^ 255 = ?v div 2 ^ 0 mod 2 ^ 51 + 2 ^ 51 * (?v div 2 ^ 51 mod 2 ^ 204)"
    "?v div 2 ^ 51 mod 2 ^ 204 = ?v div 2 ^ 51 mod 2 ^ 51 + 2 ^ 51 * (?v div 2 ^ 102 mod 2 ^ 153)"
    "?v div 2 ^ 102 mod 2 ^ 153 = ?v div 2 ^ 102 mod 2 ^ 51 + 2 ^ 51 * (?v div 2 ^ 153 mod 2 ^ 102)"
    "?v div 2 ^ 153 mod 2 ^ 102 = ?v div 2 ^ 153 mod 2 ^ 51 + 2 ^ 51 * (?v div 2 ^ 204 mod 2 ^ 51)"
    by (rule s; simp)+
  have lin: "a = m0 + 2 ^ 51 * b \<Longrightarrow> b = m1 + 2 ^ 51 * c \<Longrightarrow> c = m2 + 2 ^ 51 * d \<Longrightarrow> d = m3 + 2 ^ 51 * m4
      \<Longrightarrow> a = m0 + 2 ^ 51 * m1 + 2 ^ 102 * m2 + 2 ^ 153 * m3 + 2 ^ 204 * m4" for a b c d m0 m1 m2 m3 m4 :: int
    by simp
  have "?v mod 2 ^ 255 = ?v mod 2 ^ 51 + 2 ^ 51 * (?v div 2 ^ 51 mod 2 ^ 51) + 2 ^ 102 * (?v div 2 ^ 102 mod 2 ^ 51)
      + 2 ^ 153 * (?v div 2 ^ 153 mod 2 ^ 51) + 2 ^ 204 * (?v div 2 ^ 204 mod 2 ^ 51)"
    by (rule lin [OF x [unfolded power_0 div_by_1]])
  then show "val5 (format_fexpand bs) = rfc_decode_u bs"
    unfolding format_fexpand_def Let_def val5.simps l rfc_decode_u_def zmod_int of_nat_power of_nat_numeral by (rule sym)
qed

section \<open>The masks\<close>

lemma drop_bit_63: "drop_bit 63 (y :: u64) = of_bool (bit y 63)"
proof (rule bit_word_eqI)
  fix n assume "n < LENGTH(64)"
  then show "bit (drop_bit 63 y) n = bit (of_bool (bit y 63) :: u64) n"
    using bit_imp_le_length [of y "63 + n"] by (cases n) (auto simp: bit_simps)
qed

lemma bit_63: "bit (y :: u64) 63 \<longleftrightarrow> 2 ^ 63 \<le> uint y"
proof -
  have "uint (drop_bit 63 y) = uint y div 2 ^ 63"
    using rep_drop [OF rep_uint [OF order_refl], of 63 y] by (simp only: rep_def)
  then have d: "of_bool (bit y 63) = uint y div 2 ^ 63" by (cases "bit y 63") (simp_all add: drop_bit_63)
  show ?thesis
  proof (cases "bit y 63")
    case True
    then have "uint y div 2 ^ 63 = 1" using d by simp
    with True show ?thesis using div_pos_pos_trivial [of "uint y" "2 ^ 63"] uint_ge_0 [of y] by linarith
  next
    case False
    then have "uint y div 2 ^ 63 = 0" using d by simp
    with False show ?thesis using uint_ge_0 [of y] by (auto simp: div_eq_0_iff)
  qed
qed

lemma eq_mask: "u64_eq_mask a b = (if a = b then - 1 else 0)"
proof -
  let ?x = "a XOR b"
  have x: "?x = 0 \<longleftrightarrow> a = b" 
  proof
    assume "?x = 0"
    then have "(a XOR b) XOR b = 0 XOR b" by simp
    then show "a = b" by (simp only: xor.assoc xor_self_eq xor.right_neutral xor.left_neutral)
  qed simp
  have "bit (?x OR (NOT ?x + 1)) 63 \<longleftrightarrow> ?x \<noteq> 0"
  proof -
    have m: "NOT ?x + 1 = - ?x" by (simp add: not_eq_complement)
    have "uint (- ?x) = 2 ^ 64 - uint ?x" if "?x \<noteq> 0"
      using that uint_sub_if' [of 0 ?x] uint_ge_0 [of ?x] by (auto simp: uint_0_iff order_le_less)
    then have "2 ^ 63 \<le> uint ?x \<or> 2 ^ 63 \<le> uint (- ?x)" if "?x \<noteq> 0" using that by auto
    then show ?thesis unfolding bit_or_iff m unfolding bit_63 by auto
  qed
  then show ?thesis using x by (simp add: u64_eq_mask_def Let_def drop_bit_63)
qed

lemma gte_mask:
  assumes "uint a < 2 ^ 63" "uint b < 2 ^ 63"
  shows "u64_gte_mask a b = (if uint b \<le> uint a then - 1 else 0)"
proof -
  have ab: "\<not> bit a 63" "\<not> bit b 63" using assms by (simp_all add: bit_63)
  have "bit (a XOR ((a XOR b) OR ((a - b) XOR b))) 63 \<longleftrightarrow> bit (a - b) 63" using ab by (simp add: bit_simps)
  moreover have "bit (a - b) 63 \<longleftrightarrow> uint a < uint b"
  proof (cases "uint b \<le> uint a")
    case True
    then have "uint (a - b) = uint a - uint b" by (intro uint_sub_lem [THEN iffD1])
    with True assms uint_ge_0 [of b] show ?thesis unfolding bit_63 by (intro iffI; linarith)
  next
    case False
    then have "uint (a - b) = uint a - uint b + 2 ^ 64"
      using assms uint_ge_0 [of a] uint_ge_0 [of b] by (simp add: uint_sub_if')
    moreover have "(2 :: int) ^ 64 = 2 ^ 63 + 2 ^ 63" by simp
    ultimately show ?thesis using False assms uint_ge_0 [of a] unfolding bit_63 by (intro iffI; linarith)
  qed
  ultimately show ?thesis by (simp add: u64_gte_mask_def Let_def drop_bit_63)
qed

section \<open>The canonical representative\<close>

lemma carry_step:
  fixes t t' :: u64
  assumes "uint t \<le> 2 ^ 52" "uint t' \<le> 2 ^ 52"
  shows "uint (t' + drop_bit 51 t) = uint t' + uint t div 2 ^ 51"
    and "uint (t AND 0x7ffffffffffff) = uint t mod 2 ^ 51"
  using rep_add [OF rep_uint [OF assms(2)] rep_drop [OF rep_uint [OF assms(1)]], of 51]
    rep_mask51 [OF rep_uint [OF assms(1)]] by (simp_all add: rep_def)

text \<open>A carry pass on the integers of the limbs: the sums \<open>s\<close>, quotients \<open>d\<close> and
  remainders \<open>m\<close>.\<close>

lemma carry_pass:
  fixes t0 :: u64
  assumes "uint t0 \<le> 2 ^ 51 + 2 ^ 26" "uint t1 \<le> 2 ^ 51 + 2 ^ 26" "uint t2 \<le> 2 ^ 51 + 2 ^ 26"
    "uint t3 \<le> 2 ^ 51 + 2 ^ 26" "uint t4 \<le> 2 ^ 51 + 2 ^ 26"
  shows "\<exists>u0 u1 u2 u3 u4 d0 d1 d2 d3. format_fcontract_first_carry_pass (Five t0 t1 t2 t3 t4) = Five u0 u1 u2 u3 u4
    \<and> uint t0 = 2 ^ 51 * d0 + uint u0 \<and> uint t1 + d0 = 2 ^ 51 * d1 + uint u1 \<and> uint t2 + d1 = 2 ^ 51 * d2 + uint u2
    \<and> uint t3 + d2 = 2 ^ 51 * d3 + uint u3 \<and> uint u4 = uint t4 + d3
    \<and> uint u0 < 2 ^ 51 \<and> uint u1 < 2 ^ 51 \<and> uint u2 < 2 ^ 51 \<and> uint u3 < 2 ^ 51 \<and> 0 \<le> d0 \<and> d3 \<le> 1"
proof -
  define s1 where "s1 = t1 + drop_bit 51 t0"
  define s2 where "s2 = t2 + drop_bit 51 s1"
  define s3 where "s3 = t3 + drop_bit 51 s2"
  have w: "x \<le> 2 ^ 51 + 2 ^ 26 \<Longrightarrow> x \<le> 2 ^ 52" for x :: int by simp
  have b: "uint (t' + drop_bit 51 t) \<le> 2 ^ 51 + 2 ^ 26 + 1 \<and> uint t div 2 ^ 51 \<le> 1"
    if "uint (t' + drop_bit 51 t) = uint t' + uint t div 2 ^ 51" "uint t \<le> 2 ^ 51 + 2 ^ 26 + 1" "uint t' \<le> 2 ^ 51 + 2 ^ 26"
    for t t' :: u64
  proof -
    have "uint t div 2 ^ 51 \<le> (2 ^ 51 + 2 ^ 26 + 1) div 2 ^ 51" by (rule zdiv_mono1 [OF that(2)]) simp
    then show ?thesis using that(1,3) by simp
  qed
  have w': "x \<le> 2 ^ 51 + 2 ^ 26 + 1 \<Longrightarrow> x \<le> 2 ^ 52" for x :: int by simp
  have w1: "x \<le> 2 ^ 51 + 2 ^ 26 \<Longrightarrow> x \<le> 2 ^ 51 + 2 ^ 26 + 1" for x :: int by simp
  note e1 = carry_step [OF w [OF assms(1)] w [OF assms(2)], folded s1_def]
  note b1 = b [of t1 t0, folded s1_def, OF e1(1) w1 [OF assms(1)] assms(2)]
  note e2 = carry_step [OF w' [OF conjunct1 [OF b1]] w [OF assms(3)], folded s2_def]
  note b2 = b [of t2 s1, folded s2_def, OF e2(1) conjunct1 [OF b1] assms(3)]
  note e3 = carry_step [OF w' [OF conjunct1 [OF b2]] w [OF assms(4)], folded s3_def]
  note b3 = b [of t3 s2, folded s3_def, OF e3(1) conjunct1 [OF b2] assms(4)]
  note e4 = carry_step [OF w' [OF conjunct1 [OF b3]] w [OF assms(5)]]
  note b4 = b [OF e4(1) conjunct1 [OF b3] assms(5)]
  have eq: "format_fcontract_first_carry_pass (Five t0 t1 t2 t3 t4) = Five (t0 AND 0x7ffffffffffff) (s1 AND 0x7ffffffffffff)
      (s2 AND 0x7ffffffffffff) (s3 AND 0x7ffffffffffff) (t4 + drop_bit 51 s3)"
    by (simp only: format_fcontract_first_carry_pass.simps Let_def s1_def s2_def s3_def)
  have m: "x = 2 ^ 51 * (x div 2 ^ 51) + x mod 2 ^ 51" for x :: int by (simp only: mult_div_mod_eq)
  show ?thesis
    unfolding eq five.inject
  proof (intro exI conjI)
    show "uint t0 = 2 ^ 51 * (uint t0 div 2 ^ 51) + uint (t0 AND 0x7ffffffffffff)" unfolding e1(2) by (rule m)
    show "uint t1 + uint t0 div 2 ^ 51 = 2 ^ 51 * (uint s1 div 2 ^ 51) + uint (s1 AND 0x7ffffffffffff)"
      unfolding e2(2) e1(1) [symmetric] by (rule m)
    show "uint t2 + uint s1 div 2 ^ 51 = 2 ^ 51 * (uint s2 div 2 ^ 51) + uint (s2 AND 0x7ffffffffffff)"
      unfolding e3(2) e2(1) [symmetric] by (rule m)
    show "uint t3 + uint s2 div 2 ^ 51 = 2 ^ 51 * (uint s3 div 2 ^ 51) + uint (s3 AND 0x7ffffffffffff)"
      unfolding e4(2) e3(1) [symmetric] by (rule m)
    show "uint (t4 + drop_bit 51 s3) = uint t4 + uint s3 div 2 ^ 51" by (rule e4(1))
  qed (use b4 in \<open>simp_all add: e1(2) e2(2) e3(2) e4(2) pos_imp_zdiv_nonneg_iff\<close>)
qed

lemma passes_eq: "format_fcontract_second_carry_pass = format_fcontract_first_carry_pass"
proof
  show "format_fcontract_second_carry_pass x = format_fcontract_first_carry_pass x" for x by (cases x) simp
qed

lemma carry_top:
  fixes u0 :: u64
  assumes "uint u0 < 2 ^ 51" "uint u4 \<le> 2 ^ 52"
  shows "uint (u0 + 19 * drop_bit 51 u4) = uint u0 + 19 * (uint u4 div 2 ^ 51)"
    and "uint (u4 AND 0x7ffffffffffff) = uint u4 mod 2 ^ 51"
  using rep_add [OF rep_uint [OF less_imp_le [OF assms(1)]] rep_mult [OF rep_numeral [of "num.Bit1 (num.Bit1 (num.Bit0 (num.Bit0 num.One)))"] rep_drop [OF rep_uint [OF assms(2)]]], of 51]
    rep_mask51 [OF rep_uint [OF assms(2)]] by (simp_all add: rep_def)

lemma first_full:
  assumes "tight5 a"
  shows "\<exists>v0 v1 v2 v3 v4. format_fcontract_first_carry_full a = Five v0 v1 v2 v3 v4
    \<and> uint v0 < 2 ^ 51 + 19 \<and> uint v1 < 2 ^ 51 \<and> uint v2 < 2 ^ 51 \<and> uint v3 < 2 ^ 51 \<and> uint v4 < 2 ^ 51
    \<and> eqm (val5 (Five v0 v1 v2 v3 v4)) (val5 a)"
proof -
  obtain t0 t1 t2 t3 t4 where a: "a = Five t0 t1 t2 t3 t4" by (cases a)
  have b: "uint t0 \<le> 2 ^ 51 + 2 ^ 26" "uint t1 \<le> 2 ^ 51 + 2 ^ 26" "uint t2 \<le> 2 ^ 51 + 2 ^ 26"
    "uint t3 \<le> 2 ^ 51 + 2 ^ 26" "uint t4 \<le> 2 ^ 51 + 2 ^ 26" using assms by (simp_all add: tight5_def a)
  from carry_pass [OF b] obtain u0 u1 u2 u3 u4 d0 d1 d2 d3
    where p: "format_fcontract_first_carry_pass (Five t0 t1 t2 t3 t4) = Five u0 u1 u2 u3 u4"
      and u: "uint t0 = 2 ^ 51 * d0 + uint u0" "uint t1 + d0 = 2 ^ 51 * d1 + uint u1" "uint t2 + d1 = 2 ^ 51 * d2 + uint u2"
        "uint t3 + d2 = 2 ^ 51 * d3 + uint u3" "uint u4 = uint t4 + d3"
      and l: "uint u0 < 2 ^ 51" "uint u1 < 2 ^ 51" "uint u2 < 2 ^ 51" "uint u3 < 2 ^ 51" "d3 \<le> 1"
    by blast
  have u4: "uint u4 \<le> 2 ^ 52" using u(5) l(5) b(5) by simp
  note t = carry_top [OF l(1) u4]
  have f: "format_fcontract_first_carry_full a = Five (u0 + 19 * drop_bit 51 u4) u1 u2 u3 (u4 AND 0x7ffffffffffff)"
    by (simp only: format_fcontract_first_carry_full_def a p modulo_carry_top.simps)
  obtain d m where e: "uint u4 div 2 ^ 51 = d" "uint u4 mod 2 ^ 51 = m" "uint u4 = 2 ^ 51 * d + m" by (rule split_limb)
  have m: "0 \<le> m" "m < 2 ^ 51" unfolding e(2) [symmetric] by simp_all
  have d: "d \<le> 1" using e(3) m(1) u(5) l(5) b(5) by simp
  have "uint t1 = 2 ^ 51 * d1 + uint u1 - d0" "uint t2 = 2 ^ 51 * d2 + uint u2 - d1" "uint t3 = 2 ^ 51 * d3 + uint u3 - d2"
    "uint t4 = 2 ^ 51 * d + m - d3" using u e(3) by linarith+
  then have "val5 a = val5 (Five (u0 + 19 * drop_bit 51 u4) u1 u2 u3 (u4 AND 0x7ffffffffffff)) + p25519 * d"
    unfolding a val5.simps t e(1,2) by (simp add: u(1) p25519_def algebra_simps)
  then have "eqm (val5 (Five (u0 + 19 * drop_bit 51 u4) u1 u2 u3 (u4 AND 0x7ffffffffffff))) (val5 a)"
    by (intro eqm_sym [OF eqm_multiple])
  moreover have "uint (u0 + 19 * drop_bit 51 u4) < 2 ^ 51 + 19" "uint (u4 AND 0x7ffffffffffff) < 2 ^ 51"
    unfolding t e(1,2) using l(1) d m by simp_all
  ultimately show ?thesis unfolding f using l by blast
qed

text \<open>The second pass leaves every limb below \<open>2 ^ 51\<close>: when the top overflows, all carries
  below it were made, so the lowest limb is small.\<close>

lemma carry_needs_carry:
  fixes u v d d' :: int
  assumes "1 \<le> d'" "v + d = 2 ^ 51 * d' + u" "v < 2 ^ 51" "0 \<le> u"
  shows "1 \<le> d"
proof -
  have "2 ^ 51 * 1 \<le> 2 ^ 51 * d'" using assms(1) by (intro mult_left_mono) simp_all
  with assms show ?thesis by linarith
qed

lemma second_full:
  fixes v0 :: u64
  assumes v: "uint v0 < 2 ^ 51 + 19" "uint v1 < 2 ^ 51" "uint v2 < 2 ^ 51" "uint v3 < 2 ^ 51" "uint v4 < 2 ^ 51"
  shows "\<exists>w0 w1 w2 w3 w4. format_fcontract_second_carry_full (Five v0 v1 v2 v3 v4) = Five w0 w1 w2 w3 w4
    \<and> uint w0 < 2 ^ 51 \<and> uint w1 < 2 ^ 51 \<and> uint w2 < 2 ^ 51 \<and> uint w3 < 2 ^ 51 \<and> uint w4 < 2 ^ 51
    \<and> eqm (val5 (Five w0 w1 w2 w3 w4)) (val5 (Five v0 v1 v2 v3 v4))"
proof -
  have b: "uint v0 \<le> 2 ^ 51 + 2 ^ 26" "uint v1 \<le> 2 ^ 51 + 2 ^ 26" "uint v2 \<le> 2 ^ 51 + 2 ^ 26"
    "uint v3 \<le> 2 ^ 51 + 2 ^ 26" "uint v4 \<le> 2 ^ 51 + 2 ^ 26" using v by simp_all
  from carry_pass [OF b] obtain u0 u1 u2 u3 u4 d0 d1 d2 d3
    where p: "format_fcontract_first_carry_pass (Five v0 v1 v2 v3 v4) = Five u0 u1 u2 u3 u4"
      and u: "uint v0 = 2 ^ 51 * d0 + uint u0" "uint v1 + d0 = 2 ^ 51 * d1 + uint u1" "uint v2 + d1 = 2 ^ 51 * d2 + uint u2"
        "uint v3 + d2 = 2 ^ 51 * d3 + uint u3" "uint u4 = uint v4 + d3"
      and l: "uint u0 < 2 ^ 51" "uint u1 < 2 ^ 51" "uint u2 < 2 ^ 51" "uint u3 < 2 ^ 51" "d3 \<le> 1"
    by blast
  have u4: "uint u4 \<le> 2 ^ 52" using u(5) l(5) v(5) by simp
  note t = carry_top [OF l(1) u4]
  obtain d m where e: "uint u4 div 2 ^ 51 = d" "uint u4 mod 2 ^ 51 = m" "uint u4 = 2 ^ 51 * d + m" by (rule split_limb)
  have m: "0 \<le> m" "m < 2 ^ 51" unfolding e(2) [symmetric] by simp_all
  have d: "d \<le> 1" "0 \<le> d" using e(3) m u(5) l(5) v(5) uint_ge_0 [of u4] by simp_all
  have x0: "uint u0 + 19 * d < 2 ^ 51"
  proof (cases "d = 0")
    case False
    with d have "d = 1" by simp
    then have "1 \<le> d3" using e(3) m(1) u(5) v(5) by simp
    then have "1 \<le> d2" by (rule carry_needs_carry [OF _ u(4) v(4)]) simp
    then have "1 \<le> d1" by (rule carry_needs_carry [OF _ u(3) v(3)]) simp
    then have "1 \<le> d0" by (rule carry_needs_carry [OF _ u(2) v(2)]) simp
    then have "uint u0 < 19" using u(1) v(1) by simp
    with \<open>d = 1\<close> show ?thesis by simp
  qed (use l(1) in simp)
  let ?x0 = "u0 + 19 * drop_bit 51 u4" and ?x4 = "u4 AND 0x7ffffffffffff"
  have x: "uint ?x0 = uint u0 + 19 * d" "uint ?x4 = m" unfolding t e(1,2) by simp_all
  have "uint ?x0 \<le> 2 ^ 52" "uint u1 \<le> 2 ^ 52" using x0 l(2) unfolding x by simp_all
  from carry_step [OF this] x0 have c: "uint (u1 + drop_bit 51 ?x0) = uint u1" "uint (?x0 AND 0x7ffffffffffff) = uint u0 + 19 * d"
    using uint_ge_0 [of u0] d(2) unfolding x by simp_all
  have f: "format_fcontract_second_carry_full (Five v0 v1 v2 v3 v4)
      = Five (?x0 AND 0x7ffffffffffff) (u1 + drop_bit 51 ?x0) u2 u3 ?x4"
    by (simp only: format_fcontract_second_carry_full_def passes_eq p modulo_carry_top.simps carry_low.simps)
  have "uint v1 = 2 ^ 51 * d1 + uint u1 - d0" "uint v2 = 2 ^ 51 * d2 + uint u2 - d1" "uint v3 = 2 ^ 51 * d3 + uint u3 - d2"
    "uint v4 = 2 ^ 51 * d + m - d3" using u e(3) by linarith+
  then have "val5 (Five v0 v1 v2 v3 v4) = val5 (Five (?x0 AND 0x7ffffffffffff) (u1 + drop_bit 51 ?x0) u2 u3 ?x4) + p25519 * d"
    unfolding val5.simps c x by (simp add: u(1) p25519_def algebra_simps)
  then have v: "eqm (val5 (Five (?x0 AND 0x7ffffffffffff) (u1 + drop_bit 51 ?x0) u2 u3 ?x4)) (val5 (Five v0 v1 v2 v3 v4))"
    by (intro eqm_sym [OF eqm_multiple])
  have "uint (?x0 AND 0x7ffffffffffff) < 2 ^ 51" "uint (u1 + drop_bit 51 ?x0) < 2 ^ 51" "uint ?x4 < 2 ^ 51"
    unfolding c x by (rule x0 l m)+
  with v l show ?thesis unfolding f by blast
qed

lemma trim_correct:
  fixes w0 :: u64
  assumes w: "uint w0 < 2 ^ 51" "uint w1 < 2 ^ 51" "uint w2 < 2 ^ 51" "uint w3 < 2 ^ 51" "uint w4 < 2 ^ 51"
  shows "limbs_le (2 ^ 51 - 1) (format_fcontract_trim (Five w0 w1 w2 w3 w4))"
    and "val5 (format_fcontract_trim (Five w0 w1 w2 w3 w4)) = val5 (Five w0 w1 w2 w3 w4) mod p25519"
proof -
  let ?full = "0x7ffffffffffff :: u64"
  have f: "uint ?full = 2 ^ 51 - 1" "uint (0x7ffffffffffed :: u64) = 2 ^ 51 - 19" by simp_all
  have g: "u64_gte_mask w0 0x7ffffffffffed = (if 2 ^ 51 - 19 \<le> uint w0 then - 1 else 0)"
    by (subst gte_mask) (use w in simp_all)
  let ?all = "2 ^ 51 - 19 \<le> uint w0 \<and> w1 = ?full \<and> w2 = ?full \<and> w3 = ?full \<and> w4 = ?full"
  have nn: "0 \<le> uint w0" "0 \<le> uint w1" "0 \<le> uint w2" "0 \<le> uint w3" "0 \<le> uint w4" by simp_all
  have "limbs_le (2 ^ 51 - 1) (format_fcontract_trim (Five w0 w1 w2 w3 w4))
    \<and> val5 (format_fcontract_trim (Five w0 w1 w2 w3 w4)) = val5 (Five w0 w1 w2 w3 w4) mod p25519"
  proof (cases ?all)
    case True
    have r: "format_fcontract_trim (Five w0 w1 w2 w3 w4) = Five (w0 - 0x7ffffffffffed) 0 0 0 0"
      using True by (simp add: Let_def g eq_mask)
    have s: "uint (w0 - 0x7ffffffffffed) = uint w0 - (2 ^ 51 - 19)"
      using True uint_sub_lem [of "0x7ffffffffffed" w0] by simp
    have "val5 (Five w0 w1 w2 w3 w4) = (uint w0 - (2 ^ 51 - 19)) + p25519" using True by (simp add: p25519_def)
    moreover have "(uint w0 - (2 ^ 51 - 19) + p25519) mod p25519 = uint w0 - (2 ^ 51 - 19)"
      unfolding mod_add_self2 by (rule mod_pos_pos_trivial) (use True w(1) in \<open>simp_all add: p25519_def\<close>)
    ultimately have v: "val5 (Five w0 w1 w2 w3 w4) mod p25519 = uint w0 - (2 ^ 51 - 19)" by (simp only:)
    have "val5 (Five (w0 - 0x7ffffffffffed) 0 0 0 0) = uint w0 - (2 ^ 51 - 19)" by (simp add: s)
    moreover have "limbs_le (2 ^ 51 - 1) (Five (w0 - 0x7ffffffffffed) 0 0 0 0)" using w(1) by (simp add: s)
    ultimately show ?thesis unfolding r v by blast
  next
    case False
    have r: "format_fcontract_trim (Five w0 w1 w2 w3 w4) = Five w0 w1 w2 w3 w4"
      using False by (auto simp: Let_def g eq_mask)
    have "val5 (Five w0 w1 w2 w3 w4) < p25519"
    proof -
      have "w = ?full" if "uint w = 2 ^ 51 - 1" for w :: u64
        using that f(1) by (simp add: word_uint_eq_iff)
      with False w consider "uint w0 < 2 ^ 51 - 19" | "uint w1 < 2 ^ 51 - 1" | "uint w2 < 2 ^ 51 - 1"
        | "uint w3 < 2 ^ 51 - 1" | "uint w4 < 2 ^ 51 - 1" by force
      then show ?thesis using w nn unfolding p25519_def val5.simps by cases simp_all
    qed
    moreover have "0 \<le> val5 (Five w0 w1 w2 w3 w4)" using nn by simp
    ultimately show ?thesis unfolding r using w by simp
  qed
  then show "limbs_le (2 ^ 51 - 1) (format_fcontract_trim (Five w0 w1 w2 w3 w4))"
    and "val5 (format_fcontract_trim (Five w0 w1 w2 w3 w4)) = val5 (Five w0 w1 w2 w3 w4) mod p25519" by blast+
qed

section \<open>The encoding\<close>

lemma le_bytes_map: "le_bytes k n = map (\<lambda>i. word_of_nat (n div 256 ^ i)) [0..<k]"
proof (induction k arbitrary: n)
  case (Suc k)
  have "word_of_nat (n mod 256) = (word_of_nat n :: u8)"
    by (rule word_unat_eq_iff [THEN iffD2]) (simp add: unat_u8_of_nat)
  then show ?case
    by (simp add: Suc div_mult2_eq comp_def map_upt_Suc del: upt_Suc)
qed simp

lemma le_bytes_split: "le_bytes (a + b) n = le_bytes a n @ le_bytes b (n div 256 ^ a)"
proof (induction a arbitrary: n)
  case (Suc a)
  then show ?case by (simp add: div_mult2_eq)
qed simp

lemma le_bytes_mod: "le_bytes k (n mod 256 ^ k) = le_bytes k n"
proof -
  have "le_bytes k (le_val (le_bytes k n)) = le_bytes k n" by (rule le_bytes_le_val) simp
  then show ?thesis by (simp only: le_val_le_bytes)
qed

lemma put_le64: "put_unaligned_le64 v = le_bytes 8 (unat v)"
proof -
  have "ucast (drop_bit k v) = (word_of_nat (unat v div 2 ^ k) :: u8)" for k
  proof -
    have "unat (drop_bit k v) = unat v div 2 ^ k"
    proof -
      have "unat v < 2 ^ 64" using unsigned_less [of v, where 'a = nat] by simp
      then have "take_bit 64 (unat v) = unat v" by (simp add: take_bit_nat_eq_self)
      then show ?thesis unfolding unsigned_drop_bit_eq by (simp add: drop_bit_eq_div)
    qed
    then show ?thesis by (metis of_nat_unat)
  qed
  from this [of 0] this [of 8] this [of 16] this [of 24] this [of 32] this [of 40] this [of 48] this [of 56]
  show ?thesis
    unfolding put_unaligned_le64_def le_bytes_map by (simp add: upt_rec)
qed

lemma store_correct:
  assumes "limbs_le (2 ^ 51 - 1) (Five t0 t1 t2 t3 t4)"
  shows "format_fcontract_store (Five t0 t1 t2 t3 t4) = le_bytes 32 (nat (val5 (Five t0 t1 t2 t3 t4)))"
proof -
  have t: "uint t0 < 2 ^ 51" "uint t1 < 2 ^ 51" "uint t2 < 2 ^ 51" "uint t3 < 2 ^ 51" using assms by simp_all
  have dr: "uint (drop_bit k w) = uint w div 2 ^ k" for k and w :: u64
    using rep_drop [OF rep_uint [OF order_refl], of k w] by (simp only: rep_def)
  have dv: "(x + 2 ^ 64 * y) div 2 ^ 64 = y" "(x + 2 ^ 64 * y) mod 2 ^ 64 = x" if "0 \<le> x" "x < 2 ^ 64" for x y :: int
    using that by simp_all
  obtain q1 r1 where 1: "uint t1 div 2 ^ 13 = q1" "uint t1 mod 2 ^ 13 = r1" "uint t1 = 2 ^ 13 * q1 + r1" by (rule split_limb)
  obtain q2 r2 where 2: "uint t2 div 2 ^ 26 = q2" "uint t2 mod 2 ^ 26 = r2" "uint t2 = 2 ^ 26 * q2 + r2" by (rule split_limb)
  obtain q3 r3 where 3: "uint t3 div 2 ^ 39 = q3" "uint t3 mod 2 ^ 39 = r3" "uint t3 = 2 ^ 39 * q3 + r3" by (rule split_limb)
  have r: "0 \<le> r1" "r1 < 2 ^ 13" "0 \<le> r2" "r2 < 2 ^ 26" "0 \<le> r3" "r3 < 2 ^ 39"
    unfolding 1(2) [symmetric] 2(2) [symmetric] 3(2) [symmetric] by simp_all
  have q: "0 \<le> q1" "q1 < 2 ^ 38" "0 \<le> q2" "q2 < 2 ^ 25" "0 \<le> q3" "q3 < 2 ^ 12"
    using r t(2-4) 1(3) 2(3) 3(3) uint_ge_0 [of t1] uint_ge_0 [of t2] uint_ge_0 [of t3] by simp_all
  let ?V = "val5 (Five t0 t1 t2 t3 t4)"
  define X1 where "X1 = q1 + 2 ^ 38 * r2 + 2 ^ 64 * (q2 + 2 ^ 25 * r3 + 2 ^ 64 * (q3 + 2 ^ 12 * uint t4))"
  define X2 where "X2 = q2 + 2 ^ 25 * r3 + 2 ^ 64 * (q3 + 2 ^ 12 * uint t4)"
  define X3 where "X3 = q3 + 2 ^ 12 * uint t4"
  have V: "?V = uint t0 + 2 ^ 51 * r1 + 2 ^ 64 * X1" "X1 = q1 + 2 ^ 38 * r2 + 2 ^ 64 * X2" "X2 = q2 + 2 ^ 25 * r3 + 2 ^ 64 * X3"
    unfolding X1_def X2_def X3_def val5.simps 1(3) 2(3) 3(3) by simp_all
  have lt: "uint t0 + 2 ^ 51 * r1 < 2 ^ 64" "q1 + 2 ^ 38 * r2 < 2 ^ 64" "q2 + 2 ^ 25 * r3 < 2 ^ 64" using t q r by simp_all
  have nn: "0 \<le> uint t0 + 2 ^ 51 * r1" "0 \<le> q1 + 2 ^ 38 * r2" "0 \<le> q2 + 2 ^ 25 * r3" using q r by simp_all
  have w: "uint (push_bit 51 t1 OR t0) = ?V mod 2 ^ 64" "uint (push_bit 38 t2 OR drop_bit 13 t1) = X1 mod 2 ^ 64"
    "uint (push_bit 25 t3 OR drop_bit 26 t2) = X2 mod 2 ^ 64" "uint (push_bit 12 t4 OR drop_bit 39 t3) = X3 mod 2 ^ 64"
  proof -
    have m: "a = b + 2 ^ 64 * c \<Longrightarrow> 0 \<le> b \<Longrightarrow> b < 2 ^ 64 \<Longrightarrow> a mod 2 ^ 64 = (b + 2 ^ 64 * d) mod 2 ^ 64" for a b c d :: int
      by (simp only: dv(2))
    have o: "uint (push_bit n a OR b) = (uint b + uint a * 2 ^ n) mod 2 ^ 64" if "uint b < 2 ^ n" "n \<le> 64" for a b :: u64 and n
      using uint_or_push(2) [OF that(1)] that(2) by simp
    show "uint (push_bit 51 t1 OR t0) = ?V mod 2 ^ 64"
    proof -
      have "uint (push_bit 51 t1 OR t0) = (uint t0 + uint t1 * 2 ^ 51) mod 2 ^ 64" by (rule o [OF t(1)]) simp
      also have "\<dots> = ?V mod 2 ^ 64" unfolding V(1) by (rule m [OF _ nn(1) lt(1), of _ q1]) (simp add: 1(3))
      finally show ?thesis .
    qed
    have "uint (push_bit 38 t2 OR drop_bit 13 t1) = (q1 + uint t2 * 2 ^ 38) mod 2 ^ 64"
      using o [of "drop_bit 13 t1" 38 t2] q unfolding dr 1(1) by simp
    also have "\<dots> = X1 mod 2 ^ 64" unfolding V(2) by (rule m [OF _ nn(2) lt(2), of _ q2]) (simp add: 2(3))
    finally show "uint (push_bit 38 t2 OR drop_bit 13 t1) = X1 mod 2 ^ 64" .
    have "uint (push_bit 25 t3 OR drop_bit 26 t2) = (q2 + uint t3 * 2 ^ 25) mod 2 ^ 64"
      using o [of "drop_bit 26 t2" 25 t3] q unfolding dr 2(1) by simp
    also have "\<dots> = X2 mod 2 ^ 64" unfolding V(3) by (rule m [OF _ nn(3) lt(3), of _ q3]) (simp add: 3(3))
    finally show "uint (push_bit 25 t3 OR drop_bit 26 t2) = X2 mod 2 ^ 64" .
    show "uint (push_bit 12 t4 OR drop_bit 39 t3) = X3 mod 2 ^ 64"
      using o [of "drop_bit 39 t3" 12 t4] q unfolding dr 3(1) X3_def by (simp add: mult.commute)
  qed
  have p: "put_unaligned_le64 u = le_bytes 8 (nat x)" if "uint u = x mod 2 ^ 64" "0 \<le> x" for u x
  proof -
    have "unat u = nat (x mod 2 ^ 64)" by (simp only: that(1) flip: nat_uint_eq)
    also have "\<dots> = nat x mod 256 ^ 8" using that(2) by (simp add: nat_mod_distrib)
    finally show ?thesis by (simp only: put_le64 le_bytes_mod)
  qed
  have nat_div: "nat (a + 2 ^ 64 * b) div 256 ^ 8 = nat b" if "0 \<le> a" "a < 2 ^ 64" "0 \<le> b" for a b :: int
  proof -
    have "nat (a + 2 ^ 64 * b) div nat (2 ^ 64) = nat ((a + 2 ^ 64 * b) div 2 ^ 64)"
      using that by (intro nat_div_distrib [symmetric]) simp
    then show ?thesis unfolding dv(1) [OF that(1,2)] by simp
  qed
  have X: "0 \<le> X3" "0 \<le> X2" "0 \<le> X1" "0 \<le> ?V" using q r nn uint_ge_0 [of t4] by (simp_all add: X1_def X2_def X3_def)
  have "le_bytes (8 + (8 + (8 + 8))) (nat ?V) = le_bytes 8 (nat ?V) @ le_bytes 8 (nat X1) @ le_bytes 8 (nat X2) @ le_bytes 8 (nat X3)"
    unfolding le_bytes_split V(1) nat_div [OF nn(1) lt(1) X(3)] unfolding V(2) nat_div [OF nn(2) lt(2) X(2)]
    unfolding V(3) nat_div [OF nn(3) lt(3) X(1)] ..
  then show ?thesis
    unfolding format_fcontract_store.simps Let_def p [OF w(1) X(4)] p [OF w(2) X(3)] p [OF w(3) X(2)] p [OF w(4) X(1)]
    by simp
qed

end
