(* ===== verification/X25519_Scale.thy ===== *)
theory X25519_Scale
  imports X25519
begin

text \<open>
  The first iteration of a ladder over 256 bits, whose top bit a clamped scalar never has, only
  rescales the projective coordinates: over the base point 9 it multiplies the second point by
  \<open>36 = 6 ^ 2\<close>.  The quotient does not depend on the scale because \<open>6 ^ (p - 1)\<close> is 1 modulo
  \<open>p = 2 ^ 255 - 19\<close>, which is computed here (255 squarings) instead of assuming that the
  modulus is prime.  So the ladder over 256 bits is the RFC's over 255.
\<close>

section \<open>Scaling the coordinates\<close>

fun scale :: "int \<Rightarrow> int \<Rightarrow> ladder \<Rightarrow> ladder" where
  "scale l m (x2, z2, x3, z3) = (l * x2, l * z2, m * x3, m * z3)"

definition scaled :: "int \<Rightarrow> ladder \<Rightarrow> ladder \<Rightarrow> bool" where
  "scaled g s s' \<longleftrightarrow> (\<exists>a b. eqm_ladder (scale (g ^ a) (g ^ b) s) s')"

lemma scale_cswap: "rfc_cswap c (scale l m s) = (if c then scale m l (rfc_cswap c s) else scale l m (rfc_cswap c s))"
  by (cases s) auto

lemma scaled_cswap: "scaled g s s' \<Longrightarrow> scaled g (rfc_cswap c s) (rfc_cswap c s')"
  unfolding scaled_def by (metis eqm_cswap scale_cswap)

lemma scale_step: "eqm_ladder (scale (l ^ 4) ((l * m) ^ 2) (rfc_step x1 s)) (rfc_step x1 (scale l m s))"
proof -
  obtain x2 z2 x3 z3 where s: "s = (x2, z2, x3, z3)" by (cases s)
  have c: "l ^ 4 * u = v \<Longrightarrow> eqm (l ^ 4 * (u mod p25519)) (v mod p25519)"
    "(l * m) ^ 2 * u = v \<Longrightarrow> eqm ((l * m) ^ 2 * (u mod p25519)) (v mod p25519)" for u v
    by (auto intro: eqm_mult)
  show ?thesis
    unfolding s scale.simps rfc_step.simps Let_def eqm_ladder.simps
    by (intro conjI c; algebra)
qed

lemma scaled_step: "scaled g s s' \<Longrightarrow> scaled g (rfc_step x1 s) (rfc_step x1 s')"
proof -
  assume "scaled g s s'"
  then obtain a b where "eqm_ladder (scale (g ^ a) (g ^ b) s) s'" by (auto simp: scaled_def)
  from eqm_ladder_trans [OF scale_step eqm_step [OF eqm_refl this]]
  have "eqm_ladder (scale (g ^ (a * 4)) (g ^ ((a + b) * 2)) (rfc_step x1 s)) (rfc_step x1 s')"
    by (simp only: power_mult power_add)
  then show ?thesis by (auto simp: scaled_def)
qed

lemma scaled_bits: "scaled g s s' \<Longrightarrow> scaled g (ladder_bits x1 k t s) (ladder_bits x1 k t s')"
  by (induction t arbitrary: s s') (simp_all add: ladder_bit_def scaled_cswap scaled_step)

lemma scaled_quotient:
  assumes "scaled g s s'" and g: "eqm (g ^ (2 ^ 255 - 20)) 1"
  shows "rfc_quotient s' = rfc_quotient s"
proof -
  obtain x z x3 z3 where s: "s = (x, z, x3, z3)" by (cases s)
  obtain a b where "eqm_ladder (scale (g ^ a) (g ^ b) s) s'" using assms(1) by (auto simp: scaled_def)
  then have "rfc_quotient s' = rfc_quotient (scale (g ^ a) (g ^ b) s)" by (simp only: rfc_quotient_cong)
  also have "\<dots> = (g ^ a * x * (g ^ a * z) ^ (2 ^ 255 - 21)) mod p25519"
    by (simp only: s scale.simps rfc_quotient_def prod.case)
  also have "g ^ a * x * (g ^ a * z) ^ (2 ^ 255 - 21) = (g ^ (2 ^ 255 - 20)) ^ a * (x * z ^ (2 ^ 255 - 21))"
  proof -
    have p: "h * x * (h * z) ^ n = h ^ Suc n * (x * z ^ n)" for h :: int and n by (simp add: power_mult_distrib)
    have n: "Suc (2 ^ 255 - 21) = 2 ^ 255 - 20" by simp
    show ?thesis unfolding p n by (simp only: mult.commute flip: power_mult)
  qed
  also have "\<dots> mod p25519 = (x * z ^ (2 ^ 255 - 21)) mod p25519"
    using eqm_mult [OF eqm_power [OF g, of a] eqm_refl [of "x * z ^ (2 ^ 255 - 21)"]]
    by (simp only: eqm_def power_one mult_1_left)
  finally show ?thesis by (simp only: s rfc_quotient_def prod.case)
qed

section \<open>The power\<close>

text \<open>A partial reduction by the shape of the modulus; \<open>sq_red\<close> squares.\<close>

definition fold_red :: "int \<Rightarrow> int" where
  "fold_red x = (let d = drop_bit 255 x in x - push_bit 255 d + 19 * d)"

definition sq_red :: "int \<Rightarrow> int" where
  "sq_red x = fold_red (fold_red (x ^ 2))"

lemma fold_red_eqm: "eqm (fold_red x) x"
  by (rule eqm_multiple [of _ _ "- drop_bit 255 x"]) (simp add: fold_red_def Let_def push_bit_eq_mult p25519_def)

lemma sq_red_power: "eqm ((sq_red ^^ n) x) (x ^ (2 ^ n))"
proof (induction n)
  case (Suc n)
  have "eqm ((sq_red ^^ Suc n) x) (((sq_red ^^ n) x) ^ 2)"
    unfolding funpow.simps comp_apply sq_red_def by (rule eqm_trans [OF fold_red_eqm fold_red_eqm])
  from eqm_trans [OF this eqm_power [OF Suc]] show ?case by (simp add: mult.commute flip: power_mult)
qed simp

lemma fold_red_numeral:
  "fold_red (numeral n) = (let d = drop_bit 255 (numeral n) in numeral n - push_bit 255 d + 19 * d)"
  by (rule fold_red_def)

lemma sq_red_numeral: "sq_red (numeral n) = fold_red (fold_red (numeral (Num.sqr n)))"
  by (simp only: sq_red_def power2_eq_square numeral_sqr)

lemma drop_bit_numeral:
  "drop_bit (numeral k) (numeral (num.Bit0 n) :: int) = drop_bit (pred_numeral k) (numeral n)"
  "drop_bit (numeral k) (numeral (num.Bit1 n) :: int) = drop_bit (pred_numeral k) (numeral n)"
  "drop_bit (numeral k) (Numeral1 :: int) = 0"
  by simp_all

lemma sq_red_8: "(sq_red ^^ 8) x = sq_red (sq_red (sq_red (sq_red (sq_red (sq_red (sq_red (sq_red x)))))))"
  by (simp add: numeral_eq_Suc)

lemma sq_red_32: "(sq_red ^^ 32) x = (sq_red ^^ 8) ((sq_red ^^ 8) ((sq_red ^^ 8) ((sq_red ^^ 8) x)))"
  by (simp flip: funpow_add comp_apply [of "sq_red ^^ 8" "sq_red ^^ 8"] add: funpow_add [symmetric, THEN fun_cong, unfolded comp_def])

lemma sq_red_31: "(sq_red ^^ 31) x = sq_red (sq_red (sq_red (sq_red (sq_red (sq_red (sq_red ((sq_red ^^ 8) ((sq_red ^^ 8) ((sq_red ^^ 8) x)))))))))"
  by (simp add: numeral_eq_Suc)

lemmas sq_red_eval = sq_red_numeral fold_red_numeral Let_def Num.sqr.simps add_num_simps arith_simps pred_numeral_simps
  drop_bit_numeral drop_bit_0 push_bit_numeral push_bit_0_id id_apply BitM.simps diff_numeral_simps sub_num_simps
  push_bit_of_0 mult_zero_right diff_zero add_0_right

lemma sq_red_chunk0: "(sq_red ^^ 32) 6
    = 54016056651067167173707144971798061503276250729492913985123578642699894983923"
  by (simp only: sq_red_32 sq_red_8) (simp only: sq_red_eval)

lemma sq_red_chunk1: "(sq_red ^^ 32) 54016056651067167173707144971798061503276250729492913985123578642699894983923
    = 18530952006178115180848625184707270804913141628522746189400760774980975228971"
  by (simp only: sq_red_32 sq_red_8) (simp only: sq_red_eval)

lemma sq_red_chunk2: "(sq_red ^^ 32) 18530952006178115180848625184707270804913141628522746189400760774980975228971
    = 19692762386066544739682379105498365847992440751546933622318295368950631286475"
  by (simp only: sq_red_32 sq_red_8) (simp only: sq_red_eval)

lemma sq_red_chunk3: "(sq_red ^^ 32) 19692762386066544739682379105498365847992440751546933622318295368950631286475
    = 10006044337676498889260976997500434906664288032466250429469118005594807631796"
  by (simp only: sq_red_32 sq_red_8) (simp only: sq_red_eval)

lemma sq_red_chunk4: "(sq_red ^^ 32) 10006044337676498889260976997500434906664288032466250429469118005594807631796
    = 18236730637760026589342176853467569799260381032738518149060752353728272104239"
  by (simp only: sq_red_32 sq_red_8) (simp only: sq_red_eval)

lemma sq_red_chunk5: "(sq_red ^^ 32) 18236730637760026589342176853467569799260381032738518149060752353728272104239
    = 10098977075971638239378201939505492114227346520885680316854327179822640200559"
  by (simp only: sq_red_32 sq_red_8) (simp only: sq_red_eval)

lemma sq_red_chunk6: "(sq_red ^^ 32) 10098977075971638239378201939505492114227346520885680316854327179822640200559
    = 14644268579188827468105189357912010199815057046128935075180610726925601207194"
  by (simp only: sq_red_32 sq_red_8) (simp only: sq_red_eval)

lemma sq_red_chunk7: "(sq_red ^^ 31) 14644268579188827468105189357912010199815057046128935075180610726925601207194
    = 3656158440062976"
  by (simp only: sq_red_31 sq_red_8) (simp only: sq_red_eval)

lemma six_power: "eqm (6 ^ (2 ^ 255)) (6 ^ 20)"
proof -
  have split: "(sq_red ^^ 255) x = (sq_red ^^ 31) ((sq_red ^^ 32) ((sq_red ^^ 32) ((sq_red ^^ 32) ((sq_red ^^ 32)
      ((sq_red ^^ 32) ((sq_red ^^ 32) ((sq_red ^^ 32) x)))))))" for x
    by (simp flip: funpow_add comp_apply [of "sq_red ^^ 32" "sq_red ^^ 32"] add: funpow_add [symmetric, THEN fun_cong, unfolded comp_def])
  have "(sq_red ^^ 255) 6 = 6 ^ 20"
    unfolding split sq_red_chunk0 sq_red_chunk1 sq_red_chunk2 sq_red_chunk3 sq_red_chunk4 sq_red_chunk5
      sq_red_chunk6 sq_red_chunk7 by simp
  with sq_red_power [of 255 6] show ?thesis by (simp only: eqm_def)
qed

lemma cancel_power:
  assumes "eqm (g ^ (2 ^ 255)) (g ^ 20)" and "eqm (g * h) 1"
  shows "eqm (g ^ (2 ^ 255 - 20)) 1"
proof -
  have i: "eqm ((g * h) ^ 20) 1" using eqm_power [OF assms(2), of 20] by simp
  have n: "2 ^ 255 = (2 ^ 255 - 20) + (20 :: nat)" by simp
  have "g ^ (2 ^ 255 - 20) * (g * h) ^ 20 = g ^ (2 ^ 255) * h ^ 20"
    by (subst (2) n) (simp only: power_add power_mult_distrib mult.assoc)
  moreover have "eqm (g ^ (2 ^ 255) * h ^ 20) ((g * h) ^ 20)"
    unfolding power_mult_distrib by (intro eqm_mult assms(1) eqm_refl)
  moreover have "eqm (g ^ (2 ^ 255 - 20) * (g * h) ^ 20) (g ^ (2 ^ 255 - 20) * 1)" by (intro eqm_mult eqm_refl i)
  ultimately have "eqm (g ^ (2 ^ 255 - 20) * 1) 1" using i by (metis eqm_sym eqm_trans)
  then show ?thesis by (simp only: mult_1_right)
qed

lemma six_unit: "eqm (6 ^ (2 ^ 255 - 20)) 1"
  by (rule cancel_power [OF six_power, where h = 48246703848881748093154577086953294938862493610683568349773993336630470683291]) (simp add: eqm_def p25519_def)

section \<open>One more bit\<close>

theorem ladder_256_eq_255:
  assumes "\<not> bit k 255"
  shows "rfc_quotient (rfc_ladder 256 k 9) = rfc_quotient (rfc_ladder 255 k 9)"
proof -
  have 256: "256 = Suc 255" by simp
  have "rfc_step 9 (1, 0, 9, 1) = (1, 0, 324, 36)" by (simp add: p25519_def)
  then have l: "rfc_ladder 256 k 9 = ladder_bits 9 k 255 (1, 0, 324, 36)"
    unfolding rfc_ladder_def rfc_loop_bits 256 ladder_bits.simps ladder_bit_def using assms by simp
  have "eqm_ladder (scale (6 ^ 0) (6 ^ 2) (1, 0, 9, 1)) (1, 0, 324, 36)" by simp
  then have "scaled 6 (1, 0, 9, 1) (1, 0, 324, 36)" unfolding scaled_def by blast
  from scaled_quotient [OF scaled_bits [OF this] six_unit] show ?thesis
    unfolding l by (simp only: rfc_ladder_def rfc_loop_bits rfc_cswap_False)
qed

end
