(* ===== verification/Curve25519_Public.thy ===== *)
theory Curve25519_Public
  imports Curve25519_Format X25519_Scale
begin

text \<open>
  The 64-bit Curve25519 as a whole: from bytes to bytes it is X25519 of RFC 7748.
\<close>

lemma rfc_encode_cong: "eqm x y \<Longrightarrow> rfc_encode_u x = rfc_encode_u y"
  by (simp add: rfc_encode_u_def eqm_def)

lemma fcontract_correct:
  assumes "tight5 a"
  shows "format_fcontract a = rfc_encode_u (val5 a)"
proof -
  from first_full [OF assms] obtain v0 v1 v2 v3 v4
    where v: "format_fcontract_first_carry_full a = Five v0 v1 v2 v3 v4" "uint v0 < 2 ^ 51 + 19" "uint v1 < 2 ^ 51"
      "uint v2 < 2 ^ 51" "uint v3 < 2 ^ 51" "uint v4 < 2 ^ 51" "eqm (val5 (Five v0 v1 v2 v3 v4)) (val5 a)" by blast
  from second_full [OF v(2-6)] obtain w0 w1 w2 w3 w4
    where w: "format_fcontract_second_carry_full (Five v0 v1 v2 v3 v4) = Five w0 w1 w2 w3 w4" "uint w0 < 2 ^ 51"
      "uint w1 < 2 ^ 51" "uint w2 < 2 ^ 51" "uint w3 < 2 ^ 51" "uint w4 < 2 ^ 51"
      "eqm (val5 (Five w0 w1 w2 w3 w4)) (val5 (Five v0 v1 v2 v3 v4))" by blast
  obtain t0 t1 t2 t3 t4 where t: "format_fcontract_trim (Five w0 w1 w2 w3 w4) = Five t0 t1 t2 t3 t4"
    by (cases "format_fcontract_trim (Five w0 w1 w2 w3 w4)")
  note tr = trim_correct [OF w(2-6), unfolded t]
  have "val5 (Five w0 w1 w2 w3 w4) mod p25519 = val5 a mod p25519"
    using eqm_trans [OF w(7) v(7)] by (simp only: eqm_def)
  then show ?thesis
    by (simp only: format_fcontract_def v(1) w(1) t store_correct [OF tr(1)] tr(2) rfc_encode_u_def)
qed

lemma length_clamp: "length (curve25519_clamp_secret k) = length k"
  by (simp add: curve25519_clamp_secret_def Let_def)

text \<open>Clamping the bytes is the RFC's decoding of a scalar.\<close>

lemma clamp_bytes:
  fixes b :: u8
  shows "unat (b AND 248) = 8 * (unat b div 8)" and "unat ((b AND 127) OR 64) = 64 + unat b mod 64"
proof -
  have l: "list_all (\<lambda>n. unat ((word_of_nat n :: u8) AND 248) = 8 * (n div 8)
      \<and> unat (((word_of_nat n :: u8) AND 127) OR 64) = 64 + n mod 64) [0..<256]"
    by code_simp
  have "unat b \<in> set [0..<256]" using u8_less [of b] by simp
  with l have "unat ((word_of_nat (unat b) :: u8) AND 248) = 8 * (unat b div 8)
      \<and> unat (((word_of_nat (unat b) :: u8) AND 127) OR 64) = 64 + unat b mod 64"
    unfolding list_all_iff by blast
  then show "unat (b AND 248) = 8 * (unat b div 8)" and "unat ((b AND 127) OR 64) = 64 + unat b mod 64" by simp_all
qed

lemma le_val_append: "le_val (xs @ ys) = le_val xs + 256 ^ length xs * le_val ys"
  by (induction xs) (simp_all add: algebra_simps)

lemma clamp_value:
  assumes "length k = 32"
  shows "le_val (curve25519_clamp_secret k) = rfc_decode_scalar k"
proof -
  obtain a bs where k: "k = a # bs" "length bs = 31" using assms by (cases k) auto
  obtain m z where b: "bs = m @ [z]" "length m = 30" using k(2) by (cases bs rule: rev_cases) auto
  define q r s t where "q = unat a div 8" and "r = unat a mod 8" and "s = unat z div 64" and "t = unat z mod 64"
  have a: "unat a = 8 * q + r" "r < 8" "q < 32" and z: "unat z = 64 * s + t" "t < 64"
    using u8_less [of a] by (simp_all add: q_def r_def s_def t_def less_mult_imp_div_less)
  have M: "le_val m < 256 ^ 30" using le_val_less [of m] b(2) by simp
  have c: "curve25519_clamp_secret k = (a AND 248) # m @ [(z AND 127) OR 64]"
    using b(2) by (simp add: curve25519_clamp_secret_def Let_def k(1) b(1) nth_append list_update_append numeral_eq_Suc)
  have v: "le_val k = r + 8 * (q + 32 * le_val m + 2 ^ 245 * t + 2 ^ 251 * s)"
    by (simp add: k(1) b le_val_append a(1) z(1))
  have "le_val k div 8 = q + 32 * le_val m + 2 ^ 245 * t + 2 ^ 251 * s" unfolding v using a(2) by simp
  moreover have "q + 32 * le_val m + 2 ^ 245 * t < 2 ^ 251" using a(3) z(2) M by simp
  ultimately have "le_val k div 8 mod 2 ^ 251 = q + 32 * le_val m + 2 ^ 245 * t" by simp
  moreover have "le_val (curve25519_clamp_secret k) = 8 * q + 256 * le_val m + 256 ^ 31 * (64 + t)"
    unfolding c by (simp add: le_val_append b(2) clamp_bytes flip: q_def t_def)
  ultimately show ?thesis unfolding rfc_decode_scalar_def by simp
qed

text \<open>The whole function over the 256 bits the code visits.\<close>

lemma curve25519_generic_256:
  assumes "length k = 32" "length u = 32"
  shows "curve25519_generic k u = rfc_encode_u (rfc_quotient
      (rfc_ladder 256 (le_val (curve25519_clamp_secret k)) (rfc_decode_u u)))"
proof -
  note x = fexpand_correct [OF assms(2)]
  obtain a b where r: "ladder_cmult (curve25519_clamp_secret k) (format_fexpand u, Five 1 0 0 0 0) = (a, b)"
    by (cases "ladder_cmult (curve25519_clamp_secret k) (format_fexpand u, Five 1 0 0 0 0)")
  from ladder_cmult_correct [OF x(1) _ r] obtain s where t: "tight5 a" "tight5 b"
      and s: "eqm_ladder (val5 a, val5 b, s) (rfc_ladder 256 (le_val (curve25519_clamp_secret k)) (rfc_decode_u u))"
    by (auto simp: length_clamp assms(1) x(2))
  note c = crecip_correct [OF tight5_loose5 [OF t(2)]]
  note f = fmul_correct [OF tight5_loose5 [OF t(1)] tight5_loose5 [OF c(1)]]
  have "eqm (val5 (fmul_fmul a (crecip_crecip b))) (val5 a * val5 b ^ (2 ^ 255 - 21))"
    by (rule eqm_trans [OF f(2) eqm_mult [OF eqm_refl c(2)]])
  then have "eqm (val5 (fmul_fmul a (crecip_crecip b))) (rfc_quotient (val5 a, val5 b, s))"
    by (cases s) (simp only: rfc_quotient_def prod.case eqm_mod)
  then have "format_scalar_of_point (a, b) = rfc_encode_u (rfc_quotient (val5 a, val5 b, s))"
    by (simp only: format_scalar_of_point_def prod.case Let_def fcontract_correct [OF f(1)] rfc_encode_cong)
  then show ?thesis
    by (simp only: curve25519_generic_def Let_def r rfc_quotient_cong [OF s])
qed

text \<open>The clamped scalar has bit 254 and not bit 255.\<close>

lemma clamp_bit_255: "length k = 32 \<Longrightarrow> \<not> bit (le_val (curve25519_clamp_secret k)) 255"
  using bit_le_val [of 31 "curve25519_clamp_secret k" 7]
  by (simp add: length_clamp) (simp add: curve25519_clamp_secret_def Let_def bit_simps)

lemma public_key_x25519:
  assumes "length k = 32"
  shows "curve25519_public_key k = x25519 k curve25519_basepoint"
proof -
  have b: "length curve25519_basepoint = 32" "rfc_decode_u curve25519_basepoint = 9"
  proof -
    have z: "le_val (replicate n 0) = 0" for n by (induction n) simp_all
    show "length curve25519_basepoint = 32" by (simp add: curve25519_basepoint_def)
    show "rfc_decode_u curve25519_basepoint = 9" by (simp add: curve25519_basepoint_def rfc_decode_u_def z)
  qed
  show ?thesis
    by (simp only: curve25519_public_key_def curve25519_generic_256 [OF assms b(1)] b(2) x25519_def
        ladder_256_eq_255 [OF clamp_bit_255 [OF assms]] clamp_value [OF assms, symmetric])
qed

end
