(* ===== verification/Curve25519_Fiat32.thy ===== *)
theory Curve25519_Fiat32
  imports X25519
begin

text \<open>
  src/curve25519_fiat32.c, the Curve25519 of the builds whose compiler has no 128-bit
  integer: field elements of ten limbs of 26 and 25 bits in turn, in 32-bit words, products in
  64-bit words.  \<open>fe\<close> and \<open>fe_loose\<close> are the same array \<open>u32[10]\<close> with other bounds; a
  function that writes through a pointer returns the new value, and the local names
  \<open>x\<close> followed by a number are those of the generated C code.  The names the file shares with
  curve25519.c are \<open>fiat32_generic\<close> and \<open>fiat32_public_key\<close> here.
\<close>

datatype 'a ten = Ten 'a 'a 'a 'a 'a 'a 'a 'a 'a 'a

type_synonym fe = "u32 ten"

section \<open>Reading a coordinate\<close>

definition get_unaligned_le32 :: "bytes \<Rightarrow> u32" where
  "get_unaligned_le32 p =
    ((ucast (p ! 0) OR push_bit 8 (ucast (p ! 1))) OR push_bit 16 (ucast (p ! 2))) OR
      push_bit 24 (ucast (p ! 3))"

text \<open>The masks are \<open>(1 << 26) - 1\<close> and the like, written out.\<close>

definition fe_frombytes :: "bytes \<Rightarrow> fe" where
  "fe_frombytes s =
    (let a0 = get_unaligned_le32 s;
         a1 = get_unaligned_le32 (drop 4 s);
         a2 = get_unaligned_le32 (drop 8 s);
         a3 = get_unaligned_le32 (drop 12 s);
         a4 = get_unaligned_le32 (drop 16 s);
         a5 = get_unaligned_le32 (drop 20 s);
         a6 = get_unaligned_le32 (drop 24 s);
         a7 = get_unaligned_le32 (drop 28 s)
     in Ten (a0 AND 0x3ffffff)
          (drop_bit 26 a0 OR push_bit 6 (a1 AND 0x7ffff))
          (drop_bit 19 a1 OR push_bit 13 (a2 AND 0x1fff))
          (drop_bit 13 a2 OR push_bit 19 (a3 AND 0x3f))
          (drop_bit 6 a3)
          (a4 AND 0x1ffffff)
          (drop_bit 25 a4 OR push_bit 7 (a5 AND 0x7ffff))
          (drop_bit 19 a5 OR push_bit 13 (a6 AND 0xfff))
          (drop_bit 12 a6 OR push_bit 20 (a7 AND 0x3f))
          (drop_bit 6 a7 AND 0x1ffffff))"

section \<open>The canonical representative\<close>

text \<open>The limb and the carry or borrow that goes with it; the carry is a byte in C.\<close>

definition addcarryx_u25 :: "u8 \<Rightarrow> u32 \<Rightarrow> u32 \<Rightarrow> u32 \<times> u8" where
  "addcarryx_u25 c a b = (let x = a + b + ucast c in (x AND 0x1ffffff, ucast (drop_bit 25 x AND 1)))"

definition addcarryx_u26 :: "u8 \<Rightarrow> u32 \<Rightarrow> u32 \<Rightarrow> u32 \<times> u8" where
  "addcarryx_u26 c a b = (let x = a + b + ucast c in (x AND 0x3ffffff, ucast (drop_bit 26 x AND 1)))"

definition subborrow_u25 :: "u8 \<Rightarrow> u32 \<Rightarrow> u32 \<Rightarrow> u32 \<times> u8" where
  "subborrow_u25 c a b = (let x = a - b - ucast c in (x AND 0x1ffffff, ucast (drop_bit 31 x)))"

definition subborrow_u26 :: "u8 \<Rightarrow> u32 \<Rightarrow> u32 \<Rightarrow> u32 \<times> u8" where
  "subborrow_u26 c a b = (let x = a - b - ucast c in (x AND 0x3ffffff, ucast (drop_bit 31 x)))"

definition cmovznz32 :: "u32 \<Rightarrow> u32 \<Rightarrow> u32 \<Rightarrow> u32" where
  "cmovznz32 t z nz = (let t = - of_bool (t \<noteq> 0) in (t AND nz) OR (NOT t AND z))"

definition fe_freeze :: "fe \<Rightarrow> fe" where
  "fe_freeze f =
    (case f of Ten x2 x4 x6 x8 x10 x12 x14 x16 x18 x17 \<Rightarrow>
    (let (x20, x21) = subborrow_u26 0 x2 0x3ffffed;
         (x23, x24) = subborrow_u25 x21 x4 0x1ffffff;
         (x26, x27) = subborrow_u26 x24 x6 0x3ffffff;
         (x29, x30) = subborrow_u25 x27 x8 0x1ffffff;
         (x32, x33) = subborrow_u26 x30 x10 0x3ffffff;
         (x35, x36) = subborrow_u25 x33 x12 0x1ffffff;
         (x38, x39) = subborrow_u26 x36 x14 0x3ffffff;
         (x41, x42) = subborrow_u25 x39 x16 0x1ffffff;
         (x44, x45) = subborrow_u26 x42 x18 0x3ffffff;
         (x47, x48) = subborrow_u25 x45 x17 0x1ffffff;
         x49 = cmovznz32 (ucast x48) 0 0xffffffff;
         x50 = x49 AND 0x3ffffed;
         (x52, x53) = addcarryx_u26 0 x20 x50;
         x54 = x49 AND 0x1ffffff;
         (x56, x57) = addcarryx_u25 x53 x23 x54;
         x58 = x49 AND 0x3ffffff;
         (x60, x61) = addcarryx_u26 x57 x26 x58;
         x62 = x49 AND 0x1ffffff;
         (x64, x65) = addcarryx_u25 x61 x29 x62;
         x66 = x49 AND 0x3ffffff;
         (x68, x69) = addcarryx_u26 x65 x32 x66;
         x70 = x49 AND 0x1ffffff;
         (x72, x73) = addcarryx_u25 x69 x35 x70;
         x74 = x49 AND 0x3ffffff;
         (x76, x77) = addcarryx_u26 x73 x38 x74;
         x78 = x49 AND 0x1ffffff;
         (x80, x81) = addcarryx_u25 x77 x41 x78;
         x82 = x49 AND 0x3ffffff;
         (x84, x85) = addcarryx_u26 x81 x44 x82;
         x86 = x49 AND 0x1ffffff;
         (x88, x89) = addcarryx_u25 x85 x47 x86
     in Ten x52 x56 x60 x64 x68 x72 x76 x80 x84 x88))"

fun fe_bytes :: "fe \<Rightarrow> bytes" where
  "fe_bytes (Ten h0 h1 h2 h3 h4 h5 h6 h7 h8 h9) =
    [ucast h0, ucast (drop_bit 8 h0), ucast (drop_bit 16 h0),
     ucast (drop_bit 24 h0 OR push_bit 2 h1), ucast (drop_bit 6 h1), ucast (drop_bit 14 h1),
     ucast (drop_bit 22 h1 OR push_bit 3 h2), ucast (drop_bit 5 h2), ucast (drop_bit 13 h2),
     ucast (drop_bit 21 h2 OR push_bit 5 h3), ucast (drop_bit 3 h3), ucast (drop_bit 11 h3),
     ucast (drop_bit 19 h3 OR push_bit 6 h4), ucast (drop_bit 2 h4), ucast (drop_bit 10 h4),
     ucast (drop_bit 18 h4), ucast h5, ucast (drop_bit 8 h5), ucast (drop_bit 16 h5),
     ucast (drop_bit 24 h5 OR push_bit 1 h6), ucast (drop_bit 7 h6), ucast (drop_bit 15 h6),
     ucast (drop_bit 23 h6 OR push_bit 3 h7), ucast (drop_bit 5 h7), ucast (drop_bit 13 h7),
     ucast (drop_bit 21 h7 OR push_bit 4 h8), ucast (drop_bit 4 h8), ucast (drop_bit 12 h8),
     ucast (drop_bit 20 h8 OR push_bit 6 h9), ucast (drop_bit 2 h9), ucast (drop_bit 10 h9),
     ucast (drop_bit 18 h9)]"

definition fe_tobytes :: "fe \<Rightarrow> bytes" where
  "fe_tobytes f = fe_bytes (fe_freeze f)"

section \<open>Sums and differences\<close>

definition fe_0 :: fe where
  "fe_0 = Ten 0 0 0 0 0 0 0 0 0 0"

definition fe_1 :: fe where
  "fe_1 = Ten 1 0 0 0 0 0 0 0 0 0"

fun fe_add :: "fe \<Rightarrow> fe \<Rightarrow> fe" where
  "fe_add (Ten a0 a1 a2 a3 a4 a5 a6 a7 a8 a9) (Ten b0 b1 b2 b3 b4 b5 b6 b7 b8 b9) =
    Ten (a0 + b0) (a1 + b1) (a2 + b2) (a3 + b3) (a4 + b4) (a5 + b5) (a6 + b6) (a7 + b7) (a8 + b8) (a9 + b9)"

fun fe_sub :: "fe \<Rightarrow> fe \<Rightarrow> fe" where
  "fe_sub (Ten a0 a1 a2 a3 a4 a5 a6 a7 a8 a9) (Ten b0 b1 b2 b3 b4 b5 b6 b7 b8 b9) =
    Ten (0x7ffffda + a0 - b0) (0x3fffffe + a1 - b1) (0x7fffffe + a2 - b2)
       (0x3fffffe + a3 - b3) (0x7fffffe + a4 - b4) (0x3fffffe + a5 - b5)
       (0x7fffffe + a6 - b6) (0x3fffffe + a7 - b7) (0x7fffffe + a8 - b8)
       (0x3fffffe + a9 - b9)"

section \<open>Products and squares\<close>

text \<open>The columns of the product, those past the top folded back with the factor
  \<open>19 = 16 + 2 + 1\<close>.\<close>

definition fe_mul_wide :: "fe \<Rightarrow> fe \<Rightarrow> u64 ten" where
  "fe_mul_wide f g =
    (case f of Ten x5 x7 x9 x11 x13 x15 x17 x19 x21 x20 \<Rightarrow>
    (case g of Ten x23 x25 x27 x29 x31 x33 x35 x37 x39 x38 \<Rightarrow>
    (let x40 = ucast x23 * ucast x5;
         x41 = ucast x23 * ucast x7 + ucast x25 * ucast x5;
         x42 = ucast (2 * x25) * ucast x7 + ucast x23 * ucast x9 + ucast x27 * ucast x5;
         x43 = ucast x25 * ucast x9 + ucast x27 * ucast x7 + ucast x23 * ucast x11
           + ucast x29 * ucast x5;
         x44 = ucast x27 * ucast x9 + 2 * (ucast x25 * ucast x11 + ucast x29 * ucast x7)
           + ucast x23 * ucast x13 + ucast x31 * ucast x5;
         x45 = ucast x27 * ucast x11 + ucast x29 * ucast x9 + ucast x25 * ucast x13
           + ucast x31 * ucast x7 + ucast x23 * ucast x15 + ucast x33 * ucast x5;
         x46 = 2 * (ucast x29 * ucast x11 + ucast x25 * ucast x15 + ucast x33 * ucast x7)
           + ucast x27 * ucast x13 + ucast x31 * ucast x9 + ucast x23 * ucast x17
           + ucast x35 * ucast x5;
         x47 = ucast x29 * ucast x13 + ucast x31 * ucast x11 + ucast x27 * ucast x15
           + ucast x33 * ucast x9 + ucast x25 * ucast x17 + ucast x35 * ucast x7
           + ucast x23 * ucast x19 + ucast x37 * ucast x5;
         x48 = ucast x31 * ucast x13 + 2 * (ucast x29 * ucast x15 + ucast x33 * ucast x11
           + ucast x25 * ucast x19 + ucast x37 * ucast x7) + ucast x27 * ucast x17
           + ucast x35 * ucast x9 + ucast x23 * ucast x21 + ucast x39 * ucast x5;
         x49 = ucast x31 * ucast x15 + ucast x33 * ucast x13 + ucast x29 * ucast x17
           + ucast x35 * ucast x11 + ucast x27 * ucast x19 + ucast x37 * ucast x9
           + ucast x25 * ucast x21 + ucast x39 * ucast x7 + ucast x23 * ucast x20
           + ucast x38 * ucast x5;
         x50 = 2 * (ucast x33 * ucast x15 + ucast x29 * ucast x19 + ucast x37 * ucast x11
           + ucast x25 * ucast x20 + ucast x38 * ucast x7) + ucast x31 * ucast x17
           + ucast x35 * ucast x13 + ucast x27 * ucast x21 + ucast x39 * ucast x9;
         x51 = ucast x33 * ucast x17 + ucast x35 * ucast x15 + ucast x31 * ucast x19
           + ucast x37 * ucast x13 + ucast x29 * ucast x21 + ucast x39 * ucast x11
           + ucast x27 * ucast x20 + ucast x38 * ucast x9;
         x52 = ucast x35 * ucast x17 + 2 * (ucast x33 * ucast x19 + ucast x37 * ucast x15
           + ucast x29 * ucast x20 + ucast x38 * ucast x11) + ucast x31 * ucast x21
           + ucast x39 * ucast x13;
         x53 = ucast x35 * ucast x19 + ucast x37 * ucast x17 + ucast x33 * ucast x21
           + ucast x39 * ucast x15 + ucast x31 * ucast x20 + ucast x38 * ucast x13;
         x54 = 2 * (ucast x37 * ucast x19 + ucast x33 * ucast x20 + ucast x38 * ucast x15)
           + ucast x35 * ucast x21 + ucast x39 * ucast x17;
         x55 = ucast x37 * ucast x21 + ucast x39 * ucast x19 + ucast x35 * ucast x20
           + ucast x38 * ucast x17;
         x56 = ucast x39 * ucast x21 + 2 * (ucast x37 * ucast x20 + ucast x38 * ucast x19);
         x57 = ucast x39 * ucast x20 + ucast x38 * ucast x21;
         x58 = ucast (2 * x38) * ucast x20;
         x59 = x48 + push_bit 4 x58;
         x60 = x59 + push_bit 1 x58;
         x61 = x60 + x58;
         x62 = x47 + push_bit 4 x57;
         x63 = x62 + push_bit 1 x57;
         x64 = x63 + x57;
         x65 = x46 + push_bit 4 x56;
         x66 = x65 + push_bit 1 x56;
         x67 = x66 + x56;
         x68 = x45 + push_bit 4 x55;
         x69 = x68 + push_bit 1 x55;
         x70 = x69 + x55;
         x71 = x44 + push_bit 4 x54;
         x72 = x71 + push_bit 1 x54;
         x73 = x72 + x54;
         x74 = x43 + push_bit 4 x53;
         x75 = x74 + push_bit 1 x53;
         x76 = x75 + x53;
         x77 = x42 + push_bit 4 x52;
         x78 = x77 + push_bit 1 x52;
         x79 = x78 + x52;
         x80 = x41 + push_bit 4 x51;
         x81 = x80 + push_bit 1 x51;
         x82 = x81 + x51;
         x83 = x40 + push_bit 4 x50;
         x84 = x83 + push_bit 1 x50;
         x85 = x84 + x50
     in Ten x85 x82 x79 x76 x73 x70 x67 x64 x61 x49)))"

text \<open>The carries, the same statements in \<open>fe_mul_impl\<close>, \<open>fe_sqr_impl\<close> (there numbered from
  \<open>x64\<close>) and \<open>fe_mul_121666_impl\<close>.\<close>

definition fe_carry :: "u64 ten \<Rightarrow> fe" where
  "fe_carry t =
    (case t of Ten x85 x82 x79 x76 x73 x70 x67 x64 x61 x49 \<Rightarrow>
    (let x86 = drop_bit 26 x85;
         x87 = (ucast x85 AND 0x3ffffff :: u32);
         x88 = x86 + x82;
         x89 = drop_bit 25 x88;
         x90 = ucast x88 AND 0x1ffffff;
         x91 = x89 + x79;
         x92 = drop_bit 26 x91;
         x93 = ucast x91 AND 0x3ffffff;
         x94 = x92 + x76;
         x95 = drop_bit 25 x94;
         x96 = ucast x94 AND 0x1ffffff;
         x97 = x95 + x73;
         x98 = drop_bit 26 x97;
         x99 = ucast x97 AND 0x3ffffff;
         x100 = x98 + x70;
         x101 = drop_bit 25 x100;
         x102 = ucast x100 AND 0x1ffffff;
         x103 = x101 + x67;
         x104 = drop_bit 26 x103;
         x105 = ucast x103 AND 0x3ffffff;
         x106 = x104 + x64;
         x107 = drop_bit 25 x106;
         x108 = ucast x106 AND 0x1ffffff;
         x109 = x107 + x61;
         x110 = drop_bit 26 x109;
         x111 = ucast x109 AND 0x3ffffff;
         x112 = x110 + x49;
         x113 = drop_bit 25 x112;
         x114 = ucast x112 AND 0x1ffffff;
         x115 = ucast x87 + 19 * x113;
         x116 = ucast (drop_bit 26 x115);
         x117 = ucast x115 AND 0x3ffffff;
         x118 = x116 + x90;
         x119 = drop_bit 25 x118;
         x120 = x118 AND 0x1ffffff
     in Ten x117 x120 (x119 + x93) x96 x99 x102 x105 x108 x111 x114))"

definition fe_mul :: "fe \<Rightarrow> fe \<Rightarrow> fe" where
  "fe_mul f g = fe_carry (fe_mul_wide f g)"

definition fe_sqr_wide :: "fe \<Rightarrow> u64 ten" where
  "fe_sqr_wide f =
    (case f of Ten x2 x4 x6 x8 x10 x12 x14 x16 x18 x17 \<Rightarrow>
    (let x19 = ucast x2 * ucast x2;
         x20 = ucast (2 * x2) * ucast x4;
         x21 = 2 * (ucast x4 * ucast x4 + ucast x2 * ucast x6);
         x22 = 2 * (ucast x4 * ucast x6 + ucast x2 * ucast x8);
         x23 = ucast x6 * ucast x6 + ucast (4 * x4) * ucast x8 + ucast (2 * x2) * ucast x10;
         x24 = 2 * (ucast x6 * ucast x8 + ucast x4 * ucast x10 + ucast x2 * ucast x12);
         x25 = 2 * (ucast x8 * ucast x8 + ucast x6 * ucast x10 + ucast x2 * ucast x14
           + ucast (2 * x4) * ucast x12);
         x26 = 2 * (ucast x8 * ucast x10 + ucast x6 * ucast x12 + ucast x4 * ucast x14
           + ucast x2 * ucast x16);
         x27 = ucast x10 * ucast x10 + 2 * (ucast x6 * ucast x14 + ucast x2 * ucast x18
           + 2 * (ucast x4 * ucast x16 + ucast x8 * ucast x12));
         x28 = 2 * (ucast x10 * ucast x12 + ucast x8 * ucast x14 + ucast x6 * ucast x16
           + ucast x4 * ucast x18 + ucast x2 * ucast x17);
         x29 = 2 * (ucast x12 * ucast x12 + ucast x10 * ucast x14 + ucast x6 * ucast x18
           + 2 * (ucast x8 * ucast x16 + ucast x4 * ucast x17));
         x30 = 2 * (ucast x12 * ucast x14 + ucast x10 * ucast x16 + ucast x8 * ucast x18
           + ucast x6 * ucast x17);
         x31 = ucast x14 * ucast x14 + 2 * (ucast x10 * ucast x18 + 2 * (ucast x12 * ucast x16
           + ucast x8 * ucast x17));
         x32 = 2 * (ucast x14 * ucast x16 + ucast x12 * ucast x18 + ucast x10 * ucast x17);
         x33 = 2 * (ucast x16 * ucast x16 + ucast x14 * ucast x18 + ucast (2 * x12) * ucast x17);
         x34 = 2 * (ucast x16 * ucast x18 + ucast x14 * ucast x17);
         x35 = ucast x18 * ucast x18 + ucast (4 * x16) * ucast x17;
         x36 = ucast (2 * x18) * ucast x17;
         x37 = ucast (2 * x17) * ucast x17;
         x38 = x27 + push_bit 4 x37;
         x39 = x38 + push_bit 1 x37;
         x40 = x39 + x37;
         x41 = x26 + push_bit 4 x36;
         x42 = x41 + push_bit 1 x36;
         x43 = x42 + x36;
         x44 = x25 + push_bit 4 x35;
         x45 = x44 + push_bit 1 x35;
         x46 = x45 + x35;
         x47 = x24 + push_bit 4 x34;
         x48 = x47 + push_bit 1 x34;
         x49 = x48 + x34;
         x50 = x23 + push_bit 4 x33;
         x51 = x50 + push_bit 1 x33;
         x52 = x51 + x33;
         x53 = x22 + push_bit 4 x32;
         x54 = x53 + push_bit 1 x32;
         x55 = x54 + x32;
         x56 = x21 + push_bit 4 x31;
         x57 = x56 + push_bit 1 x31;
         x58 = x57 + x31;
         x59 = x20 + push_bit 4 x30;
         x60 = x59 + push_bit 1 x30;
         x61 = x60 + x30;
         x62 = x19 + push_bit 4 x29;
         x63 = x62 + push_bit 1 x29;
         x64 = x63 + x29
     in Ten x64 x61 x58 x55 x52 x49 x46 x43 x40 x28))"

definition fe_sq :: "fe \<Rightarrow> fe" where
  "fe_sq f = fe_carry (fe_sqr_wide f)"

text \<open>\<open>fe_mul_121666_impl\<close> is \<open>fe_mul_impl\<close> with the second operand's limbs as constants.\<close>

definition fe_mul121666 :: "fe \<Rightarrow> fe" where
  "fe_mul121666 f = fe_carry (fe_mul_wide f (Ten 121666 0 0 0 0 0 0 0 0 0))"

text \<open>\<open>fe_sq_tt(&t, &u); for (i = 1; i < n; ++i) fe_sq_tt(&t, &t);\<close>\<close>

definition fe_sq_times :: "fe \<Rightarrow> nat \<Rightarrow> fe" where
  "fe_sq_times u n = (fe_sq ^^ (n - 1)) (fe_sq u)"

definition fe_loose_invert :: "fe \<Rightarrow> fe" where
  "fe_loose_invert z =
    (let t0 = fe_sq z;
         t1 = fe_sq_times t0 2;
         t1 = fe_mul z t1;
         t0 = fe_mul t0 t1;
         t2 = fe_sq t0;
         t1 = fe_mul t1 t2;
         t2 = fe_sq_times t1 5;
         t1 = fe_mul t2 t1;
         t2 = fe_sq_times t1 10;
         t2 = fe_mul t2 t1;
         t3 = fe_sq_times t2 20;
         t2 = fe_mul t3 t2;
         t2 = fe_sq_times t2 10;
         t1 = fe_mul t2 t1;
         t2 = fe_sq_times t1 50;
         t2 = fe_mul t2 t1;
         t3 = fe_sq_times t2 100;
         t2 = fe_mul t3 t2;
         t2 = fe_sq_times t2 50;
         t1 = fe_mul t2 t1;
         t1 = fe_sq_times t1 5
     in fe_mul t1 t0)"

definition fe_invert :: "fe \<Rightarrow> fe" where
  "fe_invert z = (let l = z in fe_loose_invert l)"

section \<open>The ladder\<close>

definition cswap_limb :: "u32 \<Rightarrow> u32 \<Rightarrow> u32 \<Rightarrow> u32 \<times> u32" where
  "cswap_limb b f g = (let x = f XOR g; x = x AND b in (f XOR x, g XOR x))"

fun fe_cswap :: "fe \<Rightarrow> fe \<Rightarrow> u32 \<Rightarrow> fe \<times> fe" where
  "fe_cswap (Ten f0 f1 f2 f3 f4 f5 f6 f7 f8 f9) (Ten g0 g1 g2 g3 g4 g5 g6 g7 g8 g9) b =
    (let b = 0 - b;
         (f0, g0) = cswap_limb b f0 g0;
         (f1, g1) = cswap_limb b f1 g1;
         (f2, g2) = cswap_limb b f2 g2;
         (f3, g3) = cswap_limb b f3 g3;
         (f4, g4) = cswap_limb b f4 g4;
         (f5, g5) = cswap_limb b f5 g5;
         (f6, g6) = cswap_limb b f6 g6;
         (f7, g7) = cswap_limb b f7 g7;
         (f8, g8) = cswap_limb b f8 g8;
         (f9, g9) = cswap_limb b f9 g9
     in (Ten f0 f1 f2 f3 f4 f5 f6 f7 f8 f9, Ten g0 g1 g2 g3 g4 g5 g6 g7 g8 g9))"

text \<open>The body of the loop after the exchange, on \<open>(x2, z2, x3, z3)\<close>.\<close>

fun fiat32_step :: "fe \<Rightarrow> fe \<times> fe \<times> fe \<times> fe \<Rightarrow> fe \<times> fe \<times> fe \<times> fe" where
  "fiat32_step x1 (x2, z2, x3, z3) =
    (let tmp0l = fe_sub x3 z3;
         tmp1l = fe_sub x2 z2;
         x2l = fe_add x2 z2;
         z2l = fe_add x3 z3;
         z3 = fe_mul tmp0l x2l;
         z2 = fe_mul z2l tmp1l;
         tmp0 = fe_sq tmp1l;
         tmp1 = fe_sq x2l;
         x3l = fe_add z3 z2;
         z2l = fe_sub z3 z2;
         x2 = fe_mul tmp1 tmp0;
         tmp1l = fe_sub tmp1 tmp0;
         z2 = fe_sq z2l;
         z3 = fe_mul121666 tmp1l;
         x3 = fe_sq x3l;
         tmp0l = fe_add tmp0 z3;
         z3 = fe_mul x1 z2;
         z2 = fe_mul tmp1l tmp0l
     in (x2, z2, x3, z3))"

fun fiat32_cswap :: "u32 \<Rightarrow> fe \<times> fe \<times> fe \<times> fe \<Rightarrow> fe \<times> fe \<times> fe \<times> fe" where
  "fiat32_cswap swap (x2, z2, x3, z3) =
    (let (x2, x3) = fe_cswap x2 x3 swap;
         (z2, z3) = fe_cswap z2 z3 swap
     in (x2, z2, x3, z3))"

text \<open>\<open>for (pos = 254; pos >= 0; --pos)\<close>; the first argument is \<open>pos + 1\<close>.\<close>

primrec fiat32_loop :: "nat \<Rightarrow> fe \<Rightarrow> bytes \<Rightarrow> fe \<times> fe \<times> fe \<times> fe \<Rightarrow> u32 \<Rightarrow> fe \<times> fe \<times> fe \<times> fe" where
  "fiat32_loop 0 x1 e s swap = fiat32_cswap swap s"
| "fiat32_loop (Suc pos) x1 e s swap =
    (let b = 1 AND ucast (drop_bit (pos mod 8) (e ! (pos div 8)));
         swap = swap XOR b;
         s = fiat32_cswap swap s;
         swap = b
     in fiat32_loop pos x1 e (fiat32_step x1 s) swap)"

definition fiat32_generic :: "bytes \<Rightarrow> bytes \<Rightarrow> bytes" where
  "fiat32_generic scalar point =
    (let e = curve25519_clamp_secret scalar;
         x1 = fe_frombytes point;
         x2 = fe_1; z2 = fe_0; x3 = x1; z3 = fe_1;
         (x2, z2, x3, z3) = fiat32_loop 255 x1 e (x2, z2, x3, z3) 0;
         z2 = fe_invert z2;
         x2 = fe_mul x2 z2
     in fe_tobytes x2)"

definition fiat32_public_key :: "bytes \<Rightarrow> bytes" where
  "fiat32_public_key sk = fiat32_generic sk (9 # replicate 31 0)"

end
