(* ===== verification/Curve25519_Fiat32_Field.thy ===== *)
theory Curve25519_Fiat32_Field
  imports Curve25519_Fiat32 Curve25519_Correct
begin

text \<open>
  The columns of products and squares of the 32-bit Curve25519: no 32-bit or 64-bit operation
  wraps on loose operands, and the columns have the value of the product modulo
  \<open>2 ^ 255 - 19\<close>.
\<close>

section \<open>Values and bounds of limbs\<close>

text \<open>The limbs weigh \<open>2 ^ 0\<close>, \<open>2 ^ 26\<close>, \<open>2 ^ 51\<close>, \<open>2 ^ 77\<close> and so on.\<close>

fun val10 :: "'a::len word ten \<Rightarrow> int" where
  "val10 (Ten a0 a1 a2 a3 a4 a5 a6 a7 a8 a9) =
    uint a0 + 2 ^ 26 * uint a1 + 2 ^ 51 * uint a2 + 2 ^ 77 * uint a3 + 2 ^ 102 * uint a4
      + 2 ^ 128 * uint a5 + 2 ^ 153 * uint a6 + 2 ^ 179 * uint a7 + 2 ^ 204 * uint a8
      + 2 ^ 230 * uint a9"

fun limbs10_le :: "int \<Rightarrow> int \<Rightarrow> 'a::len word ten \<Rightarrow> bool" where
  "limbs10_le e d (Ten a0 a1 a2 a3 a4 a5 a6 a7 a8 a9) \<longleftrightarrow>
    uint a0 \<le> e \<and> uint a1 \<le> d \<and> uint a2 \<le> e \<and> uint a3 \<le> d \<and> uint a4 \<le> e
    \<and> uint a5 \<le> d \<and> uint a6 \<le> e \<and> uint a7 \<le> d \<and> uint a8 \<le> e \<and> uint a9 \<le> d"

text \<open>The bounds of \<open>fe\<close> (1.125 of the limb) and \<open>fe_loose\<close> (3.375 of it) in the source's comments.\<close>

definition tight10 :: "fe \<Rightarrow> bool" where
  "tight10 = limbs10_le 75497472 37748736"

definition loose10 :: "fe \<Rightarrow> bool" where
  "loose10 = limbs10_le 226492416 113246208"

lemma tight10_loose10: "tight10 a \<Longrightarrow> loose10 a"
  by (cases a) (simp add: tight10_def loose10_def)

section \<open>Columns of products and squares\<close>

lemma mul_columns:
  assumes "loose10 (Ten a0 a1 a2 a3 a4 a5 a6 a7 a8 a9)" "loose10 (Ten b0 b1 b2 b3 b4 b5 b6 b7 b8 b9)"
  shows "\<exists>t0 t1 t2 t3 t4 t5 t6 t7 t8 t9. fe_mul_wide (Ten a0 a1 a2 a3 a4 a5 a6 a7 a8 a9) (Ten b0 b1 b2 b3 b4 b5 b6 b7 b8 b9) = Ten t0 t1 t2 t3 t4 t5 t6 t7 t8 t9
    \<and> rep t0 (uint b0 * uint a0 + 19 * (2 * (uint b5 * uint a5 + uint b3 * uint a7 + uint b7 * uint a3
        + uint b1 * uint a9 + uint b9 * uint a1) + uint b4 * uint a6 + uint b6 * uint a4
        + uint b2 * uint a8 + uint b8 * uint a2)) (2 ^ 63)
    \<and> rep t1 (uint b0 * uint a1 + uint b1 * uint a0 + 19 * (uint b5 * uint a6 + uint b6 * uint a5
        + uint b4 * uint a7 + uint b7 * uint a4 + uint b3 * uint a8 + uint b8 * uint a3
        + uint b2 * uint a9 + uint b9 * uint a2)) (2 ^ 63)
    \<and> rep t2 (2 * uint b1 * uint a1 + uint b0 * uint a2 + uint b2 * uint a0 + 19 * (uint b6 * uint a6
        + 2 * (uint b5 * uint a7 + uint b7 * uint a5 + uint b3 * uint a9 + uint b9 * uint a3)
        + uint b4 * uint a8 + uint b8 * uint a4)) (2 ^ 63)
    \<and> rep t3 (uint b1 * uint a2 + uint b2 * uint a1 + uint b0 * uint a3 + uint b3 * uint a0
        + 19 * (uint b6 * uint a7 + uint b7 * uint a6 + uint b5 * uint a8 + uint b8 * uint a5
        + uint b4 * uint a9 + uint b9 * uint a4)) (2 ^ 63)
    \<and> rep t4 (uint b2 * uint a2 + 2 * (uint b1 * uint a3 + uint b3 * uint a1) + uint b0 * uint a4
        + uint b4 * uint a0 + 19 * (2 * (uint b7 * uint a7 + uint b5 * uint a9
        + uint b9 * uint a5) + uint b6 * uint a8 + uint b8 * uint a6)) (2 ^ 63)
    \<and> rep t5 (uint b2 * uint a3 + uint b3 * uint a2 + uint b1 * uint a4 + uint b4 * uint a1
        + uint b0 * uint a5 + uint b5 * uint a0 + 19 * (uint b7 * uint a8 + uint b8 * uint a7
        + uint b6 * uint a9 + uint b9 * uint a6)) (2 ^ 63)
    \<and> rep t6 (2 * (uint b3 * uint a3 + uint b1 * uint a5 + uint b5 * uint a1) + uint b2 * uint a4
        + uint b4 * uint a2 + uint b0 * uint a6 + uint b6 * uint a0 + 19 * (uint b8 * uint a8
        + 2 * (uint b7 * uint a9 + uint b9 * uint a7))) (2 ^ 63)
    \<and> rep t7 (uint b3 * uint a4 + uint b4 * uint a3 + uint b2 * uint a5 + uint b5 * uint a2
        + uint b1 * uint a6 + uint b6 * uint a1 + uint b0 * uint a7 + uint b7 * uint a0
        + 19 * (uint b8 * uint a9 + uint b9 * uint a8)) (2 ^ 63)
    \<and> rep t8 (uint b4 * uint a4 + 2 * (uint b3 * uint a5 + uint b5 * uint a3 + uint b1 * uint a7
        + uint b7 * uint a1) + uint b2 * uint a6 + uint b6 * uint a2 + uint b0 * uint a8
        + uint b8 * uint a0 + 19 * (2 * uint b9 * uint a9)) (2 ^ 63)
    \<and> rep t9 (uint b4 * uint a5 + uint b5 * uint a4 + uint b3 * uint a6 + uint b6 * uint a3
        + uint b2 * uint a7 + uint b7 * uint a2 + uint b1 * uint a8 + uint b8 * uint a1
        + uint b0 * uint a9 + uint b9 * uint a0) (2 ^ 63)"
proof -
  have a: "rep a0 (uint a0) 226492416" "rep a1 (uint a1) 113246208" "rep a2 (uint a2) 226492416"
      "rep a3 (uint a3) 113246208" "rep a4 (uint a4) 226492416" "rep a5 (uint a5) 113246208"
      "rep a6 (uint a6) 226492416" "rep a7 (uint a7) 113246208" "rep a8 (uint a8) 226492416"
      "rep a9 (uint a9) 113246208"
    and b: "rep b0 (uint b0) 226492416" "rep b1 (uint b1) 113246208" "rep b2 (uint b2) 226492416"
      "rep b3 (uint b3) 113246208" "rep b4 (uint b4) 226492416" "rep b5 (uint b5) 113246208"
      "rep b6 (uint b6) 226492416" "rep b7 (uint b7) 113246208" "rep b8 (uint b8) 226492416"
      "rep b9 (uint b9) 113246208"
    using assms by (simp_all add: loose10_def rep_def)
  note rs = rep_add rep_mult rep_ucast_up rep_push rep_numeral rep_0 a b
  show ?thesis
    unfolding fe_mul_wide_def ten.case Let_def
    by (intro exI, rule conjI, rule refl, intro conjI;
        (rule rep_eq, (rule rs | (simp; fail) | (simp add: algebra_simps; fail))+))
qed

lemma mul_identity:
  fixes a0 a1 a2 a3 a4 a5 a6 a7 a8 a9 b0 b1 b2 b3 b4 b5 b6 b7 b8 b9 :: int
  shows "(a0 + 2 ^ 26 * a1 + 2 ^ 51 * a2 + 2 ^ 77 * a3 + 2 ^ 102 * a4 + 2 ^ 128 * a5 + 2 ^ 153 * a6 + 2 ^ 179 * a7 + 2 ^ 204 * a8 + 2 ^ 230 * a9)
    * (b0 + 2 ^ 26 * b1 + 2 ^ 51 * b2 + 2 ^ 77 * b3 + 2 ^ 102 * b4 + 2 ^ 128 * b5 + 2 ^ 153 * b6 + 2 ^ 179 * b7 + 2 ^ 204 * b8 + 2 ^ 230 * b9) =
    (b0 * a0 + 19 * (2 * (b5 * a5 + b3 * a7 + b7 * a3 + b1 * a9 + b9 * a1) + b4 * a6 + b6 * a4
      + b2 * a8 + b8 * a2)) + 2 ^ 26 * (b0 * a1 + b1 * a0 + 19 * (b5 * a6 + b6 * a5 + b4 * a7
      + b7 * a4 + b3 * a8 + b8 * a3 + b2 * a9 + b9 * a2)) + 2 ^ 51 * (2 * b1 * a1 + b0 * a2
      + b2 * a0 + 19 * (b6 * a6 + 2 * (b5 * a7 + b7 * a5 + b3 * a9 + b9 * a3) + b4 * a8
      + b8 * a4)) + 2 ^ 77 * (b1 * a2 + b2 * a1 + b0 * a3 + b3 * a0 + 19 * (b6 * a7 + b7 * a6
      + b5 * a8 + b8 * a5 + b4 * a9 + b9 * a4)) + 2 ^ 102 * (b2 * a2 + 2 * (b1 * a3 + b3 * a1)
      + b0 * a4 + b4 * a0 + 19 * (2 * (b7 * a7 + b5 * a9 + b9 * a5) + b6 * a8 + b8 * a6))
      + 2 ^ 128 * (b2 * a3 + b3 * a2 + b1 * a4 + b4 * a1 + b0 * a5 + b5 * a0 + 19 * (b7 * a8
      + b8 * a7 + b6 * a9 + b9 * a6)) + 2 ^ 153 * (2 * (b3 * a3 + b1 * a5 + b5 * a1) + b2 * a4
      + b4 * a2 + b0 * a6 + b6 * a0 + 19 * (b8 * a8 + 2 * (b7 * a9 + b9 * a7)))
      + 2 ^ 179 * (b3 * a4 + b4 * a3 + b2 * a5 + b5 * a2 + b1 * a6 + b6 * a1 + b0 * a7 + b7 * a0
      + 19 * (b8 * a9 + b9 * a8)) + 2 ^ 204 * (b4 * a4 + 2 * (b3 * a5 + b5 * a3 + b1 * a7
      + b7 * a1) + b2 * a6 + b6 * a2 + b0 * a8 + b8 * a0 + 19 * (2 * b9 * a9))
      + 2 ^ 230 * (b4 * a5 + b5 * a4 + b3 * a6 + b6 * a3 + b2 * a7 + b7 * a2 + b1 * a8 + b8 * a1
      + b0 * a9 + b9 * a0)
    + p25519 * ((2 * (b5 * a5 + b3 * a7 + b7 * a3 + b1 * a9 + b9 * a1) + b4 * a6 + b6 * a4 + b2 * a8
        + b8 * a2) + 2 ^ 26 * (b5 * a6 + b6 * a5 + b4 * a7 + b7 * a4 + b3 * a8 + b8 * a3
        + b2 * a9 + b9 * a2) + 2 ^ 51 * (b6 * a6 + 2 * (b5 * a7 + b7 * a5 + b3 * a9 + b9 * a3)
        + b4 * a8 + b8 * a4) + 2 ^ 77 * (b6 * a7 + b7 * a6 + b5 * a8 + b8 * a5 + b4 * a9
        + b9 * a4) + 2 ^ 102 * (2 * (b7 * a7 + b5 * a9 + b9 * a5) + b6 * a8 + b8 * a6)
        + 2 ^ 128 * (b7 * a8 + b8 * a7 + b6 * a9 + b9 * a6) + 2 ^ 153 * (b8 * a8 + 2 * (b7 * a9
        + b9 * a7)) + 2 ^ 179 * (b8 * a9 + b9 * a8) + 2 ^ 204 * (2 * b9 * a9))"
  unfolding p25519_def by algebra

lemma sqr_columns:
  assumes "loose10 (Ten a0 a1 a2 a3 a4 a5 a6 a7 a8 a9)"
  shows "\<exists>t0 t1 t2 t3 t4 t5 t6 t7 t8 t9. fe_sqr_wide (Ten a0 a1 a2 a3 a4 a5 a6 a7 a8 a9) = Ten t0 t1 t2 t3 t4 t5 t6 t7 t8 t9
    \<and> rep t0 (uint a0 * uint a0 + 19 * (2 * (uint a5 * uint a5 + uint a4 * uint a6 + uint a2 * uint a8
        + 2 * (uint a3 * uint a7 + uint a1 * uint a9)))) (2 ^ 63)
    \<and> rep t1 (2 * uint a0 * uint a1 + 19 * (2 * (uint a5 * uint a6 + uint a4 * uint a7
        + uint a3 * uint a8 + uint a2 * uint a9))) (2 ^ 63)
    \<and> rep t2 (2 * (uint a1 * uint a1 + uint a0 * uint a2) + 19 * (uint a6 * uint a6
        + 2 * (uint a4 * uint a8 + 2 * (uint a5 * uint a7 + uint a3 * uint a9)))) (2 ^ 63)
    \<and> rep t3 (2 * (uint a1 * uint a2 + uint a0 * uint a3) + 19 * (2 * (uint a6 * uint a7
        + uint a5 * uint a8 + uint a4 * uint a9))) (2 ^ 63)
    \<and> rep t4 (uint a2 * uint a2 + 4 * uint a1 * uint a3 + 2 * uint a0 * uint a4
        + 19 * (2 * (uint a7 * uint a7 + uint a6 * uint a8 + 2 * uint a5 * uint a9))) (2 ^ 63)
    \<and> rep t5 (2 * (uint a2 * uint a3 + uint a1 * uint a4 + uint a0 * uint a5)
        + 19 * (2 * (uint a7 * uint a8 + uint a6 * uint a9))) (2 ^ 63)
    \<and> rep t6 (2 * (uint a3 * uint a3 + uint a2 * uint a4 + uint a0 * uint a6 + 2 * uint a1 * uint a5)
        + 19 * (uint a8 * uint a8 + 4 * uint a7 * uint a9)) (2 ^ 63)
    \<and> rep t7 (2 * (uint a3 * uint a4 + uint a2 * uint a5 + uint a1 * uint a6 + uint a0 * uint a7)
        + 19 * (2 * uint a8 * uint a9)) (2 ^ 63)
    \<and> rep t8 (uint a4 * uint a4 + 2 * (uint a2 * uint a6 + uint a0 * uint a8 + 2 * (uint a1 * uint a7
        + uint a3 * uint a5)) + 19 * (2 * uint a9 * uint a9)) (2 ^ 63)
    \<and> rep t9 (2 * (uint a4 * uint a5 + uint a3 * uint a6 + uint a2 * uint a7 + uint a1 * uint a8
        + uint a0 * uint a9)) (2 ^ 63)"
proof -
  have a: "rep a0 (uint a0) 226492416" "rep a1 (uint a1) 113246208" "rep a2 (uint a2) 226492416"
      "rep a3 (uint a3) 113246208" "rep a4 (uint a4) 226492416" "rep a5 (uint a5) 113246208"
      "rep a6 (uint a6) 226492416" "rep a7 (uint a7) 113246208" "rep a8 (uint a8) 226492416"
      "rep a9 (uint a9) 113246208"
    using assms by (simp_all add: loose10_def rep_def)
  note rs = rep_add rep_mult rep_ucast_up rep_push rep_numeral rep_0 a
  show ?thesis
    unfolding fe_sqr_wide_def ten.case Let_def
    by (intro exI, rule conjI, rule refl, intro conjI;
        (rule rep_eq, (rule rs | (simp; fail) | (simp add: algebra_simps; fail))+))
qed

lemma sqr_identity:
  fixes a0 a1 a2 a3 a4 a5 a6 a7 a8 a9 :: int
  shows "(a0 + 2 ^ 26 * a1 + 2 ^ 51 * a2 + 2 ^ 77 * a3 + 2 ^ 102 * a4 + 2 ^ 128 * a5 + 2 ^ 153 * a6 + 2 ^ 179 * a7 + 2 ^ 204 * a8 + 2 ^ 230 * a9)
    * (a0 + 2 ^ 26 * a1 + 2 ^ 51 * a2 + 2 ^ 77 * a3 + 2 ^ 102 * a4 + 2 ^ 128 * a5 + 2 ^ 153 * a6 + 2 ^ 179 * a7 + 2 ^ 204 * a8 + 2 ^ 230 * a9) =
    (a0 * a0 + 19 * (2 * (a5 * a5 + a4 * a6 + a2 * a8 + 2 * (a3 * a7 + a1 * a9))))
      + 2 ^ 26 * (2 * a0 * a1 + 19 * (2 * (a5 * a6 + a4 * a7 + a3 * a8 + a2 * a9)))
      + 2 ^ 51 * (2 * (a1 * a1 + a0 * a2) + 19 * (a6 * a6 + 2 * (a4 * a8 + 2 * (a5 * a7
      + a3 * a9)))) + 2 ^ 77 * (2 * (a1 * a2 + a0 * a3) + 19 * (2 * (a6 * a7 + a5 * a8
      + a4 * a9))) + 2 ^ 102 * (a2 * a2 + 4 * a1 * a3 + 2 * a0 * a4 + 19 * (2 * (a7 * a7
      + a6 * a8 + 2 * a5 * a9))) + 2 ^ 128 * (2 * (a2 * a3 + a1 * a4 + a0 * a5)
      + 19 * (2 * (a7 * a8 + a6 * a9))) + 2 ^ 153 * (2 * (a3 * a3 + a2 * a4 + a0 * a6
      + 2 * a1 * a5) + 19 * (a8 * a8 + 4 * a7 * a9)) + 2 ^ 179 * (2 * (a3 * a4 + a2 * a5
      + a1 * a6 + a0 * a7) + 19 * (2 * a8 * a9)) + 2 ^ 204 * (a4 * a4 + 2 * (a2 * a6 + a0 * a8
      + 2 * (a1 * a7 + a3 * a5)) + 19 * (2 * a9 * a9)) + 2 ^ 230 * (2 * (a4 * a5 + a3 * a6
      + a2 * a7 + a1 * a8 + a0 * a9))
    + p25519 * ((2 * (a5 * a5 + a4 * a6 + a2 * a8 + 2 * (a3 * a7 + a1 * a9))) + 2 ^ 26 * (2 * (a5 * a6
        + a4 * a7 + a3 * a8 + a2 * a9)) + 2 ^ 51 * (a6 * a6 + 2 * (a4 * a8 + 2 * (a5 * a7
        + a3 * a9))) + 2 ^ 77 * (2 * (a6 * a7 + a5 * a8 + a4 * a9)) + 2 ^ 102 * (2 * (a7 * a7
        + a6 * a8 + 2 * a5 * a9)) + 2 ^ 128 * (2 * (a7 * a8 + a6 * a9)) + 2 ^ 153 * (a8 * a8
        + 4 * a7 * a9) + 2 ^ 179 * (2 * a8 * a9) + 2 ^ 204 * (2 * a9 * a9))"
  unfolding p25519_def by algebra

end
