(* ===== verification/Curve25519_Fiat32_Key.thy ===== *)
theory Curve25519_Fiat32_Key
  imports Curve25519_Fiat32_Field
begin

text \<open>
  Carries, products, sums and differences of the 32-bit Curve25519 are the operations modulo
  \<open>2 ^ 255 - 19\<close>: the interpretation \<open>c32\<close> of the laws of a limb arithmetic.
\<close>

section \<open>Carries\<close>

lemma mask_26: "(0x3ffffff :: 'a::len word) = mask 26" and mask_25: "(0x1ffffff :: 'a::len word) = mask 25"
  by (simp_all add: mask_eq_exp_minus_1)

lemma uint_and_mask: "m = mask n \<Longrightarrow> uint (a AND m) = uint a mod 2 ^ n"
proof -
  assume "m = mask n"
  from rep_mask [OF rep_uint [OF order_refl] this, of a] show ?thesis by (simp only: rep_def)
qed

lemma uint_drop: "uint (drop_bit n a) = uint a div 2 ^ n"
  using rep_drop [OF rep_uint [OF order_refl], of n a] by (simp only: rep_def)

lemma uint_low_mask:
  fixes t :: u64
  assumes "m = mask n" "n \<le> 32"
  shows "uint ((ucast t :: u32) AND m) = uint t mod 2 ^ n"
proof -
  have "uint (ucast t :: u32) = uint t mod 2 ^ 32" by (simp add: unsigned_ucast_eq take_bit_eq_mod)
  moreover have "(2 :: int) ^ n dvd 2 ^ 32" using assms(2) by (rule le_imp_power_dvd)
  ultimately show ?thesis unfolding uint_and_mask [OF assms(1)] by (simp only: mod_mod_cancel)
qed

lemma wide_step:
  fixes t t' :: u64
  assumes "uint t \<le> 2 ^ 63 + 2 ^ 40" "uint t' \<le> 2 ^ 63" "n = 25 \<or> n = 26"
  shows "uint (drop_bit n t + t') = uint t div 2 ^ n + uint t'" and "uint (drop_bit n t + t') \<le> 2 ^ 63 + 2 ^ 40"
proof -
  have "uint t div 2 ^ n \<le> (2 ^ 63 + 2 ^ 40) div 2 ^ n" using assms(1) by (rule zdiv_mono1) simp
  also have "\<dots> \<le> 2 ^ 39" using assms(3) by auto
  finally have d: "uint (drop_bit n t) \<le> 2 ^ 39" by (simp only: uint_drop)
  have "rep (drop_bit n t + t') (uint (drop_bit n t) + uint t') (2 ^ 39 + 2 ^ 63)"
    by (rule rep_add [OF rep_uint [OF d] rep_uint [OF assms(2)]]) simp
  then show "uint (drop_bit n t + t') = uint t div 2 ^ n + uint t'" "uint (drop_bit n t + t') \<le> 2 ^ 63 + 2 ^ 40"
    by (simp_all add: rep_def uint_drop)
qed

text \<open>The tail of the carries: 19 times the top carry goes back to the lowest limbs.\<close>

lemma carry_tail:
  fixes s9 :: u64 and x87 x90 x93 :: u32
  assumes "uint s9 \<le> 2 ^ 63 + 2 ^ 40" "uint x87 < 2 ^ 26" "uint x90 < 2 ^ 25" "uint x93 < 2 ^ 26"
  defines "x115 \<equiv> ucast x87 + 19 * drop_bit 25 s9 :: u64"
  defines "x118 \<equiv> ucast (drop_bit 26 x115) + x90"
  shows "uint ((ucast x115 :: u32) AND 0x3ffffff) + 2 ^ 26 * uint (x118 AND 0x1ffffff) + 2 ^ 51 * uint (drop_bit 25 x118 + x93)
      = uint x87 + 2 ^ 26 * uint x90 + 2 ^ 51 * uint x93 + 19 * (uint s9 div 2 ^ 25)"
    and "uint ((ucast x115 :: u32) AND 0x3ffffff) < 2 ^ 26" "uint (x118 AND 0x1ffffff) < 2 ^ 25"
    and "uint (drop_bit 25 x118 + x93) \<le> 2 ^ 26 + 1"
proof -
  have d: "uint s9 div 2 ^ 25 \<le> 2 ^ 39"
    using zdiv_mono1 [OF assms(1), of "2 ^ 25"] by simp
  have "rep x115 (uint x87 + 19 * (uint s9 div 2 ^ 25)) (2 ^ 26 + 19 * 2 ^ 39)"
    unfolding x115_def
    by (rule rep_add [OF rep_ucast_up [OF rep_uint] rep_mult [OF rep_numeral rep_mono [OF rep_drop [OF rep_uint [OF assms(1)]]]]])
       (use assms(2) in simp_all)
  then have x115: "uint x115 = uint x87 + 19 * (uint s9 div 2 ^ 25)" "uint x115 \<le> 2 ^ 26 + 19 * 2 ^ 39"
    by (simp_all add: rep_def)
  have "uint x115 div 2 ^ 26 \<le> 2 ^ 18" using zdiv_mono1 [OF x115(2), of "2 ^ 26"] by simp
  then have "rep (drop_bit 26 x115) (uint x115 div 2 ^ 26) (2 ^ 18)" by (simp add: rep_def uint_drop)
  then have "rep x118 (uint x115 div 2 ^ 26 + uint x90) (2 ^ 18 + 2 ^ 25)"
    unfolding x118_def by (intro rep_add rep_ucast_up rep_uint) (use assms(3) in simp_all)
  then have x118: "uint x118 = uint x115 div 2 ^ 26 + uint x90" "uint x118 \<le> 2 ^ 18 + 2 ^ 25" by (simp_all add: rep_def)
  have "uint x118 div 2 ^ 25 \<le> 1" using zdiv_mono1 [OF x118(2), of "2 ^ 25"] by simp
  then have "rep (drop_bit 25 x118) (uint x118 div 2 ^ 25) 1" by (simp add: rep_def uint_drop)
  then have "rep (drop_bit 25 x118 + x93) (uint x118 div 2 ^ 25 + uint x93) (1 + 2 ^ 26)"
    by (intro rep_add rep_uint) (use assms(4) in simp_all)
  then have o: "uint (drop_bit 25 x118 + x93) = uint x118 div 2 ^ 25 + uint x93" "uint (drop_bit 25 x118 + x93) \<le> 2 ^ 26 + 1"
    by (simp_all add: rep_def)
  then show "uint (drop_bit 25 x118 + x93) \<le> 2 ^ 26 + 1" by simp
  show "uint ((ucast x115 :: u32) AND 0x3ffffff) < 2 ^ 26" "uint (x118 AND 0x1ffffff) < 2 ^ 25"
    by (simp_all add: uint_low_mask [OF mask_26] uint_and_mask [OF mask_25])
  obtain e f where 1: "uint x115 div 2 ^ 26 = e" "uint x115 mod 2 ^ 26 = f" "uint x115 = 2 ^ 26 * e + f" by (rule split_limb)
  obtain g h where 2: "uint x118 div 2 ^ 25 = g" "uint x118 mod 2 ^ 25 = h" "uint x118 = 2 ^ 25 * g + h" by (rule split_limb)
  have q: "uint ((ucast x115 :: u32) AND 0x3ffffff) = f" by (simp add: uint_low_mask [OF mask_26] flip: 1(2))
  show "uint ((ucast x115 :: u32) AND 0x3ffffff) + 2 ^ 26 * uint (x118 AND 0x1ffffff) + 2 ^ 51 * uint (drop_bit 25 x118 + x93)
      = uint x87 + 2 ^ 26 * uint x90 + 2 ^ 51 * uint x93 + 19 * (uint s9 div 2 ^ 25)"
    using x115(1) x118(1) 1(3) 2(3) unfolding o(1) q uint_and_mask [OF mask_25] 1(1) 2(1,2) by simp
qed

lemma carry_correct:
  fixes t0 :: u64
  assumes t: "uint t0 \<le> 2 ^ 63" "uint t1 \<le> 2 ^ 63" "uint t2 \<le> 2 ^ 63" "uint t3 \<le> 2 ^ 63" "uint t4 \<le> 2 ^ 63" "uint t5 \<le> 2 ^ 63" "uint t6 \<le> 2 ^ 63" "uint t7 \<le> 2 ^ 63" "uint t8 \<le> 2 ^ 63" "uint t9 \<le> 2 ^ 63"
  shows "tight10 (fe_carry (Ten t0 t1 t2 t3 t4 t5 t6 t7 t8 t9))" and "eqm (val10 (fe_carry (Ten t0 t1 t2 t3 t4 t5 t6 t7 t8 t9))) (val10 (Ten t0 t1 t2 t3 t4 t5 t6 t7 t8 t9))"
proof -
  define s0 where "s0 = t0"
  define s1 where "s1 = drop_bit 26 s0 + t1"
  define s2 where "s2 = drop_bit 25 s1 + t2"
  define s3 where "s3 = drop_bit 26 s2 + t3"
  define s4 where "s4 = drop_bit 25 s3 + t4"
  define s5 where "s5 = drop_bit 26 s4 + t5"
  define s6 where "s6 = drop_bit 25 s5 + t6"
  define s7 where "s7 = drop_bit 26 s6 + t7"
  define s8 where "s8 = drop_bit 25 s7 + t8"
  define s9 where "s9 = drop_bit 26 s8 + t9"
  have b0: "uint s0 \<le> 2 ^ 63 + 2 ^ 40" using t(1) by (simp add: s0_def)
  note e1 = wide_step [where n = 26, OF b0 t(2) disjI2 [OF refl], folded s1_def]
  note e2 = wide_step [where n = 25, OF e1(2) t(3) disjI1 [OF refl], folded s2_def]
  note e3 = wide_step [where n = 26, OF e2(2) t(4) disjI2 [OF refl], folded s3_def]
  note e4 = wide_step [where n = 25, OF e3(2) t(5) disjI1 [OF refl], folded s4_def]
  note e5 = wide_step [where n = 26, OF e4(2) t(6) disjI2 [OF refl], folded s5_def]
  note e6 = wide_step [where n = 25, OF e5(2) t(7) disjI1 [OF refl], folded s6_def]
  note e7 = wide_step [where n = 26, OF e6(2) t(8) disjI2 [OF refl], folded s7_def]
  note e8 = wide_step [where n = 25, OF e7(2) t(9) disjI1 [OF refl], folded s8_def]
  note e9 = wide_step [where n = 26, OF e8(2) t(10) disjI2 [OF refl], folded s9_def]
  obtain d0 m0 where k0: "uint s0 div 2 ^ 26 = d0" "uint s0 mod 2 ^ 26 = m0" "uint s0 = 2 ^ 26 * d0 + m0" by (rule split_limb)
  obtain d1 m1 where k1: "uint s1 div 2 ^ 25 = d1" "uint s1 mod 2 ^ 25 = m1" "uint s1 = 2 ^ 25 * d1 + m1" by (rule split_limb)
  obtain d2 m2 where k2: "uint s2 div 2 ^ 26 = d2" "uint s2 mod 2 ^ 26 = m2" "uint s2 = 2 ^ 26 * d2 + m2" by (rule split_limb)
  obtain d3 m3 where k3: "uint s3 div 2 ^ 25 = d3" "uint s3 mod 2 ^ 25 = m3" "uint s3 = 2 ^ 25 * d3 + m3" by (rule split_limb)
  obtain d4 m4 where k4: "uint s4 div 2 ^ 26 = d4" "uint s4 mod 2 ^ 26 = m4" "uint s4 = 2 ^ 26 * d4 + m4" by (rule split_limb)
  obtain d5 m5 where k5: "uint s5 div 2 ^ 25 = d5" "uint s5 mod 2 ^ 25 = m5" "uint s5 = 2 ^ 25 * d5 + m5" by (rule split_limb)
  obtain d6 m6 where k6: "uint s6 div 2 ^ 26 = d6" "uint s6 mod 2 ^ 26 = m6" "uint s6 = 2 ^ 26 * d6 + m6" by (rule split_limb)
  obtain d7 m7 where k7: "uint s7 div 2 ^ 25 = d7" "uint s7 mod 2 ^ 25 = m7" "uint s7 = 2 ^ 25 * d7 + m7" by (rule split_limb)
  obtain d8 m8 where k8: "uint s8 div 2 ^ 26 = d8" "uint s8 mod 2 ^ 26 = m8" "uint s8 = 2 ^ 26 * d8 + m8" by (rule split_limb)
  obtain d9 m9 where k9: "uint s9 div 2 ^ 25 = d9" "uint s9 mod 2 ^ 25 = m9" "uint s9 = 2 ^ 25 * d9 + m9" by (rule split_limb)
  have l0: "uint ((ucast s0 :: u32) AND 0x3ffffff) = m0" by (simp add: uint_low_mask [OF mask_26] flip: k0(2))
  have l1: "uint ((ucast s1 :: u32) AND 0x1ffffff) = m1" by (simp add: uint_low_mask [OF mask_25] flip: k1(2))
  have l2: "uint ((ucast s2 :: u32) AND 0x3ffffff) = m2" by (simp add: uint_low_mask [OF mask_26] flip: k2(2))
  have l3: "uint ((ucast s3 :: u32) AND 0x1ffffff) = m3" by (simp add: uint_low_mask [OF mask_25] flip: k3(2))
  have l4: "uint ((ucast s4 :: u32) AND 0x3ffffff) = m4" by (simp add: uint_low_mask [OF mask_26] flip: k4(2))
  have l5: "uint ((ucast s5 :: u32) AND 0x1ffffff) = m5" by (simp add: uint_low_mask [OF mask_25] flip: k5(2))
  have l6: "uint ((ucast s6 :: u32) AND 0x3ffffff) = m6" by (simp add: uint_low_mask [OF mask_26] flip: k6(2))
  have l7: "uint ((ucast s7 :: u32) AND 0x1ffffff) = m7" by (simp add: uint_low_mask [OF mask_25] flip: k7(2))
  have l8: "uint ((ucast s8 :: u32) AND 0x3ffffff) = m8" by (simp add: uint_low_mask [OF mask_26] flip: k8(2))
  have l9: "uint ((ucast s9 :: u32) AND 0x1ffffff) = m9" by (simp add: uint_low_mask [OF mask_25] flip: k9(2))
  have m: "0 \<le> m0" "m0 < 2 ^ 26" "0 \<le> m1" "m1 < 2 ^ 25" "0 \<le> m2" "m2 < 2 ^ 26" "0 \<le> m3" "m3 < 2 ^ 25" "0 \<le> m4" "m4 < 2 ^ 26" "0 \<le> m5" "m5 < 2 ^ 25" "0 \<le> m6" "m6 < 2 ^ 26" "0 \<le> m7" "m7 < 2 ^ 25" "0 \<le> m8" "m8 < 2 ^ 26" "0 \<le> m9" "m9 < 2 ^ 25"
    by (simp_all flip: k0(2) k1(2) k2(2) k3(2) k4(2) k5(2) k6(2) k7(2) k8(2) k9(2))
  define y where "y = ucast ((ucast s0 :: u32) AND 0x3ffffff) + 19 * drop_bit 25 s9"
  define z where "z = ucast (drop_bit 26 y) + ((ucast s1 :: u32) AND 0x1ffffff)"
  have b9: "uint s9 \<le> 2 ^ 63 + 2 ^ 40" using e9(2) by simp
  have lt: "uint ((ucast s0 :: u32) AND 0x3ffffff) < 2 ^ 26" "uint ((ucast s1 :: u32) AND 0x1ffffff) < 2 ^ 25"
    "uint ((ucast s2 :: u32) AND 0x3ffffff) < 2 ^ 26" unfolding l0 l1 l2 by (rule m)+
  note tail = carry_tail [OF b9 lt, folded y_def, folded z_def, unfolded l0 l1 l2 k9(1)]
  let ?o0 = "(ucast y :: u32) AND 0x3ffffff" and ?o1 = "z AND 0x1ffffff"
    and ?o2 = "drop_bit 25 z + ((ucast s2 :: u32) AND 0x3ffffff)"
  have f: "fe_carry (Ten t0 t1 t2 t3 t4 t5 t6 t7 t8 t9) = Ten ?o0 ?o1 ?o2 (ucast s3 AND 0x1ffffff) (ucast s4 AND 0x3ffffff) (ucast s5 AND 0x1ffffff) (ucast s6 AND 0x3ffffff) (ucast s7 AND 0x1ffffff) (ucast s8 AND 0x3ffffff) (ucast s9 AND 0x1ffffff)"
    by (simp only: fe_carry_def ten.case Let_def y_def z_def s9_def s8_def s7_def s6_def s5_def s4_def s3_def s2_def s1_def s0_def)
  have lo: "uint ?o0 \<le> 75497472" "uint ?o1 \<le> 37748736" "uint ?o2 \<le> 75497472" using tail(2-4) by simp_all
  show "tight10 (fe_carry (Ten t0 t1 t2 t3 t4 t5 t6 t7 t8 t9))"
    unfolding f tight10_def limbs10_le.simps l3 l4 l5 l6 l7 l8 l9 using lo m by simp
  have "val10 (Ten t0 t1 t2 t3 t4 t5 t6 t7 t8 t9) = val10 (Ten ?o0 ?o1 ?o2 (ucast s3 AND 0x1ffffff) (ucast s4 AND 0x3ffffff) (ucast s5 AND 0x1ffffff) (ucast s6 AND 0x3ffffff) (ucast s7 AND 0x1ffffff) (ucast s8 AND 0x3ffffff) (ucast s9 AND 0x1ffffff)) + p25519 * d9"
  proof -
    have q0: "uint t0 = 2 ^ 26 * d0 + m0" using k0(3) by (simp only: s0_def)
    have q1: "uint t1 = 2 ^ 25 * d1 + m1 - d0" using e1(1) [unfolded k0(1)] k1(3) by linarith
    have q2: "uint t2 = 2 ^ 26 * d2 + m2 - d1" using e2(1) [unfolded k1(1)] k2(3) by linarith
    have q3: "uint t3 = 2 ^ 25 * d3 + m3 - d2" using e3(1) [unfolded k2(1)] k3(3) by linarith
    have q4: "uint t4 = 2 ^ 26 * d4 + m4 - d3" using e4(1) [unfolded k3(1)] k4(3) by linarith
    have q5: "uint t5 = 2 ^ 25 * d5 + m5 - d4" using e5(1) [unfolded k4(1)] k5(3) by linarith
    have q6: "uint t6 = 2 ^ 26 * d6 + m6 - d5" using e6(1) [unfolded k5(1)] k6(3) by linarith
    have q7: "uint t7 = 2 ^ 25 * d7 + m7 - d6" using e7(1) [unfolded k6(1)] k7(3) by linarith
    have q8: "uint t8 = 2 ^ 26 * d8 + m8 - d7" using e8(1) [unfolded k7(1)] k8(3) by linarith
    have q9: "uint t9 = 2 ^ 25 * d9 + m9 - d8" using e9(1) [unfolded k8(1)] k9(3) by linarith
    note t = q0 q1 q2 q3 q4 q5 q6 q7 q8 q9
    have "val10 (Ten ?o0 ?o1 ?o2 (ucast s3 AND 0x1ffffff) (ucast s4 AND 0x3ffffff) (ucast s5 AND 0x1ffffff) (ucast s6 AND 0x3ffffff) (ucast s7 AND 0x1ffffff) (ucast s8 AND 0x3ffffff) (ucast s9 AND 0x1ffffff)) = (uint ?o0 + 2 ^ 26 * uint ?o1 + 2 ^ 51 * uint ?o2) + (2 ^ 77 * m3 + 2 ^ 102 * m4 + 2 ^ 128 * m5 + 2 ^ 153 * m6 + 2 ^ 179 * m7 + 2 ^ 204 * m8 + 2 ^ 230 * m9)"
      unfolding val10.simps l3 l4 l5 l6 l7 l8 l9 by simp
    then show ?thesis unfolding tail(1) val10.simps t p25519_def by simp
  qed
  then show "eqm (val10 (fe_carry (Ten t0 t1 t2 t3 t4 t5 t6 t7 t8 t9))) (val10 (Ten t0 t1 t2 t3 t4 t5 t6 t7 t8 t9))"
    unfolding f by (intro eqm_sym [OF eqm_multiple])
qed

section \<open>The field operations\<close>

lemma mul_wide_value:
  assumes "loose10 (Ten a0 a1 a2 a3 a4 a5 a6 a7 a8 a9)" "loose10 (Ten b0 b1 b2 b3 b4 b5 b6 b7 b8 b9)"
  shows "\<exists>t0 t1 t2 t3 t4 t5 t6 t7 t8 t9. fe_mul_wide (Ten a0 a1 a2 a3 a4 a5 a6 a7 a8 a9) (Ten b0 b1 b2 b3 b4 b5 b6 b7 b8 b9) = Ten t0 t1 t2 t3 t4 t5 t6 t7 t8 t9
    \<and> uint t0 \<le> 2 ^ 63 \<and> uint t1 \<le> 2 ^ 63 \<and> uint t2 \<le> 2 ^ 63 \<and> uint t3 \<le> 2 ^ 63 \<and> uint t4 \<le> 2 ^ 63 \<and> uint t5 \<le> 2 ^ 63 \<and> uint t6 \<le> 2 ^ 63 \<and> uint t7 \<le> 2 ^ 63 \<and> uint t8 \<le> 2 ^ 63 \<and> uint t9 \<le> 2 ^ 63
    \<and> eqm (val10 (Ten t0 t1 t2 t3 t4 t5 t6 t7 t8 t9)) (val10 (Ten a0 a1 a2 a3 a4 a5 a6 a7 a8 a9) * val10 (Ten b0 b1 b2 b3 b4 b5 b6 b7 b8 b9))"
  using mul_columns [OF assms] unfolding rep_iff
  apply (elim exE conjE)
  apply (intro exI conjI, assumption+)
  apply (simp only: val10.simps)
  apply (rule eqm_sym [OF eqm_multiple [OF mul_identity]])
  done

lemma fe_mul_correct:
  assumes "loose10 a" "loose10 b"
  shows "tight10 (fe_mul a b)" and "eqm (val10 (fe_mul a b)) (val10 a * val10 b)"
proof -
  obtain a0 a1 a2 a3 a4 a5 a6 a7 a8 a9 where a: "a = Ten a0 a1 a2 a3 a4 a5 a6 a7 a8 a9" by (cases a)
  obtain b0 b1 b2 b3 b4 b5 b6 b7 b8 b9 where b: "b = Ten b0 b1 b2 b3 b4 b5 b6 b7 b8 b9" by (cases b)
  from mul_wide_value [OF assms [unfolded a b]] obtain t0 t1 t2 t3 t4 t5 t6 t7 t8 t9
    where w: "fe_mul_wide (Ten a0 a1 a2 a3 a4 a5 a6 a7 a8 a9) (Ten b0 b1 b2 b3 b4 b5 b6 b7 b8 b9) = Ten t0 t1 t2 t3 t4 t5 t6 t7 t8 t9"
      and t: "uint t0 \<le> 2 ^ 63" "uint t1 \<le> 2 ^ 63" "uint t2 \<le> 2 ^ 63" "uint t3 \<le> 2 ^ 63" "uint t4 \<le> 2 ^ 63" "uint t5 \<le> 2 ^ 63" "uint t6 \<le> 2 ^ 63" "uint t7 \<le> 2 ^ 63" "uint t8 \<le> 2 ^ 63" "uint t9 \<le> 2 ^ 63"
      and v: "eqm (val10 (Ten t0 t1 t2 t3 t4 t5 t6 t7 t8 t9)) (val10 (Ten a0 a1 a2 a3 a4 a5 a6 a7 a8 a9) * val10 (Ten b0 b1 b2 b3 b4 b5 b6 b7 b8 b9))" by blast
  have f: "fe_mul a b = fe_carry (Ten t0 t1 t2 t3 t4 t5 t6 t7 t8 t9)" by (simp only: fe_mul_def a b w)
  show "tight10 (fe_mul a b)" unfolding f by (rule carry_correct(1) [OF t])
  show "eqm (val10 (fe_mul a b)) (val10 a * val10 b)"
    unfolding f using eqm_trans [OF carry_correct(2) [OF t] v] by (simp only: a b)
qed

lemma sqr_wide_value:
  assumes "loose10 (Ten a0 a1 a2 a3 a4 a5 a6 a7 a8 a9)"
  shows "\<exists>t0 t1 t2 t3 t4 t5 t6 t7 t8 t9. fe_sqr_wide (Ten a0 a1 a2 a3 a4 a5 a6 a7 a8 a9) = Ten t0 t1 t2 t3 t4 t5 t6 t7 t8 t9
    \<and> uint t0 \<le> 2 ^ 63 \<and> uint t1 \<le> 2 ^ 63 \<and> uint t2 \<le> 2 ^ 63 \<and> uint t3 \<le> 2 ^ 63 \<and> uint t4 \<le> 2 ^ 63 \<and> uint t5 \<le> 2 ^ 63 \<and> uint t6 \<le> 2 ^ 63 \<and> uint t7 \<le> 2 ^ 63 \<and> uint t8 \<le> 2 ^ 63 \<and> uint t9 \<le> 2 ^ 63
    \<and> eqm (val10 (Ten t0 t1 t2 t3 t4 t5 t6 t7 t8 t9)) (val10 (Ten a0 a1 a2 a3 a4 a5 a6 a7 a8 a9) * val10 (Ten a0 a1 a2 a3 a4 a5 a6 a7 a8 a9))"
  using sqr_columns [OF assms] unfolding rep_iff
  apply (elim exE conjE)
  apply (intro exI conjI, assumption+)
  apply (simp only: val10.simps)
  apply (rule eqm_sym [OF eqm_multiple [OF sqr_identity]])
  done

lemma fe_sq_correct:
  assumes "loose10 a"
  shows "tight10 (fe_sq a)" and "eqm (val10 (fe_sq a)) (val10 a * val10 a)"
proof -
  obtain a0 a1 a2 a3 a4 a5 a6 a7 a8 a9 where a: "a = Ten a0 a1 a2 a3 a4 a5 a6 a7 a8 a9" by (cases a)
  from sqr_wide_value [OF assms [unfolded a]] obtain t0 t1 t2 t3 t4 t5 t6 t7 t8 t9
    where w: "fe_sqr_wide (Ten a0 a1 a2 a3 a4 a5 a6 a7 a8 a9) = Ten t0 t1 t2 t3 t4 t5 t6 t7 t8 t9"
      and t: "uint t0 \<le> 2 ^ 63" "uint t1 \<le> 2 ^ 63" "uint t2 \<le> 2 ^ 63" "uint t3 \<le> 2 ^ 63" "uint t4 \<le> 2 ^ 63" "uint t5 \<le> 2 ^ 63" "uint t6 \<le> 2 ^ 63" "uint t7 \<le> 2 ^ 63" "uint t8 \<le> 2 ^ 63" "uint t9 \<le> 2 ^ 63"
      and v: "eqm (val10 (Ten t0 t1 t2 t3 t4 t5 t6 t7 t8 t9)) (val10 (Ten a0 a1 a2 a3 a4 a5 a6 a7 a8 a9) * val10 (Ten a0 a1 a2 a3 a4 a5 a6 a7 a8 a9))" by blast
  have f: "fe_sq a = fe_carry (Ten t0 t1 t2 t3 t4 t5 t6 t7 t8 t9)" by (simp only: fe_sq_def a w)
  show "tight10 (fe_sq a)" unfolding f by (rule carry_correct(1) [OF t])
  show "eqm (val10 (fe_sq a)) (val10 a * val10 a)"
    unfolding f using eqm_trans [OF carry_correct(2) [OF t] v] by (simp only: a)
qed

lemma fe_mul121666_correct:
  assumes "loose10 a"
  shows "tight10 (fe_mul121666 a)" and "eqm (val10 (fe_mul121666 a)) (121666 * val10 a)"
proof -
  have l: "loose10 (Ten 121666 0 0 0 0 0 0 0 0 0)" by (simp add: loose10_def)
  have m: "fe_mul121666 a = fe_mul a (Ten 121666 0 0 0 0 0 0 0 0 0)" by (simp only: fe_mul121666_def fe_mul_def)
  have v: "val10 (Ten 121666 0 0 0 0 0 0 0 0 0 :: fe) = 121666" by simp
  show "tight10 (fe_mul121666 a)" unfolding m by (rule fe_mul_correct(1) [OF assms l])
  show "eqm (val10 (fe_mul121666 a)) (121666 * val10 a)"
    using fe_mul_correct(2) [OF assms l] unfolding m v by (simp only: mult.commute)
qed

lemma fe_add_correct:
  assumes "tight10 a" "tight10 b"
  shows "loose10 (fe_add a b)" and "eqm (val10 (fe_add a b)) (val10 a + val10 b)"
proof -
  obtain a0 a1 a2 a3 a4 a5 a6 a7 a8 a9 where a: "a = Ten a0 a1 a2 a3 a4 a5 a6 a7 a8 a9" by (cases a)
  obtain b0 b1 b2 b3 b4 b5 b6 b7 b8 b9 where b: "b = Ten b0 b1 b2 b3 b4 b5 b6 b7 b8 b9" by (cases b)
  have s: "uint (x + y) = uint x + uint y" if "uint x \<le> 75497472" "uint y \<le> 75497472" for x y :: u32
    using rep_add [OF rep_uint [OF that(1)] rep_uint [OF that(2)]] by (simp add: rep_def)
  have t: "uint a0 \<le> 75497472" "uint a1 \<le> 37748736" "uint a2 \<le> 75497472" "uint a3 \<le> 37748736" "uint a4 \<le> 75497472" "uint a5 \<le> 37748736" "uint a6 \<le> 75497472" "uint a7 \<le> 37748736" "uint a8 \<le> 75497472" "uint a9 \<le> 37748736" "uint b0 \<le> 75497472" "uint b1 \<le> 37748736" "uint b2 \<le> 75497472" "uint b3 \<le> 37748736" "uint b4 \<le> 75497472" "uint b5 \<le> 37748736" "uint b6 \<le> 75497472" "uint b7 \<le> 37748736" "uint b8 \<le> 75497472" "uint b9 \<le> 37748736"
    using assms by (simp_all add: a b tight10_def)
  have e: "uint (a0 + b0) = uint a0 + uint b0" "uint (a1 + b1) = uint a1 + uint b1" "uint (a2 + b2) = uint a2 + uint b2" "uint (a3 + b3) = uint a3 + uint b3" "uint (a4 + b4) = uint a4 + uint b4" "uint (a5 + b5) = uint a5 + uint b5" "uint (a6 + b6) = uint a6 + uint b6" "uint (a7 + b7) = uint a7 + uint b7" "uint (a8 + b8) = uint a8 + uint b8" "uint (a9 + b9) = uint a9 + uint b9"
    using t by (simp_all add: s)
  show "loose10 (fe_add a b)" unfolding a b fe_add.simps loose10_def limbs10_le.simps e using t by simp
  show "eqm (val10 (fe_add a b)) (val10 a + val10 b)"
    unfolding a b fe_add.simps val10.simps e by (simp add: algebra_simps)
qed

lemma fe_sub_correct:
  assumes "tight10 a" "tight10 b"
  shows "loose10 (fe_sub a b)" and "eqm (val10 (fe_sub a b)) (val10 a - val10 b)"
proof -
  obtain a0 a1 a2 a3 a4 a5 a6 a7 a8 a9 where a: "a = Ten a0 a1 a2 a3 a4 a5 a6 a7 a8 a9" by (cases a)
  obtain b0 b1 b2 b3 b4 b5 b6 b7 b8 b9 where b: "b = Ten b0 b1 b2 b3 b4 b5 b6 b7 b8 b9" by (cases b)
  have s: "uint (c + x - y) = uint c + uint x - uint y"
    if "uint x \<le> k" "uint y \<le> k" "k \<le> uint c" "uint c + k < 2 ^ 32" for x y c :: u32 and k
  proof -
    have "rep (c + x) (uint c + uint x) (uint c + k)"
      by (rule rep_add [OF rep_uint [OF order_refl] rep_uint [OF that(1)]]) (use that(4) in simp)
    from rep_diff [OF this rep_uint [OF that(2)]] that(2,3) uint_ge_0 [of x] show ?thesis by (simp add: rep_def)
  qed
  have t: "uint a0 \<le> 75497472" "uint a1 \<le> 37748736" "uint a2 \<le> 75497472" "uint a3 \<le> 37748736" "uint a4 \<le> 75497472" "uint a5 \<le> 37748736" "uint a6 \<le> 75497472" "uint a7 \<le> 37748736" "uint a8 \<le> 75497472" "uint a9 \<le> 37748736" "uint b0 \<le> 75497472" "uint b1 \<le> 37748736" "uint b2 \<le> 75497472" "uint b3 \<le> 37748736" "uint b4 \<le> 75497472" "uint b5 \<le> 37748736" "uint b6 \<le> 75497472" "uint b7 \<le> 37748736" "uint b8 \<le> 75497472" "uint b9 \<le> 37748736"
    using assms by (simp_all add: a b tight10_def)
  have e0: "uint (0x7ffffda + a0 - b0) = 134217690 + uint a0 - uint b0"
    using s [OF t(1) t(11), of "0x7ffffda"] by simp
  have e1: "uint (0x3fffffe + a1 - b1) = 67108862 + uint a1 - uint b1"
    using s [OF t(2) t(12), of "0x3fffffe"] by simp
  have e2: "uint (0x7fffffe + a2 - b2) = 134217726 + uint a2 - uint b2"
    using s [OF t(3) t(13), of "0x7fffffe"] by simp
  have e3: "uint (0x3fffffe + a3 - b3) = 67108862 + uint a3 - uint b3"
    using s [OF t(4) t(14), of "0x3fffffe"] by simp
  have e4: "uint (0x7fffffe + a4 - b4) = 134217726 + uint a4 - uint b4"
    using s [OF t(5) t(15), of "0x7fffffe"] by simp
  have e5: "uint (0x3fffffe + a5 - b5) = 67108862 + uint a5 - uint b5"
    using s [OF t(6) t(16), of "0x3fffffe"] by simp
  have e6: "uint (0x7fffffe + a6 - b6) = 134217726 + uint a6 - uint b6"
    using s [OF t(7) t(17), of "0x7fffffe"] by simp
  have e7: "uint (0x3fffffe + a7 - b7) = 67108862 + uint a7 - uint b7"
    using s [OF t(8) t(18), of "0x3fffffe"] by simp
  have e8: "uint (0x7fffffe + a8 - b8) = 134217726 + uint a8 - uint b8"
    using s [OF t(9) t(19), of "0x7fffffe"] by simp
  have e9: "uint (0x3fffffe + a9 - b9) = 67108862 + uint a9 - uint b9"
    using s [OF t(10) t(20), of "0x3fffffe"] by simp
  have nn: "0 \<le> uint a0" "0 \<le> uint b0" "0 \<le> uint a1" "0 \<le> uint b1" "0 \<le> uint a2" "0 \<le> uint b2" "0 \<le> uint a3" "0 \<le> uint b3" "0 \<le> uint a4" "0 \<le> uint b4" "0 \<le> uint a5" "0 \<le> uint b5" "0 \<le> uint a6" "0 \<le> uint b6" "0 \<le> uint a7" "0 \<le> uint b7" "0 \<le> uint a8" "0 \<le> uint b8" "0 \<le> uint a9" "0 \<le> uint b9" by simp_all
  have le: "c + uint x - uint y \<le> e" if "uint x \<le> k" "c + k \<le> e" for c e k and x y :: u32
    using that uint_ge_0 [of y] by linarith
  show "loose10 (fe_sub a b)"
    unfolding a b fe_sub.simps loose10_def limbs10_le.simps e0 e1 e2 e3 e4 e5 e6 e7 e8 e9
    by (intro conjI, rule le [OF t(1)], simp, rule le [OF t(2)], simp, rule le [OF t(3)], simp, rule le [OF t(4)], simp, rule le [OF t(5)], simp, rule le [OF t(6)], simp, rule le [OF t(7)], simp, rule le [OF t(8)], simp, rule le [OF t(9)], simp, rule le [OF t(10)], simp)
  have "val10 (fe_sub a b) = val10 a - val10 b + p25519 * 2"
    unfolding a b fe_sub.simps val10.simps e0 e1 e2 e3 e4 e5 e6 e7 e8 e9 p25519_def by simp
  then show "eqm (val10 (fe_sub a b)) (val10 a - val10 b)" by (rule eqm_multiple)
qed

interpretation c32: limb_field val10 tight10 loose10 fe_mul fe_add fe_sub fe_sq fe_mul121666 121666
  by unfold_locales (simp_all add: tight10_loose10 fe_mul_correct fe_sq_correct fe_mul121666_correct fe_add_correct fe_sub_correct)

end
