(* ===== verification/Curve25519_Fiat32_Bytes.thy ===== *)
theory Curve25519_Fiat32_Bytes
  imports Curve25519_Fiat32_Key Curve25519_Format
begin

text \<open>
  Bytes into limbs for the 32-bit Curve25519: the coordinate of a point is decoded as in
  RFC 7748, its top bit ignored.
\<close>

section \<open>Reading a coordinate\<close>

lemma rep_byte32: "rep (ucast (b :: u8) :: u32) (int (unat b)) 255"
proof -
  have "rep b (int (unat b)) 255" using uint_lt2p [of b] by (simp add: rep_def)
  then show ?thesis by (rule rep_ucast_up) simp
qed

lemma get_le32:
  assumes "4 \<le> length p"
  shows "uint (get_unaligned_le32 p) = int (le_val (take 4 p))"
proof -
  have "take 4 p = [p ! 0, p ! 1, p ! 2, p ! 3]"
    using assms by (intro nth_equalityI) (auto simp: less_Suc_eq numeral_eq_Suc)
  then have v: "le_val (take 4 p) = unat (p ! 0) + unat (p ! 1) * 2 ^ 8 + unat (p ! 2) * 2 ^ 16 + unat (p ! 3) * 2 ^ 24"
    by simp
  have "rep (get_unaligned_le32 p) (int (unat (p ! 0)) + int (unat (p ! 1)) * 2 ^ 8 + int (unat (p ! 2)) * 2 ^ 16
      + int (unat (p ! 3)) * 2 ^ 24) (2 ^ 32 - 1)"
    unfolding get_unaligned_le32_def
    by (rule rep_mono, (rule rep_or_push rep_byte32 | simp)+)
  then show ?thesis unfolding v by (simp add: rep_def)
qed

lemma div_power_less: "x < a * 2 ^ n \<Longrightarrow> x div 2 ^ n < a" for x a :: int
proof -
  assume "x < a * 2 ^ n"
  moreover have "0 \<le> x mod 2 ^ n" by simp
  then have "x div 2 ^ n * 2 ^ n \<le> x" using div_mult_mod_eq [of x "2 ^ n"] by linarith
  ultimately have "x div 2 ^ n * 2 ^ n < a * 2 ^ n" by linarith
  then show ?thesis by simp
qed

lemma q_bound: "uint (a :: u32) div 2 ^ n = q \<Longrightarrow> n + m = 32 \<Longrightarrow> 0 \<le> q \<and> q < 2 ^ m"
proof -
  assume q: "uint a div 2 ^ n = q" and n: "n + m = 32"
  have "(2 :: int) ^ 32 = 2 ^ m * 2 ^ n" unfolding n [symmetric] power_add by (rule mult.commute)
  moreover have "uint a < 2 ^ 32" using uint_lt2p [of a] by simp
  ultimately have "uint a < 2 ^ m * 2 ^ n" by (simp only:)
  then have "uint a div 2 ^ n < 2 ^ m" by (rule div_power_less)
  then show ?thesis unfolding q [symmetric] by (simp add: pos_imp_zdiv_nonneg_iff)
qed

lemma or_value:
  fixes a b :: u32
  assumes "q < 2 ^ s" "0 \<le> r" "q + r * 2 ^ s < 2 ^ 32" "s \<le> 32"
    and "uint a div 2 ^ n = q" "uint b mod 2 ^ j = r" "m = mask j"
  shows "uint (drop_bit n a OR push_bit s (b AND m)) = q + r * 2 ^ s"
proof -
  have u: "uint (drop_bit n a) = q" "uint (b AND m) = r"
    using assms(5-7) by (simp_all only: uint_drop uint_and_mask)
  have "uint (drop_bit n a) < 2 ^ s" using assms(1) u by simp
  moreover have "0 \<le> q" using uint_ge_0 [of "drop_bit n a"] u by simp
  ultimately show ?thesis
    using uint_or_push(1) [of "drop_bit n a" s "b AND m"] assms(2-4) unfolding u by simp
qed

lemma le_val_word:
  assumes "4 \<le> length p"
  shows "int (le_val p) = uint (get_unaligned_le32 p) + 2 ^ 32 * int (le_val (drop 4 p))"
proof -
  obtain a b c d q where p: "p = a # b # c # d # q"
    using assms by (cases p; cases "tl p"; cases "tl (tl p)"; cases "tl (tl (tl p))") auto
  show ?thesis unfolding get_le32 [OF assms] unfolding p by simp
qed

text \<open>The eight words read are the digits of the encoded integer to the base \<open>2 ^ 32\<close>.\<close>

lemma words32_value:
  assumes "length bs = 32"
  shows "int (le_val bs) = uint (get_unaligned_le32 bs) + 2 ^ 32 * uint (get_unaligned_le32 (drop 4 bs)) + 2 ^ 64 * uint (get_unaligned_le32 (drop 8 bs)) + 2 ^ 96 * uint (get_unaligned_le32 (drop 12 bs)) + 2 ^ 128 * uint (get_unaligned_le32 (drop 16 bs))
      + 2 ^ 160 * uint (get_unaligned_le32 (drop 20 bs)) + 2 ^ 192 * uint (get_unaligned_le32 (drop 24 bs)) + 2 ^ 224 * uint (get_unaligned_le32 (drop 28 bs))"
proof -
  have w: "int (le_val (drop k bs)) = uint (get_unaligned_le32 (drop k bs)) + 2 ^ 32 * int (le_val (drop j bs))"
    if "k \<le> 28" "j = k + 4" for j k
    using le_val_word [of "drop k bs"] that assms by (simp add: add.commute)
  have e: "int (le_val (drop 0 bs)) = uint (get_unaligned_le32 (drop 0 bs)) + 2 ^ 32 * int (le_val (drop 4 bs))" "int (le_val (drop 4 bs)) = uint (get_unaligned_le32 (drop 4 bs)) + 2 ^ 32 * int (le_val (drop 8 bs))" "int (le_val (drop 8 bs)) = uint (get_unaligned_le32 (drop 8 bs)) + 2 ^ 32 * int (le_val (drop 12 bs))" "int (le_val (drop 12 bs)) = uint (get_unaligned_le32 (drop 12 bs)) + 2 ^ 32 * int (le_val (drop 16 bs))" "int (le_val (drop 16 bs)) = uint (get_unaligned_le32 (drop 16 bs)) + 2 ^ 32 * int (le_val (drop 20 bs))" "int (le_val (drop 20 bs)) = uint (get_unaligned_le32 (drop 20 bs)) + 2 ^ 32 * int (le_val (drop 24 bs))" "int (le_val (drop 24 bs)) = uint (get_unaligned_le32 (drop 24 bs)) + 2 ^ 32 * int (le_val (drop 28 bs))" "int (le_val (drop 28 bs)) = uint (get_unaligned_le32 (drop 28 bs)) + 2 ^ 32 * int (le_val (drop 32 bs))"
    by (rule w; simp)+
  have "drop 32 bs = []" using assms by simp
  then show ?thesis using e(1) unfolding drop_0 e(2-8) by (simp only: le_val.simps) simp
qed

lemma frombytes_correct:
  assumes "length bs = 32"
  shows "tight10 (fe_frombytes bs)" and "val10 (fe_frombytes bs) = rfc_decode_u bs"
proof -
  let ?v = "int (le_val bs)"
  define a0 where "a0 = get_unaligned_le32 bs"
  define a1 where "a1 = get_unaligned_le32 (drop 4 bs)"
  define a2 where "a2 = get_unaligned_le32 (drop 8 bs)"
  define a3 where "a3 = get_unaligned_le32 (drop 12 bs)"
  define a4 where "a4 = get_unaligned_le32 (drop 16 bs)"
  define a5 where "a5 = get_unaligned_le32 (drop 20 bs)"
  define a6 where "a6 = get_unaligned_le32 (drop 24 bs)"
  define a7 where "a7 = get_unaligned_le32 (drop 28 bs)"
  note V = words32_value [OF assms, folded a0_def a1_def a2_def a3_def a4_def a5_def a6_def a7_def]
  obtain q0 r0 where k0: "uint a0 div 2 ^ 26 = q0" "uint a0 mod 2 ^ 26 = r0" "uint a0 = 2 ^ 26 * q0 + r0" by (rule split_limb)
  obtain q1 r1 where k1: "uint a1 div 2 ^ 19 = q1" "uint a1 mod 2 ^ 19 = r1" "uint a1 = 2 ^ 19 * q1 + r1" by (rule split_limb)
  obtain q2 r2 where k2: "uint a2 div 2 ^ 13 = q2" "uint a2 mod 2 ^ 13 = r2" "uint a2 = 2 ^ 13 * q2 + r2" by (rule split_limb)
  obtain q3 r3 where k3: "uint a3 div 2 ^ 6 = q3" "uint a3 mod 2 ^ 6 = r3" "uint a3 = 2 ^ 6 * q3 + r3" by (rule split_limb)
  obtain q4 r4 where k4: "uint a4 div 2 ^ 25 = q4" "uint a4 mod 2 ^ 25 = r4" "uint a4 = 2 ^ 25 * q4 + r4" by (rule split_limb)
  obtain q5 r5 where k5: "uint a5 div 2 ^ 19 = q5" "uint a5 mod 2 ^ 19 = r5" "uint a5 = 2 ^ 19 * q5 + r5" by (rule split_limb)
  obtain q6 r6 where k6: "uint a6 div 2 ^ 12 = q6" "uint a6 mod 2 ^ 12 = r6" "uint a6 = 2 ^ 12 * q6 + r6" by (rule split_limb)
  obtain q7 r7 where k7: "uint a7 div 2 ^ 6 = q7" "uint a7 mod 2 ^ 6 = r7" "uint a7 = 2 ^ 6 * q7 + r7" by (rule split_limb)
  obtain t h9 where k8: "q7 div 2 ^ 25 = t" "q7 mod 2 ^ 25 = h9" "q7 = 2 ^ 25 * t + h9" by (rule split_limb)
  have r: "0 \<le> r0" "r0 < 2 ^ 26" "0 \<le> r1" "r1 < 2 ^ 19" "0 \<le> r2" "r2 < 2 ^ 13" "0 \<le> r3" "r3 < 2 ^ 6" "0 \<le> r4" "r4 < 2 ^ 25" "0 \<le> r5" "r5 < 2 ^ 19" "0 \<le> r6" "r6 < 2 ^ 12" "0 \<le> r7" "r7 < 2 ^ 6" "0 \<le> h9" "h9 < 2 ^ 25"
    by (simp_all flip: k0(2) k1(2) k2(2) k3(2) k4(2) k5(2) k6(2) k7(2) k8(2))
  have q: "0 \<le> q0 \<and> q0 < 2 ^ 6" "0 \<le> q1 \<and> q1 < 2 ^ 13" "0 \<le> q2 \<and> q2 < 2 ^ 19" "0 \<le> q3 \<and> q3 < 2 ^ 26" "0 \<le> q4 \<and> q4 < 2 ^ 7" "0 \<le> q5 \<and> q5 < 2 ^ 13" "0 \<le> q6 \<and> q6 < 2 ^ 20" "0 \<le> q7 \<and> q7 < 2 ^ 26"
    by (rule q_bound, rule k0 k1 k2 k3 k4 k5 k6 k7, simp)+
  have h1: "uint (drop_bit 26 a0 OR push_bit 6 (a1 AND 0x7ffff)) = q0 + r1 * 2 ^ 6"
    by (rule or_value [OF _ _ _ _ k0(1) k1(2)]) (use q r in \<open>simp_all add: mask_eq_exp_minus_1\<close>)
  have h2: "uint (drop_bit 19 a1 OR push_bit 13 (a2 AND 0x1fff)) = q1 + r2 * 2 ^ 13"
    by (rule or_value [OF _ _ _ _ k1(1) k2(2)]) (use q r in \<open>simp_all add: mask_eq_exp_minus_1\<close>)
  have h3: "uint (drop_bit 13 a2 OR push_bit 19 (a3 AND 0x3f)) = q2 + r3 * 2 ^ 19"
    by (rule or_value [OF _ _ _ _ k2(1) k3(2)]) (use q r in \<open>simp_all add: mask_eq_exp_minus_1\<close>)
  have h6: "uint (drop_bit 25 a4 OR push_bit 7 (a5 AND 0x7ffff)) = q4 + r5 * 2 ^ 7"
    by (rule or_value [OF _ _ _ _ k4(1) k5(2)]) (use q r in \<open>simp_all add: mask_eq_exp_minus_1\<close>)
  have h7: "uint (drop_bit 19 a5 OR push_bit 13 (a6 AND 0xfff)) = q5 + r6 * 2 ^ 13"
    by (rule or_value [OF _ _ _ _ k5(1) k6(2)]) (use q r in \<open>simp_all add: mask_eq_exp_minus_1\<close>)
  have h8: "uint (drop_bit 12 a6 OR push_bit 20 (a7 AND 0x3f)) = q6 + r7 * 2 ^ 20"
    by (rule or_value [OF _ _ _ _ k6(1) k7(2)]) (use q r in \<open>simp_all add: mask_eq_exp_minus_1\<close>)
  have h: "uint (a0 AND 0x3ffffff) = r0" "uint (drop_bit 6 a3) = q3" "uint (a4 AND 0x1ffffff) = r4"
    "uint (drop_bit 6 a7 AND 0x1ffffff) = h9"
    by (simp_all only: uint_and_mask [OF mask_26] uint_and_mask [OF mask_25] uint_drop k0(2) k3(1) k4(2) k7(1) k8(2))
  note f = fe_frombytes_def [of bs, unfolded Let_def, folded a0_def a1_def a2_def a3_def a4_def a5_def a6_def a7_def]
  show "tight10 (fe_frombytes bs)"
    unfolding f tight10_def limbs10_le.simps h h1 h2 h3 h6 h7 h8 using q r by simp
  have val: "val10 (fe_frombytes bs) = r0 + 2 ^ 26 * (q0 + r1 * 2 ^ 6) + 2 ^ 51 * (q1 + r2 * 2 ^ 13) + 2 ^ 77 * (q2 + r3 * 2 ^ 19)
      + 2 ^ 102 * q3 + 2 ^ 128 * r4 + 2 ^ 153 * (q4 + r5 * 2 ^ 7) + 2 ^ 179 * (q5 + r6 * 2 ^ 13) + 2 ^ 204 * (q6 + r7 * 2 ^ 20)
      + 2 ^ 230 * h9"
    unfolding f val10.simps h h1 h2 h3 h6 h7 h8 ..
  have "?v = val10 (fe_frombytes bs) + 2 ^ 255 * t"
    unfolding val V k0(3) k1(3) k2(3) k3(3) k4(3) k5(3) k6(3) k7(3) k8(3) by simp
  moreover have "0 \<le> val10 (fe_frombytes bs)" "val10 (fe_frombytes bs) < 2 ^ 255"
    unfolding val using q r by simp_all
  ultimately have "?v mod 2 ^ 255 = val10 (fe_frombytes bs)" by simp
  then show "val10 (fe_frombytes bs) = rfc_decode_u bs"
    unfolding rfc_decode_u_def zmod_int of_nat_power of_nat_numeral by (rule sym)
qed

end
