(* ===== verification/Curve25519_Fiat32_Ladder.thy ===== *)
theory Curve25519_Fiat32_Ladder
  imports Curve25519_Fiat32_Key Curve25519_Key
begin

text \<open>
  Inversion and ladder of the 32-bit Curve25519, over the laws of its field arithmetic
  (the interpretation \<open>c32\<close>): one step is the RFC's, and so is the loop over the scalar's bits.
\<close>

section \<open>Inversion\<close>

lemma fe_sq_times: "0 < n \<Longrightarrow> fe_sq_times a n = (fe_sq ^^ n) a"
  by (cases n) (simp_all add: fe_sq_times_def funpow_swap1)

lemma fe_invert_correct:
  assumes "loose10 z"
  shows "tight10 (fe_invert z)" and "eqm (val10 (fe_invert z)) (val10 z ^ (2 ^ 255 - 21))"
proof -
  define a where "a = fe_sq z"
  define e9 where "e9 = fe_mul z ((fe_sq ^^ 2) a)"
  define e11 where "e11 = fe_mul a e9"
  define e31 where "e31 = fe_mul e9 (fe_sq e11)"
  define e10 where "e10 = fe_mul ((fe_sq ^^ 5) e31) e31"
  define e20 where "e20 = fe_mul ((fe_sq ^^ 10) e10) e10"
  define e40 where "e40 = fe_mul ((fe_sq ^^ 20) e20) e20"
  define e50 where "e50 = fe_mul ((fe_sq ^^ 10) e40) e10"
  define e100 where "e100 = fe_mul ((fe_sq ^^ 50) e50) e50"
  define e200 where "e200 = fe_mul ((fe_sq ^^ 100) e100) e100"
  define e250 where "e250 = fe_mul ((fe_sq ^^ 50) e200) e50"
  have "fe_invert z = fe_mul ((fe_sq ^^ 5) e250) e11"
    unfolding fe_invert_def fe_loose_invert_def Let_def e250_def e200_def e100_def e50_def e40_def e20_def e10_def
      e31_def e11_def e9_def a_def by (simp only: fe_sq_times zero_less_numeral)
  then show "tight10 (fe_invert z)" and "eqm (val10 (fe_invert z)) (val10 z ^ (2 ^ 255 - 21))"
    using c32.inversion_chain [OF assms a_def disjI2 [OF e9_def] disjI2 [OF e11_def] disjI2 [OF e31_def]
        e10_def e20_def e40_def e50_def e100_def e200_def e250_def] by simp_all
qed

section \<open>The ladder\<close>

type_synonym fe_ladder = "fe \<times> fe \<times> fe \<times> fe"

fun lad10 :: "fe_ladder \<Rightarrow> ladder" where
  "lad10 (x2, z2, x3, z3) = (val10 x2, val10 z2, val10 x3, val10 z3)"

fun tight_lad :: "fe_ladder \<Rightarrow> bool" where
  "tight_lad (x2, z2, x3, z3) \<longleftrightarrow> tight10 x2 \<and> tight10 z2 \<and> tight10 x3 \<and> tight10 z3"

lemma fe_cswap_eq: "fe_cswap f g (of_bool c) = (if c then (g, f) else (f, g))"
proof -
  have 1: "cswap_limb (- 1) x y = (y, x)" and 0: "cswap_limb 0 x y = (x, y)" for x y
    by (simp_all add: cswap_limb_def xor.left_commute)
  obtain f0 f1 f2 f3 f4 f5 f6 f7 f8 f9 where f: "f = Ten f0 f1 f2 f3 f4 f5 f6 f7 f8 f9" by (cases f)
  obtain g0 g1 g2 g3 g4 g5 g6 g7 g8 g9 where g: "g = Ten g0 g1 g2 g3 g4 g5 g6 g7 g8 g9" by (cases g)
  show ?thesis
  proof (cases c)
    case True
    have c: "0 - of_bool c = (- 1 :: u32)" using True by simp
    show ?thesis unfolding f g fe_cswap.simps c by (simp only: Let_def 1 prod.case True if_True)
  next
    case False
    have c: "0 - of_bool c = (0 :: u32)" using False by simp
    show ?thesis unfolding f g fe_cswap.simps c by (simp only: Let_def 0 prod.case False if_False)
  qed
qed

lemma fiat32_cswap_eq:
  "fiat32_cswap (of_bool c) (x2, z2, x3, z3) = (if c then (x3, z3, x2, z2) else (x2, z2, x3, z3))"
  unfolding fiat32_cswap.simps fe_cswap_eq by (cases c) (simp_all only: Let_def if_True if_False prod.case)

lemma fiat32_cswap_lad:
  shows "lad10 (fiat32_cswap (of_bool c) s) = rfc_cswap c (lad10 s)"
    and "tight_lad (fiat32_cswap (of_bool c) s) = tight_lad s"
proof -
  obtain x2 z2 x3 z3 where s: "s = (x2, z2, x3, z3)" by (cases s)
  show "lad10 (fiat32_cswap (of_bool c) s) = rfc_cswap c (lad10 s)"
    and "tight_lad (fiat32_cswap (of_bool c) s) = tight_lad s"
    unfolding s fiat32_cswap_eq by (cases c; auto)+
qed

lemma fiat32_step_correct:
  assumes t: "tight_lad s" and q: "tight10 q"
  shows "tight_lad (fiat32_step q s)"
    and "eqm_ladder (lad10 (fiat32_step q s)) (rfc_step (val10 q) (lad10 s))"
proof -
  obtain x z xp zp where s: "s = (x, z, xp, zp)" by (cases s)
  have t': "tight10 x" "tight10 z" "tight10 xp" "tight10 zp" using t by (simp_all add: s)
  define A where "A = fe_add x z"
  define B where "B = fe_sub x z"
  define C where "C = fe_add xp zp"
  define D where "D = fe_sub xp zp"
  define CB where "CB = fe_mul C B"
  define DA where "DA = fe_mul D A"
  define S where "S = fe_add DA CB"
  define T where "T = fe_sub DA CB"
  define AA where "AA = fe_sq A"
  define BB where "BB = fe_sq B"
  define E where "E = fe_sub AA BB"
  define F where "F = fe_add BB (fe_mul121666 E)"
  have r: "fiat32_step q s = (fe_mul AA BB, fe_mul E F, fe_sq S, fe_mul q (fe_sq T))"
    unfolding s fiat32_step.simps Let_def F_def E_def AA_def BB_def T_def S_def DA_def CB_def A_def B_def C_def D_def ..
  note step = c32.ladder_step [OF t' q A_def B_def C_def D_def CB_def disjI1 [OF DA_def] disjI1 [OF S_def] disjI1 [OF T_def] AA_def
      BB_def E_def disjI2 [OF conjI [OF refl F_def]] disjI2 [OF refl] disjI2 [OF refl]]
  show "tight_lad (fiat32_step q s)" using step(1) unfolding r tight_lad.simps by blast
  show "eqm_ladder (lad10 (fiat32_step q s)) (rfc_step (val10 q) (lad10 s))"
    unfolding r unfolding s lad10.simps by (rule step(2))
qed

lemma eqm_rfc_loop: "eqm_ladder s s' \<Longrightarrow> eqm_ladder (rfc_loop x k t s c) (rfc_loop x k t s' c)"
  unfolding rfc_loop_bits by (intro eqm_ladder_bits eqm_cswap eqm_refl)

lemma fiat32_loop_correct:
  assumes "tight_lad s" and q: "tight10 q" and "n \<le> 8 * length e"
  shows "tight_lad (fiat32_loop n q e s (of_bool c))
    \<and> eqm_ladder (lad10 (fiat32_loop n q e s (of_bool c))) (rfc_loop (val10 q) (le_val e) n (lad10 s) c)"
  using assms(1,3)
proof (induction n arbitrary: s c)
  case 0
  then show ?case by (simp add: fiat32_cswap_lad)
next
  case (Suc n)
  let ?b = "bit (le_val e) n"
  have n: "n div 8 < length e" using Suc.prems(2) by (simp add: less_mult_imp_div_less mult.commute)
  have "8 * (n div 8) + n mod 8 = n" by simp
  with bit_le_val [OF n, of "n mod 8"] have b: "bit (e ! (n div 8)) (n mod 8) = ?b" by simp
  have k: "(1 :: u32) AND ucast (drop_bit (n mod 8) (e ! (n div 8))) = of_bool ?b"
    by (rule bit_word_eqI) (auto simp: bit_simps b)
  have x: "of_bool c XOR of_bool ?b = (of_bool (c \<noteq> ?b) :: u32)" by (cases c; cases ?b) simp_all
  have e: "fiat32_loop (Suc n) q e s (of_bool c)
      = fiat32_loop n q e (fiat32_step q (fiat32_cswap (of_bool (c \<noteq> ?b)) s)) (of_bool ?b)"
    by (simp only: fiat32_loop.simps Let_def k x)
  have t: "tight_lad (fiat32_cswap (of_bool (c \<noteq> ?b)) s)" using Suc.prems(1) by (simp only: fiat32_cswap_lad)
  note st = fiat32_step_correct [OF t q, unfolded fiat32_cswap_lad(1)]
  from Suc.IH [OF st(1), of ?b] Suc.prems(2) eqm_ladder_trans [OF _ eqm_rfc_loop [OF st(2)]]
  show ?case unfolding e by simp
qed

end
