(* ===== verification/Curve25519_Fiat32_Public.thy ===== *)
theory Curve25519_Fiat32_Public
  imports Curve25519_Fiat32_Bytes Curve25519_Fiat32_Ladder Curve25519_Public
begin

text \<open>
  The canonical encoding of the 32-bit Curve25519 and the whole function: from bytes to bytes
  it is X25519 of RFC 7748, for every scalar and every point.
\<close>

section \<open>The canonical representative\<close>

text \<open>One limb of the subtraction of the prime: what is left, and the borrow.\<close>

lemma borrow_step:
  fixes a b :: u32 and c :: u8
  assumes a: "uint a < 2 ^ 27" and b: "uint b < 2 ^ n" "n \<le> 26" and c: "uint c \<le> 1"
    and d: "uint a - uint b - uint c < 2 ^ n" and m: "m = mask n"
  defines "x \<equiv> a - b - ucast c"
  shows "uint a = uint b + uint c + uint (x AND m) - 2 ^ n * uint (ucast (drop_bit 31 x) :: u8)"
    and "uint (x AND m) < 2 ^ n" and "uint (ucast (drop_bit 31 x) :: u8) \<le> 1"
proof -
  define z where "z = uint a - uint b - uint c"
  have n: "(2 :: int) ^ n \<le> 67108864" using power_increasing [OF b(2), of "2 :: int"] by simp
  have uc: "uint (ucast c :: u32) = uint c" using c by (simp add: unsigned_ucast_eq take_bit_int_eq_self)
  have xz: "uint x = z mod 4294967296"
    unfolding x_def z_def uint_word_ariths(2) uc by (simp add: mod_diff_left_eq)
  have lo: "- (2 ^ n) \<le> z" using b c uint_ge_0 [of a] unfolding z_def by linarith
  have hi: "z < 2 ^ n" using d by (simp only: z_def)
  have x: "uint x = (if z < 0 then z + 2 ^ 32 else z)"
  proof (cases "z < 0")
    case True
    have "z mod 4294967296 = (z + 4294967296) mod 4294967296" by simp
    also have "\<dots> = z + 4294967296" by (rule mod_pos_pos_trivial) (use lo n True in linarith)+
    finally show ?thesis using True xz by simp
  next
    case False
    have "z mod 4294967296 = z" by (rule mod_pos_pos_trivial) (use hi n False in linarith)+
    then show ?thesis using False xz by simp
  qed
  have top: "uint (drop_bit 31 x) = (if z < 0 then 1 else 0)"
    unfolding uint_drop x by (cases "z < 0") (use lo hi n in \<open>simp_all add: div_pos_pos_trivial\<close>)
  have t8: "uint (ucast (drop_bit 31 x) :: u8) = (if z < 0 then 1 else 0)"
  proof -
    have "rep (drop_bit 31 x) (if z < 0 then 1 else 0) 1" using top by (simp add: rep_def)
    then have "rep (ucast (drop_bit 31 x) :: u8) (if z < 0 then 1 else 0) 1" by (rule rep_ucast_up) simp
    then show ?thesis by (simp only: rep_def)
  qed
  have l: "uint (x AND m) = (if z < 0 then z + 2 ^ n else z)"
  proof (cases "z < 0")
    case True
    have "(2 :: int) ^ 32 = 2 ^ n * 2 ^ (32 - n)" using b(2) by (simp flip: power_add)
    then have "(z + 2 ^ 32) mod 2 ^ n = z mod 2 ^ n" by (simp only: mod_mult_self2)
    also have "\<dots> = (z + 2 ^ n) mod 2 ^ n" by simp
    also have "\<dots> = z + 2 ^ n" by (rule mod_pos_pos_trivial) (use lo True in linarith)+
    finally show ?thesis using True by (simp only: uint_and_mask [OF m] x if_True)
  next
    case False
    then show ?thesis using hi by (simp add: uint_and_mask [OF m] x)
  qed
  show "uint a = uint b + uint c + uint (x AND m) - 2 ^ n * uint (ucast (drop_bit 31 x) :: u8)"
    unfolding l t8 using z_def by simp
  show "uint (x AND m) < 2 ^ n" unfolding l using hi by simp
  show "uint (ucast (drop_bit 31 x) :: u8) \<le> 1" unfolding t8 by simp
qed

lemma addcarry_step:
  fixes a b :: u32 and c :: u8
  assumes a: "uint a < 2 ^ n" and b: "uint b < 2 ^ n" "n \<le> 26" and c: "uint c \<le> 1" and m: "m = mask n"
  defines "x \<equiv> a + b + ucast c"
  shows "uint (x AND m) + 2 ^ n * uint (ucast (drop_bit n x AND 1) :: u8) = uint a + uint b + uint c"
    and "uint (x AND m) < 2 ^ n" and "uint (ucast (drop_bit n x AND 1) :: u8) \<le> 1"
proof -
  have n: "(2 :: int) ^ n \<le> 2 ^ 26" using b(2) by (rule power_increasing) simp
  have "rep x (uint a + uint b + uint c) (2 ^ 26 + 2 ^ 26 + 1)"
    unfolding x_def by (intro rep_add rep_ucast_up rep_uint) (use a b c n in simp_all)
  then have x: "uint x = uint a + uint b + uint c" by (simp only: rep_def)
  have "uint x < 2 ^ n * 2" unfolding x using a b(1) c by linarith
  then have "uint x div 2 ^ n < 2" by (intro div_power_less) (simp add: mult.commute)
  moreover have "0 \<le> uint x div 2 ^ n" by (simp add: pos_imp_zdiv_nonneg_iff)
  ultimately have d: "rep (drop_bit n x) (uint x div 2 ^ n) 1" "uint x div 2 ^ n mod 2 = uint x div 2 ^ n"
    by (simp_all add: rep_def uint_drop)
  have "rep (drop_bit n x AND 1) (uint x div 2 ^ n mod 2 ^ 1) (2 ^ 1 - 1)"
    by (rule rep_mask [OF d(1)]) (simp add: mask_eq_exp_minus_1)
  then have "rep (ucast (drop_bit n x AND 1) :: u8) (uint x div 2 ^ n) 1"
    by (intro rep_ucast_up) (simp_all add: d(2))
  then have t: "uint (ucast (drop_bit n x AND 1) :: u8) = uint x div 2 ^ n" "uint (ucast (drop_bit n x AND 1) :: u8) \<le> 1"
    by (simp_all add: rep_def)
  have "uint (x AND m) + 2 ^ n * (uint x div 2 ^ n) = uint x" unfolding uint_and_mask [OF m] by simp
  then show "uint (x AND m) + 2 ^ n * uint (ucast (drop_bit n x AND 1) :: u8) = uint a + uint b + uint c"
    by (simp only: t x)
  show "uint (x AND m) < 2 ^ n" by (simp add: uint_and_mask [OF m])
  show "uint (ucast (drop_bit n x AND 1) :: u8) \<le> 1" by (rule t(2))
qed

lemma subborrow_26:
  assumes "uint a \<le> 75497472" "uint b < 2 ^ 26" "2 ^ 26 - 19 \<le> uint b" "uint c \<le> 1"
  obtains l d where "subborrow_u26 c a b = (l, d)" "uint l < 2 ^ 26" "uint d \<le> 1"
    "uint a = uint b + uint c + uint l - 2 ^ 26 * uint d"
proof (rule that)
  let ?x = "a - b - ucast c"
  show "subborrow_u26 c a b = (?x AND 0x3ffffff, ucast (drop_bit 31 ?x))" by (simp only: subborrow_u26_def Let_def)
  have "67108845 \<le> uint b" using assms(3) by simp
  then have "uint a - uint b - uint c < 67108864" using assms(1) uint_ge_0 [of c] by linarith
  then have d: "uint a < 2 ^ 27" "uint a - uint b - uint c < 2 ^ 26" using assms(1) by simp_all
  note s = borrow_step [OF d(1) assms(2) _ assms(4) d(2) mask_26]
  show "uint (?x AND 0x3ffffff) < 2 ^ 26" "uint (ucast (drop_bit 31 ?x) :: u8) \<le> 1"
    "uint a = uint b + uint c + uint (?x AND 0x3ffffff) - 2 ^ 26 * uint (ucast (drop_bit 31 ?x) :: u8)"
    by (rule s; simp)+
qed

lemma addcarryx_26:
  assumes "uint a < 2 ^ 26" "uint b < 2 ^ 26" "uint c \<le> 1"
  obtains l d where "addcarryx_u26 c a b = (l, d)" "uint l < 2 ^ 26" "uint d \<le> 1"
    "uint l + 2 ^ 26 * uint d = uint a + uint b + uint c"
proof (rule that)
  let ?x = "a + b + ucast c"
  show "addcarryx_u26 c a b = (?x AND 0x3ffffff, ucast (drop_bit 26 ?x AND 1))" by (simp only: addcarryx_u26_def Let_def)
  note s = addcarry_step [OF assms(1,2) _ assms(3) mask_26]
  show "uint (?x AND 0x3ffffff) < 2 ^ 26" "uint (ucast (drop_bit 26 ?x AND 1) :: u8) \<le> 1"
    "uint (?x AND 0x3ffffff) + 2 ^ 26 * uint (ucast (drop_bit 26 ?x AND 1) :: u8) = uint a + uint b + uint c"
    by (rule s; simp)+
qed

lemma subborrow_25:
  assumes "uint a \<le> 37748736" "uint b < 2 ^ 25" "2 ^ 25 - 19 \<le> uint b" "uint c \<le> 1"
  obtains l d where "subborrow_u25 c a b = (l, d)" "uint l < 2 ^ 25" "uint d \<le> 1"
    "uint a = uint b + uint c + uint l - 2 ^ 25 * uint d"
proof (rule that)
  let ?x = "a - b - ucast c"
  show "subborrow_u25 c a b = (?x AND 0x1ffffff, ucast (drop_bit 31 ?x))" by (simp only: subborrow_u25_def Let_def)
  have "33554413 \<le> uint b" using assms(3) by simp
  then have "uint a - uint b - uint c < 33554432" using assms(1) uint_ge_0 [of c] by linarith
  then have d: "uint a < 2 ^ 27" "uint a - uint b - uint c < 2 ^ 25" using assms(1) by simp_all
  note s = borrow_step [OF d(1) assms(2) _ assms(4) d(2) mask_25]
  show "uint (?x AND 0x1ffffff) < 2 ^ 25" "uint (ucast (drop_bit 31 ?x) :: u8) \<le> 1"
    "uint a = uint b + uint c + uint (?x AND 0x1ffffff) - 2 ^ 25 * uint (ucast (drop_bit 31 ?x) :: u8)"
    by (rule s; simp)+
qed

lemma addcarryx_25:
  assumes "uint a < 2 ^ 25" "uint b < 2 ^ 25" "uint c \<le> 1"
  obtains l d where "addcarryx_u25 c a b = (l, d)" "uint l < 2 ^ 25" "uint d \<le> 1"
    "uint l + 2 ^ 25 * uint d = uint a + uint b + uint c"
proof (rule that)
  let ?x = "a + b + ucast c"
  show "addcarryx_u25 c a b = (?x AND 0x1ffffff, ucast (drop_bit 25 ?x AND 1))" by (simp only: addcarryx_u25_def Let_def)
  note s = addcarry_step [OF assms(1,2) _ assms(3) mask_25]
  show "uint (?x AND 0x1ffffff) < 2 ^ 25" "uint (ucast (drop_bit 25 ?x AND 1) :: u8) \<le> 1"
    "uint (?x AND 0x1ffffff) + 2 ^ 25 * uint (ucast (drop_bit 25 ?x AND 1) :: u8) = uint a + uint b + uint c"
    by (rule s; simp)+
qed

text \<open>The mask is all ones exactly when the subtraction borrowed.\<close>

lemma freeze_mask:
  fixes c :: u8
  assumes "uint c \<le> 1"
  shows "uint (cmovznz32 (ucast c) 0 0xffffffff AND k) = uint c * uint k"
proof -
  have "uint c = 0 \<or> uint c = 1" using assms uint_ge_0 [of c] by linarith
  then have "c = 0 \<or> c = 1" by (simp add: word_uint_eq_iff)
  moreover have "(0xffffffff :: u32) = - 1" by simp
  ultimately show ?thesis by (elim disjE) (simp_all only: cmovznz32_def Let_def, simp_all)
qed

text \<open>The subtraction of the prime, limb after limb, and the addition of its masked limbs.\<close>

lemma freeze_sub:
  assumes "tight10 (Ten a0 a1 a2 a3 a4 a5 a6 a7 a8 a9)"
  obtains l0 l1 l2 l3 l4 l5 l6 l7 l8 l9 c0 c1 c2 c3 c4 c5 c6 c7 c8 c9 where "subborrow_u26 0 a0 0x3ffffed = (l0, c0)" "subborrow_u25 c0 a1 0x1ffffff = (l1, c1)" "subborrow_u26 c1 a2 0x3ffffff = (l2, c2)" "subborrow_u25 c2 a3 0x1ffffff = (l3, c3)" "subborrow_u26 c3 a4 0x3ffffff = (l4, c4)" "subborrow_u25 c4 a5 0x1ffffff = (l5, c5)" "subborrow_u26 c5 a6 0x3ffffff = (l6, c6)" "subborrow_u25 c6 a7 0x1ffffff = (l7, c7)" "subborrow_u26 c7 a8 0x3ffffff = (l8, c8)" "subborrow_u25 c8 a9 0x1ffffff = (l9, c9)"
    "limbs10_le (2 ^ 26 - 1) (2 ^ 25 - 1) (Ten l0 l1 l2 l3 l4 l5 l6 l7 l8 l9)" "uint c9 \<le> 1"
    "val10 (Ten a0 a1 a2 a3 a4 a5 a6 a7 a8 a9) = p25519 + val10 (Ten l0 l1 l2 l3 l4 l5 l6 l7 l8 l9) - 2 ^ 255 * uint c9"
proof -
  have a: "uint a0 \<le> 75497472" "uint a1 \<le> 37748736" "uint a2 \<le> 75497472" "uint a3 \<le> 37748736" "uint a4 \<le> 75497472" "uint a5 \<le> 37748736" "uint a6 \<le> 75497472" "uint a7 \<le> 37748736" "uint a8 \<le> 75497472" "uint a9 \<le> 37748736"
    using assms by (simp_all add: tight10_def)
  have k: "uint (0x3ffffed :: u32) = 2 ^ 26 - 19" "uint (0x1ffffff :: u32) = 2 ^ 25 - 1" "uint (0x3ffffff :: u32) = 2 ^ 26 - 1"
    by simp_all
  have z: "uint (0 :: u8) = 0" by simp
  obtain l0 c0 where s0: "subborrow_u26 0 a0 0x3ffffed = (l0, c0)" "uint l0 < 2 ^ 26" "uint c0 \<le> 1"
    "uint a0 = uint (0x3ffffed :: u32) + uint (0 :: u8) + uint l0 - 2 ^ 26 * uint c0"
    by (rule subborrow_26 [of a0 "0x3ffffed" 0]) (use a  in simp_all)
  obtain l1 c1 where s1: "subborrow_u25 c0 a1 0x1ffffff = (l1, c1)" "uint l1 < 2 ^ 25" "uint c1 \<le> 1"
    "uint a1 = uint (0x1ffffff :: u32) + uint c0 + uint l1 - 2 ^ 25 * uint c1"
    by (rule subborrow_25 [of a1 "0x1ffffff" c0]) (use a s0(3) in simp_all)
  obtain l2 c2 where s2: "subborrow_u26 c1 a2 0x3ffffff = (l2, c2)" "uint l2 < 2 ^ 26" "uint c2 \<le> 1"
    "uint a2 = uint (0x3ffffff :: u32) + uint c1 + uint l2 - 2 ^ 26 * uint c2"
    by (rule subborrow_26 [of a2 "0x3ffffff" c1]) (use a s1(3) in simp_all)
  obtain l3 c3 where s3: "subborrow_u25 c2 a3 0x1ffffff = (l3, c3)" "uint l3 < 2 ^ 25" "uint c3 \<le> 1"
    "uint a3 = uint (0x1ffffff :: u32) + uint c2 + uint l3 - 2 ^ 25 * uint c3"
    by (rule subborrow_25 [of a3 "0x1ffffff" c2]) (use a s2(3) in simp_all)
  obtain l4 c4 where s4: "subborrow_u26 c3 a4 0x3ffffff = (l4, c4)" "uint l4 < 2 ^ 26" "uint c4 \<le> 1"
    "uint a4 = uint (0x3ffffff :: u32) + uint c3 + uint l4 - 2 ^ 26 * uint c4"
    by (rule subborrow_26 [of a4 "0x3ffffff" c3]) (use a s3(3) in simp_all)
  obtain l5 c5 where s5: "subborrow_u25 c4 a5 0x1ffffff = (l5, c5)" "uint l5 < 2 ^ 25" "uint c5 \<le> 1"
    "uint a5 = uint (0x1ffffff :: u32) + uint c4 + uint l5 - 2 ^ 25 * uint c5"
    by (rule subborrow_25 [of a5 "0x1ffffff" c4]) (use a s4(3) in simp_all)
  obtain l6 c6 where s6: "subborrow_u26 c5 a6 0x3ffffff = (l6, c6)" "uint l6 < 2 ^ 26" "uint c6 \<le> 1"
    "uint a6 = uint (0x3ffffff :: u32) + uint c5 + uint l6 - 2 ^ 26 * uint c6"
    by (rule subborrow_26 [of a6 "0x3ffffff" c5]) (use a s5(3) in simp_all)
  obtain l7 c7 where s7: "subborrow_u25 c6 a7 0x1ffffff = (l7, c7)" "uint l7 < 2 ^ 25" "uint c7 \<le> 1"
    "uint a7 = uint (0x1ffffff :: u32) + uint c6 + uint l7 - 2 ^ 25 * uint c7"
    by (rule subborrow_25 [of a7 "0x1ffffff" c6]) (use a s6(3) in simp_all)
  obtain l8 c8 where s8: "subborrow_u26 c7 a8 0x3ffffff = (l8, c8)" "uint l8 < 2 ^ 26" "uint c8 \<le> 1"
    "uint a8 = uint (0x3ffffff :: u32) + uint c7 + uint l8 - 2 ^ 26 * uint c8"
    by (rule subborrow_26 [of a8 "0x3ffffff" c7]) (use a s7(3) in simp_all)
  obtain l9 c9 where s9: "subborrow_u25 c8 a9 0x1ffffff = (l9, c9)" "uint l9 < 2 ^ 25" "uint c9 \<le> 1"
    "uint a9 = uint (0x1ffffff :: u32) + uint c8 + uint l9 - 2 ^ 25 * uint c9"
    by (rule subborrow_25 [of a9 "0x1ffffff" c8]) (use a s8(3) in simp_all)
  have V: "val10 (Ten a0 a1 a2 a3 a4 a5 a6 a7 a8 a9) = p25519 + val10 (Ten l0 l1 l2 l3 l4 l5 l6 l7 l8 l9) - 2 ^ 255 * uint c9"
    unfolding val10.simps s0(4) s1(4) s2(4) s3(4) s4(4) s5(4) s6(4) s7(4) s8(4) s9(4) k z p25519_def by simp
  have "limbs10_le (2 ^ 26 - 1) (2 ^ 25 - 1) (Ten l0 l1 l2 l3 l4 l5 l6 l7 l8 l9)" using s0(2) s1(2) s2(2) s3(2) s4(2) s5(2) s6(2) s7(2) s8(2) s9(2) by simp
  from that [OF s0(1) s1(1) s2(1) s3(1) s4(1) s5(1) s6(1) s7(1) s8(1) s9(1) this s9(3) V] show thesis .
qed

lemma freeze_add:
  fixes c9 :: u8
  assumes l: "limbs10_le (2 ^ 26 - 1) (2 ^ 25 - 1) (Ten l0 l1 l2 l3 l4 l5 l6 l7 l8 l9)" and c: "uint c9 \<le> 1"
  obtains r0 r1 r2 r3 r4 r5 r6 r7 r8 r9 d0 d1 d2 d3 d4 d5 d6 d7 d8 d9 where "addcarryx_u26 0 l0 (cmovznz32 (ucast c9) 0 0xffffffff AND 0x3ffffed) = (r0, d0)" "addcarryx_u25 d0 l1 (cmovznz32 (ucast c9) 0 0xffffffff AND 0x1ffffff) = (r1, d1)" "addcarryx_u26 d1 l2 (cmovznz32 (ucast c9) 0 0xffffffff AND 0x3ffffff) = (r2, d2)" "addcarryx_u25 d2 l3 (cmovznz32 (ucast c9) 0 0xffffffff AND 0x1ffffff) = (r3, d3)" "addcarryx_u26 d3 l4 (cmovznz32 (ucast c9) 0 0xffffffff AND 0x3ffffff) = (r4, d4)" "addcarryx_u25 d4 l5 (cmovznz32 (ucast c9) 0 0xffffffff AND 0x1ffffff) = (r5, d5)" "addcarryx_u26 d5 l6 (cmovznz32 (ucast c9) 0 0xffffffff AND 0x3ffffff) = (r6, d6)" "addcarryx_u25 d6 l7 (cmovznz32 (ucast c9) 0 0xffffffff AND 0x1ffffff) = (r7, d7)" "addcarryx_u26 d7 l8 (cmovznz32 (ucast c9) 0 0xffffffff AND 0x3ffffff) = (r8, d8)" "addcarryx_u25 d8 l9 (cmovznz32 (ucast c9) 0 0xffffffff AND 0x1ffffff) = (r9, d9)"
    "limbs10_le (2 ^ 26 - 1) (2 ^ 25 - 1) (Ten r0 r1 r2 r3 r4 r5 r6 r7 r8 r9)" "uint d9 \<le> 1"
    "val10 (Ten r0 r1 r2 r3 r4 r5 r6 r7 r8 r9) + 2 ^ 255 * uint d9 = val10 (Ten l0 l1 l2 l3 l4 l5 l6 l7 l8 l9) + uint c9 * p25519"
proof -
  let ?m = "cmovznz32 (ucast c9) 0 0xffffffff"
  have m: "uint (?m AND 0x3ffffed) = uint c9 * (2 ^ 26 - 19)" "uint (?m AND 0x1ffffff) = uint c9 * (2 ^ 25 - 1)"
    "uint (?m AND 0x3ffffff) = uint c9 * (2 ^ 26 - 1)"
    unfolding freeze_mask [OF c] by simp_all
  have "uint c9 = 0 \<or> uint c9 = 1" using c uint_ge_0 [of c9] by linarith
  then have mb: "uint (?m AND 0x3ffffed) < 2 ^ 26" "uint (?m AND 0x1ffffff) < 2 ^ 25" "uint (?m AND 0x3ffffff) < 2 ^ 26"
    unfolding m by auto
  have lb: "uint l0 < 2 ^ 26" "uint l1 < 2 ^ 25" "uint l2 < 2 ^ 26" "uint l3 < 2 ^ 25" "uint l4 < 2 ^ 26" "uint l5 < 2 ^ 25" "uint l6 < 2 ^ 26" "uint l7 < 2 ^ 25" "uint l8 < 2 ^ 26" "uint l9 < 2 ^ 25" using l by simp_all
  have z: "uint (0 :: u8) = 0" and z1: "uint (0 :: u8) \<le> 1" by simp_all
  obtain r0 d0 where t0: "addcarryx_u26 0 l0 (?m AND 0x3ffffed) = (r0, d0)" "uint r0 < 2 ^ 26" "uint d0 \<le> 1"
    "uint r0 + 2 ^ 26 * uint d0 = uint l0 + uint (?m AND 0x3ffffed) + uint (0 :: u8)"
    by (rule addcarryx_26 [OF lb(1) mb(1) z1])
  obtain r1 d1 where t1: "addcarryx_u25 d0 l1 (?m AND 0x1ffffff) = (r1, d1)" "uint r1 < 2 ^ 25" "uint d1 \<le> 1"
    "uint r1 + 2 ^ 25 * uint d1 = uint l1 + uint (?m AND 0x1ffffff) + uint d0"
    by (rule addcarryx_25 [OF lb(2) mb(2) t0(3)])
  obtain r2 d2 where t2: "addcarryx_u26 d1 l2 (?m AND 0x3ffffff) = (r2, d2)" "uint r2 < 2 ^ 26" "uint d2 \<le> 1"
    "uint r2 + 2 ^ 26 * uint d2 = uint l2 + uint (?m AND 0x3ffffff) + uint d1"
    by (rule addcarryx_26 [OF lb(3) mb(3) t1(3)])
  obtain r3 d3 where t3: "addcarryx_u25 d2 l3 (?m AND 0x1ffffff) = (r3, d3)" "uint r3 < 2 ^ 25" "uint d3 \<le> 1"
    "uint r3 + 2 ^ 25 * uint d3 = uint l3 + uint (?m AND 0x1ffffff) + uint d2"
    by (rule addcarryx_25 [OF lb(4) mb(2) t2(3)])
  obtain r4 d4 where t4: "addcarryx_u26 d3 l4 (?m AND 0x3ffffff) = (r4, d4)" "uint r4 < 2 ^ 26" "uint d4 \<le> 1"
    "uint r4 + 2 ^ 26 * uint d4 = uint l4 + uint (?m AND 0x3ffffff) + uint d3"
    by (rule addcarryx_26 [OF lb(5) mb(3) t3(3)])
  obtain r5 d5 where t5: "addcarryx_u25 d4 l5 (?m AND 0x1ffffff) = (r5, d5)" "uint r5 < 2 ^ 25" "uint d5 \<le> 1"
    "uint r5 + 2 ^ 25 * uint d5 = uint l5 + uint (?m AND 0x1ffffff) + uint d4"
    by (rule addcarryx_25 [OF lb(6) mb(2) t4(3)])
  obtain r6 d6 where t6: "addcarryx_u26 d5 l6 (?m AND 0x3ffffff) = (r6, d6)" "uint r6 < 2 ^ 26" "uint d6 \<le> 1"
    "uint r6 + 2 ^ 26 * uint d6 = uint l6 + uint (?m AND 0x3ffffff) + uint d5"
    by (rule addcarryx_26 [OF lb(7) mb(3) t5(3)])
  obtain r7 d7 where t7: "addcarryx_u25 d6 l7 (?m AND 0x1ffffff) = (r7, d7)" "uint r7 < 2 ^ 25" "uint d7 \<le> 1"
    "uint r7 + 2 ^ 25 * uint d7 = uint l7 + uint (?m AND 0x1ffffff) + uint d6"
    by (rule addcarryx_25 [OF lb(8) mb(2) t6(3)])
  obtain r8 d8 where t8: "addcarryx_u26 d7 l8 (?m AND 0x3ffffff) = (r8, d8)" "uint r8 < 2 ^ 26" "uint d8 \<le> 1"
    "uint r8 + 2 ^ 26 * uint d8 = uint l8 + uint (?m AND 0x3ffffff) + uint d7"
    by (rule addcarryx_26 [OF lb(9) mb(3) t7(3)])
  obtain r9 d9 where t9: "addcarryx_u25 d8 l9 (?m AND 0x1ffffff) = (r9, d9)" "uint r9 < 2 ^ 25" "uint d9 \<le> 1"
    "uint r9 + 2 ^ 25 * uint d9 = uint l9 + uint (?m AND 0x1ffffff) + uint d8"
    by (rule addcarryx_25 [OF lb(10) mb(2) t8(3)])
  have R: "val10 (Ten r0 r1 r2 r3 r4 r5 r6 r7 r8 r9) + 2 ^ 255 * uint d9 = val10 (Ten l0 l1 l2 l3 l4 l5 l6 l7 l8 l9) + uint c9 * p25519"
  proof -
    have e: "uint l0 = uint r0 + 2 ^ 26 * uint d0 - uint (?m AND 0x3ffffed) - uint (0 :: u8)" "uint l1 = uint r1 + 2 ^ 25 * uint d1 - uint (?m AND 0x1ffffff) - uint d0" "uint l2 = uint r2 + 2 ^ 26 * uint d2 - uint (?m AND 0x3ffffff) - uint d1" "uint l3 = uint r3 + 2 ^ 25 * uint d3 - uint (?m AND 0x1ffffff) - uint d2" "uint l4 = uint r4 + 2 ^ 26 * uint d4 - uint (?m AND 0x3ffffff) - uint d3" "uint l5 = uint r5 + 2 ^ 25 * uint d5 - uint (?m AND 0x1ffffff) - uint d4" "uint l6 = uint r6 + 2 ^ 26 * uint d6 - uint (?m AND 0x3ffffff) - uint d5" "uint l7 = uint r7 + 2 ^ 25 * uint d7 - uint (?m AND 0x1ffffff) - uint d6" "uint l8 = uint r8 + 2 ^ 26 * uint d8 - uint (?m AND 0x3ffffff) - uint d7" "uint l9 = uint r9 + 2 ^ 25 * uint d9 - uint (?m AND 0x1ffffff) - uint d8"
      using t0(4) t1(4) t2(4) t3(4) t4(4) t5(4) t6(4) t7(4) t8(4) t9(4) by linarith+
    show ?thesis unfolding val10.simps e m z p25519_def by algebra
  qed
  have "limbs10_le (2 ^ 26 - 1) (2 ^ 25 - 1) (Ten r0 r1 r2 r3 r4 r5 r6 r7 r8 r9)" using t0(2) t1(2) t2(2) t3(2) t4(2) t5(2) t6(2) t7(2) t8(2) t9(2) by simp
  from that [OF t0(1) t1(1) t2(1) t3(1) t4(1) t5(1) t6(1) t7(1) t8(1) t9(1) this t9(3) R] show thesis .
qed

lemma limbs10_value: "limbs10_le (2 ^ 26 - 1) (2 ^ 25 - 1) f \<Longrightarrow> 0 \<le> val10 f \<and> val10 f < 2 ^ 255"
  by (cases f) simp

lemma freeze_value:
  fixes v l r :: int and c d :: u8
  assumes V: "v = p25519 + l - 2 ^ 255 * uint c" and R: "r + 2 ^ 255 * uint d = l + uint c * p25519"
    and lt: "0 \<le> l \<and> l < 2 ^ 255" "0 \<le> r \<and> r < 2 ^ 255" "0 \<le> v" "v < 2 * p25519"
    and c: "uint c \<le> 1" and d: "uint d \<le> 1"
  shows "r = v mod p25519"
proof -
  have "uint x = 0 \<or> uint x = 1" if "uint x \<le> 1" for x :: u8 using that uint_ge_0 [of x] by linarith
  then consider "uint c = 0" "uint d = 0" | "uint c = 0" "uint d = 1" | "uint c = 1" "uint d = 0" | "uint c = 1" "uint d = 1"
    using c d by blast
  then show ?thesis
  proof cases
    case 1
    then have "r = v - p25519" "0 \<le> v - p25519" "v - p25519 < p25519" using V R lt by simp_all
    moreover have "v mod p25519 = (v - p25519) mod p25519" by simp
    ultimately show ?thesis by (simp only: mod_pos_pos_trivial)
  next
    case 4
    then have "r = v" "v < p25519" using V R lt by simp_all
    then show ?thesis using lt(3) by simp
  qed (use V R lt in \<open>simp_all add: p25519_def\<close>)
qed

lemma freeze_correct:
  assumes "tight10 f"
  shows "limbs10_le (2 ^ 26 - 1) (2 ^ 25 - 1) (fe_freeze f)" and "val10 (fe_freeze f) = val10 f mod p25519"
proof -
  obtain a0 a1 a2 a3 a4 a5 a6 a7 a8 a9 where f: "f = Ten a0 a1 a2 a3 a4 a5 a6 a7 a8 a9" by (cases f)
  obtain l0 l1 l2 l3 l4 l5 l6 l7 l8 l9 c0 c1 c2 c3 c4 c5 c6 c7 c8 c9 where s: "subborrow_u26 0 a0 0x3ffffed = (l0, c0)" "subborrow_u25 c0 a1 0x1ffffff = (l1, c1)" "subborrow_u26 c1 a2 0x3ffffff = (l2, c2)" "subborrow_u25 c2 a3 0x1ffffff = (l3, c3)" "subborrow_u26 c3 a4 0x3ffffff = (l4, c4)" "subborrow_u25 c4 a5 0x1ffffff = (l5, c5)" "subborrow_u26 c5 a6 0x3ffffff = (l6, c6)" "subborrow_u25 c6 a7 0x1ffffff = (l7, c7)" "subborrow_u26 c7 a8 0x3ffffff = (l8, c8)" "subborrow_u25 c8 a9 0x1ffffff = (l9, c9)"
    and l: "limbs10_le (2 ^ 26 - 1) (2 ^ 25 - 1) (Ten l0 l1 l2 l3 l4 l5 l6 l7 l8 l9)" and c9: "uint c9 \<le> 1"
    and V: "val10 f = p25519 + val10 (Ten l0 l1 l2 l3 l4 l5 l6 l7 l8 l9) - 2 ^ 255 * uint c9"
    by (rule freeze_sub [OF assms [unfolded f], folded f])
  obtain r0 r1 r2 r3 r4 r5 r6 r7 r8 r9 d0 d1 d2 d3 d4 d5 d6 d7 d8 d9 where t: "addcarryx_u26 0 l0 (cmovznz32 (ucast c9) 0 0xffffffff AND 0x3ffffed) = (r0, d0)" "addcarryx_u25 d0 l1 (cmovznz32 (ucast c9) 0 0xffffffff AND 0x1ffffff) = (r1, d1)" "addcarryx_u26 d1 l2 (cmovznz32 (ucast c9) 0 0xffffffff AND 0x3ffffff) = (r2, d2)" "addcarryx_u25 d2 l3 (cmovznz32 (ucast c9) 0 0xffffffff AND 0x1ffffff) = (r3, d3)" "addcarryx_u26 d3 l4 (cmovznz32 (ucast c9) 0 0xffffffff AND 0x3ffffff) = (r4, d4)" "addcarryx_u25 d4 l5 (cmovznz32 (ucast c9) 0 0xffffffff AND 0x1ffffff) = (r5, d5)" "addcarryx_u26 d5 l6 (cmovznz32 (ucast c9) 0 0xffffffff AND 0x3ffffff) = (r6, d6)" "addcarryx_u25 d6 l7 (cmovznz32 (ucast c9) 0 0xffffffff AND 0x1ffffff) = (r7, d7)" "addcarryx_u26 d7 l8 (cmovznz32 (ucast c9) 0 0xffffffff AND 0x3ffffff) = (r8, d8)" "addcarryx_u25 d8 l9 (cmovznz32 (ucast c9) 0 0xffffffff AND 0x1ffffff) = (r9, d9)"
    and rb: "limbs10_le (2 ^ 26 - 1) (2 ^ 25 - 1) (Ten r0 r1 r2 r3 r4 r5 r6 r7 r8 r9)" and d9: "uint d9 \<le> 1"
    and R: "val10 (Ten r0 r1 r2 r3 r4 r5 r6 r7 r8 r9) + 2 ^ 255 * uint d9 = val10 (Ten l0 l1 l2 l3 l4 l5 l6 l7 l8 l9) + uint c9 * p25519"
    by (rule freeze_add [OF l c9])
  have r: "fe_freeze f = Ten r0 r1 r2 r3 r4 r5 r6 r7 r8 r9"
    unfolding f fe_freeze_def ten.case by (simp only: Let_def prod.case s t)
  show "limbs10_le (2 ^ 26 - 1) (2 ^ 25 - 1) (fe_freeze f)" unfolding r by (rule rb)
  have "0 \<le> val10 f" "val10 f < 2 * p25519" using assms unfolding f p25519_def by (simp_all add: tight10_def)
  then show "val10 (fe_freeze f) = val10 f mod p25519"
    unfolding r by (rule freeze_value [OF V R limbs10_value [OF l] limbs10_value [OF rb] _ _ c9 d9])
qed

section \<open>The encoding\<close>

lemma uint_byte: "uint (ucast (w :: u32) :: u8) = uint w mod 2 ^ 8"
  by (simp add: unsigned_ucast_eq take_bit_eq_mod)

lemma byte_at: "uint (ucast (drop_bit k (w :: u32)) :: u8) = uint w div 2 ^ k mod 2 ^ 8"
  by (simp only: uint_byte uint_drop)

lemma byte_top: "uint w < 2 ^ (k + 8) \<Longrightarrow> uint (ucast (drop_bit k (w :: u32)) :: u8) = uint w div 2 ^ k"
proof -
  assume "uint w < 2 ^ (k + 8)"
  then have "uint w div 2 ^ k < 2 ^ 8" by (intro div_power_less) (simp add: power_add mult.commute)
  then show ?thesis unfolding byte_at by (simp add: pos_imp_zdiv_nonneg_iff)
qed

text \<open>A byte across two limbs: \<open>s\<close> bits of the lower and \<open>8 - s\<close> of the upper one.\<close>

lemma byte_or:
  fixes a b :: u32
  assumes "uint a < 2 ^ (k + s)" "s + j = 8"
  shows "uint (ucast (drop_bit k a OR push_bit s b) :: u8) = uint a div 2 ^ k + 2 ^ s * (uint b mod 2 ^ j)"
proof -
  have q: "uint a div 2 ^ k < 2 ^ s" using assms(1) by (intro div_power_less) (simp add: power_add mult.commute)
  have "uint (drop_bit k a OR push_bit s b) = (uint a div 2 ^ k + uint b * 2 ^ s) mod 2 ^ 32"
    using uint_or_push(1) [of "drop_bit k a" s b] q assms(2) by (simp add: uint_drop)
  then have "uint (ucast (drop_bit k a OR push_bit s b) :: u8) = (uint a div 2 ^ k + uint b * 2 ^ s) mod 2 ^ 32 mod 2 ^ 8"
    by (simp only: uint_byte)
  also have "\<dots> = (uint a div 2 ^ k + uint b * 2 ^ s) mod (2 ^ s * 2 ^ j)"
    unfolding power_add [symmetric] assms(2) by (rule mod_mod_cancel) simp
  also have "\<dots> = 2 ^ s * ((uint a div 2 ^ k + uint b * 2 ^ s) div 2 ^ s mod 2 ^ j)
      + (uint a div 2 ^ k + uint b * 2 ^ s) mod 2 ^ s"
    by (rule zmod_zmult2_eq) simp
  also have "\<dots> = uint a div 2 ^ k + 2 ^ s * (uint b mod 2 ^ j)"
    using q by (simp add: pos_imp_zdiv_nonneg_iff)
  finally show ?thesis .
qed

lemma limb_parts:
  fixes x :: int
  assumes "j = i + 8" "k = i + 16"
  obtains a b c d where "x mod 2 ^ i = a" "x div 2 ^ i mod 2 ^ 8 = b" "x div 2 ^ j mod 2 ^ 8 = c" "x div 2 ^ k = d"
    "x = a + 2 ^ i * b + 2 ^ j * c + 2 ^ k * d"
proof -
  have d: "x div 2 ^ (m + 8) = x div 2 ^ m div 2 ^ 8" for m unfolding power_add by (rule zdiv_zmult2_eq) simp
  have s: "x div 2 ^ m = x div 2 ^ m mod 2 ^ 8 + 2 ^ 8 * (x div 2 ^ (m + 8))" for m
    unfolding d by (simp only: mod_mult_div_eq)
  have k: "i + 16 = j + 8" using assms by simp
  have "x = x mod 2 ^ i + 2 ^ i * (x div 2 ^ i)" by (simp only: mod_mult_div_eq)
  also have "x div 2 ^ i = x div 2 ^ i mod 2 ^ 8 + 2 ^ 8 * (x div 2 ^ j)" using s [of i] by (simp only: assms)
  also have "x div 2 ^ j = x div 2 ^ j mod 2 ^ 8 + 2 ^ 8 * (x div 2 ^ k)" using s [of j] by (simp only: assms(2) k)
  finally have "x = x mod 2 ^ i + 2 ^ i * (x div 2 ^ i mod 2 ^ 8) + 2 ^ j * (x div 2 ^ j mod 2 ^ 8) + 2 ^ k * (x div 2 ^ k)"
    unfolding assms by (simp add: power_add algebra_simps)
  with that show thesis by blast
qed

lemma int_le_val: "int (le_val []) = 0" "int (le_val (b # bs)) = uint b + 256 * int (le_val bs)"
  by simp_all

lemma bytes_correct:
  assumes "limbs10_le (2 ^ 26 - 1) (2 ^ 25 - 1) g"
  shows "fe_bytes g = le_bytes 32 (nat (val10 g))"
proof -
  obtain h0 h1 h2 h3 h4 h5 h6 h7 h8 h9 where g: "g = Ten h0 h1 h2 h3 h4 h5 h6 h7 h8 h9" by (cases g)
  have h: "uint h0 < 2 ^ 26" "uint h1 < 2 ^ 25" "uint h2 < 2 ^ 26" "uint h3 < 2 ^ 25" "uint h4 < 2 ^ 26" "uint h5 < 2 ^ 25" "uint h6 < 2 ^ 26" "uint h7 < 2 ^ 25" "uint h8 < 2 ^ 26" "uint h9 < 2 ^ 25"
    using assms by (simp_all add: g)
  have n0: "(16 :: nat) = 8 + 8" "(24 :: nat) = 8 + 16" by simp_all
  obtain a0 b0 c0 d0 where p0: "uint h0 mod 2 ^ 8 = a0" "uint h0 div 2 ^ 8 mod 2 ^ 8 = b0" "uint h0 div 2 ^ 16 mod 2 ^ 8 = c0"
    "uint h0 div 2 ^ 24 = d0" "uint h0 = a0 + 2 ^ 8 * b0 + 2 ^ 16 * c0 + 2 ^ 24 * d0" by (rule limb_parts [OF n0])
  have n1: "(14 :: nat) = 6 + 8" "(22 :: nat) = 6 + 16" by simp_all
  obtain a1 b1 c1 d1 where p1: "uint h1 mod 2 ^ 6 = a1" "uint h1 div 2 ^ 6 mod 2 ^ 8 = b1" "uint h1 div 2 ^ 14 mod 2 ^ 8 = c1"
    "uint h1 div 2 ^ 22 = d1" "uint h1 = a1 + 2 ^ 6 * b1 + 2 ^ 14 * c1 + 2 ^ 22 * d1" by (rule limb_parts [OF n1])
  have n2: "(13 :: nat) = 5 + 8" "(21 :: nat) = 5 + 16" by simp_all
  obtain a2 b2 c2 d2 where p2: "uint h2 mod 2 ^ 5 = a2" "uint h2 div 2 ^ 5 mod 2 ^ 8 = b2" "uint h2 div 2 ^ 13 mod 2 ^ 8 = c2"
    "uint h2 div 2 ^ 21 = d2" "uint h2 = a2 + 2 ^ 5 * b2 + 2 ^ 13 * c2 + 2 ^ 21 * d2" by (rule limb_parts [OF n2])
  have n3: "(11 :: nat) = 3 + 8" "(19 :: nat) = 3 + 16" by simp_all
  obtain a3 b3 c3 d3 where p3: "uint h3 mod 2 ^ 3 = a3" "uint h3 div 2 ^ 3 mod 2 ^ 8 = b3" "uint h3 div 2 ^ 11 mod 2 ^ 8 = c3"
    "uint h3 div 2 ^ 19 = d3" "uint h3 = a3 + 2 ^ 3 * b3 + 2 ^ 11 * c3 + 2 ^ 19 * d3" by (rule limb_parts [OF n3])
  have n4: "(10 :: nat) = 2 + 8" "(18 :: nat) = 2 + 16" by simp_all
  obtain a4 b4 c4 d4 where p4: "uint h4 mod 2 ^ 2 = a4" "uint h4 div 2 ^ 2 mod 2 ^ 8 = b4" "uint h4 div 2 ^ 10 mod 2 ^ 8 = c4"
    "uint h4 div 2 ^ 18 = d4" "uint h4 = a4 + 2 ^ 2 * b4 + 2 ^ 10 * c4 + 2 ^ 18 * d4" by (rule limb_parts [OF n4])
  have n5: "(16 :: nat) = 8 + 8" "(24 :: nat) = 8 + 16" by simp_all
  obtain a5 b5 c5 d5 where p5: "uint h5 mod 2 ^ 8 = a5" "uint h5 div 2 ^ 8 mod 2 ^ 8 = b5" "uint h5 div 2 ^ 16 mod 2 ^ 8 = c5"
    "uint h5 div 2 ^ 24 = d5" "uint h5 = a5 + 2 ^ 8 * b5 + 2 ^ 16 * c5 + 2 ^ 24 * d5" by (rule limb_parts [OF n5])
  have n6: "(15 :: nat) = 7 + 8" "(23 :: nat) = 7 + 16" by simp_all
  obtain a6 b6 c6 d6 where p6: "uint h6 mod 2 ^ 7 = a6" "uint h6 div 2 ^ 7 mod 2 ^ 8 = b6" "uint h6 div 2 ^ 15 mod 2 ^ 8 = c6"
    "uint h6 div 2 ^ 23 = d6" "uint h6 = a6 + 2 ^ 7 * b6 + 2 ^ 15 * c6 + 2 ^ 23 * d6" by (rule limb_parts [OF n6])
  have n7: "(13 :: nat) = 5 + 8" "(21 :: nat) = 5 + 16" by simp_all
  obtain a7 b7 c7 d7 where p7: "uint h7 mod 2 ^ 5 = a7" "uint h7 div 2 ^ 5 mod 2 ^ 8 = b7" "uint h7 div 2 ^ 13 mod 2 ^ 8 = c7"
    "uint h7 div 2 ^ 21 = d7" "uint h7 = a7 + 2 ^ 5 * b7 + 2 ^ 13 * c7 + 2 ^ 21 * d7" by (rule limb_parts [OF n7])
  have n8: "(12 :: nat) = 4 + 8" "(20 :: nat) = 4 + 16" by simp_all
  obtain a8 b8 c8 d8 where p8: "uint h8 mod 2 ^ 4 = a8" "uint h8 div 2 ^ 4 mod 2 ^ 8 = b8" "uint h8 div 2 ^ 12 mod 2 ^ 8 = c8"
    "uint h8 div 2 ^ 20 = d8" "uint h8 = a8 + 2 ^ 4 * b8 + 2 ^ 12 * c8 + 2 ^ 20 * d8" by (rule limb_parts [OF n8])
  have n9: "(10 :: nat) = 2 + 8" "(18 :: nat) = 2 + 16" by simp_all
  obtain a9 b9 c9 d9 where p9: "uint h9 mod 2 ^ 2 = a9" "uint h9 div 2 ^ 2 mod 2 ^ 8 = b9" "uint h9 div 2 ^ 10 mod 2 ^ 8 = c9"
    "uint h9 div 2 ^ 18 = d9" "uint h9 = a9 + 2 ^ 2 * b9 + 2 ^ 10 * c9 + 2 ^ 18 * d9" by (rule limb_parts [OF n9])
  have o0: "uint (ucast (drop_bit 24 h0 OR push_bit 2 h1) :: u8) = d0 + 2 ^ 2 * a1"
    unfolding p0(4) [symmetric] p1(1) [symmetric] by (rule byte_or) (use h in simp_all)
  have o1: "uint (ucast (drop_bit 22 h1 OR push_bit 3 h2) :: u8) = d1 + 2 ^ 3 * a2"
    unfolding p1(4) [symmetric] p2(1) [symmetric] by (rule byte_or) (use h in simp_all)
  have o2: "uint (ucast (drop_bit 21 h2 OR push_bit 5 h3) :: u8) = d2 + 2 ^ 5 * a3"
    unfolding p2(4) [symmetric] p3(1) [symmetric] by (rule byte_or) (use h in simp_all)
  have o3: "uint (ucast (drop_bit 19 h3 OR push_bit 6 h4) :: u8) = d3 + 2 ^ 6 * a4"
    unfolding p3(4) [symmetric] p4(1) [symmetric] by (rule byte_or) (use h in simp_all)
  have o4: "uint (ucast (drop_bit 18 h4) :: u8) = d4" unfolding p4(4) [symmetric] by (rule byte_top) (use h in simp)
  have o5: "uint (ucast (drop_bit 24 h5 OR push_bit 1 h6) :: u8) = d5 + 2 ^ 1 * a6"
    unfolding p5(4) [symmetric] p6(1) [symmetric] by (rule byte_or) (use h in simp_all)
  have o6: "uint (ucast (drop_bit 23 h6 OR push_bit 3 h7) :: u8) = d6 + 2 ^ 3 * a7"
    unfolding p6(4) [symmetric] p7(1) [symmetric] by (rule byte_or) (use h in simp_all)
  have o7: "uint (ucast (drop_bit 21 h7 OR push_bit 4 h8) :: u8) = d7 + 2 ^ 4 * a8"
    unfolding p7(4) [symmetric] p8(1) [symmetric] by (rule byte_or) (use h in simp_all)
  have o8: "uint (ucast (drop_bit 20 h8 OR push_bit 6 h9) :: u8) = d8 + 2 ^ 6 * a9"
    unfolding p8(4) [symmetric] p9(1) [symmetric] by (rule byte_or) (use h in simp_all)
  have o9: "uint (ucast (drop_bit 18 h9) :: u8) = d9" unfolding p9(4) [symmetric] by (rule byte_top) (use h in simp)
  have "int (le_val (fe_bytes g)) = val10 g"
    unfolding g fe_bytes.simps int_le_val o0 o1 o2 o3 o4 o5 o6 o7 o8 o9
    unfolding byte_at
    unfolding uint_byte p0(1) p5(1) p0(2,3) p1(2,3) p2(2,3) p3(2,3) p4(2,3) p5(2,3) p6(2,3) p7(2,3) p8(2,3) p9(2,3)
    unfolding val10.simps p0(5) p1(5) p2(5) p3(5) p4(5) p5(5) p6(5) p7(5) p8(5) p9(5) by algebra
  then have "le_val (fe_bytes g) = nat (val10 g)" by linarith
  moreover have "le_bytes 32 (le_val (fe_bytes g)) = fe_bytes g" by (rule le_bytes_le_val) (simp add: g)
  ultimately show ?thesis by simp
qed

lemma tobytes_correct: "tight10 f \<Longrightarrow> fe_tobytes f = rfc_encode_u (val10 f)"
  by (simp only: fe_tobytes_def bytes_correct [OF freeze_correct(1)] freeze_correct(2) rfc_encode_u_def)

section \<open>The function\<close>

lemma fiat32_x25519:
  assumes "length k = 32" "length u = 32"
  shows "fiat32_generic k u = x25519 k u"
proof -
  let ?e = "curve25519_clamp_secret k" let ?q = "fe_frombytes u"
  note q = frombytes_correct [OF assms(2)]
  obtain x z xp zp where l: "fiat32_loop 255 ?q ?e (fe_1, fe_0, ?q, fe_1) (of_bool False) = (x, z, xp, zp)"
    by (cases "fiat32_loop 255 ?q ?e (fe_1, fe_0, ?q, fe_1) (of_bool False)")
  have "tight_lad (fe_1, fe_0, ?q, fe_1)" using q(1) by (simp add: fe_1_def fe_0_def tight10_def)
  moreover have "lad10 (fe_1, fe_0, ?q, fe_1) = (1, 0, rfc_decode_u u, 1)" by (simp add: fe_1_def fe_0_def q(2))
  ultimately have t: "tight10 x" "tight10 z"
    and s: "eqm_ladder (val10 x, val10 z, val10 xp, val10 zp) (rfc_ladder 255 (le_val ?e) (rfc_decode_u u))"
    using fiat32_loop_correct [OF _ q(1), of "(fe_1, fe_0, ?q, fe_1)" 255 ?e False] assms(1)
    unfolding l rfc_ladder_def q(2) by (simp_all add: length_clamp)
  note v = fe_invert_correct [OF tight10_loose10 [OF t(2)]]
  note lo = tight10_loose10 [OF t(1)] tight10_loose10 [OF v(1)]
  have m: "tight10 (fe_mul x (fe_invert z))" by (rule c32.mul_tight [OF lo])
  have "eqm (val10 (fe_mul x (fe_invert z))) (val10 x * val10 z ^ (2 ^ 255 - 21))"
    by (rule c32.mul_eqm [OF lo eqm_refl v(2)])
  then have "eqm (val10 (fe_mul x (fe_invert z))) (rfc_quotient (val10 x, val10 z, val10 xp, val10 zp))"
    by (simp only: rfc_quotient_def prod.case eqm_mod)
  then have "fe_tobytes (fe_mul x (fe_invert z)) = rfc_encode_u (rfc_quotient (val10 x, val10 z, val10 xp, val10 zp))"
    by (simp only: tobytes_correct [OF m] rfc_encode_cong)
  moreover have "fiat32_generic k u = fe_tobytes (fe_mul x (fe_invert z))"
    using l by (simp only: fiat32_generic_def Let_def of_bool_eq prod.case)
  ultimately show ?thesis by (simp only: x25519_def rfc_quotient_cong [OF s] clamp_value [OF assms(1)])
qed

text \<open>The two builds compute the same public key.\<close>

lemma fiat32_public_key_eq: "length k = 32 \<Longrightarrow> fiat32_public_key k = curve25519_public_key k"
  by (simp add: fiat32_public_key_def fiat32_x25519 public_key_x25519 curve25519_basepoint_def)

end
