(* ===== verification/Spec2Isabelle.thy ===== *)
theory Spec2Isabelle
  imports Fastrand Base64 Blake2s Log Awg_Config Packet_Transform Transform_Correct Obfs Cps Session_Table Seqlock Proxy_State Proxy_Control Net_Io Proxy_Io Proxy_Path Proxy_S2c Proxy_C2s Proxy_Lifecycle Proxy_Threads Path_Correct C2s_Correct Lifecycle_Correct Init_Correct Gateway_Correct S2c_Gateway_Correct Config_Values Config_Runtime Config_File Main_Program Main_Correct Config_Sources Curve25519_Public Curve25519_Fiat32_Public
begin

text \<open>
  A model of wg2awg, the C program of \<open>src/\<close>: a UDP proxy between plain WireGuard and
  AmneziaWG, its obfuscated form.  The header words of the four WireGuard message types are
  replaced by values of configured ranges, messages are padded, an initiation is preceded by
  decoys and junk packets, the MAC1 field is computed again over the changed header, and an outer
  profile can dress each packet as another protocol's.  In client mode one local WireGuard peer
  talks to a remote AmneziaWG server; gateway and server mode translate the other way, server mode
  for many clients at once.

  \<^bold>\<open>Parts of the program.\<close>  \<open>main\<close> merges flags, configuration file, environment and defaults into
  one configuration, derives the public key of a private key, validates and completes the
  configuration, and calls \<open>proxy_init\<close> and \<open>proxy_run\<close>.  A run opens the sockets, starts one
  thread per direction and then loops in the control thread, which watches for silence, asks the
  threads to reconnect, or ends the process.  Each thread receives a batch, translates it packet by
  packet and sends a queue of vectors that point into its buffers.  The threads share
  \<open>proxy_t\<close> and, in server mode, the session table that routes replies to clients.

  \<^bold>\<open>Theories\<close>, each with the source it models:
  \<^item> \<open>AWG_Base\<close>: machine types, byte lists as memory with checked accesses, list lemmas.
  \<^item> \<open>Fastrand\<close>, \<open>Base64\<close>, \<open>Blake2s\<close>, \<open>Log\<close>: the files \<open>fastrand.c\<close>, \<open>base64.c\<close>, \<open>blake2s.c\<close>
    and \<open>log.c\<close>; for the last three a reference definition stands beside the code.
  \<^item> \<open>X25519\<close>: X25519 of RFC 7748, words with tracked bounds and the laws of a limb arithmetic
    (locale \<open>limb_field\<close>).  \<open>Curve25519\<close> is \<open>curve25519.c\<close> as built with a 128-bit integer, and
    \<open>Curve25519_Correct\<close>, \<open>_Key\<close>, \<open>_Format\<close>, \<open>_Public\<close> prove it to be X25519 on the base point;
    \<open>X25519_Scale\<close> shows that the top bit it visits in addition changes nothing.
    \<open>Curve25519_Fiat32\<close> is \<open>curve25519_fiat32.c\<close>, the build for other compilers, and
    \<open>Curve25519_Fiat32_Field\<close>, \<open>_Key\<close>, \<open>_Ladder\<close>, \<open>_Bytes\<close>, \<open>_Public\<close> prove it to be X25519 on
    every point.
  \<^item> \<open>Awg_Config\<close>: the types of \<open>transform.h\<close> and \<open>obfs.h\<close>, \<open>config_validate\<close> and
    \<open>config_compute\<close>.  \<open>Packet_Transform\<close>: \<open>transform.c\<close> on buffers with headroom;
    \<open>Transform_Correct\<close>: its abstract form \<open>out_spec\<close>, \<open>in_spec\<close> and the refinement.
  \<^item> \<open>Obfs\<close>: \<open>obfs.c\<close>, nine profiles against one contract (locale \<open>obfs_profile\<close>).
    \<open>Cps\<close>: \<open>cps.c\<close>, the decoy templates.
  \<^item> \<open>Session_Table\<close>: \<open>session_table.c\<close> one operation at a time, against the contract of a lossy map;
    \<open>Seqlock\<close>: one writer and one reader of a slot as interleaved steps.
  \<^item> \<open>Proxy_State\<close>, \<open>Net_Io\<close>, \<open>Proxy_Io\<close>: \<open>proxy.h\<close>, the header ring of \<open>proxy.c\<close>, addresses
    (\<open>net_addr.c\<close>, \<open>net_sock.c\<close>), batched sending (\<open>proxy_io_batch.c\<close>), decoys and junk
    (\<open>proxy_emit.c\<close>), the thread's buffers and vectors (\<open>proxy_init_io.c\<close>).
  \<^item> \<open>Proxy_Path\<close>, \<open>Proxy_S2c\<close>, \<open>Proxy_C2s\<close>, \<open>Proxy_Threads\<close>: the four packet paths and the two
    threads (\<open>proxy_s2c_client.c\<close>, \<open>proxy_s2c_gateway.c\<close>, \<open>proxy_c2s_client.c\<close>,
    \<open>proxy_c2s_gateway.c\<close>, \<open>s2c_thread\<close> and \<open>proxy_init\<close> of \<open>proxy.c\<close>); their lemmas in
    \<open>Path_Correct\<close>, \<open>C2s_Correct\<close>, \<open>Gateway_Correct\<close>, \<open>S2c_Gateway_Correct\<close>, \<open>Init_Correct\<close>.
  \<^item> \<open>Proxy_Control\<close> (\<open>proxy_control.c\<close>) and \<open>Proxy_Lifecycle\<close> (\<open>proxy_net.c\<close>, \<open>proxy_reconnect.c\<close>,
    \<open>proxy_startup.c\<close>, \<open>proxy_runtime.c\<close>, \<open>proxy_shutdown.c\<close>, \<open>proxy_run\<close>), with
    \<open>Lifecycle_Correct\<close>.
  \<^item> \<open>Config_Values\<close>, \<open>Config_Runtime\<close>, \<open>Config_File\<close>, \<open>Main_Program\<close>: \<open>config_runtime.c\<close>,
    \<open>config_file.c\<close>, \<open>main.c\<close>; \<open>Main_Correct\<close> and \<open>Config_Sources\<close>: what main hands on and where
    each value comes from.

  \<^bold>\<open>State and operations.\<close>  A struct is a record with the fields' names behind a short prefix, an
  enumeration a datatype, an unsigned integer a word of its width; an \<open>int\<close> is \<open>int\<close> where its range
  is bounded by the code around it.  An operation is a function of the state that returns it
  updated; a pointer into a buffer is an offset, an access outside a buffer makes the result
  \<open>None\<close>, so that a theorem that something is \<open>Some\<close> is memory safety.  A vector of the send queue
  is a place, an offset and a length, read when the batch is sent, since two frames may share a
  buffer.  Calls with an effect outside the process are a list of actions in the order of the
  calls; what system calls return, and what the other threads do to the shared state between two
  rounds, is the environment, an argument.  Failed parses and checks are \<open>None\<close> or \<open>Inl\<close> of the message.

  \<^bold>\<open>What the properties show.\<close>  Translation: the buffer code refines an abstract translation, a peer
  undoes what a peer has done, handshakes leave sealed and only WireGuard messages come in.
  Profiles: every frame is parsed back, no datagram makes the parser read outside, and what a run of
  packets delivers.  Crypto: BLAKE2s is RFC 7693, Base64 is RFC 4648, both Curve25519 builds are
  RFC 7748.  Sessions: the table is never stale, a put evicts at most one entry, a concurrent read
  is never torn.  Paths: no data thread leaves a buffer under any configuration main can produce, each
  path delivers exactly the messages of its batch in order, batching is not observable, replies
  follow the sessions.  Control and life cycle: when the process may end, at which ticks it
  reconnects, that start-up gives up after its retries and that sockets are released.
  Configuration: precedence of the sources and that what main hands on is validated.

  \<^bold>\<open>Interfaces.\<close>  \<open>word_reader\<close> (decimal texts), \<open>mac1_codec\<close> (sealing a handshake), \<open>obfs_profile\<close> (a
  framing), \<open>lossy_map\<close> (the session table) and \<open>limb_field\<close> (field arithmetic) are locales, each
  interpreted on the definitions of the code, the profiles and the field twice or more.

  \<^bold>\<open>Bounds and termination.\<close>  There is no fuel.  Loops of the code are structural recursions or have a
  measure (the rest of a text, the rest of a datagram); the loops that only end when the
  environment says so (threads, control loop, dialling, partial writes) recurse over the list of what
  the environment does, and the properties hold for every list.  \<open>proxy_run\<close> has no return value
  when that list ends first, and \<open>main_config\<close> none where the code overflows an \<open>int\<close>.

  \<^bold>\<open>Assumptions of the model.\<close>  A little-endian host, a 64-bit \<open>long\<close>, sequentially consistent
  atomics (the fences of the seqlock are stronger than what the steps need), one thread per
  direction between two of its environment's steps, and \<open>malloc\<close> that returns memory or fails.

  \<^bold>\<open>Not modelled.\<close>  The help and version texts of \<open>main.c\<close> and the debug lines of failed sends
  (constant text); \<open>memzero_explicit\<close>, which clears dead locals; the one-line wrappers
  \<open>net_sock_create_udp\<close>, \<open>_bind\<close>, \<open>_connect\<close> and the draining of \<open>signalfd\<close> and \<open>timerfd\<close>, whose
  results are the environment's; the tests; the web interface and the build files, which are not
  part of the C program.
\<close>

section \<open>The packet translation\<close>

text \<open>A configuration both ends of a link can use in the examples: padding on every packet
  class, header ranges outside the WireGuard types.\<close>

definition demo_config :: awg_config_t where
  "demo_config = config_zero\<lparr>cf_jc := 4, cf_jmin := 40, cf_jmax := 70,
     cf_s1 := 15, cf_s2 := 20, cf_s3 := 7, cf_s4 := 3,
     cf_h1 := \<lparr>hr_min = 100, hr_max = 199\<rparr>, cf_h2 := \<lparr>hr_min = 200, hr_max = 299\<rparr>,
     cf_h3 := \<lparr>hr_min = 300, hr_max = 399\<rparr>, cf_h4 := \<lparr>hr_min = 400, hr_max = 499\<rparr>\<rparr>"

lemma demo_config_ok: "config_ok demo_config" "hranges_ordered demo_config"
  by (simp_all add: config_ok_def hranges_ordered_def demo_config_def config_zero_def
      hrange_overlaps_def)

lemma demo_ready: "config_ready (config_compute demo_config)"
  by (rule config_ready_compute [OF demo_config_ok])

text \<open>The identity parameters, with the transport shortcut on.\<close>

definition plain_config :: awg_config_t where
  "plain_config = config_zero\<lparr>
     cf_h1 := \<lparr>hr_min = 1, hr_max = 1\<rparr>, cf_h2 := \<lparr>hr_min = 2, hr_max = 2\<rparr>,
     cf_h3 := \<lparr>hr_min = 3, hr_max = 3\<rparr>, cf_h4 := \<lparr>hr_min = 4, hr_max = 4\<rparr>\<rparr>"

lemma plain_ready: "config_ready (config_compute plain_config)"
  by (rule config_ready_compute) (simp_all add: config_ok_def hranges_ordered_def plain_config_def
      config_zero_def hrange_overlaps_def word_le_nat_alt)

lemma demo_peers: "peers_ok (config_compute demo_config) (config_compute demo_config) None"
  using demo_ready
  by (simp add: peers_ok_def same_params_def out_key_def config_compute_def Let_def
      demo_config_def config_zero_def)

text \<open>C1. A WireGuard message (initiation, response, cookie reply, transport) translated by one peer and translated back by a peer with the same parameters comes out as the original message, with MAC1 recomputed under the receiver's key and MAC2 cleared where the message carries them, whatever surrounds the packet in the two buffers; the padded sizes must be distinguishable and, with the transport shortcut on, the first word on the wire must not be 4.\<close>

theorem peer_roundtrip:
  assumes "peers_ok c g key" and "wg_message p" and "cf_s4 c \<le> int (length xs)"
    and "length hs = 1500" and "clear_of_confusion g p (out_spec c key v xs p)"
  shows "\<exists>r buf off.
    transform_outbound_with_mac1 (xs @ p @ zs) hs (length xs) (length p) c key v = Some r
    \<and> transform_inbound (tx_packet r @ ws) (tx_len r) g = Some (Some (buf, off, length p))
    \<and> slice buf off (length p) = wg_restamped (cf_mac1key_in g) p"
  by (rule buffers_roundtrip [OF assms])

lemma peer_roundtrip_witness:
  "\<exists>r buf off. transform_outbound_with_mac1
      (replicate 1500 0 @ (le32_bytes 2 @ replicate 88 7) @ []) (replicate 1500 0)
      1500 92 (config_compute demo_config) None 99 = Some r
    \<and> transform_inbound (tx_packet r @ []) (tx_len r) (config_compute demo_config)
        = Some (Some (buf, off, 92))
    \<and> slice buf off 92
        = wg_restamped (cf_mac1key_in (config_compute demo_config)) (le32_bytes 2 @ replicate 88 7)"
  using peer_roundtrip [OF demo_peers, of "le32_bytes 2 @ replicate 88 7" "replicate 1500 0"
      "replicate 1500 0" 99 "[]" "[]"]
  by (simp add: wg_message_def clear_of_confusion_def sizes_distinct_def config_compute_def Let_def
      demo_config_def config_zero_def)

text \<open>C2. On every packet in a buffer, transform_outbound_with_mac1 makes no access outside its buffers and returns a window inside one of them that holds exactly the packet the abstract translation out_spec gives; junk is asked for exactly before initiations when JC is positive.\<close>

theorem outbound_refines_spec:
  assumes "config_ready cfg" and "key32 key" and "length hs = 1500"
  shows "\<exists>r. transform_outbound_with_mac1 (xs @ p @ zs) hs (length xs) (length p) cfg key v = Some r
    \<and> tx_packet r = out_spec cfg key v xs p \<and> tx_len r = length (tx_packet r)
    \<and> length (tx_buf r) = length (xs @ p @ zs) \<and> length (tx_hs r) = 1500
    \<and> tx_junk r = (cf_jc cfg > 0 \<and> le32_of p = 1 \<and> length p = 148)"
  using transform_outbound_refines [OF assms, of xs p zs v] assms(3)
  by (auto simp: out_refines_def tx_ok_def)

lemma outbound_refines_spec_witness:
  "\<exists>r. transform_outbound_with_mac1 ([] @ [9, 9] @ []) (replicate 1500 0)
      (length ([] :: bytes)) (length ([9, 9] :: bytes))
      (config_compute demo_config) None 5 = Some r
    \<and> tx_packet r = out_spec (config_compute demo_config) None 5 [] [9, 9]"
proof -
  have "key32 None" and "length (replicate 1500 (0 :: u8)) = 1500" by simp_all
  from outbound_refines_spec [OF demo_ready this, of "[]" "[9, 9]" "[]" 5] show ?thesis by blast
qed

text \<open>C3. On every datagram of any content, transform_inbound makes no access outside the datagram; it drops it exactly when the abstract translation in_spec does and otherwise returns a window of the datagram that holds the message in_spec gives.\<close>

theorem inbound_refines_spec:
  assumes "config_ready cfg"
  shows "\<exists>r. transform_inbound (p @ zs) (length p) cfg = Some r
    \<and> (case in_spec cfg p of None \<Rightarrow> r = None
       | Some q \<Rightarrow> \<exists>buf off. r = Some (buf, off, length q) \<and> slice buf off (length q) = q
           \<and> off + length q = length p \<and> length buf = length (p @ zs))"
  using transform_inbound_refines [OF assms, of p zs] by (simp add: in_refines_def rx_ok_def)

lemma inbound_refines_spec_witness:
  "\<exists>r. transform_inbound ([1, 2, 3] @ []) (length ([1, 2, 3] :: bytes)) (config_compute demo_config) = Some r \<and> r = None"
  using inbound_refines_spec [OF demo_ready, of "[1, 2, 3]" "[]"] by (simp add: in_spec_def)

lemma inbound_refines_spec':
  assumes "config_ready cfg"
  shows "\<exists>r. transform_inbound (p @ zs) (length p) cfg = Some r \<and> rx_ok (p @ zs) (length p) (in_spec cfg p) r"
  using transform_inbound_refines [OF assms, of p zs] by (simp add: in_refines_def)

text \<open>C4. Whatever datagram arrives, a packet that transform_inbound hands to WireGuard is a WireGuard message of one of the four types with the size of its type.\<close>

theorem inbound_delivers_wg_messages:
  assumes "config_ready cfg"
    and "transform_inbound (p @ zs) (length p) cfg = Some (Some (buf, off, len))"
  shows "wg_message (slice buf off len)"
proof -
  from inbound_refines_spec' [OF assms(1), of p zs] assms(2) obtain q where
    "in_spec cfg p = Some q" "len = length q" "slice buf off (length q) = q"
    by (auto simp: rx_ok_def split: option.splits)
  with in_spec_message [OF assms(1)] show ?thesis by simp
qed

lemma inbound_delivers_wg_messages_witness:
  "wg_message (slice (le32_bytes 4 @ replicate 32 0) 0 36)"
  using inbound_delivers_wg_messages [OF plain_ready, of
      "le32_bytes 4 @ replicate 32 0" "[]" "le32_bytes 4 @ replicate 32 0" 0 36]
  by (simp add: transform_inbound_def in_noop_def or_next_def config_compute_def Let_def
      plain_config_def config_zero_def rd32_def slice_def le32_of_take)

text \<open>The two handshake packets: type, size, bytes under MAC1, padding, header range.\<close>

definition handshake :: "awg_config_t \<Rightarrow> u32 \<Rightarrow> nat \<Rightarrow> nat \<Rightarrow> int \<Rightarrow> hrange_t \<Rightarrow> bool" where
  "handshake cfg ty n cov s h \<longleftrightarrow>
     (ty = 1 \<and> n = 148 \<and> cov = 116 \<and> s = cf_s1 cfg \<and> h = cf_h1 cfg)
     \<or> (ty = 2 \<and> n = 92 \<and> cov = 60 \<and> s = cf_s2 cfg \<and> h = cf_h2 cfg)"

lemma sealed_body:
  assumes "length k = 32" and "length p = cov + 32" and "4 \<le> cov"
    and "q = seal_opt cov (Some k) (retype hv p)"
  shows "length q = length p \<and> le32_of q = hv \<and> slice q 4 (cov - 4) = slice p 4 (cov - 4)
    \<and> slice q cov 16 = blake2s_128mac k (take cov q) \<and> slice q (cov + 16) 16 = replicate 16 0"
proof -
  have "take cov q = take cov (retype hv p)"
    using assms by (simp add: seal_opt_def seal_def)
  then have "take (cov - 4) (drop 4 (take cov q)) = take (cov - 4) (drop 4 (take cov p))"
    using assms(3) by (simp add: retype_def drop_take)
  then have "slice q 4 (cov - 4) = slice p 4 (cov - 4)"
    using assms(3) by (simp add: slice_def drop_take)
  then show ?thesis
    using assms seal_opt_valid [OF assms(1), of cov "retype hv p"]
    by (simp add: le32_of_seal_opt)
qed

lemma handshake_sealed:
  assumes "config_ready cfg" and "out_key cfg key = Some k" and "length k = 32"
    and "handshake cfg (le32_of p) (length p) cov s h"
    and q: "q = drop (nat s) (out_spec cfg key v xs p)"
  shows "length q = length p \<and> hrange_contains h (le32_of q) \<and> slice q 4 (cov - 4) = slice p 4 (cov - 4)
    \<and> slice q cov 16 = blake2s_128mac k (take cov q) \<and> slice q (cov + 16) 16 = replicate 16 0"
proof -
  have "q = seal_opt cov (Some k) (retype (hrange_pick h v) p)"
    using assms(2,4) by (auto simp: q out_spec_def handshake_def out_key_def Let_def)
  moreover have "hr_min h \<le> hr_max h"
    using assms(1,4) by (auto simp: handshake_def config_ready_def hranges_ordered_def)
  moreover have "length p = cov + 32" "4 \<le> cov" using assms(4) by (auto simp: handshake_def)
  ultimately show ?thesis
    using sealed_body [OF assms(3), of p cov q "hrange_pick h v"]
      hrange_pick_contains [of h v] by auto
qed

lemma blake2s_128mac_rfc: "length k = 32 \<Longrightarrow> blake2s_128mac k msg = rfc_blake2s 16 k msg"
  using blake2s_stream_eq [of k 16 msg] by (simp add: blake2s_128mac_def rfc_blake2s_def)

text \<open>C5. A handshake initiation or response that leaves through transform_outbound_with_mac1 carries, behind its padding, a header of the configured range, its own body unchanged, the MAC1 that RFC 7693's keyed BLAKE2s gives under the outbound key, and a zero MAC2.\<close>

theorem outbound_handshake_sealed:
  assumes "config_ready cfg" and "out_key cfg key = Some k" and "length k = 32"
    and "key32 key" and "length hs = 1500"
    and "handshake cfg (le32_of p) (length p) cov s h"
  shows "\<exists>r q. transform_outbound_with_mac1 (xs @ p @ zs) hs (length xs) (length p) cfg key v = Some r
    \<and> q = drop (nat s) (tx_packet r) \<and> length q = length p \<and> hrange_contains h (le32_of q)
    \<and> slice q 4 (cov - 4) = slice p 4 (cov - 4)
    \<and> slice q cov 16 = rfc_blake2s 16 k (take cov q) \<and> slice q (cov + 16) 16 = replicate 16 0"
proof -
  obtain r where r: "transform_outbound_with_mac1 (xs @ p @ zs) hs (length xs) (length p) cfg key v = Some r"
      "tx_packet r = out_spec cfg key v xs p"
    using transform_outbound_refines [OF assms(1,4,5), of xs p zs v]
    by (auto simp: out_refines_def tx_ok_def)
  show ?thesis
    using handshake_sealed [OF assms(1-3,6) refl, of v xs] r by (auto simp: blake2s_128mac_rfc assms(3))
qed

lemma outbound_handshake_sealed_witness:
  "\<exists>r q. transform_outbound_with_mac1 ([] @ (le32_bytes 1 @ replicate 144 5) @ []) (replicate 1500 0)
      (length ([] :: bytes)) (length (le32_bytes 1 @ replicate 144 (5 :: u8)))
      (config_compute demo_config) (Some (replicate 32 9)) 7 = Some r
    \<and> q = drop 15 (tx_packet r) \<and> slice q 132 16 = replicate 16 0"
proof -
  have "out_key (config_compute demo_config) (Some (replicate 32 9)) = Some (replicate 32 9)"
    by (simp add: out_key_def)
  moreover have "handshake (config_compute demo_config) (le32_of (le32_bytes 1 @ replicate 144 (5 :: u8)))
      (length (le32_bytes 1 @ replicate 144 (5 :: u8))) 116 15 (cf_h1 (config_compute demo_config))"
    by (simp add: handshake_def config_compute_def Let_def demo_config_def config_zero_def)
  ultimately show ?thesis
    using outbound_handshake_sealed [OF demo_ready, of "Some (replicate 32 9)" "replicate 32 9"
        "replicate 1500 0" "le32_bytes 1 @ replicate 144 5" 116 15
        "cf_h1 (config_compute demo_config)" "[]" "[]" 7] by auto
qed





section \<open>The obfuscation profiles\<close>

text \<open>C7. Under every profile, a packet that fits the 4096-byte frame is wrapped with exactly the profile's overhead, and the receiver's parser gives back the marker check of marker, packet and tail: the packet itself when no marker is due and the profile leaves no tail; a packet that does not fit is refused with the session untouched.\<close>

theorem obfs_wrap_unwrap:
  assumes "session_ok s" and "session_ok r" and "ob_profile r = ob_profile s"
  shows "if obfs_fits s p then profile_roundtrip s r p else obfs_wrap s p = (s, None)"
  using obfs_roundtrip [OF assms] obfs_wrap_too_big by simp

lemma obfs_wrap_unwrap_witness:
  "profile_roundtrip (obfs_session_init AWG_OBFS_RTP_MEDIA 3) (obfs_session_init AWG_OBFS_RTP_MEDIA 4) [1, 2, 3]"
proof -
  have "obfs_fits (obfs_session_init AWG_OBFS_RTP_MEDIA 3) [1, 2, 3]" by (simp add: obfs_fits_small)
  with obfs_wrap_unwrap [OF session_ok_init session_ok_init, of AWG_OBFS_RTP_MEDIA 4 AWG_OBFS_RTP_MEDIA 3 "[1, 2, 3]"]
  show ?thesis by (simp add: obfs_session_init_def)
qed

text \<open>C8. On any datagram whatever, under every profile and in every session state, obfs_unwrap reads no byte outside the datagram and the window it returns lies inside it.\<close>

theorem obfs_unwrap_memory_safe:
  "\<exists>r' w. obfs_unwrap r m = Some (r', w)
    \<and> (case w of None \<Rightarrow> True | Some (off, len) \<Rightarrow> off + len \<le> length m)"
proof -
  obtain r' w where "obfs_unwrap r m = Some (r', w)"
      "\<forall>off len. w = Some (off, len) \<longrightarrow> off + len \<le> length m"
    using obfs_unwrap_safe [of r m] by blast
  then show ?thesis by (intro exI [of _ r'] exI [of _ w]) (auto split: option.splits)
qed

text \<open>C9. A lossless run of packets under a profile without a random tail: once both ends have passed the marker phase every packet is delivered unchanged; of two fresh sessions the first packet is delivered, and the second is delivered with the sender's marker still in front of it, because the receiver stops looking for markers after the first while the sender writes three.\<close>

theorem obfs_run_delivers:
  assumes "\<forall>t. obfs_tail profile t = 0" and "\<forall>p \<in> set ps. length p \<le> 4056"
  shows "(session_ok s \<and> session_ok r \<and> ob_profile s = profile \<and> ob_profile r = profile
        \<and> ob_marker_tx_left s = 0 \<and> ob_marker_seen r \<longrightarrow> obfs_run s r ps = map Some ps)
    \<and> (profile \<noteq> AWG_OBFS_OFF \<and> ps = [p1, p2] \<longrightarrow>
        obfs_run (obfs_session_init profile a) (obfs_session_init profile b) ps = [Some p1, Some (k_obfs_marker @ p2)])"
proof (intro conjI impI; elim conjE)
  show "obfs_run s r ps = map Some ps" if "session_ok s" "session_ok r" "ob_profile s = profile"
      "ob_profile r = profile" "ob_marker_tx_left s = 0" "ob_marker_seen r"
    using that assms by (intro obfs_run_steady) simp_all
  show "obfs_run (obfs_session_init profile a) (obfs_session_init profile b) ps = [Some p1, Some (k_obfs_marker @ p2)]"
    if "profile \<noteq> AWG_OBFS_OFF" "ps = [p1, p2]"
    using obfs_run_fresh [OF that(1), of p1 p2 a b] that(2) assms by simp
qed

lemma obfs_run_delivers_witness:
  "obfs_run ((obfs_session_init AWG_OBFS_GAME_KCP 1)\<lparr>ob_marker_tx_left := 0\<rparr>)
      ((obfs_session_init AWG_OBFS_GAME_KCP 2)\<lparr>ob_marker_seen := True\<rparr>) [[1, 2], [3]] = [Some [1, 2], Some [3]]
   \<and> obfs_run (obfs_session_init AWG_OBFS_GAME_KCP 5) (obfs_session_init AWG_OBFS_GAME_KCP 6) [[1, 2], [3]]
    = [Some [1, 2], Some (k_obfs_marker @ [3])]"
proof -
  have t: "\<forall>t. obfs_tail AWG_OBFS_GAME_KCP t = 0" "\<forall>p \<in> set [[1, 2 :: u8], [3]]. length p \<le> 4056" by simp_all
  show ?thesis
    using obfs_run_delivers [OF t, of "(obfs_session_init AWG_OBFS_GAME_KCP 1)\<lparr>ob_marker_tx_left := 0\<rparr>"
        "(obfs_session_init AWG_OBFS_GAME_KCP 2)\<lparr>ob_marker_seen := True\<rparr>"]
      obfs_run_delivers [OF t, of _ _ "[1, 2]" "[3]" 5 6]
    by (simp add: session_ok_def obfs_session_init_def)
qed

section \<open>Hash, keys, templates\<close>



text \<open>C11. The standard encoding of any bytes that fit the output buffer decodes to those bytes, and whatever decodes has at most the buffer's size, three bytes for four characters, and only characters of the alphabet before the padding.\<close>

theorem base64_decode_correct:
  "(length bs \<le> m \<longrightarrow> base64_decode (b64_encode bs) m = Some bs)
    \<and> (base64_decode s m = Some cs \<longrightarrow> length cs \<le> m
      \<and> length cs = length (strip_padding s) * 3 div 4
      \<and> (\<forall>c \<in> set (strip_padding s). 0 \<le> b64_val c))"
  using base64_decode_encode base64_decode_SomeD [of s m cs] by blast

lemma base64_decode_correct_witness:
  "base64_decode (b64_encode [1, 2, 3]) 32 = Some [1, 2, 3]
    \<and> length [1, 2, 3 :: u8] = length (strip_padding (b64_encode [1, 2, 3])) * 3 div 4"
  using base64_decode_correct [of "[1, 2, 3]" 32 "b64_encode [1, 2, 3]" "[1, 2, 3]"] by simp



section \<open>Sessions\<close>

definition empty_table :: session_table where
  "empty_table = replicate 4096 entry_zero"

definition session_puts :: "session_table \<Rightarrow> (u32 \<times> sockaddr \<times> nat) list \<Rightarrow> session_table" where
  "session_puts = foldl (\<lambda>tbl (k, addr, len). session_put tbl k addr len)"

lemma session_puts_eq: "session_puts tbl kas = sessions.puts tbl kas"
  unfolding session_puts_def
  by (induction kas arbitrary: tbl) (auto simp: put_addr_def)

lemma empty_table_ok: "table_ok empty_table"
  by (simp add: empty_table_def table_ok_empty)

lemma empty_table_get: "table_map empty_table x = None"
proof -
  have "\<not> matches empty_table x s" if "s < 4096" for s
    using that by (simp add: matches_def empty_table_def entry_zero_def)
  then have "session_get_entry empty_table x = None"
    by (auto simp: session_get_entry_def find_None_iff probes_def)
  then show ?thesis by (simp add: table_map_def)
qed

lemma session_puts_ok: "\<forall>(k, a) \<in> set kas. addr_arg_ok a \<Longrightarrow> table_ok (session_puts empty_table kas)"
  by (simp add: session_puts_eq sessions.inv_puts empty_table_ok)

lemma session_puts_get:
  assumes "\<forall>(k, a) \<in> set kas. addr_arg_ok a"
  shows "\<exists>r. session_get (session_puts empty_table kas) x = Some r
      \<and> (case r of None \<Rightarrow> True
         | Some (addr, len) \<Rightarrow> map_of (rev kas) x \<noteq> None
             \<and> take len addr = take (snd (the (map_of (rev kas) x))) (fst (the (map_of (rev kas) x))))"
proof -
  let ?t = "session_puts empty_table kas"
  have g: "session_get ?t x = Some (table_map ?t x)"
    by (rule session_lookup_eq(2) [OF session_puts_ok [OF assms]])
  show ?thesis
  proof (cases "table_map ?t x")
    case (Some al)
    obtain addr len where al: "al = (addr, len)" by fastforce
    then have "stored_addr ?t x = Some (take len addr)" using Some by (simp add: stored_addr_def)
    then have "case map_of (rev kas) x of Some a \<Rightarrow> take len addr = take (snd a) (fst a)
        | None \<Rightarrow> stored_addr empty_table x = Some (take len addr)"
      using sessions.get_puts_fresh [OF empty_table_ok assms] by (simp add: session_puts_eq)
    then show ?thesis using g Some al empty_table_get [of x]
      by (auto simp: stored_addr_def split: option.splits)
  qed (use g in simp)
qed

lemma session_puts_last:
  assumes "\<forall>(k, a) \<in> set kas. addr_arg_ok a"
  shows "kas \<noteq> [] \<longrightarrow> stored_addr (session_puts empty_table kas) (fst (last kas)) \<noteq> None"
proof
  assume "kas \<noteq> []"
  then obtain kas' k a where k: "kas = kas' @ [(k, a)]" by (metis rev_exhaust surj_pair)
  show "stored_addr (session_puts empty_table kas) (fst (last kas)) \<noteq> None"
    using sessions.get_puts_last [OF empty_table_ok, of kas' k a] assms by (simp add: k session_puts_eq)
qed

text \<open>C13. After any sequence of puts into the zeroed table, a lookup never faults or waits; it gives the address last put for the index or nothing, and the index put last is always found.\<close>

theorem session_table_never_stale:
  assumes "\<forall>(k, a) \<in> set kas. addr_arg_ok a"
  shows "(\<exists>r. session_get (session_puts empty_table kas) x = Some r
      \<and> (case r of None \<Rightarrow> True
         | Some (addr, len) \<Rightarrow> map_of (rev kas) x \<noteq> None
             \<and> take len addr = take (snd (the (map_of (rev kas) x))) (fst (the (map_of (rev kas) x)))))
    \<and> (kas \<noteq> [] \<longrightarrow> stored_addr (session_puts empty_table kas) (fst (last kas)) \<noteq> None)"
  using session_puts_get [OF assms, of x] session_puts_last [OF assms] by simp

lemma session_table_never_stale_witness:
  "stored_addr (session_puts empty_table [(5, (replicate 128 1, 16)), (6, (replicate 128 2, 16))]) 6 \<noteq> None"
  using session_table_never_stale
    [of "[(5, (replicate 128 1, 16)), (6, (replicate 128 2, 16))]" 5]
  by (simp add: addr_arg_ok_def)

lemma victim_needs_full:
  "victim tbl k \<noteq> None \<longrightarrow> (\<forall>s \<in> set (probes k). se_valid (tbl ! s) \<and> se_sender_index (tbl ! s) \<noteq> k)"
proof (intro impI ballI, rule ccontr)
  fix s
  assume "victim tbl k \<noteq> None" "s \<in> set (probes k)"
    "\<not> (se_valid (tbl ! s) \<and> se_sender_index (tbl ! s) \<noteq> k)"
  with victim_None [of s k tbl] show False by simp
qed

text \<open>C14. A put makes its own address visible, and of all other indices at most one disappears: the holder of the index's home slot, and only when four live sessions of other indices occupy all its probes; every other lookup is unchanged.\<close>

theorem session_put_exact:
  assumes "table_ok tbl" and "length addr = 128" and "len \<le> 128"
  shows "table_ok (session_put tbl k addr len)
    \<and> table_map (session_put tbl k addr len) x =
      (if x = k then Some (take len addr @ drop len (se_addr (tbl ! put_slot tbl k)), len)
       else if victim tbl k = Some x then None else table_map tbl x)
    \<and> (victim tbl k \<noteq> None \<longrightarrow> (\<forall>s \<in> set (probes k).
         se_valid (tbl ! s) \<and> se_sender_index (tbl ! s) \<noteq> k))"
  using table_ok_put [OF assms(1,2), of k len] table_map_put [OF assms, of k x] victim_needs_full [of tbl k]
  by (intro conjI)

lemma session_put_exact_witness:
  "table_map (session_put empty_table 9 (replicate 128 7) 16) 9
    = Some (take 16 (replicate 128 7) @ drop 16 (se_addr (empty_table ! put_slot empty_table 9)), 16)"
  using session_put_exact [OF empty_table_ok, of "replicate 128 7" 16 9 9] by simp

lemma find_filter: "List.find P (filter Q xs) = List.find (\<lambda>x. Q x \<and> P x) xs"
  by (induction xs) auto

text \<open>C15. The two scans of the table: the sole-client scan answers exactly when there is a live session and all live sessions have one and the same address, with the first of them; the scan by address gives the first live session with an equal address.\<close>

theorem session_scans:
  assumes "table_ok tbl"
  shows "session_find_sole_entry_with_addr tbl = Some (case valid_slots tbl of [] \<Rightarrow> None
      | v # vs \<Rightarrow> if \<forall>i \<in> set vs. session_addr_equal (se_addr (tbl ! v)) (se_addr (tbl ! i))
         then Some (entry_addr tbl v) else None)
    \<and> session_find_by_addr tbl addr = Some (List.find
        (\<lambda>i. session_addr_equal (se_addr (tbl ! i)) addr) (valid_slots tbl))"
  using session_find_sole_spec [OF assms] session_find_by_addr_spec [OF assms, of addr]
  by (simp only: valid_slots_def find_filter)

lemma session_scans_witness: "session_find_sole_entry_with_addr empty_table = Some None"
proof -
  have "valid_slots empty_table = []"
    by (auto simp: valid_slots_def empty_table_def entry_zero_def filter_empty_conv)
  with session_scans [OF empty_table_ok] show ?thesis by simp
qed






section \<open>The proxy\<close>

text \<open>A proxy in the state \<open>memset\<close> leaves, with a configuration and an open remote
  socket.\<close>

definition demo_proxy :: "awg_config_t \<Rightarrow> proxy_t" where
  "demo_proxy cfg = \<lparr>px_cfg = cfg, px_listen_fd = 3, px_remote_fd = 5, px_stopped = False,
     px_has_client = False, px_last_active = False, px_last_remote_rx = False,
     px_reconnect_needed = False, px_reconnect_drift = False, px_fe_init_seen = False,
     px_fe_init_sent = False, px_fe_remote_pkt = False, px_fe_resp_received = False,
     px_fe_resp_sent = False, px_fe_transport_c2s = False, px_fe_transport_s2c = False,
     px_client_addr = replicate 128 0, px_client_addr_len = 0, px_gso_ok = True,
     px_gro_enabled = False, px_gro_enabled_c2s = False, px_h4_idx = 0,
     px_rng = fastrand_init 1, px_listen_addr = replicate 128 0, px_listen_addr_len = 16,
     px_remote_addr = replicate 128 0, px_remote_addr_len = 16, px_remote_host = ''host'',
     px_remote_port = 51820, px_auto_src_port = True, px_local_port = 0,
     px_dns_resolve_fail_started_at = 0, px_cps_counter = 0,
     px_junk_buf = None, px_junk_sizes = None, px_signal_fd = -1, px_timer_fd = -1,
     px_h4_ring = [], px_sessions = empty_table, px_obfs_c2s = obfs_zero, px_obfs_s2c = obfs_zero,
     px_obfs_fail_c2s = 0, px_obfs_fail_s2c = 0\<rparr>"

fun h4_draws :: "nat \<Rightarrow> proxy_t \<Rightarrow> u32 list \<times> proxy_t" where
  "h4_draws 0 p = ([], p)"
| "h4_draws (Suc n) p = (let (v, p) = pick_h4 p; (vs, p) = h4_draws n p in (v # vs, p))"

lemma px_cfg_fill [simp]: "px_cfg (fill_h4_ring p) = px_cfg p"
  by (simp add: fill_h4_ring_def Let_def split: prod.split)

lemma px_cfg_pick [simp]: "px_cfg (snd (pick_h4 p)) = px_cfg p"
  by (simp add: pick_h4_def Let_def)

lemma h4_draws_ok:
  assumes "ring_ok p" and "hr_min (cf_h4 (px_cfg p)) \<le> hr_max (cf_h4 (px_cfg p))"
  shows "(\<forall>v \<in> set (fst (h4_draws n p)). hrange_contains (cf_h4 (px_cfg p)) v)
    \<and> length (fst (h4_draws n p)) = n \<and> ring_ok (snd (h4_draws n p))"
  using assms
proof (induction n arbitrary: p)
  case (Suc n)
  obtain v q where q: "pick_h4 p = (v, q)" by fastforce
  have "hrange_contains (cf_h4 (px_cfg p)) v" "ring_ok q" "px_cfg q = px_cfg p"
    using pick_h4_ok [OF Suc.prems] px_cfg_pick [of p] by (simp_all add: q)
  with Suc.IH [of q] Suc.prems(2) show ?case by (simp add: q split_beta Let_def)
qed simp

text \<open>C17. However many transport headers are drawn from the ring that proxy_init fills, every one is in the configured range, the index stays inside the ring, and the ring stays filled with values of the range.\<close>

theorem h4_draws_in_range:
  assumes "hr_min (cf_h4 (px_cfg p)) \<le> hr_max (cf_h4 (px_cfg p))" and "px_h4_idx p = 0"
  shows "(\<forall>v \<in> set (fst (h4_draws n (fill_h4_ring p))). hrange_contains (cf_h4 (px_cfg p)) v)
    \<and> length (fst (h4_draws n (fill_h4_ring p))) = n \<and> ring_ok (snd (h4_draws n (fill_h4_ring p)))"
  using h4_draws_ok [of "fill_h4_ring p" n] ring_ok_fill [OF assms(1)] assms by simp

lemma h4_draws_in_range_witness:
  "length (fst (h4_draws 5000 (fill_h4_ring (demo_proxy demo_config)))) = 5000"
  using h4_draws_in_range [of "demo_proxy demo_config" 5000]
  by (simp add: demo_proxy_def demo_config_def config_zero_def)



text \<open>C19. The control loop only ends the process when the exit guard is on and the remote has been silent for all of the guard's ticks in a row, whatever the clients did and whatever happened before.\<close>

theorem control_exit_needs_silence:
  assumes "Exit 1 \<in> set (tick_actions (control_thresholds t s e)
      (after_ticks (control_thresholds t s e) p is) i)"
  shows "e > 0 \<and> max 1 (e div 5) \<le> int (quiet_ticks (is @ [i]))"
  using exit_needs_silence [OF assms] by (auto simp: control_thresholds_def Let_def split: if_splits)

lemma control_exit_needs_silence_witness:
  "(3 :: int) > 0 \<and> max 1 (3 div 5) \<le> int (quiet_ticks ([] @ [(True, False)]))"
  by (rule control_exit_needs_silence [where p = "demo_proxy demo_config" and t = 180 and s = 60])
    (simp add: tick_actions_def tick_def after_ticks_def timer_tick_def control_init_def
      control_thresholds_def demo_proxy_def Let_def)

lemma th_exit_secs_eq [simp]: "th_exit_secs (control_thresholds t s e) = e"
  by (simp add: control_thresholds_def Let_def)

text \<open>C20. While the client sends and the remote stays silent, the loop shuts the remote socket down for a reconnect at exactly the ticks divisible by the reconnect threshold until the exit guard's tick comes, and at that tick it ends the process.\<close>

theorem control_silence_schedule:
  assumes "px_remote_fd p \<ge> 0" and "th = control_thresholds t s e"
  shows "((e > 0 \<longrightarrow> int n + 1 < th_exit_checks th) \<longrightarrow>
      Exit 1 \<notin> set (tick_actions th (after_ticks th p (replicate n (True, False))) (True, False))
      \<and> (Shutdown (px_remote_fd p)
          \<in> set (tick_actions th (after_ticks th p (replicate n (True, False))) (True, False))
         \<longleftrightarrow> th_silent_checks th dvd int n + 1))
    \<and> (e > 0 \<and> int n + 1 = th_exit_checks th \<longrightarrow>
      Exit 1 \<in> set (tick_actions th (after_ticks th p (replicate n (True, False))) (True, False)))"
  using silent_actions [OF control_thresholds_ok assms(1)] silent_exit [OF control_thresholds_ok]
  by (auto simp: assms(2) th_exit_secs_eq)

lemma control_silence_schedule_witness:
  "Shutdown 5 \<in> set (tick_actions (control_thresholds 180 60 0)
      (after_ticks (control_thresholds 180 60 0) (demo_proxy demo_config) (replicate 11 (True, False)))
      (True, False))"
  using control_silence_schedule [of "demo_proxy demo_config" _ 180 60 0 11]
  by (simp add: demo_proxy_def control_thresholds_def Let_def)

lemma auto_timeout_bounds:
  assumes "explicit_secs \<le> 0" and "60 \<le> exit_secs"
    and "compute_remote_silent_timeout explicit_secs have_ka ka exit_secs = Some t"
  shows "30 \<le> t \<and> t \<le> exit_secs div 2"
  using assms by (auto simp: compute_remote_silent_timeout_def Let_def split: if_splits)

text \<open>C21. With the automatic reconnect timeout and an exit guard of at least a minute, a reconnect is due strictly before the exit guard ends the process; the automatic timeout is at least 30 seconds and at most half the guard.\<close>

theorem auto_timeout_reconnects_first:
  assumes "explicit_secs \<le> 0" and "60 \<le> exit_secs"
    and "compute_remote_silent_timeout explicit_secs have_ka ka exit_secs = Some t"
  shows "th_silent_checks (control_thresholds timeout t exit_secs)
      < th_exit_checks (control_thresholds timeout t exit_secs)
    \<and> 30 \<le> t \<and> t \<le> exit_secs div 2"
  using reconnect_before_exit [OF assms, of timeout] auto_timeout_bounds [OF assms] by simp

lemma auto_timeout_reconnects_first_witness:
  "th_silent_checks (control_thresholds 180 60 300) < th_exit_checks (control_thresholds 180 60 300)"
  using auto_timeout_reconnects_first [of 0 300 True 15 60 180]
  by (simp add: compute_remote_silent_timeout_def)

section \<open>Addresses and sending\<close>

definition host_text :: "string \<Rightarrow> bool" where
  "host_text host \<longleftrightarrow> host = [] \<or> hd host \<noteq> CHR ''[''"

text \<open>C22. An address written as host:port, or as [host]:port for hosts with colons, is parsed back to that host and port; whatever parses has a host that fits the caller's buffer with its terminator and a port between 1 and 65535.\<close>

theorem host_port_parsed:
  "(CHR '':'' \<notin> set host \<and> host_text host \<and> length host < hostmax \<and> 1 \<le> port \<and> port \<le> 65535 \<longrightarrow>
      net_addr_parse_host_port (host @ CHR '':'' # u32_to_str (of_nat port)) hostmax = Some (host, port))
    \<and> (CHR '']'' \<notin> set host \<and> host \<noteq> [] \<and> length host < hostmax \<and> 1 \<le> port \<and> port \<le> 65535 \<longrightarrow>
      net_addr_parse_host_port (''['' @ host @ '']:'' @ u32_to_str (of_nat port)) hostmax = Some (host, port))
    \<and> (case net_addr_parse_host_port s hostmax of None \<Rightarrow> True
       | Some (h, p) \<Rightarrow> length h < hostmax \<and> 1 \<le> p \<and> p \<le> 65535)"
  using net_addr_parse_plain [of host hostmax port] net_addr_parse_bracketed [of host hostmax port]
    net_addr_parse_sound [of s hostmax]
  by (auto simp: host_text_def split: option.splits)

lemma host_port_parsed_witness:
  "net_addr_parse_host_port (''['' @ ''fe80::1'' @ '']:'' @ u32_to_str (of_nat 443)) 256 = Some (''fe80::1'', 443)"
  using host_port_parsed [of "''fe80::1''" 256 443 "[]"] by simp

text \<open>C23. However the segmented send and the sendmmsg calls behave, what a batch hands to the kernel is an initial part of the batch, each packet at most once and in order; and when a prefix goes out as one segmented send, the kernel's cut of the joined payload at the segment size gives back exactly those packets, the last one possibly shorter.\<close>

theorem batch_sent_in_order:
  assumes "\<forall>p \<in> set pkts. p \<noteq> [] \<and> length p < 65536"
  shows "(\<exists>k. fst (snd (proxy_io_send_batch_gso p fd pkts has_addr gso_err rs))
        @ snd (snd (proxy_io_send_batch_gso p fd pkts has_addr gso_err rs)) = take k pkts)
    \<and> (\<forall>n seg. send_gso_call pkts = Some (n, seg) \<longrightarrow> n \<le> length pkts \<and> segments seg (concat (take n pkts)) = take n pkts)"
proof -
  have "\<exists>k. fst (snd (proxy_io_send_batch_gso p fd pkts has_addr gso_err rs))
        @ snd (snd (proxy_io_send_batch_gso p fd pkts has_addr gso_err rs)) = take k pkts"
    by (cases "proxy_io_send_batch_gso p fd pkts has_addr gso_err rs" rule: prod_cases3) (auto dest: send_batch_prefix)
  then show ?thesis using gso_segments [OF assms] by simp
qed

lemma batch_sent_in_order_witness:
  "segments 2 (concat (take 3 [[1, 2], [3, 4], [5 :: u8], [6]])) = [[1, 2], [3, 4], [5]]"
proof -
  let ?pkts = "[[1, 2], [3, 4], [5 :: u8], [6]]"
  have c: "send_gso_call ?pkts = Some (3, 2)"
    by (simp add: send_gso_call_def gso_count_def Let_def)
  have "\<forall>p \<in> set ?pkts. p \<noteq> [] \<and> length p < 65536" by simp
  from batch_sent_in_order [OF this, THEN conjunct2, rule_format, OF c]
  have "segments 2 (concat (take 3 ?pkts)) = take 3 ?pkts" by (rule conjunct2)
  also have "take 3 ?pkts = [[1, 2], [3, 4], [5]]" by simp
  finally show ?thesis .
qed

section \<open>Initialisation\<close>

text \<open>A system without a random device, whose resolver knows the wildcard address.\<close>

definition demo_init_env :: init_env where
  "demo_init_env = \<lparr>ie_gai = GaiList [(2, replicate 16 0)], ie_opened = False, ie_reads = [],
     ie_self = 7, ie_malloc = None\<rparr>"



lemma plain_data:
  "templates_ok (config_compute plain_config)" "cf_jc (config_compute plain_config) < 2 ^ 31"
  "0 < cf_jc (config_compute plain_config) \<and> 0 < cf_jmax (config_compute plain_config)
    \<longrightarrow> 4 \<le> cf_jc (config_compute plain_config) * cf_jmax (config_compute plain_config)"
  by (simp_all add: templates_ok_def config_compute_def plain_config_def config_zero_def Let_def list_all_iff)





section \<open>The configuration\<close>

text \<open>An environment with two addresses, two keys and one header range.\<close>

definition demo_env :: environment where
  "demo_env name = (if name = ''AWG_LISTEN'' then Some ''0.0.0.0:51820''
     else if name = ''AWG_REMOTE'' then Some ''host:443''
     else if name = ''AWG_SERVER_PUB'' then Some (b64_encode (replicate 32 1))
     else if name = ''AWG_CLIENT_PUB'' then Some (b64_encode (replicate 32 2))
     else if name = ''AWG_H1'' then Some ''5-9'' else None)"

definition demo_cli :: cli_flags where
  "demo_cli = \<lparr>cl_config = None, cl_log_level = None, cl_mode = None, cl_listen = None, cl_remote = None,
     cl_src_port = None\<rparr>"

definition demo_pubs :: file_env where
  "demo_pubs = \<lparr>fe_open = False, fe_seek_end = False, fe_tell = 0, fe_seek_set = False, fe_malloc = False, fe_read = []\<rparr>"

lemmas scan_defs = strto_scan_def is_space_c_def is_digit_c_def dec_val_def digit_val_def

lemma demo_header:
  "parse_hrange_str (Some ''5-9'') = Some \<lparr>hr_min = 5, hr_max = 9\<rparr>"
  "parse_hrange_str (Some ''2'') = Some \<lparr>hr_min = 2, hr_max = 2\<rparr>"
  "parse_hrange_str (Some ''3'') = Some \<lparr>hr_min = 3, hr_max = 3\<rparr>"
  "parse_hrange_str (Some ''4'') = Some \<lparr>hr_min = 4, hr_max = 4\<rparr>"
  by (simp_all add: parse_hrange_str_def split_dash_def parse_uint32_str_def strtoul_def scan_defs)

lemma demo_keys: "base64_decode (b64_encode (replicate 32 k)) 32 = Some (replicate 32 k)"
  by (rule base64_decode_encode) simp

lemma demo_key_text: "b64_encode (replicate 32 k) \<noteq> []"
proof
  assume "b64_encode (replicate 32 k) = []"
  with demo_keys [of k] show False by (simp add: base64_decode_def strip_padding_def)
qed

lemma demo_obf: "main_obfuscation demo_env None cfg = Inr (cfg\<lparr>cf_jc := 0, cf_jmin := 0, cf_jmax := 0,
   cf_s1 := 0, cf_s2 := 0, cf_s3 := 0, cf_s4 := 0, cf_h1 := \<lparr>hr_min = 5, hr_max = 9\<rparr>, cf_h2 := \<lparr>hr_min = 2, hr_max = 2\<rparr>,
   cf_h3 := \<lparr>hr_min = 3, hr_max = 3\<rparr>, cf_h4 := \<lparr>hr_min = 4, hr_max = 4\<rparr>, cf_obfs_profile := AWG_OBFS_OFF\<rparr>)"
  by (simp add: main_obfuscation_def load_obfuscation_env_def env_param_def env_range_def env_int_def demo_env_def
    parse_int_zero demo_header load_obfs_profile_env_def parse_obfs_profile_def)

lemma demo_steps:
  "main_keys demo_env None demo_pubs cfg = main_server_peers demo_env None demo_pubs
      (cfg\<lparr>cf_server_pub := replicate 32 1, cf_client_pub := replicate 32 2\<rparr>)"
  "main_keys demo_env (Some (file_config_zero\<lparr>fc_peer_pubs := ks\<rparr>)) demo_pubs cfg =
      main_server_peers demo_env (Some (file_config_zero\<lparr>fc_peer_pubs := ks\<rparr>)) demo_pubs
      (cfg\<lparr>cf_server_pub := replicate 32 1, cf_client_pub := replicate 32 2\<rparr>)"
  "load_cps_env demo_env cfg = Inr cfg"
  "load_operational_env demo_env cfg = Inr (cfg\<lparr>cf_timeout := 180, cf_remote_silent_timeout := 0,
      cf_remote_silent_exit_timeout := 600, cf_connect_retries := 0, cf_dns_resolve_failure_timeout := 720, cf_socket_buf := 16777216\<rparr>)"
  "load_network_perf_env demo_env cfg = Inr (cfg\<lparr>cf_src_port := 0, cf_src_port_drift := 1, cf_cpu_c2s := -1,
      cf_cpu_s2c := -1, cf_busy_poll := 0, cf_no_gro := 0\<rparr>)"
  by (simp_all add: main_keys_def key_env_def given_def demo_env_def demo_keys demo_key_text override_def file_config_zero_def
      load_cps_env_def env_cps_def load_operational_env_def env_int_def env_nat_def load_network_perf_env_def env_src_port_def
      split: sum.split)

lemma demo_silent:
  "fo = None \<or> fo = Some (file_config_zero\<lparr>fc_peer_pubs := ks\<rparr>) \<Longrightarrow>
    main_silent_timeout fo (c\<lparr>cf_timeout := 180, cf_remote_silent_timeout := 0,
      cf_remote_silent_exit_timeout := 600, cf_connect_retries := 0, cf_dns_resolve_failure_timeout := 720, cf_socket_buf := 16777216\<rparr>)
    = Some (c\<lparr>cf_timeout := 180, cf_remote_silent_timeout := 60,
      cf_remote_silent_exit_timeout := 600, cf_connect_retries := 0, cf_dns_resolve_failure_timeout := 720, cf_socket_buf := 16777216\<rparr>)"
  by (auto simp: main_silent_timeout_def compute_remote_silent_timeout_def file_config_zero_def)

text \<open>The configuration in client mode, and in server mode with a file that names two peers, one of
  them twice.\<close>

definition demo_after :: "awg_mode \<Rightarrow> bytes list \<Rightarrow> awg_config_t \<Rightarrow> awg_config_t" where
  "demo_after m peers c0 = c0\<lparr>cf_mode := m, cf_jc := 0, cf_jmin := 0, cf_jmax := 0,
    cf_s1 := 0, cf_s2 := 0, cf_s3 := 0, cf_s4 := 0, cf_h1 := \<lparr>hr_min = 5, hr_max = 9\<rparr>, cf_h2 := \<lparr>hr_min = 2, hr_max = 2\<rparr>,
    cf_h3 := \<lparr>hr_min = 3, hr_max = 3\<rparr>, cf_h4 := \<lparr>hr_min = 4, hr_max = 4\<rparr>, cf_obfs_profile := AWG_OBFS_OFF,
    cf_server_pub := replicate 32 1, cf_client_pub := replicate 32 2, cf_server_peer_pubs := peers\<rparr>"

lemma demo_after_ok:
  "config_validate (demo_after m peers c0) = None" "cf_jc (config_compute (demo_after m peers c0)) = 0"
  "l \<noteq> [] \<Longrightarrow> r \<noteq> [] \<Longrightarrow> missing_fields (config_compute (demo_after m peers c0)) l r = []"
  "cf_mode (config_compute (demo_after m peers c0)) = m"
  by (simp_all add: demo_after_def config_validate_def hrange_overlaps_def missing_fields_def config_compute_def Let_def)

lemma demo_main_config:
  "\<exists>cfg. main_config demo_env demo_pubs (demo_cli\<lparr>cl_listen := v\<rparr>) None = Some (Inr (cfg,
      (if given v then take 255 (the v) else ''0.0.0.0:51820''), ''host:443'')) \<and> cf_jc cfg = 0"
proof -
  define l where "l = (if given v then take 255 (the v) else ''0.0.0.0:51820'')"
  have e: "main_endpoints demo_env (demo_cli\<lparr>cl_listen := v\<rparr>) None = Some (l, ''host:443'')" "l \<noteq> []"
    by (cases v; auto simp: l_def main_endpoints_def merge_endpoint_values_def copy_text_def demo_env_def demo_cli_def given_def Let_def)+
  define c0 where "c0 = main_log_level demo_env (demo_cli\<lparr>cl_listen := v\<rparr>) config_zero"
  have m: "main_mode demo_env (demo_cli\<lparr>cl_listen := v\<rparr>) c0 = Inr (c0\<lparr>cf_mode := AWG_MODE_CLIENT\<rparr>)"
    by (simp add: main_mode_def given_def demo_env_def demo_cli_def)
  have k: "main_keys demo_env None demo_pubs (c0\<lparr>cf_mode := AWG_MODE_CLIENT, cf_jc := 0, cf_jmin := 0, cf_jmax := 0,
    cf_s1 := 0, cf_s2 := 0, cf_s3 := 0, cf_s4 := 0, cf_h1 := \<lparr>hr_min = 5, hr_max = 9\<rparr>, cf_h2 := \<lparr>hr_min = 2, hr_max = 2\<rparr>,
    cf_h3 := \<lparr>hr_min = 3, hr_max = 3\<rparr>, cf_h4 := \<lparr>hr_min = 4, hr_max = 4\<rparr>, cf_obfs_profile := AWG_OBFS_OFF\<rparr>)
    = Inr (demo_after AWG_MODE_CLIENT (cf_server_peer_pubs c0) c0)"
    by (simp add: demo_steps main_server_peers_def demo_after_def)
  have sp: "main_src_port (demo_cli\<lparr>cl_listen := v\<rparr>) c = Inr c" for c
    by (simp add: main_src_port_def demo_cli_def given_def)
  show ?thesis
    unfolding l_def [symmetric]
    by (simp add: main_config_def m e demo_obf c0_def [symmetric] k demo_after_ok main_cps_def demo_steps(3-5) demo_silent sp)
qed


definition demo_main :: "init_env \<Rightarrow> run_env \<Rightarrow> main_env" where
  "demo_main i r = \<lparr>me_env = demo_env, me_file = (\<lambda>_. None), me_pubs_file = demo_pubs, me_resolv_open = True,
     me_resolv_closed = True, me_init = i, me_run = r\<rparr>"

lemma demo_main_start:
  "\<exists>cfg resolv acts. main_start ''dev'' (demo_main i r) []
    = Some (Inr ((cfg, ''0.0.0.0:51820'', ''host:443''), resolv, acts)) \<and> cf_jc cfg = 0"
proof -
  obtain cfg where c: "main_config demo_env demo_pubs demo_cli None = Some (Inr (cfg, ''0.0.0.0:51820'', ''host:443''))"
      "cf_jc cfg = 0"
    using demo_main_config [of None] by (auto simp: demo_cli_def given_def)
  have "(\<lparr>cl_config = demo_env ''AWG_CONFIG'', cl_log_level = None, cl_mode = None, cl_listen = None, cl_remote = None,
      cl_src_port = None\<rparr>) = demo_cli"
    by (simp add: demo_cli_def demo_env_def)
  with c show ?thesis
    by (simp add: main_start_def demo_main_def given_def) (simp add: demo_cli_def Let_def)
qed



text \<open>C27. Whatever the command line, the environment and the configuration file contain, a configuration that main hands to proxy_init is validated and completed: parameters in their bounds, the header ranges ordered and pairwise apart, every template within 1500 bytes, a server key and a client key (or, in server mode, peers), peers that are pairwise different and at most 256, a positive silence timeout, and two addresses that are not empty and fit their buffers.\<close>

theorem main_config_ready:
  assumes "main_start version e argv = Some (Inr ((cfg, listen_str, remote_str), resolv, acts))"
  shows "config_ready cfg \<and> templates_ok cfg \<and> cf_jc cfg < 2 ^ 31
    \<and> cf_has_server_pub cfg
    \<and> (cf_has_client_pub cfg \<or> cf_mode cfg = AWG_MODE_SERVER \<and> cf_server_peer_pubs cfg \<noteq> [])
    \<and> distinct (cf_server_peer_pubs cfg) \<and> length (cf_server_peer_pubs cfg) \<le> 256
    \<and> 0 < cf_remote_silent_timeout cfg
    \<and> listen_str \<noteq> [] \<and> length listen_str \<le> 255 \<and> remote_str \<noteq> [] \<and> length remote_str \<le> 255"
  using main_start_timed_ok [OF assms]
  by (auto simp: timed_ok_def late_ok_def source_ok_def missing_fields_def split: if_splits)

lemma main_config_ready_witness:
  "\<forall>r. \<exists>cfg resolv acts. main_start ''dev'' (demo_main demo_init_env r) []
      = Some (Inr ((cfg, ''0.0.0.0:51820'', ''host:443''), resolv, acts)) \<and> config_ready cfg"
proof
  fix r
  obtain cfg resolv acts where m: "main_start ''dev'' (demo_main demo_init_env r) []
      = Some (Inr ((cfg, ''0.0.0.0:51820'', ''host:443''), resolv, acts))" using demo_main_start by blast
  with main_config_ready [OF m] show "\<exists>cfg resolv acts. main_start ''dev'' (demo_main demo_init_env r) []
      = Some (Inr ((cfg, ''0.0.0.0:51820'', ''host:443''), resolv, acts)) \<and> config_ready cfg"
    by blast
qed



section \<open>The data threads\<close>



text \<open>A proxy ready for the data paths, before any socket is open.\<close>

definition ready_proxy :: "awg_config_t \<Rightarrow> proxy_t" where
  "ready_proxy cfg = fill_h4_ring (proxy_zero cfg)"

lemma ready_cfg: "px_cfg (ready_proxy cfg) = cfg" "px_sessions (ready_proxy cfg) = replicate 4096 entry_zero"
  "px_obfs_c2s (ready_proxy cfg) = obfs_zero" "px_obfs_s2c (ready_proxy cfg) = obfs_zero"
  using fill_h4_ring_fields [of "proxy_zero cfg"] by (auto simp: ready_proxy_def proxy_zero_def)

lemma ready_path:
  assumes "config_ready cfg" and "templates_ok cfg" and "cf_jc cfg = 0"
  shows "path_ok (ready_proxy cfg) thread_zero"
proof -
  have h: "hr_min (cf_h4 cfg) \<le> hr_max (cf_h4 cfg)" using assms(1) by (simp add: config_ready_def hranges_ordered_def)
  have "ring_ok (ready_proxy cfg)" unfolding ready_proxy_def
    by (rule ring_ok_fill) (simp_all add: proxy_zero_def h)
  then show ?thesis using assms thread_zero_ok(1) by (simp add: path_ok_def ready_cfg junk_buf_ok_def)
qed

lemma ready_gate:
  "config_ready cfg \<Longrightarrow> templates_ok cfg \<Longrightarrow> cf_jc cfg = 0 \<Longrightarrow> gate_ok (ready_proxy cfg) thread_zero"
  using ready_path [of cfg] table_ok_empty by (simp add: gate_ok_def ready_cfg)

text \<open>C30. Queueing the packets of a batch and sending them together is not observable: for a kernel that takes what it is given, the packets reach the remote in the same order and with the same bytes as if each were sent as soon as it is processed, and the proxy and thread states at the end are the same, although the queue holds pointers into buffers that later packets of the batch write.\<close>

theorem c2s_batching_unobservable:
  assumes "path_ok p th" and "th_sys th = []" and "length ns \<le> BATCH_SIZE" and "\<forall>n \<in> set ns. n \<le> 1500"
  shows "\<exists>p' th' a b. c2s_client_packets fd now 0 ns (p, th, [], []) \<bind> flush_c2s fd = Some (p', th', [], a)
    \<and> c2s_client_eager fd now 0 ns (p, th, [], []) = Some (p', th', [], b) \<and> sent_packets a = sent_packets b"
proof -
  have tok: "thread_ok th" and cfg: "config_ready (px_cfg p)" using assms(1) by (simp_all add: path_ok_def)
  obtain h where h: "ptr_off (cf_s4 (px_cfg p)) = Some h" "h \<le> 1500"
    using config_ready_bounds [OF cfg] by (auto simp: ptr_off_def)
  have "\<forall>j < length ns. \<exists>d. iov_bytes th (PBuf (0 + j), h, ns ! j) = Some d"
    using assms(3,4) h(2) by (auto intro!: readable [OF tok] add_mono [of h 1500 _ 1500, simplified])
  from c2s_batch_eager [OF assms(1,2) h(1) this, of "[]" "[]" "[]" "[]" fd now] assms(3) show ?thesis
    by fastforce
qed

lemma c2s_batching_unobservable_witness:
  "\<exists>p' th' a b. c2s_client_packets 5 (\<lambda>_. 0) 0 [32, 148, 32] (ready_proxy (config_compute plain_config), thread_zero, [], [])
      \<bind> flush_c2s 5 = Some (p', th', [], a)
    \<and> c2s_client_eager 5 (\<lambda>_. 0) 0 [32, 148, 32] (ready_proxy (config_compute plain_config), thread_zero, [], [])
      = Some (p', th', [], b) \<and> sent_packets a = sent_packets b"
  by (rule c2s_batching_unobservable [OF ready_path [OF plain_ready plain_data(1)] thread_zero_ok(2)])
    (simp_all add: config_compute_def plain_config_def config_zero_def Let_def)

text \<open>C31. In client mode a transport packet is queued with a header from the ring and the padding of its headroom; an initiation under a junk configuration is sent at once behind its decoys and junk; every other packet is queued as its translation wrapped by the profile, or dropped when it is too long to be wrapped.\<close>

theorem c2s_client_wire:
  assumes "path_ok p th" and "i < BATCH_SIZE" and "n \<noteq> 0"
    and "ptr_off (cf_s4 (px_cfg p)) = Some h" and "iov_bytes th (PBuf i, h, n) = Some d"
  shows "\<exists>p' th' q a. c2s_client_packet fd now i n (p, th, [], []) = Some (p', th', q, a) \<and> path_ok p' th'
    \<and> (let pre = take h (th_bufs th ! i); ws = wire_of p (fst (fastrand_u64 (px_rng p))) pre d in
       if 32 \<le> length d \<and> le32_of d = 4 then
         sent_packets a = [] \<and> (\<exists>v. q = [(v, None)] \<and> iov_bytes th' v = Some (transport_wire p pre d))
       else if sends_junk (px_cfg p) d then
         q = [] \<and> (\<exists>ds. decoys (px_cfg p) ds \<and> sent_packets a = map (\<lambda>b. (fd, None, b)) (ds @ ws))
       else sent_packets a = [] \<and> those (map (\<lambda>e. iov_bytes th' (fst e)) q) = Some ws)"
  by (rule c2s_client_packet_wire [OF assms])

lemma c2s_client_wire_witness:
  "\<exists>p' th' q a. c2s_client_packet 5 (\<lambda>_. 0) 0 2 (ready_proxy (config_compute plain_config), thread_zero, [], [])
      = Some (p', th', q, a) \<and> path_ok p' th' \<and> sent_packets a = []"
proof -
  let ?p = "ready_proxy (config_compute plain_config)"
  have s4: "ptr_off (cf_s4 (px_cfg ?p)) = Some 0"
    by (simp add: ready_cfg config_compute_def plain_config_def config_zero_def Let_def ptr_off_def)
  have d: "iov_bytes thread_zero (PBuf 0, 0, 2) = Some [0, 0]"
    by (simp add: iov_bytes_def thread_zero_def rd_def slice_def numeral_2_eq_2)
  have ok: "path_ok ?p thread_zero"
    by (rule ready_path [OF plain_ready plain_data(1)])
      (simp add: config_compute_def plain_config_def config_zero_def Let_def)
  from c2s_client_wire [OF ok _ _ s4 d, of 5 "\<lambda>_. 0"] show ?thesis
    by (auto simp: Let_def sends_junk_def)
qed

text \<open>C32. In client mode one batch from the remote brings the client exactly the messages of its datagrams, in order, once each and to its address: each datagram, cut to the buffer, unwrapped by the session state its predecessors left and translated by in_spec, with the transport shortcut, the first-packet logs and the batching leaving no trace in what is sent.\<close>

theorem s2c_client_delivers:
  assumes "cf_mode (px_cfg p) = AWG_MODE_CLIENT" and "config_ready (px_cfg p)" and "thread_ok th"
    and "px_has_client p" and "th_sys th = []" and "xe_recv e = Inr msgs" and "msgs \<noteq> []"
  shows "\<exists>p' th' l' acts. s2c_recv_batch p th l e = Some (p', th', l', acts) \<and> thread_ok th'
    \<and> sent_packets acts = map (\<lambda>m. (px_listen_fd p, client_dest p, m))
        (client_deliveries (px_cfg p) (px_obfs_s2c p) (map (take BUF_TOTAL) (take BATCH_SIZE msgs)))"
  by (rule s2c_client_batch [OF assms])

lemma s2c_client_delivers_witness:
  "\<exists>p' th' l' acts. s2c_recv_batch ((ready_proxy (config_compute plain_config))\<lparr>px_has_client := True\<rparr>) thread_zero
      \<lparr>sl_backoff = 1, sl_no_coalesce = 0\<rparr> \<lparr>xe_others = id, xe_sleep_others = id,
        xe_dial = \<lparr>de_gai = GaiError 1, de_gai_msg = None, de_now = None, de_host = (1, []), de_socket = -1,
          de_reuse = 0, de_bind = 0, de_connect = 0, de_err = []\<rparr>,
        xe_gro_ok = False, xe_gro = RecvError 11, xe_recv = Inr [[9, 9]], xe_err = [], xe_now = (\<lambda>_. 0)\<rparr>
      = Some (p', th', l', acts) \<and> thread_ok th' \<and> sent_packets acts = []"
proof -
  let ?p = "(ready_proxy (config_compute plain_config))\<lparr>px_has_client := True\<rparr>"
  have m: "cf_mode (px_cfg ?p) = AWG_MODE_CLIENT"
    by (simp add: ready_cfg config_compute_def plain_config_def config_zero_def Let_def)
  have c: "config_ready (px_cfg ?p)" using plain_ready by (simp add: ready_cfg)
  have "client_deliveries (px_cfg ?p) (px_obfs_s2c ?p) [[9, 9]] = []"
    by (simp add: ready_cfg s2c_message_def obfs_unwrap_def obfs_zero_def window_bytes_def in_spec_def slice_def)
  with s2c_client_delivers [OF m c thread_zero_ok(1) _ thread_zero_ok(2), of _ "[[9, 9]]"] show ?thesis by simp
qed

text \<open>C33. In gateway mode one batch from the client brings the remote exactly the messages of its datagrams, in order and once each: a datagram the transport shortcut takes is translated as it is, any other is unwrapped by the session state its predecessors left and then translated.\<close>

theorem c2s_gateway_delivers:
  assumes "gate_ok p th" and "senders_ok (ge_msgs e)" and "th_sys th = []"
    and "cf_mode (px_cfg p) \<noteq> AWG_MODE_SERVER" and "0 \<le> ge_remote_fd e"
  shows "\<exists>p' th' a. c2s_gateway_round p th e = Some (p', th', a) \<and> gate_ok p' th'
    \<and> sent_packets a = map (\<lambda>m. (ge_remote_fd e, None, m))
          (gateway_deliveries (px_cfg p) (px_obfs_c2s p) (map (take BUF_TOTAL \<circ> fst) (take BATCH_SIZE (ge_msgs e))))"
  using c2s_gateway_round_ok [OF assms(1,2)] assms(3-5) by blast

lemma c2s_gateway_delivers_witness:
  "\<exists>p' th' a. c2s_gateway_round (ready_proxy (config_compute plain_config)) thread_zero
      \<lparr>ge_stopped = False, ge_remote_fd = 5, ge_msgs = [([9, 9], replicate 128 2, 16)], ge_host = (0, ''h'')\<rparr>
      = Some (p', th', a) \<and> gate_ok p' th' \<and> sent_packets a = []"
proof -
  let ?p = "ready_proxy (config_compute plain_config)"
  let ?e = "\<lparr>ge_stopped = False, ge_remote_fd = 5, ge_msgs = [([9, 9] :: bytes, replicate 128 2, 16)], ge_host = (0, ''h'')\<rparr>"
  have c0: "cf_jc (config_compute plain_config) = 0" "cf_mode (px_cfg ?p) \<noteq> AWG_MODE_SERVER"
      "0 \<le> cf_s4 (config_compute plain_config)"
    by (simp_all add: ready_cfg config_compute_def plain_config_def config_zero_def Let_def)
  have ok: "gate_ok ?p thread_zero" by (rule ready_gate [OF plain_ready plain_data(1) c0(1)])
  have "gateway_deliveries (px_cfg ?p) (px_obfs_c2s ?p) [[9, 9]] = []"
    using c0(3) by (simp add: ready_cfg gateway_message_def shortcut_taken_def s2c_message_def obfs_unwrap_def obfs_zero_def
        window_bytes_def in_spec_def slice_def)
  with c2s_gateway_delivers [OF ok, of ?e] c0 thread_zero_ok(2) show ?thesis by (simp add: senders_ok_def)
qed

text \<open>C34. In server mode the sender index of a handshake message and the address it came from are recorded so that the answer to it, a response, a cookie reply or a transport packet with that receiver index, is routed to the same address.\<close>

theorem server_replies_follow_sessions:
  assumes "table_ok (px_sessions p)" and "cf_mode (px_cfg p) = AWG_MODE_SERVER"
    and "ss_family addr = AF_INET \<or> ss_family addr = AF_INET6" and "length addr = 128" and "alen \<le> 128"
    and "4 \<le> length m" and "records m = Some idx" and "4 \<le> length m'" and "receiver_index m' = Some idx"
  shows "\<exists>p' l i a al ex l'. record_session p m addr alen = Some (p', l)
    \<and> server_route p' m' (le32_of m') (length m') = Some (Some (i, a, al), ex, l') \<and> take al a = take alen addr"
proof -
  obtain p' l where r: "record_session p m addr alen = Some (p', l)" "table_ok (px_sessions p')"
      "stored_addr (px_sessions p') idx = Some (take alen addr)"
    using record_session_ok [OF assms(1,4-6)] assms(2,3,7) by auto
  obtain a al where t: "table_map (px_sessions p') idx = Some (a, al)" "take al a = take alen addr"
    using r(3) by (auto simp: stored_addr_def)
  obtain rt ex l' where s: "server_route p' m' (le32_of m') (length m') = Some (rt, ex, l')"
      "map_option (\<lambda>(i, a, al). (a, al)) rt = table_map (px_sessions p') idx"
    using server_route_ok [OF r(2) assms(8)] assms(9) by auto
  obtain i where "rt = Some (i, a, al)" using s(2) t(1) by (cases rt) auto
  then show ?thesis using r(1) s(1) t(2) by blast
qed

lemma server_replies_follow_sessions_witness:
  "\<exists>p' l i a al ex l'. record_session (ready_proxy (config_zero\<lparr>cf_mode := AWG_MODE_SERVER\<rparr>))
      (le32_bytes 1 @ le32_bytes 77 @ replicate 140 0) (2 # replicate 127 0) 16 = Some (p', l)
    \<and> server_route p' (le32_bytes 4 @ le32_bytes 77 @ replicate 24 0)
        (le32_of (le32_bytes 4 @ le32_bytes 77 @ replicate 24 0)) (length (le32_bytes 4 @ le32_bytes 77 @ replicate 24 0))
      = Some (Some (i, a, al), ex, l') \<and> take al a = take 16 (2 # replicate 127 0)"
proof -
  have f: "ss_family (2 # replicate 127 0) = AF_INET"
    by (simp add: ss_family_def le_val_def take_Cons')
  show ?thesis
    by (rule server_replies_follow_sessions [where idx = 77])
      (simp_all add: f ready_cfg table_ok_empty records_def receiver_index_def)
qed



section \<open>Sockets and start-up\<close>







section \<open>The public key\<close>

text \<open>C39. The 64-bit build: for every 32-byte private key the public key is X25519 of RFC 7748 of the key and the base point, byte for byte: the scalar is clamped as the RFC decodes it, the limbs never overflow a 64-bit or 128-bit word on the way, the reduction is canonical, and the extra top bit the code's ladder visits changes nothing.\<close>

theorem public_key_is_x25519:
  assumes "length k = 32"
  shows "curve25519_public_key k = x25519 k (9 # replicate 31 0)"
  using public_key_x25519 [OF assms] by (simp only: curve25519_basepoint_def)

lemma public_key_is_x25519_witness:
  "curve25519_public_key (replicate 32 1) = x25519 (replicate 32 1) (9 # replicate 31 0)"
  by (rule public_key_is_x25519) simp

text \<open>C40. The 32-bit build: for every 32-byte scalar and every 32-byte point, canonical or not, the result is X25519 of RFC 7748, byte for byte, and the public key of a private key is the one the 64-bit build computes. No sum of products overflows its 64-bit word, the conditional exchange is exact and the frozen result is the canonical representative.\<close>

theorem fiat32_is_x25519:
  assumes "length k = 32" and "length u = 32"
  shows "fiat32_generic k u = x25519 k u \<and> fiat32_public_key k = curve25519_public_key k"
  using fiat32_x25519 [OF assms] fiat32_public_key_eq [OF assms(1)] by blast

lemma fiat32_is_x25519_witness:
  "fiat32_generic (replicate 32 7) (replicate 32 255) = x25519 (replicate 32 7) (replicate 32 255)
    \<and> fiat32_public_key (replicate 32 7) = curve25519_public_key (replicate 32 7)"
  by (rule fiat32_is_x25519) simp_all

end
